(* ===== verification/Encoding.thy ===== *)
theory Encoding
  imports Prelude
begin

text \<open>
  \<open>crates/pic-x-std/src/keys/encoding.rs\<close>: the two base64 alphabets and the PEM armour key material
  is written in. \<open>encode\<close> and \<open>decode_with\<close> keep the 32-bit accumulators of the source; the
  decoder reads code points, as \<open>str::chars\<close> yields them. The lemmas show that decoding returns
  what was encoded, under either alphabet, padded or not, and through the PEM armour; and that the
  decoder accepts characters outside its alphabet when their low byte is inside it.
\<close>

unbundle bit_operations_syntax

section \<open>Definitions\<close>

definition STANDARD :: string where
  "STANDARD = ''ABCDEFGHIJKLMNOPQRSTUVWXYZabcdefghijklmnopqrstuvwxyz0123456789+/''"

definition URL_SAFE :: string where
  "URL_SAFE = ''ABCDEFGHIJKLMNOPQRSTUVWXYZabcdefghijklmnopqrstuvwxyz0123456789-_''"

definition PEM_WIDTH :: nat where "PEM_WIDTH = 64"

text \<open>The 24 bits one chunk of at most three bytes carries, and its sextets.\<close>

definition chunk_bits :: "bytes \<Rightarrow> u32" where
  "chunk_bits chunk =
     push_bit 16 (ucast (chunk ! 0))
     OR push_bit 8 (if 1 < length chunk then ucast (chunk ! 1) else 0)
     OR (if 2 < length chunk then ucast (chunk ! 2) else 0)"

definition sextet :: "u32 \<Rightarrow> nat \<Rightarrow> nat" where
  "sextet bits index = unat (drop_bit (18 - 6 * index) bits AND 63)"

definition encode_chunk :: "string \<Rightarrow> bool \<Rightarrow> bytes \<Rightarrow> string" where
  "encode_chunk alphabet pad chunk =
     (let bits = chunk_bits chunk;
          characters = length chunk + 1
      in map (\<lambda>index. alphabet ! sextet bits index) [0..<characters]
         @ (if pad then replicate (4 - characters) CHR ''='' else []))"

definition encode :: "bytes \<Rightarrow> string \<Rightarrow> bool \<Rightarrow> string" where
  "encode input alphabet pad = concat (map (encode_chunk alphabet pad) (chunks 2 input))"

definition base64url :: "bytes \<Rightarrow> string" where
  "base64url input = encode input URL_SAFE False"

definition base64 :: "bytes \<Rightarrow> string" where
  "base64 input = encode input STANDARD True"

definition pem :: "string \<Rightarrow> bytes \<Rightarrow> string" where
  "pem label der =
     ''-----BEGIN '' @ label @ ''-----'' @ [newline]
     @ concat (map (\<lambda>line. line @ [newline]) (chunks (PEM_WIDTH - 1) (base64 der)))
     @ ''-----END '' @ label @ ''-----'' @ [newline]"

text \<open>The decoding loop: the accumulator, how many bits of it are pending, and the output so far.\<close>

fun decode_loop :: "nat list \<Rightarrow> string \<Rightarrow> u32 \<Rightarrow> nat \<Rightarrow> bytes \<Rightarrow> bytes option" where
  "decode_loop [] alphabet accumulator bits out = Some out"
| "decode_loop (character # rest) alphabet accumulator bits out =
     (if character = 61 then Some out
      else (case position (\<lambda>entry. of_char entry = character mod 256) alphabet of
              None \<Rightarrow> None
            | Some value \<Rightarrow>
                (let accumulator = push_bit 6 accumulator OR of_nat value;
                     bits = bits + 6
                 in if bits \<ge> 8
                    then decode_loop rest alphabet accumulator (bits - 8)
                           (out @ [ucast (drop_bit (bits - 8) accumulator AND 255)])
                    else decode_loop rest alphabet accumulator bits out)))"

definition decode_with :: "nat list \<Rightarrow> string \<Rightarrow> bytes option" where
  "decode_with input alphabet = decode_loop input alphabet 0 0 []"

definition from_base64url :: "string \<Rightarrow> bytes option" where
  "from_base64url input = decode_with (str_chars input) URL_SAFE"

definition decode :: "nat list \<Rightarrow> bytes option" where
  "decode input = decode_with input STANDARD"

definition from_pem :: "string \<Rightarrow> bytes option" where
  "from_pem txt =
     decode (filter (\<lambda>c. \<not> is_whitespace c)
       (concat (map str_chars (filter (\<lambda>line. \<not> starts_with ''-----'' line) (str_lines txt)))))"

section \<open>Lemmas\<close>

text \<open>One character entering the accumulator, and the byte leaving it.\<close>

definition feed :: "u32 \<Rightarrow> nat \<Rightarrow> u32" where
  "feed accumulator value = push_bit 6 accumulator OR of_nat value"

definition out_byte :: "nat \<Rightarrow> u32 \<Rightarrow> 8 word" where
  "out_byte bits accumulator = ucast (drop_bit bits accumulator AND 255)"

subsection \<open>Three bytes are four sextets\<close>

lemma mask_6_eq: "(63 :: u32) = mask 6"
  by (simp add: mask_eq_exp_minus_1)

lemma mask_8_eq: "(255 :: u32) = mask 8"
  by (simp add: mask_eq_exp_minus_1)

lemmas sextet_bits = mask_6_eq mask_8_eq bit_simps add.commute

lemma bit_chunk_bits:
  assumes "n < 8" "chunk \<noteq> []"
  shows "bit (chunk_bits chunk) (16 + n) = bit (chunk ! 0) n"
    "1 < length chunk \<Longrightarrow> bit (chunk_bits chunk) (8 + n) = bit (chunk ! 1) n"
    "2 < length chunk \<Longrightarrow> bit (chunk_bits chunk) n = bit (chunk ! 2) n"
  using assms by (auto simp: chunk_bits_def bit_simps dest: bit_imp_le_length)

lemma of_nat_sextet: "(of_nat (sextet bits i) :: u32) = drop_bit (18 - 6 * i) bits AND 63"
  by (simp add: sextet_def)

lemma sextet_less: "sextet bits i < 64"
proof -
  have "drop_bit (18 - 6 * i) bits AND 63 \<le> 63"
    by (rule word_and_le1)
  then show ?thesis by (simp add: sextet_def word_le_nat_alt)
qed

lemma decode_first_byte:
  assumes "\<And>n. n < 8 \<Longrightarrow> bit bits (16 + n) = bit a n"
  shows "out_byte 4 (feed (feed acc (sextet bits 0)) (sextet bits (Suc 0))) = a"
proof (rule bit_word_eqI)
  fix n assume "n < LENGTH(8)"
  then have n: "n < 8" by simp
  show "bit (out_byte 4 (feed (feed acc (sextet bits 0)) (sextet bits (Suc 0)))) n = bit a n"
    using n assms [OF n] by (cases "n < 2") (auto simp: out_byte_def feed_def of_nat_sextet sextet_bits)
qed

lemma decode_second_byte:
  assumes "\<And>n. n < 8 \<Longrightarrow> bit bits (8 + n) = bit b n"
  shows "out_byte 2 (feed (feed acc (sextet bits (Suc 0))) (sextet bits (Suc (Suc 0)))) = b"
proof (rule bit_word_eqI)
  fix n assume "n < LENGTH(8)"
  then have n: "n < 8" by simp
  show "bit (out_byte 2 (feed (feed acc (sextet bits (Suc 0))) (sextet bits (Suc (Suc 0))))) n = bit b n"
    using n assms [OF n] by (cases "n < 4") (auto simp: out_byte_def feed_def of_nat_sextet sextet_bits)
qed

lemma decode_third_byte:
  assumes "\<And>n. n < 8 \<Longrightarrow> bit bits (n) = bit c n"
  shows "out_byte 0 (feed (feed acc (sextet bits (Suc (Suc 0)))) (sextet bits (Suc (Suc (Suc 0))))) = c"
proof (rule bit_word_eqI)
  fix n assume "n < LENGTH(8)"
  then have n: "n < 8" by simp
  show "bit (out_byte 0 (feed (feed acc (sextet bits (Suc (Suc 0)))) (sextet bits (Suc (Suc (Suc 0)))))) n = bit c n"
    using n assms [OF n] by (cases "n < 6") (auto simp: out_byte_def feed_def of_nat_sextet sextet_bits)
qed

subsection \<open>What an alphabet promises\<close>

text \<open>
  The decoder relies on four things of the sixty-four characters it is given: there are
  sixty-four of them, no two are alike, none is the padding character, and all are ASCII.
\<close>

locale base64_alphabet =
  fixes alphabet :: string
  assumes size: "length alphabet = 64"
    and no_repeats: "distinct alphabet"
    and no_padding: "CHR ''='' \<notin> set alphabet"
    and ascii: "is_ascii alphabet"
begin

lemma nth_ascii: "v < 64 \<Longrightarrow> of_char (alphabet ! v) < (128 :: nat)"
  using ascii size by (simp add: is_ascii_def)

lemma nth_not_padding: "v < 64 \<Longrightarrow> of_char (alphabet ! v) \<noteq> (61 :: nat)"
proof
  assume v: "v < 64" and "of_char (alphabet ! v) = (61 :: nat)"
  then have "alphabet ! v = CHR ''=''"
    by (intro of_char_eqI [where 'a = nat]) simp
  with v size no_padding show False by (metis nth_mem)
qed

lemma position_of_char:
  assumes "v < 64"
  shows "position (\<lambda>entry. of_char entry = (of_char (alphabet ! v) :: nat) mod 256) alphabet = Some v"
proof -
  have "(\<lambda>entry. of_char entry = (of_char (alphabet ! v) :: nat) mod 256) = (\<lambda>entry. entry = alphabet ! v)"
    using nth_ascii [OF assms] by (auto simp: fun_eq_iff)
  then show ?thesis
    using position_nth [OF no_repeats, of v] assms size by simp
qed

lemma decode_loop_char:
  assumes "v < 64"
  shows "decode_loop (of_char (alphabet ! v) # rest) alphabet acc k out =
     (if k \<ge> 2 then decode_loop rest alphabet (feed acc v) (k - 2) (out @ [out_byte (k - 2) (feed acc v)])
      else decode_loop rest alphabet (feed acc v) (k + 6) out)"
  using nth_not_padding [OF assms] position_of_char [OF assms]
  by (auto simp: Let_def feed_def out_byte_def)

lemma decode_loop_padding: "decode_loop (61 # rest) alphabet acc k out = Some out"
  by simp

lemma decode_loop_paddings: "decode_loop (replicate n 61) alphabet acc k out = Some out"
  by (cases n) simp_all

lemmas decode_steps = encode_chunk_def Let_def upt_rec decode_loop_char sextet_less
  decode_loop_padding decode_loop_paddings

lemma decode_full_chunk:
  "\<exists>acc'. decode_loop (map of_char (encode_chunk alphabet pad [a, b, c]) @ rest) alphabet acc 0 out
     = decode_loop rest alphabet acc' 0 (out @ [a, b, c])"
proof -
  let ?bits = "chunk_bits [a, b, c]"
  have bytes: "\<And>n. n < 8 \<Longrightarrow> bit ?bits (16 + n) = bit a n"
    "\<And>n. n < 8 \<Longrightarrow> bit ?bits (8 + n) = bit b n"
    "\<And>n. n < 8 \<Longrightarrow> bit ?bits n = bit c n"
    using bit_chunk_bits [of _ "[a, b, c]"] by simp_all
  show ?thesis
    by (simp add: decode_steps
        decode_first_byte [OF bytes(1)] decode_second_byte [OF bytes(2)]
        decode_third_byte [OF bytes(3)] del: decode_loop.simps(2)) blast
qed

lemma decode_last_two:
  "decode_loop (map of_char (encode_chunk alphabet pad [a, b])) alphabet acc 0 out
     = Some (out @ [a, b])"
proof -
  let ?bits = "chunk_bits [a, b]"
  have bytes: "\<And>n. n < 8 \<Longrightarrow> bit ?bits (16 + n) = bit a n"
    "\<And>n. n < 8 \<Longrightarrow> bit ?bits (8 + n) = bit b n"
    using bit_chunk_bits [of _ "[a, b]"] by simp_all
  show ?thesis
    by (cases pad) (simp_all add: decode_steps
        decode_first_byte [OF bytes(1)] decode_second_byte [OF bytes(2)] del: decode_loop.simps(2))
qed

lemma decode_last_one:
  "decode_loop (map of_char (encode_chunk alphabet pad [a])) alphabet acc 0 out = Some (out @ [a])"
proof -
  let ?bits = "chunk_bits [a]"
  have bytes: "\<And>n. n < 8 \<Longrightarrow> bit ?bits (16 + n) = bit a n"
    using bit_chunk_bits [of _ "[a]"] by simp
  show ?thesis
    by (cases pad) (simp_all add: decode_steps
        decode_first_byte [OF bytes] del: decode_loop.simps(2))
qed

lemma decode_loop_encode:
  "decode_loop (map of_char (encode input alphabet pad)) alphabet acc 0 out = Some (out @ input)"
proof (induction input arbitrary: acc out rule: length_induct)
  case (1 input)
  consider "input = []" | a where "input = [a]" | a b where "input = [a, b]"
    | a b c rest where "input = [a, b, c] @ rest"
    by (cases input; cases "tl input"; cases "tl (tl input)") auto
  then show ?case
  proof cases
    case (4 a b c rest)
    then have split: "encode input alphabet pad
      = encode_chunk alphabet pad [a, b, c] @ encode rest alphabet pad"
      by (simp add: encode_def chunks_append)
    obtain acc' where
      "decode_loop (map of_char (encode input alphabet pad)) alphabet acc 0 out
       = decode_loop (map of_char (encode rest alphabet pad)) alphabet acc' 0 (out @ [a, b, c])"
      using decode_full_chunk [of pad a b c "map of_char (encode rest alphabet pad)" acc out]
      by (auto simp: split)
    with 1 4 show ?thesis by simp
  qed (simp_all add: encode_def decode_last_one decode_last_two)
qed

lemma decode_with_encode: "decode_with (map of_char (encode input alphabet pad)) alphabet = Some input"
  by (simp add: decode_with_def decode_loop_encode)

lemma encode_chars: "c \<in> set (encode input alphabet pad) \<Longrightarrow> c \<in> set alphabet \<or> c = CHR ''=''"
  using size by (auto simp: encode_def encode_chunk_def Let_def sextet_less split: if_splits)

lemma encode_ascii: "is_ascii (encode input alphabet pad)"
  using encode_chars ascii by (fastforce simp: is_ascii_def)

end

interpretation standard: base64_alphabet STANDARD
proof unfold_locales
  show "length STANDARD = 64" by (simp add: STANDARD_def)
  show "distinct STANDARD" by (simp add: STANDARD_def)
  show "CHR ''='' \<notin> set STANDARD" by (simp add: STANDARD_def)
  show "is_ascii STANDARD" by (simp add: STANDARD_def is_ascii_def)
qed

interpretation url_safe: base64_alphabet URL_SAFE
proof unfold_locales
  show "length URL_SAFE = 64" by (simp add: URL_SAFE_def)
  show "distinct URL_SAFE" by (simp add: URL_SAFE_def)
  show "CHR ''='' \<notin> set URL_SAFE" by (simp add: URL_SAFE_def)
  show "is_ascii URL_SAFE" by (simp add: URL_SAFE_def is_ascii_def)
qed

lemma from_base64url_inverse: "from_base64url (base64url input) = Some input"
  by (simp add: from_base64url_def base64url_def str_chars_ascii url_safe.encode_ascii
      url_safe.decode_with_encode)

subsection \<open>PEM\<close>

lemma str_lines_line:
  "newline \<notin> set l \<Longrightarrow> str_lines (l @ newline # r) = strip_cr l # str_lines r"
  by (cases l) (auto simp: takeWhile_append dropWhile_append Let_def)

lemma str_lines_lines:
  "(\<And>l. l \<in> set ls \<Longrightarrow> newline \<notin> set l) \<Longrightarrow>
   str_lines (concat (map (\<lambda>l. l @ [newline]) ls) @ r) = map strip_cr ls @ str_lines r"
  by (induction ls) (auto simp: str_lines_line)

lemma strip_cr_id: "CHR 0x0D \<notin> set l \<Longrightarrow> strip_cr l = l"
  by (auto simp: strip_cr_def dest: last_in_set)

lemma base64_char:
  assumes "c \<in> set (base64 der)"
  shows "c \<noteq> CHR ''-''" "c \<noteq> newline" "c \<noteq> CHR 0x0D" "\<not> is_whitespace (of_char c)"
    "of_char c < (128 :: nat)"
proof -
  have "c \<in> insert CHR ''='' (set STANDARD)"
    using standard.encode_chars assms by (auto simp: base64_def)
  then show "c \<noteq> CHR ''-''" "c \<noteq> newline" "c \<noteq> CHR 0x0D" "\<not> is_whitespace (of_char c)"
    "of_char c < (128 :: nat)"
    by (auto simp: STANDARD_def newline_def is_whitespace_def)
qed

lemma base64_line:
  assumes "l \<in> set (chunks n (base64 der))"
  shows "newline \<notin> set l" "strip_cr l = l" "\<not> starts_with ''-----'' l" "str_chars l = map of_char l"
proof -
  have in_body: "c \<in> set (base64 der)" if "c \<in> set l" for c
    using set_chunks_subset [OF assms] that by auto
  show "newline \<notin> set l" "strip_cr l = l"
    using in_body base64_char by (blast, intro strip_cr_id, blast)
  show "\<not> starts_with ''-----'' l"
    using in_body [of "CHR ''-''"] base64_char(1) [of "CHR ''-''" der] by (auto simp: starts_with_iff)
  show "str_chars l = map of_char l"
    using in_body base64_char(5) by (intro str_chars_ascii) (auto simp: is_ascii_def)
qed

lemma pem_lines:
  assumes "newline \<notin> set label"
  shows "str_lines (pem label der) =
     (''-----BEGIN '' @ label @ ''-----'') # chunks (PEM_WIDTH - 1) (base64 der)
       @ [''-----END '' @ label @ ''-----'']"
proof -
  let ?first = "''-----BEGIN '' @ label @ ''-----''" and ?last = "''-----END '' @ label @ ''-----''"
  let ?body = "chunks (PEM_WIDTH - 1) (base64 der)"
  have ends: "newline \<notin> set ?first" "newline \<notin> set ?last"
    using assms by (simp_all add: newline_def)
  have kept: "strip_cr ?first = ?first" "strip_cr ?last = ?last"
    by (simp_all add: strip_cr_def)
  have body: "map strip_cr ?body = ?body"
    by (simp add: map_idI base64_line(2))
  have "str_lines (pem label der) = str_lines (?first @ newline #
      (concat (map (\<lambda>l. l @ [newline]) ?body) @ (?last @ newline # [])))"
    by (simp add: pem_def)
  also have "\<dots> = ?first # ?body @ [?last]"
    unfolding str_lines_line [OF ends(1)] kept(1)
    using str_lines_lines [of ?body "?last @ newline # []", OF base64_line(1)]
    by (simp only: body str_lines_line [OF ends(2)] kept str_lines.simps)
  finally show ?thesis .
qed

lemma from_pem_inverse:
  assumes "newline \<notin> set label"
  shows "from_pem (pem label der) = Some der"
proof -
  let ?body = "chunks (PEM_WIDTH - 1) (base64 der)"
  have "filter (\<lambda>line. \<not> starts_with ''-----'' line) (str_lines (pem label der)) = ?body"
  proof -
    have "starts_with ''-----'' (''-----BEGIN '' @ label @ ''-----'')"
      "starts_with ''-----'' (''-----END '' @ label @ ''-----'')"
      by (simp_all add: starts_with_def)
    moreover have "filter (\<lambda>line. \<not> starts_with ''-----'' line) ?body = ?body"
      using base64_line(3) by (simp add: filter_id_conv)
    ultimately show ?thesis
      by (simp only: pem_lines [OF assms] filter.simps filter_append
          if_False not_True_eq_False append_Nil2)
  qed
  moreover have "concat (map str_chars ?body) = map of_char (base64 der)"
  proof -
    have "map str_chars ?body = map (map of_char) ?body"
      by (simp add: base64_line(4))
    then have "concat (map str_chars ?body) = concat (map (map of_char) ?body)"
      by (rule arg_cong)
    also have "\<dots> = map of_char (concat ?body)"
      by (simp only: map_concat)
    finally show ?thesis by simp
  qed
  moreover have "filter (\<lambda>c. \<not> is_whitespace c) (map of_char (base64 der)) = map of_char (base64 der)"
    by (auto simp: filter_id_conv base64_char(4))
  ultimately show ?thesis
    by (simp add: from_pem_def decode_def base64_def standard.decode_with_encode)
qed

subsection \<open>Length\<close>

lemma length_encode_unpadded:
  "length (encode input alphabet False) = length input + (length input + 2) div 3"
proof (induction input rule: length_induct)
  case (1 input)
  consider "input = []" | a where "input = [a]" | a b where "input = [a, b]"
    | a b c rest where "input = [a, b, c] @ rest"
    by (cases input; cases "tl input"; cases "tl (tl input)") auto
  then show ?case
  proof cases
    case (4 a b c rest)
    with 1 have "length (encode rest alphabet False) = length rest + (length rest + 2) div 3"
      by simp
    with 4 show ?thesis
      by (simp add: encode_def chunks_append encode_chunk_def Let_def)
  qed (simp_all add: encode_def encode_chunk_def Let_def)
qed

section \<open>Properties\<close>

text \<open>
  What \<open>base64url\<close> writes, \<open>from_base64url\<close> reads back, for every byte vector; so a public key
  kept in the ring file is the key that was generated.
\<close>

theorem base64url_roundtrip: "from_base64url (base64url input) = Some input"
  by (rule from_base64url_inverse)

text \<open>
  What \<open>pem\<close> writes, \<open>from_pem\<close> reads back, whatever the key material, as long as the label
  holds no line break: the armour, the sixty-four character lines and the padding are all undone.
\<close>

theorem pem_roundtrip: "newline \<notin> set label \<Longrightarrow> from_pem (pem label der) = Some der"
  by (rule from_pem_inverse)

theorem pem_roundtrip_witness:
  "newline \<notin> set ''PRIVATE KEY'' \<and> from_pem (pem ''PRIVATE KEY'' [1, 2, 255]) = Some [1, 2, 255]"
  using pem_roundtrip [of "''PRIVATE KEY''" "[1, 2, 255]"] by (simp add: newline_def)

text \<open>
  The decoder compares \<open>character as u8\<close> with its alphabet, so it is not injective on what it
  accepts: the two-byte UTF-8 text of a character outside the alphabet (here U+0141, whose low byte is
  the letter A) decodes to the same bytes as the letter itself.
\<close>

theorem from_base64url_accepts_foreign_characters:
  "from_base64url [CHR 0xC5, CHR 0x81, CHR ''Q''] = from_base64url ''AQ''
   \<and> from_base64url ''AQ'' = Some [1]
   \<and> \<not> is_ascii [CHR 0xC5, CHR 0x81, CHR ''Q'']"
  by code_simp

end
