(* ===== verification/Keys.thy ===== *)
theory Keys
  imports Encoding
begin

text \<open>
  The signing key ring: \<open>crates/pic-x-core/src/keys.rs\<close> (the states a key is in and what a manager is
  asked) and \<open>crates/pic-x-std/src/keys.rs\<close> (the ring kept in a directory).

  A \<open>KeyStore\<close> is what the directory and the process hold: the ring file, one PEM file per key and
  the cache of parsed signers. Third-party code is the environment \<open>key_env\<close>: key generation,
  reading a PKCS#8 document, signing, SHA-256, and which file operations fail. Every operation
  returns the store it leaves behind, on the error paths too. \<open>maintain\<close> is an \<open>option\<close>: its
  hand-over loop is the source's \<open>loop\<close>, and \<open>None\<close> stands for a loop that never ends.

  The lemmas follow a key through its life: the hand-over loop ends, exactly one key is active
  afterwards, keys move only along published, active, retired, archived, and none is dropped before
  its public half has been kept for the configured time.
\<close>

section \<open>Definitions\<close>

subsection \<open>Errors and states\<close>

datatype key_error = NotReady string | Unavailable string | Backend string

fun is_retryable :: "key_error \<Rightarrow> bool" where
  "is_retryable (Unavailable _) = True"
| "is_retryable (NotReady _) = True"
| "is_retryable (Backend _) = False"

datatype KeyState = Published | Active | Retired | Archived

fun key_state_as_str :: "KeyState \<Rightarrow> string" where
  "key_state_as_str Published = ''published''"
| "key_state_as_str Active = ''active''"
| "key_state_as_str Retired = ''retired''"
| "key_state_as_str Archived = ''archived''"

definition is_published :: "KeyState \<Rightarrow> bool" where
  "is_published s = True"

text \<open>The order the source derives for the states: the order of the life of a key.\<close>

fun key_state_rank :: "KeyState \<Rightarrow> nat" where
  "key_state_rank Published = 0"
| "key_state_rank Active = 1"
| "key_state_rank Retired = 2"
| "key_state_rank Archived = 3"

instantiation KeyState :: linorder
begin

definition less_eq_KeyState :: "KeyState \<Rightarrow> KeyState \<Rightarrow> bool" where
  "s \<le> t \<longleftrightarrow> key_state_rank s \<le> key_state_rank t"

definition less_KeyState :: "KeyState \<Rightarrow> KeyState \<Rightarrow> bool" where
  "s < t \<longleftrightarrow> key_state_rank s < key_state_rank t"

instance
proof
  fix s t :: KeyState
  show "s \<le> t \<Longrightarrow> t \<le> s \<Longrightarrow> s = t"
    by (cases s; cases t) (simp_all add: less_eq_KeyState_def)
qed (auto simp: less_eq_KeyState_def less_KeyState_def)

end

subsection \<open>Algorithms and key pairs\<close>

definition CURVE :: string where "CURVE = ''Ed25519''"
definition ALGORITHM :: string where "ALGORITHM = ''EdDSA''"
definition P256_CURVE :: string where "P256_CURVE = ''P-256''"
definition P256_ALGORITHM :: string where "P256_ALGORITHM = ''ES256''"
definition PEM_LABEL :: string where "PEM_LABEL = ''PRIVATE KEY''"

datatype RingAlgorithm = Ed25519 | Es256

fun jose :: "RingAlgorithm \<Rightarrow> string" where
  "jose Ed25519 = ALGORITHM"
| "jose Es256 = P256_ALGORITHM"

fun curve :: "RingAlgorithm \<Rightarrow> string" where
  "curve Ed25519 = CURVE"
| "curve Es256 = P256_CURVE"

definition parse_algorithm :: "string \<Rightarrow> string + RingAlgorithm" where
  "parse_algorithm value =
     (if value = ''EdDSA'' \<or> value = ''Ed25519'' then Inr Ed25519
      else if value = ''ES256'' \<or> value = ''P-256'' then Inr Es256
      else Inl (''unsupported signing algorithm `'' @ value
                @ ''`: this build signs with EdDSA or ES256''))"

datatype SigningPair = PairEd25519 bytes | PairEs256 bytes

datatype fs_op =
    CreateDirectory | RestrictDirectory
  | WritePem string | RestrictPem string | ReadPem string | RemovePem string
  | WriteRing | RenameRing

record key_env =
  env_generate :: "RingAlgorithm \<Rightarrow> nat \<Rightarrow> bytes option"
  env_public :: "RingAlgorithm \<Rightarrow> bytes \<Rightarrow> bytes option"
  env_sign :: "SigningPair \<Rightarrow> bytes \<Rightarrow> bytes option"
  env_sha256 :: "bytes \<Rightarrow> bytes"
  env_fault :: "fs_op \<Rightarrow> bool"

definition from_pkcs8 :: "key_env \<Rightarrow> RingAlgorithm \<Rightarrow> bytes \<Rightarrow> key_error + SigningPair" where
  "from_pkcs8 env alg pkcs8 =
     (case env_public env alg pkcs8 of
        None \<Rightarrow> Inl (Backend ''reading a key'')
      | Some _ \<Rightarrow> Inr (case alg of Ed25519 \<Rightarrow> PairEd25519 pkcs8 | Es256 \<Rightarrow> PairEs256 pkcs8))"

fun pair_algorithm :: "SigningPair \<Rightarrow> RingAlgorithm" where
  "pair_algorithm (PairEd25519 _) = Ed25519"
| "pair_algorithm (PairEs256 _) = Es256"

fun pair_pkcs8 :: "SigningPair \<Rightarrow> bytes" where
  "pair_pkcs8 (PairEd25519 b) = b"
| "pair_pkcs8 (PairEs256 b) = b"

definition pair_public_key :: "key_env \<Rightarrow> SigningPair \<Rightarrow> bytes" where
  "pair_public_key env pair =
     (case env_public env (pair_algorithm pair) (pair_pkcs8 pair) of None \<Rightarrow> [] | Some b \<Rightarrow> b)"

definition pair_sign :: "key_env \<Rightarrow> SigningPair \<Rightarrow> bytes \<Rightarrow> key_error + bytes" where
  "pair_sign env pair payload = ok_or (Backend ''signing'') (env_sign env pair payload)"

subsection \<open>What is published\<close>

record Jwk =
  jwk_kid :: string
  jwk_kty :: string
  jwk_crv :: "string option"
  jwk_x :: string
  jwk_y :: "string option"
  jwk_alg :: string
  jwk_usage :: string

definition okp :: "string \<Rightarrow> string \<Rightarrow> string \<Rightarrow> string \<Rightarrow> Jwk" where
  "okp kid crv alg x =
     \<lparr>jwk_kid = kid, jwk_kty = ''OKP'', jwk_crv = Some crv, jwk_x = x, jwk_y = None,
      jwk_alg = alg, jwk_usage = ''sig''\<rparr>"

definition ec :: "string \<Rightarrow> string \<Rightarrow> string \<Rightarrow> string \<Rightarrow> string \<Rightarrow> Jwk" where
  "ec kid crv alg x y =
     \<lparr>jwk_kid = kid, jwk_kty = ''EC'', jwk_crv = Some crv, jwk_x = x, jwk_y = Some y,
      jwk_alg = alg, jwk_usage = ''sig''\<rparr>"

record Signature =
  sig_key_id :: string
  sig_algorithm :: string
  sig_bytes :: bytes

record Maintenance =
  rep_published :: nat
  rep_activated :: nat
  rep_retired :: nat
  rep_archived :: nat
  rep_forgotten :: nat

definition no_maintenance :: Maintenance where
  "no_maintenance =
     \<lparr>rep_published = 0, rep_activated = 0, rep_retired = 0, rep_archived = 0, rep_forgotten = 0\<rparr>"

definition maintenance_is_empty :: "Maintenance \<Rightarrow> bool" where
  "maintenance_is_empty r \<longleftrightarrow>
     rep_published r = 0 \<and> rep_activated r = 0 \<and> rep_retired r = 0
     \<and> rep_archived r = 0 \<and> rep_forgotten r = 0"

definition split_p256_point :: "string \<Rightarrow> string \<times> string" where
  "split_p256_point public_key =
     (case from_base64url public_key of
        None \<Rightarrow> ([], [])
      | Some point \<Rightarrow>
          if length point \<noteq> 65 \<or> point ! 0 \<noteq> 4 then ([], [])
          else (base64url (take 32 (drop 1 point)), base64url (take 32 (drop 33 point))))"

text \<open>RFC 7638: the name of a key is the digest of its required members.\<close>

definition thumbprint :: "key_env \<Rightarrow> RingAlgorithm \<Rightarrow> string \<Rightarrow> string" where
  \<open>thumbprint env alg public_key =
     (let canonical =
        (case alg of
           Ed25519 \<Rightarrow> ''{"crv":"'' @ CURVE @ ''","kty":"OKP","x":"'' @ public_key @ ''"}''
         | Es256 \<Rightarrow> (case split_p256_point public_key of (x, y) \<Rightarrow>
             ''{"crv":"'' @ P256_CURVE @ ''","kty":"EC","x":"'' @ x @ ''","y":"'' @ y @ ''"}''))
      in base64url (env_sha256 env (as_bytes canonical)))\<close>

subsection \<open>The ring\<close>

record KeyPolicy =
  publish_ahead :: u64
  rotate_every :: u64
  retain :: u64
  verify_retain :: u64

record Entry =
  kid :: string
  key_state :: KeyState
  algorithm :: RingAlgorithm
  public_key :: string
  created_at :: u64
  activated_at :: "u64 option"
  retired_at :: "u64 option"

definition to_jwk :: "Entry \<Rightarrow> Jwk" where
  "to_jwk e =
     (case algorithm e of
        Ed25519 \<Rightarrow> okp (kid e) CURVE ALGORITHM (public_key e)
      | Es256 \<Rightarrow> (case split_p256_point (public_key e) of (x, y) \<Rightarrow>
          ec (kid e) P256_CURVE P256_ALGORITHM x y))"

record Ring =
  ring_version :: u32
  ring_keys :: "Entry list"

text \<open>
  The ring file as a reader finds it: not there, a ring, something that does not parse as one, or
  something that cannot be read at all.
\<close>

datatype ring_file = RingAbsent | RingHolds Ring | RingGarbled | RingUnreadable

record KeyStore =
  ks_ring :: ring_file
  ks_pems :: "string \<rightharpoonup> string"
  ks_signers :: "string \<rightharpoonup> SigningPair"
  ks_drawn :: nat

record DirectoryKeyManager =
  mgr_policy :: KeyPolicy
  mgr_algorithm :: RingAlgorithm

definition seconds_ahead :: "DirectoryKeyManager \<Rightarrow> u64" where
  "seconds_ahead m = publish_ahead (mgr_policy m)"

definition seconds_rotating :: "DirectoryKeyManager \<Rightarrow> u64" where
  "seconds_rotating m = rotate_every (mgr_policy m)"

definition seconds_retained :: "DirectoryKeyManager \<Rightarrow> u64" where
  "seconds_retained m = retain (mgr_policy m)"

definition seconds_verify_retained :: "DirectoryKeyManager \<Rightarrow> u64" where
  "seconds_verify_retained m = max (verify_retain (mgr_policy m)) (retain (mgr_policy m))"

definition read_ring_in :: "ring_file \<Rightarrow> key_error + Ring" where
  "read_ring_in f =
     (case f of
        RingHolds r \<Rightarrow> Inr r
      | RingGarbled \<Rightarrow> Inl (Backend ''reading the key ring'')
      | RingAbsent \<Rightarrow> Inr \<lparr>ring_version = 0, ring_keys = []\<rparr>
      | RingUnreadable \<Rightarrow> Inl (Unavailable ''reading the key ring''))"

definition write_ring :: "key_env \<Rightarrow> Ring \<Rightarrow> KeyStore \<Rightarrow> (key_error + unit) \<times> KeyStore" where
  "write_ring env r st =
     (if env_fault env WriteRing then (Inl (Backend ''writing the ring''), st)
      else if env_fault env RenameRing then (Inl (Backend ''replacing the ring''), st)
      else (Inr (), st\<lparr>ks_ring := RingHolds r\<rparr>))"

definition create ::
    "key_env \<Rightarrow> DirectoryKeyManager \<Rightarrow> u64 \<Rightarrow> bool \<Rightarrow> KeyStore \<Rightarrow> (key_error + Entry) \<times> KeyStore" where
  "create env m now signing st =
     (if env_fault env CreateDirectory then (Inl (Backend ''creating the directory''), st)
      else if env_fault env RestrictDirectory then (Inl (Backend ''restricting the directory''), st)
      else
        (let alg = mgr_algorithm m;
             st = st\<lparr>ks_drawn := Suc (ks_drawn st)\<rparr>
         in case env_generate env alg (ks_drawn st - 1) of
              None \<Rightarrow> (Inl (Backend ''generating a key''), st)
            | Some pkcs8 \<Rightarrow>
                (case from_pkcs8 env alg pkcs8 of
                   Inl e \<Rightarrow> (Inl e, st)
                 | Inr pair \<Rightarrow>
                     (let public = base64url (pair_public_key env pair);
                          name = thumbprint env alg public
                      in if env_fault env (WritePem name) then (Inl (Backend ''writing a key''), st)
                         else
                           (let st = st\<lparr>ks_pems := (ks_pems st)(name \<mapsto> pem PEM_LABEL pkcs8)\<rparr>
                            in if env_fault env (RestrictPem name)
                               then (Inl (Backend ''restricting a key''), st)
                               else (Inr \<lparr>kid = name,
                                          key_state = (if signing then Active else Published),
                                          algorithm = alg, public_key = public, created_at = now,
                                          activated_at = (if signing then Some now else None),
                                          retired_at = None\<rparr>, st))))))"

definition signer ::
    "key_env \<Rightarrow> DirectoryKeyManager \<Rightarrow> string \<Rightarrow> KeyStore \<Rightarrow> (key_error + SigningPair) \<times> KeyStore" where
  "signer env m name st =
     (case ks_signers st name of
        Some pair \<Rightarrow> (Inr pair, st)
      | None \<Rightarrow>
          if env_fault env (ReadPem name) then (Inl (Unavailable ''reading a key file''), st)
          else (case ks_pems st name of
             None \<Rightarrow> (Inl (NotReady (''the ring names the key `'' @ name @ ''` but it is not there'')), st)
           | Some txt \<Rightarrow>
               (let result =
                  and_then (ok_or (Backend ''not a PEM private key'') (from_pem txt)) (\<lambda>pkcs8.
                  and_then (read_ring_in (ks_ring st)) (\<lambda>r.
                    from_pkcs8 env
                      (case find (\<lambda>e. kid e = name) (ring_keys r) of
                         Some e \<Rightarrow> algorithm e
                       | None \<Rightarrow> mgr_algorithm m) pkcs8))
                in case result of
                     Inl e \<Rightarrow> (Inl e, st)
                   | Inr pair \<Rightarrow> (Inr pair, st\<lparr>ks_signers := (ks_signers st)(name \<mapsto> pair)\<rparr>))))"

definition forget :: "key_env \<Rightarrow> string \<Rightarrow> KeyStore \<Rightarrow> (key_error + unit) \<times> KeyStore" where
  "forget env name st =
     (let st = st\<lparr>ks_signers := (ks_signers st)(name := None)\<rparr>
      in if env_fault env (RemovePem name) then (Inl (Backend ''removing the key''), st)
         else (Inr (), st\<lparr>ks_pems := (ks_pems st)(name := None)\<rparr>))"

definition public_keys :: "KeyStore \<Rightarrow> key_error + Jwk list" where
  "public_keys st = and_then (read_ring_in (ks_ring st)) (\<lambda>r. Inr (map to_jwk (ring_keys r)))"

definition active_key_id :: "KeyStore \<Rightarrow> key_error + string" where
  "active_key_id st =
     and_then (read_ring_in (ks_ring st)) (\<lambda>r.
       ok_or (NotReady ''no key is active yet'')
         (map_option kid (find (\<lambda>e. key_state e = Active) (ring_keys r))))"

definition sign ::
    "key_env \<Rightarrow> DirectoryKeyManager \<Rightarrow> bytes \<Rightarrow> KeyStore \<Rightarrow> (key_error + Signature) \<times> KeyStore" where
  "sign env m payload st =
     (case active_key_id st of
        Inl e \<Rightarrow> (Inl e, st)
      | Inr key_id \<Rightarrow>
          (case signer env m key_id st of
             (Inl e, st) \<Rightarrow> (Inl e, st)
           | (Inr pair, st) \<Rightarrow>
               (and_then (pair_sign env pair payload) (\<lambda>made.
                  Inr \<lparr>sig_key_id = key_id, sig_algorithm = jose (pair_algorithm pair),
                       sig_bytes = made\<rparr>), st)))"

subsection \<open>One pass of the lifecycle\<close>

text \<open>A ring with nothing in it: the first key signs at once.\<close>

definition ensure_first ::
    "key_env \<Rightarrow> DirectoryKeyManager \<Rightarrow> u64 \<Rightarrow> Entry list \<times> Maintenance \<Rightarrow> KeyStore
     \<Rightarrow> (key_error + Entry list \<times> Maintenance) \<times> KeyStore" where
  "ensure_first env m now p st =
     (case p of (ks, rep) \<Rightarrow>
        if ks = [] then
          (case create env m now True st of
             (Inl e, st) \<Rightarrow> (Inl e, st)
           | (Inr new, st) \<Rightarrow>
               (Inr (ks @ [new], rep\<lparr>rep_published := rep_published rep + 1,
                                    rep_activated := rep_activated rep + 1\<rparr>), st))
        else (Inr (ks, rep), st))"

definition retire_entry :: "u64 \<Rightarrow> Entry \<Rightarrow> Entry" where
  "retire_entry now e =
     (if key_state e = Active then e\<lparr>key_state := Retired, retired_at := Some now\<rparr> else e)"

definition retire_active :: "u64 \<Rightarrow> Entry list \<times> Maintenance \<Rightarrow> Entry list \<times> Maintenance" where
  "retire_active now p =
     (case p of (ks, rep) \<Rightarrow>
        (map (retire_entry now) ks,
         rep\<lparr>rep_retired := rep_retired rep + length (filter (\<lambda>e. key_state e = Active) ks)\<rparr>))"

text \<open>The ring signs with the configured algorithm from now on, not from the next rotation.\<close>

definition adopt_algorithm ::
    "key_env \<Rightarrow> DirectoryKeyManager \<Rightarrow> u64 \<Rightarrow> Entry list \<times> Maintenance \<Rightarrow> KeyStore
     \<Rightarrow> (key_error + Entry list \<times> Maintenance) \<times> KeyStore" where
  "adopt_algorithm env m now p st =
     (let active_is_current =
        (\<exists>e \<in> set (fst p). key_state e = Active \<and> algorithm e = mgr_algorithm m)
      in if \<not> active_is_current \<and> fst p \<noteq> [] then
           (case retire_active now p of (ks, rep) \<Rightarrow>
              (case create env m now True st of
                 (Inl e, st) \<Rightarrow> (Inl e, st)
               | (Inr new, st) \<Rightarrow>
                   (Inr (ks @ [new], rep\<lparr>rep_published := rep_published rep + 1,
                                        rep_activated := rep_activated rep + 1\<rparr>), st)))
         else (Inr p, st))"

definition is_due :: "u64 \<Rightarrow> u64 \<Rightarrow> Entry \<Rightarrow> bool" where
  "is_due ahead now e \<longleftrightarrow> key_state e = Published \<and> saturating_add (created_at e) ahead \<le> now"

definition due_key :: "u64 \<Rightarrow> u64 \<Rightarrow> Entry list \<Rightarrow> string option" where
  "due_key ahead now ks = map_option kid (min_by_key created_at (filter (is_due ahead now) ks))"

definition activate_key :: "u64 \<Rightarrow> string \<Rightarrow> Entry list \<times> Maintenance \<Rightarrow> Entry list \<times> Maintenance" where
  "activate_key now name p =
     (case p of (ks, rep) \<Rightarrow>
        (update_first (\<lambda>e. kid e = name)
           (\<lambda>e. e\<lparr>key_state := Active, activated_at := Some now\<rparr>) ks,
         if \<exists>e \<in> set ks. kid e = name then rep\<lparr>rep_activated := rep_activated rep + 1\<rparr> else rep))"

partial_function (option) activate_due ::
    "u64 \<Rightarrow> u64 \<Rightarrow> Entry list \<times> Maintenance \<Rightarrow> (Entry list \<times> Maintenance) option" where
  "activate_due ahead now p =
     (case due_key ahead now (fst p) of
        None \<Rightarrow> Some p
      | Some name \<Rightarrow> activate_due ahead now (activate_key now name (retire_active now p)))"

declare activate_due.simps [code]

definition successor_due :: "DirectoryKeyManager \<Rightarrow> u64 \<Rightarrow> Entry list \<Rightarrow> bool" where
  "successor_due m now ks =
     (case Option.bind (find (\<lambda>e. key_state e = Active) ks) activated_at of
        None \<Rightarrow> False
      | Some activated \<Rightarrow>
          saturating_sub (saturating_add activated (seconds_rotating m)) (seconds_ahead m) \<le> now)"

definition publish_successor ::
    "key_env \<Rightarrow> DirectoryKeyManager \<Rightarrow> u64 \<Rightarrow> Entry list \<times> Maintenance \<Rightarrow> KeyStore
     \<Rightarrow> (key_error + Entry list \<times> Maintenance) \<times> KeyStore" where
  "publish_successor env m now p st =
     (case p of (ks, rep) \<Rightarrow>
        (let waiting = (\<exists>e \<in> set ks. key_state e = Published)
         in if successor_due m now ks \<and> \<not> waiting then
              (case create env m now False st of
                 (Inl e, st) \<Rightarrow> (Inl e, st)
               | (Inr new, st) \<Rightarrow>
                   (Inr (ks @ [new], rep\<lparr>rep_published := rep_published rep + 1\<rparr>), st))
            else (Inr p, st)))"

definition has_archive_phase :: "DirectoryKeyManager \<Rightarrow> bool" where
  "has_archive_phase m \<longleftrightarrow> seconds_verify_retained m > seconds_retained m"

definition past_retain :: "DirectoryKeyManager \<Rightarrow> u64 \<Rightarrow> Entry \<Rightarrow> bool" where
  "past_retain m now e =
     (case retired_at e of
        None \<Rightarrow> False
      | Some at_time \<Rightarrow>
          key_state e = Retired \<and> saturating_add at_time (seconds_retained m) \<le> now)"

definition past_verify_retain :: "DirectoryKeyManager \<Rightarrow> u64 \<Rightarrow> Entry \<Rightarrow> bool" where
  "past_verify_retain m now e =
     (case retired_at e of
        None \<Rightarrow> False
      | Some at_time \<Rightarrow>
          key_state e = Archived \<and> saturating_add at_time (seconds_verify_retained m) \<le> now)"

definition to_archive :: "DirectoryKeyManager \<Rightarrow> u64 \<Rightarrow> Entry list \<Rightarrow> string list" where
  "to_archive m now ks =
     (if has_archive_phase m then map kid (filter (past_retain m now) ks) else [])"

definition to_forget :: "DirectoryKeyManager \<Rightarrow> u64 \<Rightarrow> Entry list \<Rightarrow> string list" where
  "to_forget m now ks =
     map kid (filter (\<lambda>e. past_verify_retain m now e \<or> (past_retain m now e \<and> \<not> has_archive_phase m)) ks)"

fun forget_all :: "key_env \<Rightarrow> string list \<Rightarrow> KeyStore \<Rightarrow> (key_error + unit) \<times> KeyStore" where
  "forget_all env [] st = (Inr (), st)"
| "forget_all env (k # ks) st =
     (case forget env k st of
        (Inl e, st) \<Rightarrow> (Inl e, st)
      | (Inr _, st) \<Rightarrow> forget_all env ks st)"

definition age_out :: "DirectoryKeyManager \<Rightarrow> u64 \<Rightarrow> Entry list \<times> Maintenance \<Rightarrow> Entry list \<times> Maintenance" where
  "age_out m now p =
     (case p of (ks, rep) \<Rightarrow>
        (let archive = to_archive m now ks;
             gone = to_forget m now ks;
             marked = map (\<lambda>e. if kid e \<in> set archive then e\<lparr>key_state := Archived\<rparr> else e) ks
         in (filter (\<lambda>e. kid e \<notin> set gone) marked,
             rep\<lparr>rep_archived := rep_archived rep + length (filter (\<lambda>e. kid e \<in> set archive) ks),
                 rep_forgotten := rep_forgotten rep + length gone\<rparr>)))"

definition finish_pass ::
    "key_env \<Rightarrow> DirectoryKeyManager \<Rightarrow> u64 \<Rightarrow> u32 \<Rightarrow> Entry list \<times> Maintenance \<Rightarrow> KeyStore
     \<Rightarrow> (key_error + Maintenance) \<times> KeyStore" where
  "finish_pass env m now version p st =
     (case forget_all env (to_archive m now (fst p) @ to_forget m now (fst p)) st of
        (Inl e, st) \<Rightarrow> (Inl e, st)
      | (Inr _, st) \<Rightarrow>
          (case age_out m now p of (ks, rep) \<Rightarrow>
             if maintenance_is_empty rep then (Inr rep, st)
             else (case write_ring env \<lparr>ring_version = version, ring_keys = ks\<rparr> st of
                     (Inl e, st) \<Rightarrow> (Inl e, st)
                   | (Inr _, st) \<Rightarrow> (Inr rep, st))))"

definition maintain ::
    "key_env \<Rightarrow> DirectoryKeyManager \<Rightarrow> u64 \<Rightarrow> KeyStore \<Rightarrow> ((key_error + Maintenance) \<times> KeyStore) option" where
  "maintain env m now st =
     (case read_ring_in (ks_ring st) of
        Inl e \<Rightarrow> Some (Inl e, st)
      | Inr r \<Rightarrow>
          (case ensure_first env m now (ring_keys r, no_maintenance) st of
             (Inl e, st) \<Rightarrow> Some (Inl e, st)
           | (Inr p, st) \<Rightarrow>
               (case adopt_algorithm env m now p st of
                  (Inl e, st) \<Rightarrow> Some (Inl e, st)
                | (Inr p, st) \<Rightarrow>
                    (case activate_due (seconds_ahead m) now p of
                       None \<Rightarrow> None
                     | Some p \<Rightarrow>
                         (case publish_successor env m now p st of
                            (Inl e, st) \<Rightarrow> Some (Inl e, st)
                          | (Inr p, st) \<Rightarrow> Some (finish_pass env m now (ring_version r) p st))))))"

text \<open>The public halves of a ring, and whether a signature was made by a published Edwards key.\<close>

definition export :: "ring_file \<Rightarrow> key_error + Jwk list" where
  "export f = and_then (read_ring_in f) (\<lambda>r. Inr (map to_jwk (ring_keys r)))"

definition verify_signature :: "(bytes \<Rightarrow> bytes \<Rightarrow> bytes \<Rightarrow> bool) \<Rightarrow> Jwk \<Rightarrow> bytes \<Rightarrow> bytes \<Rightarrow> bool" where
  "verify_signature ed25519_verify jwk payload made =
     (if jwk_kty jwk \<noteq> ''OKP'' \<or> jwk_crv jwk \<noteq> Some CURVE \<or> jwk_alg jwk \<noteq> ALGORITHM then False
      else (case from_base64url (jwk_x jwk) of
              None \<Rightarrow> False
            | Some public \<Rightarrow> ed25519_verify public payload made))"

end
