(* ===== verification/KeyLifecycle.thy ===== *)
theory KeyLifecycle
  imports Keys
begin

text \<open>
  What one pass of \<open>maintain\<close> does to the ring, stated against a small machine for the life of one
  key (\<open>key_step\<close>): the hand-over loop ends, one key signs afterwards, and every entry of the ring
  has either moved along that machine or is new.
\<close>

section \<open>The life of one key\<close>

inductive key_step :: "DirectoryKeyManager \<Rightarrow> u64 \<Rightarrow> Entry \<Rightarrow> Entry \<Rightarrow> bool" for m now where
  activate: "is_due (seconds_ahead m) now e \<Longrightarrow>
     key_step m now e (e\<lparr>key_state := Active, activated_at := Some now\<rparr>)"
| retire: "key_state e = Active \<Longrightarrow>
     key_step m now e (e\<lparr>key_state := Retired, retired_at := Some now\<rparr>)"
| archive: "past_retain m now e \<Longrightarrow> has_archive_phase m \<Longrightarrow>
     key_step m now e (e\<lparr>key_state := Archived\<rparr>)"

definition moves :: "DirectoryKeyManager \<Rightarrow> u64 \<Rightarrow> Entry \<Rightarrow> Entry \<Rightarrow> bool" where
  "moves m now = (key_step m now)\<^sup>*\<^sup>*"

definition expirable :: "DirectoryKeyManager \<Rightarrow> u64 \<Rightarrow> Entry \<Rightarrow> bool" where
  "expirable m now e \<longleftrightarrow>
     past_verify_retain m now e \<or> (past_retain m now e \<and> \<not> has_archive_phase m)"

definition one_active :: "Entry list \<Rightarrow> bool" where
  "one_active ks \<longleftrightarrow> length (filter (\<lambda>e. key_state e = Active) ks) = 1"

definition at_most_one_active :: "Entry list \<Rightarrow> bool" where
  "at_most_one_active ks \<longleftrightarrow> length (filter (\<lambda>e. key_state e = Active) ks) \<le> 1"

text \<open>
  The name the next generated key gets, and that it and the one after it are new to the ring: one
  pass creates at most two keys, and a thumbprint names one key.
\<close>

definition created_name :: "key_env \<Rightarrow> DirectoryKeyManager \<Rightarrow> nat \<Rightarrow> string" where
  "created_name env m n =
     (case env_generate env (mgr_algorithm m) n of
        None \<Rightarrow> []
      | Some pkcs8 \<Rightarrow>
          (case from_pkcs8 env (mgr_algorithm m) pkcs8 of
             Inl _ \<Rightarrow> []
           | Inr pair \<Rightarrow> thumbprint env (mgr_algorithm m) (base64url (pair_public_key env pair))))"

definition fresh_names :: "key_env \<Rightarrow> DirectoryKeyManager \<Rightarrow> KeyStore \<Rightarrow> Entry list \<Rightarrow> bool" where
  "fresh_names env m st ks \<longleftrightarrow>
     distinct (map kid ks @ [created_name env m (ks_drawn st), created_name env m (Suc (ks_drawn st))])"

inductive_simps key_step_simps: "key_step m now e e'"

section \<open>Lemmas\<close>

subsection \<open>Moving along the machine\<close>

lemma moves_refl [simp]: "moves m now e e"
  by (simp add: moves_def)

lemma moves_step: "key_step m now e e' \<Longrightarrow> moves m now e e'"
  by (simp add: moves_def)

lemma moves_trans: "moves m now a b \<Longrightarrow> moves m now b c \<Longrightarrow> moves m now a c"
  unfolding moves_def by (rule rtranclp_trans)

lemma key_step_forward:
  "key_step m now e e' \<Longrightarrow> kid e' = kid e \<and> algorithm e' = algorithm e \<and> public_key e' = public_key e
     \<and> created_at e' = created_at e \<and> key_state e < key_state e'"
  by (auto simp: key_step_simps is_due_def past_retain_def less_KeyState_def split: option.splits)

lemma moves_forward:
  "moves m now e e' \<Longrightarrow> kid e' = kid e \<and> algorithm e' = algorithm e \<and> public_key e' = public_key e
     \<and> created_at e' = created_at e \<and> key_state e \<le> key_state e'"
  unfolding moves_def
proof (induction rule: rtranclp_induct)
  case (step b c)
  then show ?case using key_step_forward [OF step.hyps(2)] by (auto intro: less_imp_le less_le_trans)
qed simp

lemma list_all2_moves_trans:
  "list_all2 (moves m now) as bs \<Longrightarrow> list_all2 (moves m now) bs cs \<Longrightarrow> list_all2 (moves m now) as cs"
  by (rule list_all2_trans [OF moves_trans])

lemma list_all2_moves_refl: "list_all2 (moves m now) ks ks"
  by (simp add: list_all2_refl)

lemma list_all2_map_moves: "(\<And>e. e \<in> set ks \<Longrightarrow> moves m now e (f e)) \<Longrightarrow> list_all2 (moves m now) ks (map f ks)"
  by (simp add: list_all2_map2 list_all2_same)

subsection \<open>Handing over\<close>

lemma retire_entry_kid [simp]: "kid (retire_entry now e) = kid e"
  by (simp add: retire_entry_def)

lemma retire_entry_moves: "moves m now e (retire_entry now e)"
  by (auto simp: retire_entry_def intro: moves_step key_step.retire)

lemma retire_active_keys [simp]: "fst (retire_active now p) = map (retire_entry now) (fst p)"
  by (simp add: retire_active_def split: prod.splits)

lemma update_first_map:
  "distinct (map g xs) \<Longrightarrow> update_first (\<lambda>x. g x = k) f xs = map (\<lambda>x. if g x = k then f x else x) xs"
proof (induction xs)
  case (Cons x xs)
  have "map (\<lambda>y. if g y = g x then f y else y) xs = xs"
    using Cons.prems by (intro map_idI) (metis distinct.simps(2) image_eqI list.simps(9) set_map)
  then show ?case using Cons by auto
qed simp

lemma due_key_Some:
  assumes "due_key ahead now ks = Some name"
  obtains e where "e \<in> set ks" "kid e = name" "is_due ahead now e"
proof -
  from assms obtain e where e: "min_by_key created_at (filter (is_due ahead now) ks) = Some e" "kid e = name"
    by (auto simp: due_key_def)
  from min_by_key_Some [OF e(1)] e(2) that show ?thesis by auto
qed

lemma due_key_None_iff: "due_key ahead now ks = None \<longleftrightarrow> (\<forall>e \<in> set ks. \<not> is_due ahead now e)"
  by (auto simp: due_key_def filter_empty_conv)

definition hand_over_entry :: "u64 \<Rightarrow> string \<Rightarrow> Entry \<Rightarrow> Entry" where
  "hand_over_entry now name e =
     (if kid e = name then (retire_entry now e)\<lparr>key_state := Active, activated_at := Some now\<rparr>
      else retire_entry now e)"

lemma hand_over_keys:
  assumes "distinct (map kid (fst p))"
  shows "fst (activate_key now name (retire_active now p)) = map (hand_over_entry now name) (fst p)"
proof -
  have "distinct (map kid (map (retire_entry now) (fst p)))"
    using assms by (simp add: comp_def)
  from update_first_map [OF this] show ?thesis
    by (auto simp: activate_key_def retire_active_def hand_over_entry_def split: prod.splits)
qed

lemma hand_over_kids: "map kid (map (hand_over_entry now name) ks) = map kid ks"
  by (auto simp: hand_over_entry_def)

lemma hand_over_moves:
  assumes "distinct (map kid ks)" "due_key (seconds_ahead m) now ks = Some name" "e \<in> set ks"
  shows "moves m now e (hand_over_entry now name e)"
proof (cases "kid e = name")
  case True
  from assms(2) obtain d where "d \<in> set ks" "kid d = name" "is_due (seconds_ahead m) now d"
    by (rule due_key_Some)
  with assms True have "is_due (seconds_ahead m) now e"
    by (metis distinct_map inj_onD)
  then have "retire_entry now e = e" "key_step m now e (e\<lparr>key_state := Active, activated_at := Some now\<rparr>)"
    by (auto simp: is_due_def retire_entry_def intro: key_step.activate)
  with True show ?thesis by (simp add: hand_over_entry_def moves_step)
next
  case False
  then show ?thesis by (simp add: hand_over_entry_def retire_entry_moves)
qed

lemma hand_over_state:
  "key_state (hand_over_entry now name e) =
     (if kid e = name then Active else if key_state e = Active then Retired else key_state e)"
  by (auto simp: hand_over_entry_def retire_entry_def)

lemma filter_kid_length:
  "distinct (map kid ks) \<Longrightarrow> e \<in> set ks \<Longrightarrow> length (filter (\<lambda>x. kid x = kid e) ks) = 1"
proof (induction ks)
  case (Cons a ks)
  have none: "filter (\<lambda>x. kid x = kid a) ks = []"
    using Cons.prems(1) by (auto simp: filter_empty_conv) (metis image_eqI)
  show ?case
  proof (cases "e = a")
    case True
    then show ?thesis using none by simp
  next
    case False
    with Cons.prems have "e \<in> set ks" "kid a \<noteq> kid e" by auto
    with Cons show ?thesis by simp
  qed
qed simp

lemma hand_over_one_active:
  assumes "distinct (map kid ks)" "due_key ahead now ks = Some name"
  shows "one_active (map (hand_over_entry now name) ks)"
proof -
  from assms(2) obtain d where d: "d \<in> set ks" "kid d = name"
    by (rule due_key_Some)
  have "filter (\<lambda>e. key_state e = Active) (map (hand_over_entry now name) ks)
      = map (hand_over_entry now name) (filter (\<lambda>e. kid e = name) ks)"
    by (auto simp: filter_map comp_def hand_over_state intro!: filter_cong arg_cong [where f = "map _"])
  then show ?thesis
    using filter_kid_length [OF assms(1) d(1)] d(2) by (simp add: one_active_def)
qed

lemma hand_over_fewer_published:
  assumes "due_key ahead now ks = Some name"
  shows "length (filter (\<lambda>e. key_state e = Published) (map (hand_over_entry now name) ks))
       < length (filter (\<lambda>e. key_state e = Published) ks)"
proof -
  from assms obtain d where d: "d \<in> set ks" "kid d = name" "key_state d = Published"
    by (auto simp: is_due_def elim: due_key_Some)
  have "length (filter (\<lambda>e. key_state e = Published) (map (hand_over_entry now name) ks))
      = length (filter (\<lambda>e. key_state e = Published \<and> kid e \<noteq> name) ks)"
    by (auto simp: filter_map comp_def hand_over_state intro!: arg_cong [where f = length] filter_cong)
  also have "\<dots> < length (filter (\<lambda>e. key_state e = Published) ks)"
  proof -
    have "filter (\<lambda>e. key_state e = Published \<and> kid e \<noteq> name) ks
        = filter (\<lambda>e. kid e \<noteq> name) (filter (\<lambda>e. key_state e = Published) ks)"
      by (simp add: conj_commute)
    moreover have "length (filter (\<lambda>e. kid e \<noteq> name) (filter (\<lambda>e. key_state e = Published) ks))
        < length (filter (\<lambda>e. key_state e = Published) ks)"
      using d by (intro length_filter_less [of d]) simp_all
    ultimately show ?thesis by simp
  qed
  finally show ?thesis .
qed

text \<open>How much a report says happened; nothing happened exactly when it is zero.\<close>

definition rep_total :: "Maintenance \<Rightarrow> nat" where
  "rep_total r = rep_published r + rep_activated r + rep_retired r + rep_archived r + rep_forgotten r"

lemma maintenance_is_empty_iff: "maintenance_is_empty r \<longleftrightarrow> rep_total r = 0"
  by (auto simp: maintenance_is_empty_def rep_total_def)

text \<open>
  A stage either leaves the pass as it was or says in the report that it did something. A pass
  whose report stays empty therefore ends with the ring it read.
\<close>

definition reported :: "Entry list \<times> Maintenance \<Rightarrow> Entry list \<times> Maintenance \<Rightarrow> bool" where
  "reported p q \<longleftrightarrow> fst q = fst p \<and> rep_total (snd q) = rep_total (snd p)
     \<or> rep_total (snd p) < rep_total (snd q)"

lemma reported_refl [simp]: "reported p p"
  by (simp add: reported_def)

lemma reported_trans: "reported p q \<Longrightarrow> reported q r \<Longrightarrow> reported p r"
  by (auto simp: reported_def)

lemma hand_over_reported:
  assumes "due_key ahead now (fst p) = Some name"
  shows "reported p (activate_key now name (retire_active now p))"
proof -
  from assms obtain d where "d \<in> set (fst p)" "kid d = name" by (rule due_key_Some)
  then have "\<exists>e \<in> set (map (retire_entry now) (fst p)). kid e = name" by auto
  then show ?thesis
    by (cases p) (auto simp: activate_key_def retire_active_def reported_def rep_total_def)
qed

subsection \<open>The loop ends\<close>

lemma activate_due_ends:
  assumes "distinct (map kid (fst p))"
  shows "\<exists>q. activate_due (seconds_ahead m) now p = Some q
     \<and> map kid (fst q) = map kid (fst p)
     \<and> list_all2 (moves m now) (fst p) (fst q)
     \<and> due_key (seconds_ahead m) now (fst q) = None
     \<and> (one_active (fst p) \<longrightarrow> one_active (fst q)) \<and> reported p q"
  using assms
proof (induction "length (filter (\<lambda>e. key_state e = Published) (fst p))" arbitrary: p rule: less_induct)
  case less
  show ?case
  proof (cases "due_key (seconds_ahead m) now (fst p)")
    case None
    then show ?thesis
      by (simp add: activate_due.simps list_all2_moves_refl)
  next
    case (Some name)
    let ?p = "activate_key now name (retire_active now p)"
    have keys: "fst ?p = map (hand_over_entry now name) (fst p)"
      by (rule hand_over_keys [OF less.prems])
    have kids: "map kid (fst ?p) = map kid (fst p)"
      unfolding keys by (rule hand_over_kids)
    have fewer: "length (filter (\<lambda>e. key_state e = Published) (fst ?p))
        < length (filter (\<lambda>e. key_state e = Published) (fst p))"
      unfolding keys by (rule hand_over_fewer_published [OF Some])
    have "distinct (map kid (fst ?p))"
      unfolding kids by (rule less.prems)
    from less.hyps [OF fewer this] obtain q where q: "activate_due (seconds_ahead m) now ?p = Some q"
      "map kid (fst q) = map kid (fst ?p)" "list_all2 (moves m now) (fst ?p) (fst q)"
      "due_key (seconds_ahead m) now (fst q) = None" "one_active (fst ?p) \<longrightarrow> one_active (fst q)" "reported ?p q"
      by blast
    have "list_all2 (moves m now) (fst p) (fst ?p)"
      unfolding keys by (rule list_all2_map_moves) (rule hand_over_moves [OF less.prems Some])
    moreover have "one_active (fst ?p)"
      unfolding keys by (rule hand_over_one_active [OF less.prems Some])
    moreover have "reported p q"
      using hand_over_reported [OF Some] q(6) by (rule reported_trans)
    ultimately show ?thesis
      using q kids Some list_all2_moves_trans by (auto simp: activate_due.simps [of _ _ p] simp del: map_map)
  qed
qed

subsection \<open>The stages of a pass\<close>

lemma create_Inr:
  assumes "create env m now signing st = (Inr e, st')"
  shows "kid e = created_name env m (ks_drawn st)"
    "key_state e = (if signing then Active else Published)" "algorithm e = mgr_algorithm m"
    "created_at e = now" "activated_at e = (if signing then Some now else None)" "retired_at e = None"
    "ks_drawn st' = Suc (ks_drawn st)" "ks_ring st' = ks_ring st" "ks_signers st' = ks_signers st"
    "\<exists>pkcs8. env_generate env (mgr_algorithm m) (ks_drawn st) = Some pkcs8
       \<and> env_public env (mgr_algorithm m) pkcs8 \<noteq> None
       \<and> ks_pems st' = (ks_pems st)(kid e \<mapsto> pem PEM_LABEL pkcs8)"
  using assms
  by (auto simp: create_def created_name_def from_pkcs8_def Let_def
      split: if_splits option.splits sum.splits)

text \<open>
  The entries of a ring after some stages: those it had, moved along, and the keys created since,
  named by the draws made in between.
\<close>

definition born :: "DirectoryKeyManager \<Rightarrow> u64 \<Rightarrow> Entry \<Rightarrow> bool" where
  "born m now e \<longleftrightarrow> created_at e = now \<and> algorithm e = mgr_algorithm m \<and> retired_at e = None
     \<and> (key_state e = Active \<and> activated_at e = Some now
        \<or> key_state e = Published \<and> activated_at e = None)"

definition extends ::
    "key_env \<Rightarrow> DirectoryKeyManager \<Rightarrow> u64 \<Rightarrow> Entry list \<Rightarrow> KeyStore \<Rightarrow> Entry list \<Rightarrow> KeyStore \<Rightarrow> bool" where
  "extends env m now ks st ks' st' \<longleftrightarrow>
     (\<exists>new. list_all2 (moves m now) (ks @ new) ks' \<and> (\<forall>e \<in> set new. born m now e)
        \<and> map kid new = map (created_name env m) [ks_drawn st..<ks_drawn st'])
     \<and> ks_drawn st \<le> ks_drawn st' \<and> ks_ring st' = ks_ring st"

lemma extends_moves: "list_all2 (moves m now) ks ks' \<Longrightarrow> extends env m now ks st ks' st"
  by (auto simp: extends_def intro!: exI [of _ "[]"])

lemma extends_refl: "extends env m now ks st ks st"
  by (rule extends_moves) (rule list_all2_moves_refl)

lemma extends_create:
  assumes "create env m now signing st = (Inr e, st')" "list_all2 (moves m now) ks ks'"
  shows "extends env m now ks st (ks' @ [e]) st'"
proof -
  have "born m now e"
    using create_Inr [OF assms(1)] by (auto simp: born_def)
  moreover have "list_all2 (moves m now) (ks @ [e]) (ks' @ [e])"
    using assms(2) by (simp add: list_all2_appendI)
  ultimately show ?thesis
    using create_Inr [OF assms(1)] by (auto simp: extends_def intro!: exI [of _ "[e]"])
qed

lemma extends_trans:
  assumes "extends env m now ks st ks' st'" "extends env m now ks' st' ks'' st''"
  shows "extends env m now ks st ks'' st''"
proof -
  from assms obtain new new' where
    new: "list_all2 (moves m now) (ks @ new) ks'" "\<forall>e \<in> set new. born m now e"
      "map kid new = map (created_name env m) [ks_drawn st..<ks_drawn st']" and
    new': "list_all2 (moves m now) (ks' @ new') ks''" "\<forall>e \<in> set new'. born m now e"
      "map kid new' = map (created_name env m) [ks_drawn st'..<ks_drawn st'']" and
    le: "ks_drawn st \<le> ks_drawn st'" "ks_drawn st' \<le> ks_drawn st''"
    by (auto simp: extends_def)
  have "list_all2 (moves m now) ((ks @ new) @ new') (ks' @ new')"
    using new(1) list_all2_moves_refl by (rule list_all2_appendI)
  then have "list_all2 (moves m now) (ks @ new @ new') ks''"
    using new'(1) list_all2_moves_trans by (metis append_assoc)
  moreover have "[ks_drawn st..<ks_drawn st''] = [ks_drawn st..<ks_drawn st'] @ [ks_drawn st'..<ks_drawn st'']"
    using le upt_add_eq_append [of "ks_drawn st" "ks_drawn st'" "ks_drawn st'' - ks_drawn st'"] by simp
  ultimately show ?thesis
    using assms new new' by (auto simp: extends_def intro!: exI [of _ "new @ new'"])
qed

lemma list_all2_moves_kids: "list_all2 (moves m now) ks ks' \<Longrightarrow> map kid ks' = map kid ks"
  by (induction rule: list_all2_induct) (auto dest: moves_forward)

lemma extends_kids:
  assumes "extends env m now ks st ks' st'"
  shows "map kid ks' = map kid ks @ map (created_name env m) [ks_drawn st..<ks_drawn st']"
proof -
  from assms obtain new where "list_all2 (moves m now) (ks @ new) ks'"
    "map kid new = map (created_name env m) [ks_drawn st..<ks_drawn st']"
    by (auto simp: extends_def)
  then show ?thesis by (auto dest: list_all2_moves_kids)
qed

lemma extends_distinct:
  assumes "extends env m now ks st ks' st'" "fresh_names env m st ks" "ks_drawn st' \<le> ks_drawn st + 2"
  shows "distinct (map kid ks')"
proof -
  have "ks_drawn st \<le> ks_drawn st'" using assms(1) by (simp add: extends_def)
  with assms(3) consider "ks_drawn st' = ks_drawn st" | "ks_drawn st' = Suc (ks_drawn st)"
    | "ks_drawn st' = Suc (Suc (ks_drawn st))" by linarith
  then show ?thesis
    using assms(2) by cases (auto simp: extends_kids [OF assms(1)] fresh_names_def)
qed

lemma ensure_first_stage:
  assumes "ensure_first env m now p st = (Inr p', st')"
  shows "extends env m now (fst p) st (fst p') st'" "reported p p'" "fst p' \<noteq> []"
    "ks_drawn st' \<le> Suc (ks_drawn st)"
    "fst p = [] \<Longrightarrow> \<exists>e \<in> set (fst p'). key_state e = Active \<and> algorithm e = mgr_algorithm m"
    "fst p = [] \<Longrightarrow> one_active (fst p')"
    "fst p \<noteq> [] \<Longrightarrow> p' = p \<and> st' = st"
  using assms extends_create [OF _ list_all2_moves_refl, of env m now True st _ st' "[]"]
  by (auto simp: ensure_first_def extends_refl reported_def rep_total_def one_active_def create_Inr
      split: prod.splits if_splits sum.splits)

lemma no_active_after_retire: "filter (\<lambda>e. key_state e = Active) (map (retire_entry now) ks) = []"
  by (auto simp: filter_empty_conv retire_entry_def)

lemma adopt_algorithm_stage:
  assumes "adopt_algorithm env m now p st = (Inr p', st')"
  shows "extends env m now (fst p) st (fst p') st'" "reported p p'"
    "ks_drawn st' \<le> Suc (ks_drawn st)"
    "\<exists>e \<in> set (fst p). key_state e = Active \<and> algorithm e = mgr_algorithm m \<Longrightarrow> p' = p \<and> st' = st"
    "fst p \<noteq> [] \<Longrightarrow> at_most_one_active (fst p) \<Longrightarrow> one_active (fst p')"
proof -
  let ?current = "\<exists>e \<in> set (fst p). key_state e = Active \<and> algorithm e = mgr_algorithm m"
  have current: "p' = p \<and> st' = st" if ?current
    using assms that by (auto simp: adopt_algorithm_def)
  then show "p' = p \<and> st' = st" if ?current using that .
  have changed: "\<exists>new. create env m now True st = (Inr new, st')
      \<and> fst p' = map (retire_entry now) (fst p) @ [new] \<and> rep_total (snd p) < rep_total (snd p')"
    if "\<not> ?current" "fst p \<noteq> []"
    using assms that
    by (auto simp: adopt_algorithm_def retire_active_def rep_total_def
        split: prod.splits if_splits sum.splits)
  have same: "p' = p \<and> st' = st" if "\<not> ?current" "fst p = []"
    using assms that by (auto simp: adopt_algorithm_def)
  have retired: "list_all2 (moves m now) (fst p) (map (retire_entry now) (fst p))"
    by (rule list_all2_map_moves) (rule retire_entry_moves)
  have "extends env m now (fst p) st (fst p') st' \<and> reported p p' \<and> ks_drawn st' \<le> Suc (ks_drawn st)"
  proof (cases "?current \<or> fst p = []")
    case True
    then have "p' = p \<and> st' = st" using current same by blast
    then show ?thesis by (simp add: extends_refl)
  next
    case False
    with changed obtain new where new: "create env m now True st = (Inr new, st')"
      "fst p' = map (retire_entry now) (fst p) @ [new]" "rep_total (snd p) < rep_total (snd p')"
      by blast
    show ?thesis
      using extends_create [OF new(1) retired] create_Inr(7) [OF new(1)] new(2,3)
      by (simp add: reported_def)
  qed
  then show "extends env m now (fst p) st (fst p') st'" "reported p p'" "ks_drawn st' \<le> Suc (ks_drawn st)"
    by blast+
  show "one_active (fst p')" if "fst p \<noteq> []" "at_most_one_active (fst p)"
  proof (cases ?current)
    case True
    then have "filter (\<lambda>e. key_state e = Active) (fst p) \<noteq> []" by (auto simp: filter_empty_conv)
    with that(2) show ?thesis
      using current [OF True] by (auto simp: one_active_def at_most_one_active_def le_Suc_eq)
  next
    case False
    from changed [OF False that(1)] show ?thesis
      using create_Inr(2) by (auto simp: one_active_def no_active_after_retire)
  qed
qed

lemma publish_successor_stage:
  assumes "publish_successor env m now p st = (Inr p', st')"
  shows "extends env m now (fst p) st (fst p') st'" "reported p p'"
    "ks_drawn st' \<le> Suc (ks_drawn st)" "one_active (fst p) \<Longrightarrow> one_active (fst p')"
  using assms extends_create [OF _ list_all2_moves_refl, of env m now False st _ st' "fst p"]
  by (auto simp: publish_successor_def extends_refl reported_def rep_total_def one_active_def create_Inr
      Let_def split: prod.splits if_splits sum.splits)

subsection \<open>Ageing out\<close>

lemma kid_in_filter_iff:
  assumes "distinct (map kid ks)" "e \<in> set ks"
  shows "kid e \<in> set (map kid (filter P ks)) \<longleftrightarrow> P e"
proof
  assume "kid e \<in> set (map kid (filter P ks))"
  then obtain d where "d \<in> set ks" "P d" "kid d = kid e" by auto
  with assms have "d = e" by (metis distinct_map inj_onD)
  with \<open>P d\<close> show "P e" by simp
qed (use assms in auto)

lemma in_to_forget_iff:
  assumes "distinct (map kid ks)" "e \<in> set ks"
  shows "kid e \<in> set (to_forget m now ks) \<longleftrightarrow> expirable m now e"
  using kid_in_filter_iff [OF assms] by (simp add: to_forget_def expirable_def)

lemma in_to_archive_iff:
  assumes "distinct (map kid ks)" "e \<in> set ks"
  shows "kid e \<in> set (to_archive m now ks) \<longleftrightarrow> past_retain m now e \<and> has_archive_phase m"
  using kid_in_filter_iff [OF assms, of "past_retain m now"] by (auto simp: to_archive_def)

definition age_entry :: "DirectoryKeyManager \<Rightarrow> u64 \<Rightarrow> Entry \<Rightarrow> Entry" where
  "age_entry m now e =
     (if past_retain m now e \<and> has_archive_phase m then e\<lparr>key_state := Archived\<rparr> else e)"

lemma age_entry_moves: "moves m now e (age_entry m now e)"
  by (auto simp: age_entry_def intro: moves_step key_step.archive)

lemma age_entry_kid [simp]: "kid (age_entry m now e) = kid e"
  by (simp add: age_entry_def)

lemma age_out_keys:
  assumes "distinct (map kid (fst p))"
  shows "fst (age_out m now p) = map (age_entry m now) (filter (\<lambda>e. \<not> expirable m now e) (fst p))"
proof -
  obtain ks rep where p: "p = (ks, rep)" by (cases p)
  let ?mark = "\<lambda>e. if kid e \<in> set (to_archive m now ks) then e\<lparr>key_state := Archived\<rparr> else e"
  have "map ?mark ks = map (age_entry m now) ks"
    using assms in_to_archive_iff [of ks] by (auto simp: p age_entry_def)
  then have "fst (age_out m now p)
      = filter (\<lambda>e. kid e \<notin> set (to_forget m now ks)) (map (age_entry m now) ks)"
    unfolding age_out_def p Let_def by (simp only: prod.case fst_conv)
  also have "\<dots> = map (age_entry m now) (filter (\<lambda>e. \<not> expirable m now e) ks)"
    using assms in_to_forget_iff [of ks]
    by (auto simp: filter_map comp_def p intro!: filter_cong arg_cong [where f = "map _"])
  finally show ?thesis by (simp add: p)
qed

lemma age_out_reported:
  assumes "distinct (map kid (fst p))"
  shows "reported p (age_out m now p)"
proof -
  obtain ks rep where p: "p = (ks, rep)" by (cases p)
  have snd: "rep_total (snd (age_out m now p)) = rep_total rep
      + length (filter (\<lambda>e. kid e \<in> set (to_archive m now ks)) ks) + length (to_forget m now ks)"
    by (simp add: age_out_def p rep_total_def Let_def)
  show ?thesis
  proof (cases "filter (\<lambda>e. kid e \<in> set (to_archive m now ks)) ks = [] \<and> to_forget m now ks = []")
    case True
    then have "\<And>e. e \<in> set ks \<Longrightarrow> \<not> (past_retain m now e \<and> has_archive_phase m)" "\<And>e. e \<in> set ks \<Longrightarrow> \<not> expirable m now e"
      using assms in_to_archive_iff [of ks] in_to_forget_iff [of ks]
      by (force simp: p filter_empty_conv)+
    then have "fst (age_out m now p) = fst p"
      unfolding age_out_keys [OF assms]
      by (auto simp: p age_entry_def filter_id_conv intro!: map_idI)
    with True show ?thesis using snd by (simp add: reported_def p)
  next
    case False
    then have "rep_total (snd p) < rep_total (snd (age_out m now p))"
      using snd by (auto simp: p)
    then show ?thesis by (simp add: reported_def)
  qed
qed

lemma not_expirable_if_active:
  "key_state e = Active \<Longrightarrow> \<not> expirable m now e \<and> \<not> past_retain m now e \<and> age_entry m now e = e"
  by (auto simp: expirable_def age_entry_def past_retain_def past_verify_retain_def split: option.splits)

lemma age_out_one_active:
  assumes "distinct (map kid (fst p))" "one_active (fst p)"
  shows "one_active (fst (age_out m now p))"
proof -
  have "(\<not> expirable m now e \<and> key_state (age_entry m now e) = Active) = (key_state e = Active)" for e
    using not_expirable_if_active [of e m now] by (auto simp: age_entry_def split: if_splits)
  then show ?thesis
    using assms(2) by (simp add: one_active_def age_out_keys [OF assms(1)] filter_map comp_def)
qed

lemma forget_Inr:
  "forget env name st = (Inr u, st') \<Longrightarrow>
     st' = st\<lparr>ks_signers := (ks_signers st)(name := None), ks_pems := (ks_pems st)(name := None)\<rparr>"
  by (auto simp: forget_def Let_def split: if_splits)

lemma forget_all_Inr:
  assumes "forget_all env names st = (Inr u, st')"
  shows "st' = st\<lparr>ks_signers := ks_signers st |` (- set names), ks_pems := ks_pems st |` (- set names)\<rparr>"
  using assms
proof (induction names arbitrary: st)
  case (Cons k names)
  obtain r st1 where f: "forget env k st = (r, st1)" by (cases "forget env k st")
  with Cons.prems have st1: "forget env k st = (Inr u, st1)" "forget_all env names st1 = (Inr u, st')"
    by (auto split: sum.splits)
  show ?case
    unfolding Cons.IH [OF st1(2)] forget_Inr [OF st1(1)] by (cases st) (auto simp: restrict_map_def fun_eq_iff)
qed (simp add: restrict_map_def)

subsection \<open>Private halves\<close>

text \<open>
  The private half of an entry is in its file and reads back as a key of its kind. A ring is ready
  when that holds for every key that signs or will.
\<close>

definition has_private_half :: "key_env \<Rightarrow> KeyStore \<Rightarrow> Entry \<Rightarrow> bool" where
  "has_private_half env st e \<longleftrightarrow>
     (\<exists>pkcs8. ks_pems st (kid e) = Some (pem PEM_LABEL pkcs8) \<and> env_public env (algorithm e) pkcs8 \<noteq> None)"

definition ring_ready :: "key_env \<Rightarrow> KeyStore \<Rightarrow> Entry list \<Rightarrow> bool" where
  "ring_ready env st ks \<longleftrightarrow> (\<forall>e \<in> set ks. key_state e \<le> Active \<longrightarrow> has_private_half env st e)"

lemma ring_ready_moves:
  assumes "ring_ready env st ks" "list_all2 (moves m now) ks ks'"
  shows "ring_ready env st ks'"
  unfolding ring_ready_def
proof (intro ballI impI)
  fix e' assume "e' \<in> set ks'" "key_state e' \<le> Active"
  with assms(2) obtain e where "e \<in> set ks" "moves m now e e'"
    by (metis in_set_conv_nth list_all2_conv_all_nth)
  with moves_forward [OF this(2)] \<open>key_state e' \<le> Active\<close> show "has_private_half env st e'"
    using assms(1) by (fastforce simp: ring_ready_def has_private_half_def)
qed

lemma ring_ready_create:
  assumes "create env m now signing st = (Inr e, st')" "ring_ready env st ks" "kid e \<notin> set (map kid ks)"
  shows "ring_ready env st' (ks @ [e])"
proof -
  obtain pkcs8 where "env_public env (mgr_algorithm m) pkcs8 \<noteq> None"
    "ks_pems st' = (ks_pems st)(kid e \<mapsto> pem PEM_LABEL pkcs8)"
    using create_Inr(10) [OF assms(1)] by blast
  moreover have "\<forall>d \<in> set ks. kid d \<noteq> kid e"
    using assms(3) by (metis image_eqI set_map)
  ultimately show ?thesis
    using assms(2) create_Inr(3) [OF assms(1)] by (auto simp: ring_ready_def has_private_half_def)
qed

lemma ensure_first_ready:
  assumes "ensure_first env m now p st = (Inr p', st')" "ring_ready env st (fst p)"
  shows "ring_ready env st' (fst p')"
  using assms ring_ready_create [of env m now True st _ st' "[]"]
  by (auto simp: ensure_first_def split: prod.splits if_splits sum.splits)

lemma adopt_algorithm_ready:
  assumes "adopt_algorithm env m now p st = (Inr p', st')" "ring_ready env st (fst p)"
    "created_name env m (ks_drawn st) \<notin> set (map kid (fst p))"
  shows "ring_ready env st' (fst p')"
proof -
  have "ring_ready env st (map (retire_entry now) (fst p))"
    by (rule ring_ready_moves [OF assms(2)]) (rule list_all2_map_moves [OF retire_entry_moves])
  moreover have "set (map kid (map (retire_entry now) (fst p))) = set (map kid (fst p))"
    by force
  ultimately show ?thesis
    using assms ring_ready_create [of env m now True st _ st' "map (retire_entry now) (fst p)"]
    by (auto simp: adopt_algorithm_def retire_active_def Let_def create_Inr(1)
        split: prod.splits if_splits sum.splits simp del: set_map map_map)
qed

lemma publish_successor_ready:
  assumes "publish_successor env m now p st = (Inr p', st')" "ring_ready env st (fst p)"
    "created_name env m (ks_drawn st) \<notin> set (map kid (fst p))"
  shows "ring_ready env st' (fst p')"
  using assms ring_ready_create [of env m now False st _ st' "fst p"]
  by (auto simp: publish_successor_def Let_def create_Inr(1)
      split: prod.splits if_splits sum.splits simp del: set_map)

subsection \<open>The whole pass\<close>

definition ring_of :: "KeyStore \<Rightarrow> Entry list" where
  "ring_of st = (case read_ring_in (ks_ring st) of Inl _ \<Rightarrow> [] | Inr r \<Rightarrow> ring_keys r)"

text \<open>What a pass relies on: a ring whose keys have names of their own, and at most one signs.\<close>

definition ring_wf :: "key_env \<Rightarrow> KeyStore \<Rightarrow> bool" where
  "ring_wf env st \<longleftrightarrow> is_ok (read_ring_in (ks_ring st)) \<and> distinct (map kid (ring_of st))
     \<and> at_most_one_active (ring_of st) \<and> ring_ready env st (ring_of st)"

lemma before_loop:
  assumes "ensure_first env m now (ks, rep) st = (Inr p1, st1)" "adopt_algorithm env m now p1 st1 = (Inr p2, st2)"
    "fresh_names env m st ks" "at_most_one_active ks" "ring_ready env st ks"
  shows "extends env m now ks st (fst p2) st2" "reported (ks, rep) p2" "one_active (fst p2)"
    "ks_drawn st2 \<le> Suc (ks_drawn st)" "ring_ready env st2 (fst p2)"
proof -
  note first = ensure_first_stage [OF assms(1), simplified]
  note adopt = adopt_algorithm_stage [OF assms(2)]
  show "extends env m now ks st (fst p2) st2"
    using first(1) adopt(1) by (rule extends_trans)
  show "reported (ks, rep) p2"
    using first(2) adopt(2) by (rule reported_trans)
  have ready: "ring_ready env st1 (fst p1)"
    using ensure_first_ready [OF assms(1)] assms(5) by simp
  have "one_active (fst p2) \<and> ks_drawn st2 \<le> Suc (ks_drawn st) \<and> ring_ready env st2 (fst p2)"
  proof (cases "ks = []")
    case True
    with first(5,6) adopt(4) have "p2 = p1" "st2 = st1" "one_active (fst p1)" by auto
    with first(4) ready show ?thesis by simp
  next
    case False
    with first(7) have same: "p1 = (ks, rep)" "st1 = st" by auto
    have "created_name env m (ks_drawn st) \<notin> set (map kid ks)"
      using assms(3) by (simp add: fresh_names_def)
    with False same adopt(3,5) assms(4) adopt_algorithm_ready [OF assms(2) ready] show ?thesis by simp
  qed
  then show "one_active (fst p2)" "ks_drawn st2 \<le> Suc (ks_drawn st)" "ring_ready env st2 (fst p2)"
    by auto
qed

lemma pass_before_ageing:
  assumes "ensure_first env m now (ks, no_maintenance) st = (Inr p1, st1)"
    "adopt_algorithm env m now p1 st1 = (Inr p2, st2)"
    "fresh_names env m st ks" "at_most_one_active ks" "ring_ready env st ks"
  obtains p3 where "activate_due (seconds_ahead m) now p2 = Some p3"
    "due_key (seconds_ahead m) now (fst p3) = None" "distinct (map kid (fst p3))"
    "\<And>p4 st4. publish_successor env m now p3 st2 = (Inr p4, st4) \<Longrightarrow>
        extends env m now ks st (fst p4) st4 \<and> reported (ks, no_maintenance) p4 \<and> one_active (fst p4)
        \<and> distinct (map kid (fst p4)) \<and> ring_ready env st4 (fst p4)"
proof -
  note before = before_loop [OF assms]
  have "distinct (map kid (fst p2))"
    using extends_distinct [OF before(1) assms(3)] before(4) by simp
  from activate_due_ends [OF this, of m now] obtain p3 where
    p3: "activate_due (seconds_ahead m) now p2 = Some p3" "map kid (fst p3) = map kid (fst p2)"
      "list_all2 (moves m now) (fst p2) (fst p3)" "due_key (seconds_ahead m) now (fst p3) = None"
      "one_active (fst p2) \<longrightarrow> one_active (fst p3)" "reported p2 p3" by blast
  have to3: "extends env m now ks st (fst p3) st2"
    using before(1) extends_moves [OF p3(3)] by (rule extends_trans)
  have dist3: "distinct (map kid (fst p3))"
    using extends_distinct [OF to3 assms(3)] before(4) by simp
  have ready3: "ring_ready env st2 (fst p3)"
    by (rule ring_ready_moves [OF before(5) p3(3)])
  have "created_name env m (ks_drawn st2) \<notin> set (map kid (fst p3))"
  proof -
    have "ks_drawn st \<le> ks_drawn st2" using to3 by (simp add: extends_def)
    with before(4) consider "ks_drawn st2 = ks_drawn st" | "ks_drawn st2 = Suc (ks_drawn st)" by linarith
    then show ?thesis
      using assms(3) unfolding extends_kids [OF to3] by cases (auto simp: fresh_names_def)
  qed
  note fresh = this
  show ?thesis
  proof (rule that [OF p3(1) p3(4) dist3])
    fix p4 st4 assume p4: "publish_successor env m now p3 st2 = (Inr p4, st4)"
    note publish = publish_successor_stage [OF p4]
    have to4: "extends env m now ks st (fst p4) st4"
      using to3 publish(1) by (rule extends_trans)
    moreover have "reported (ks, no_maintenance) p4"
      using reported_trans [OF reported_trans [OF before(2) p3(6)] publish(2)] .
    moreover have "distinct (map kid (fst p4))"
      using extends_distinct [OF to4 assms(3)] before(4) publish(3) by simp
    ultimately show "extends env m now ks st (fst p4) st4 \<and> reported (ks, no_maintenance) p4
        \<and> one_active (fst p4) \<and> distinct (map kid (fst p4)) \<and> ring_ready env st4 (fst p4)"
      using publish(4) p3(5) before(3) publish_successor_ready [OF p4 ready3 fresh] by simp
  qed
qed

lemma finish_pass_Inr:
  assumes "finish_pass env m now v p st = (Inr rep, st')" "distinct (map kid (fst p))"
    "reported (ring_of st, no_maintenance) p" "is_ok (read_ring_in (ks_ring st))"
  shows "ring_of st' = fst (age_out m now p)" "is_ok (read_ring_in (ks_ring st'))"
    "ks_pems st' = ks_pems st |` (- set (to_archive m now (fst p) @ to_forget m now (fst p)))"
proof -
  let ?gone = "to_archive m now (fst p) @ to_forget m now (fst p)"
  obtain r st1 where f: "forget_all env ?gone st = (r, st1)" by (cases "forget_all env ?gone st")
  with assms(1) obtain u where "r = Inr u"
    by (cases r) (auto simp: finish_pass_def)
  note st1 = forget_all_Inr [OF f [unfolded this]]
  obtain ks rep' where aged: "age_out m now p = (ks, rep')" by (cases "age_out m now p")
  have "reported (ring_of st, no_maintenance) (ks, rep')"
    using reported_trans [OF assms(3) age_out_reported [OF assms(2), of m now]] by (simp add: aged)
  then have unchanged: "ks = ring_of st" if "maintenance_is_empty rep'"
    using that by (auto simp: reported_def maintenance_is_empty_iff)
  have "ring_of st' = ks \<and> is_ok (read_ring_in (ks_ring st')) \<and> ks_pems st' = ks_pems st1"
    using assms(1,4) f \<open>r = Inr u\<close> aged unchanged
    by (auto simp: finish_pass_def st1 write_ring_def ring_of_def read_ring_in_def
        split: if_splits ring_file.splits)
  then show "ring_of st' = fst (age_out m now p)" "is_ok (read_ring_in (ks_ring st'))"
    "ks_pems st' = ks_pems st |` (- set ?gone)"
    by (simp_all add: aged st1)
qed

lemma finish_pass_ready:
  assumes "finish_pass env m now v p st = (Inr rep, st')" "distinct (map kid (fst p))"
    "reported (ring_of st, no_maintenance) p" "is_ok (read_ring_in (ks_ring st))" "ring_ready env st (fst p)"
  shows "ring_ready env st' (ring_of st')"
  unfolding ring_ready_def
proof (intro ballI impI)
  note fin = finish_pass_Inr [OF assms(1-4)]
  fix e' assume "e' \<in> set (ring_of st')" "key_state e' \<le> Active"
  then obtain e where e: "e \<in> set (fst p)" "e' = age_entry m now e" "\<not> expirable m now e"
    by (auto simp: fin(1) age_out_keys [OF assms(2)])
  with \<open>key_state e' \<le> Active\<close> have same: "e' = e" "\<not> (past_retain m now e \<and> has_archive_phase m)"
    by (auto simp: age_entry_def less_eq_KeyState_def split: if_splits)
  have "kid e \<notin> set (to_archive m now (fst p) @ to_forget m now (fst p))"
    using e same in_to_archive_iff [OF assms(2) e(1)] in_to_forget_iff [OF assms(2) e(1)] by simp
  then have "ks_pems st' (kid e) = ks_pems st (kid e)"
    by (simp add: fin(3) restrict_map_def)
  moreover have "has_private_half env st e"
    using assms(5) e(1) same \<open>key_state e' \<le> Active\<close> by (auto simp: ring_ready_def)
  ultimately show "has_private_half env st' e'"
    by (simp add: has_private_half_def same(1))
qed

lemma create_ring: "ks_ring (snd (create env m now signing st)) = ks_ring st"
  by (simp add: create_def Let_def split: option.splits sum.splits)

lemmas stage_ring_splits = if_splits prod.splits sum.splits

lemma stages_keep_ring:
  "ks_ring (snd (ensure_first env m now p st)) = ks_ring st"
  "ks_ring (snd (adopt_algorithm env m now p st)) = ks_ring st"
  "ks_ring (snd (publish_successor env m now p st)) = ks_ring st"
  using create_ring [of env m now True st] create_ring [of env m now False st]
  by (auto simp: ensure_first_def adopt_algorithm_def publish_successor_def Let_def split: stage_ring_splits)

text \<open>
  How a pass can go: a stage fails and the ring file is what it was, or every stage before the last
  succeeded, with what they establish.
\<close>

definition pass_done ::
    "key_env \<Rightarrow> DirectoryKeyManager \<Rightarrow> u64 \<Rightarrow> KeyStore \<Rightarrow> Entry list \<times> Maintenance \<Rightarrow> KeyStore \<Rightarrow> bool" where
  "pass_done env m now st p st1 \<longleftrightarrow>
     extends env m now (ring_of st) st (fst p) st1 \<and> reported (ring_of st, no_maintenance) p
     \<and> one_active (fst p) \<and> distinct (map kid (fst p)) \<and> ring_ready env st1 (fst p)
     \<and> ks_ring st1 = ks_ring st"

lemma maintain_after_adopting:
  assumes "ring_wf env st" "fresh_names env m st (ring_of st)" "read_ring_in (ks_ring st) = Inr r"
    and first: "ensure_first env m now (ring_keys r, no_maintenance) st = (Inr p1, st1)"
    and adopt: "adopt_algorithm env m now p1 st1 = (Inr p2, st2)"
  shows "(\<exists>e st4. maintain env m now st = Some (Inl e, st4) \<and> ks_ring st4 = ks_ring st)
     \<or> (\<exists>v p st4. maintain env m now st = Some (finish_pass env m now v p st4) \<and> pass_done env m now st p st4)"
proof -
  have ring: "ring_of st = ring_keys r" using assms(3) by (simp add: ring_of_def)
  obtain p3 where p3: "activate_due (seconds_ahead m) now p2 = Some p3"
    "\<And>p4 st4. publish_successor env m now p3 st2 = (Inr p4, st4) \<Longrightarrow>
      extends env m now (ring_of st) st (fst p4) st4 \<and> reported (ring_of st, no_maintenance) p4
      \<and> one_active (fst p4) \<and> distinct (map kid (fst p4)) \<and> ring_ready env st4 (fst p4)"
    using pass_before_ageing [OF first adopt] assms(1,2) unfolding ring_wf_def ring by metis
  obtain z st4 where publish: "publish_successor env m now p3 st2 = (z, st4)"
    by (cases "publish_successor env m now p3 st2")
  have kept: "ks_ring st4 = ks_ring st"
    using stages_keep_ring(1) [of env m now "(ring_keys r, no_maintenance)" st] first adopt publish
      stages_keep_ring(2) [of env m now p1 st1] stages_keep_ring(3) [of env m now p3 st2] by simp
  show ?thesis
  proof (cases z)
    case (Inl e)
    then show ?thesis using kept publish p3(1) adopt first assms(3) by (simp add: maintain_def)
  next
    case (Inr p4)
    with p3(2) publish kept have "pass_done env m now st p4 st4" by (simp add: pass_done_def)
    moreover have "maintain env m now st = Some (finish_pass env m now (ring_version r) p4 st4)"
      using Inr publish p3(1) adopt first assms(3) by (simp add: maintain_def)
    ultimately show ?thesis by blast
  qed
qed

lemma maintain_stages:
  assumes "ring_wf env st" "fresh_names env m st (ring_of st)"
  obtains (early) e st1 where "maintain env m now st = Some (Inl e, st1)" "ks_ring st1 = ks_ring st"
  | (late) v p st1 where "maintain env m now st = Some (finish_pass env m now v p st1)"
      "pass_done env m now st p st1"
proof -
  from assms(1) obtain r where r: "read_ring_in (ks_ring st) = Inr r"
    by (auto simp: ring_wf_def is_ok_def split: sum.splits)
  obtain x st1 where first: "ensure_first env m now (ring_keys r, no_maintenance) st = (x, st1)"
    by (cases "ensure_first env m now (ring_keys r, no_maintenance) st")
  then have ring1: "ks_ring st1 = ks_ring st"
    using stages_keep_ring(1) [of env m now "(ring_keys r, no_maintenance)" st] by simp
  show ?thesis
  proof (cases x)
    case (Inl e)
    with first r ring1 show ?thesis by (intro early [of e st1]) (simp_all add: maintain_def)
  next
    case (Inr p1)
    obtain y st2 where adopt: "adopt_algorithm env m now p1 st1 = (y, st2)"
      by (cases "adopt_algorithm env m now p1 st1")
    then have ring2: "ks_ring st2 = ks_ring st"
      using stages_keep_ring(2) [of env m now p1 st1] ring1 by simp
    show ?thesis
    proof (cases y)
      case e: (Inl e)
      with Inr first adopt r ring2 show ?thesis by (intro early [of e st2]) (simp_all add: maintain_def)
    next
      case p2: (Inr p2)
      show ?thesis
        using maintain_after_adopting [OF assms r first [unfolded Inr] adopt [unfolded p2]] early late
        by blast
    qed
  qed
qed

lemma maintain_done:
  assumes "ring_wf env st" "fresh_names env m st (ring_of st)"
    "maintain env m now st = Some (Inr rep, st')"
  obtains p st1 where "pass_done env m now st p st1" "ring_wf env st'" "one_active (ring_of st')"
    "ring_of st' = map (age_entry m now) (filter (\<lambda>e. \<not> expirable m now e) (fst p))"
  using assms(1,2)
proof (cases rule: maintain_stages [where now = now])
  case (late v p st1)
  then have fin: "finish_pass env m now v p st1 = (Inr rep, st')" using assms(3) by simp
  have ok: "is_ok (read_ring_in (ks_ring st1))" "ring_of st1 = ring_of st"
    using assms(1) late(2) by (simp_all add: ring_wf_def pass_done_def ring_of_def)
  have p: "distinct (map kid (fst p))" "reported (ring_of st1, no_maintenance) p" "one_active (fst p)"
    "ring_ready env st1 (fst p)"
    using late(2) ok(2) by (simp_all add: pass_done_def)
  note ended = finish_pass_Inr [OF fin p(1,2) ok(1)]
  have "one_active (ring_of st')"
    unfolding ended(1) by (rule age_out_one_active [OF p(1,3)])
  moreover have "distinct (map kid (ring_of st'))"
    using p(1) unfolding ended(1) age_out_keys [OF p(1)] by (simp add: comp_def distinct_map_filter)
  moreover have "ring_ready env st' (ring_of st')"
    by (rule finish_pass_ready [OF fin p(1,2) ok(1) p(4)])
  ultimately show ?thesis
    using that [OF late(2)] ended(1,2) age_out_keys [OF p(1)]
    by (simp add: ring_wf_def one_active_def at_most_one_active_def)
qed (use assms(3) in simp)

subsection \<open>Consequences\<close>

lemma key_step_retired_at:
  "key_step m now e e' \<Longrightarrow> retired_at e' = retired_at e \<or> retired_at e' = Some now"
  by (auto simp: key_step_simps)

lemma moves_retired_at:
  "moves m now e e' \<Longrightarrow> retired_at e' = retired_at e \<or> retired_at e' = Some now"
  unfolding moves_def by (induction rule: rtranclp_induct) (auto dest: key_step_retired_at)

lemma moves_to_active:
  assumes "moves m now e e'" "key_state e' = Active"
  shows "e' = e \<or> is_due (seconds_ahead m) now e"
  using assms unfolding moves_def
proof (induction rule: converse_rtranclp_induct)
  case (step e1 e2)
  then have "key_state e2 \<le> Active"
    using moves_forward [of m now e2 e'] by (auto simp: moves_def)
  with step show ?case
    by (auto simp: key_step_simps is_due_def past_retain_def less_eq_KeyState_def split: option.splits)
qed simp

lemma expirable_retired_at:
  assumes "expirable m now e"
  obtains t where "retired_at e = Some t" "saturating_add t (seconds_verify_retained m) \<le> now"
proof -
  have "seconds_verify_retained m = seconds_retained m" if "\<not> has_archive_phase m"
    using that by (auto simp: has_archive_phase_def seconds_verify_retained_def seconds_retained_def max_def)
  then show ?thesis
    using assms that
    by (auto simp: expirable_def past_verify_retain_def past_retain_def split: option.splits)
qed

lemma saturating_add_gt: "0 < b \<Longrightarrow> a \<noteq> - 1 \<Longrightarrow> \<not> saturating_add a b \<le> a"
  by (simp add: saturating_add_le_iff word_greater_zero_iff unat_gt_0 not_le)

lemma pass_done_old:
  assumes "pass_done env m now st p st1" "e \<in> set (ring_of st)"
  obtains e' where "e' \<in> set (fst p)" "moves m now e e'"
proof -
  from assms(1) obtain new where all: "list_all2 (moves m now) (ring_of st @ new) (fst p)"
    by (auto simp: pass_done_def extends_def)
  from assms(2) obtain i where i: "i < length (ring_of st)" "ring_of st ! i = e"
    by (auto simp: in_set_conv_nth)
  with all have "moves m now e (fst p ! i)" "i < length (fst p)"
    by (auto simp: list_all2_conv_all_nth nth_append dest!: spec [of _ i])
  with that [of "fst p ! i"] show ?thesis by simp
qed

lemma pass_done_new:
  assumes "pass_done env m now st p st1" "e' \<in> set (fst p)"
  obtains e where "moves m now e e'" "e \<in> set (ring_of st) \<or> born m now e"
proof -
  from assms(1) obtain new where
    all: "list_all2 (moves m now) (ring_of st @ new) (fst p)" "\<forall>e \<in> set new. born m now e"
    by (auto simp: pass_done_def extends_def)
  from assms(2) obtain i where i: "i < length (fst p)" "fst p ! i = e'"
    by (auto simp: in_set_conv_nth)
  with all have "moves m now ((ring_of st @ new) ! i) e'" "i < length (ring_of st @ new)"
    by (auto simp: list_all2_conv_all_nth)
  moreover from this(2) have "(ring_of st @ new) ! i \<in> set (ring_of st) \<or> born m now ((ring_of st @ new) ! i)"
    using all(2) nth_mem [of i "ring_of st @ new"] by auto
  ultimately show ?thesis using that by blast
qed

lemma sign_active:
  assumes "ring_wf env st" "one_active (ring_of st)"
    "\<And>name. \<not> env_fault env (ReadPem name)" "\<And>pair. env_sign env pair payload \<noteq> None"
  shows "\<exists>made e. fst (sign env m payload st) = Inr made \<and> e \<in> set (ring_of st)
     \<and> key_state e = Active \<and> sig_key_id made = kid e"
proof -
  from assms(1) obtain r where r: "read_ring_in (ks_ring st) = Inr r" "ring_of st = ring_keys r"
    by (auto simp: ring_wf_def ring_of_def is_ok_def split: sum.splits)
  have "filter (\<lambda>e. key_state e = Active) (ring_keys r) \<noteq> []"
    using assms(2) by (auto simp: one_active_def r(2))
  then obtain e where e: "find (\<lambda>e. key_state e = Active) (ring_keys r) = Some e"
    by (metis (mono_tags, lifting) filter_empty_conv find_None_iff option.exhaust)
  then have in_ring: "e \<in> set (ring_keys r)" "key_state e = Active"
    by (auto simp: find_Some_iff)
  then have "has_private_half env st e"
    using assms(1) by (simp add: ring_wf_def ring_ready_def r(2))
  then obtain pkcs8 where key: "ks_pems st (kid e) = Some (pem PEM_LABEL pkcs8)"
    "env_public env (algorithm e) pkcs8 \<noteq> None" by (auto simp: has_private_half_def)
  have named: "find (\<lambda>d. kid d = kid e) (ring_keys r) = Some e"
  proof -
    have "\<exists>d. find (\<lambda>d. kid d = kid e) (ring_keys r) = Some d"
      using in_ring(1) by (metis (mono_tags, lifting) find_None_iff option.exhaust)
    then obtain d where d: "find (\<lambda>d. kid d = kid e) (ring_keys r) = Some d" ..
    then have "d \<in> set (ring_keys r)" "kid d = kid e" by (auto simp: find_Some_iff)
    with in_ring assms(1) have "d = e"
      unfolding ring_wf_def r(2) by (metis distinct_map inj_onD)
    with d show ?thesis by simp
  qed
  have label: "newline \<notin> set PEM_LABEL" by (simp add: PEM_LABEL_def newline_def)
  have "\<exists>pair. fst (signer env m (kid e) st) = Inr pair"
    using key assms(3) r(1) named
    by (auto simp: signer_def from_pem_inverse [OF label] from_pkcs8_def split: option.splits)
  then obtain pair st' where pair: "signer env m (kid e) st = (Inr pair, st')"
    by (metis prod.collapse)
  obtain made where "env_sign env pair payload = Some made" using assms(4) by blast
  with pair e r(1) have "fst (sign env m payload st)
      = Inr \<lparr>sig_key_id = kid e, sig_algorithm = jose (pair_algorithm pair), sig_bytes = made\<rparr>"
    by (simp add: sign_def active_key_id_def pair_sign_def)
  with in_ring r(2) show ?thesis by auto
qed

subsection \<open>A ring to run\<close>

text \<open>A ring with a retired, an active and a waiting key, and an environment in which nothing fails.\<close>

definition demo_env :: key_env where
  "demo_env = \<lparr>env_generate = (\<lambda>alg n. Some [of_nat n]), env_public = (\<lambda>alg b. Some b),
     env_sign = (\<lambda>pair b. Some b), env_sha256 = (\<lambda>b. take 4 (rev b)), env_fault = (\<lambda>f. False)\<rparr>"

definition demo_manager :: DirectoryKeyManager where
  "demo_manager = \<lparr>mgr_policy = \<lparr>publish_ahead = 10, rotate_every = 100, retain = 20, verify_retain = 50\<rparr>,
     mgr_algorithm = Ed25519\<rparr>"

definition demo_entry :: "string \<Rightarrow> KeyState \<Rightarrow> u64 \<Rightarrow> u64 option \<Rightarrow> u64 option \<Rightarrow> Entry" where
  "demo_entry name s made started stopped =
     \<lparr>kid = name, key_state = s, algorithm = Ed25519, public_key = ''AA'', created_at = made,
      activated_at = started, retired_at = stopped\<rparr>"

definition demo_keys :: "Entry list" where
  "demo_keys =
     [demo_entry ''a'' Retired 0 (Some 0) (Some 170), demo_entry ''b'' Active 90 (Some 100) None,
      demo_entry ''c'' Published 190 None None]"

definition demo_store :: KeyStore where
  "demo_store = \<lparr>ks_ring = RingHolds \<lparr>ring_version = 1, ring_keys = demo_keys\<rparr>,
     ks_pems = (\<lambda>k. Some (pem PEM_LABEL [1])), ks_signers = (\<lambda>k. None), ks_drawn = 0\<rparr>"

definition demo_report :: Maintenance where
  "demo_report =
     \<lparr>rep_published = 0, rep_activated = 1, rep_retired = 1, rep_archived = 1, rep_forgotten = 0\<rparr>"

lemma demo_ring_of: "ring_of demo_store = demo_keys"
  by (simp add: ring_of_def demo_store_def read_ring_in_def)

lemma demo_ring_wf: "ring_wf demo_env demo_store"
proof -
  have "ring_ready demo_env demo_store demo_keys"
    by (auto simp: ring_ready_def has_private_half_def demo_store_def demo_env_def)
  moreover have "is_ok (read_ring_in (ks_ring demo_store)) \<and> distinct (map kid demo_keys)
      \<and> at_most_one_active demo_keys"
    by (simp add: demo_store_def demo_keys_def demo_entry_def read_ring_in_def is_ok_def at_most_one_active_def)
  ultimately show ?thesis by (simp add: ring_wf_def demo_ring_of)
qed

lemma demo_fresh_names: "fresh_names demo_env demo_manager demo_store (ring_of demo_store)"
  unfolding demo_ring_of by code_simp

lemma demo_pass:
  obtains st' where "maintain demo_env demo_manager 200 demo_store = Some (Inr demo_report, st')"
proof -
  have "map_option fst (maintain demo_env demo_manager 200 demo_store) = Some (Inr demo_report)"
    by code_simp
  then show ?thesis using that by (auto simp: prod_eq_iff)
qed

lemmas demo_run = demo_ring_wf demo_fresh_names

text \<open>A ring whose keys are of another kind than the one it is now told to sign with.\<close>

definition moved_keys :: "Entry list" where
  "moved_keys =
     [demo_entry ''b'' Active 90 (Some 100) None\<lparr>algorithm := Es256\<rparr>,
      demo_entry ''c'' Published 190 None None\<lparr>algorithm := Es256\<rparr>]"

definition moved_store :: KeyStore where
  "moved_store = demo_store\<lparr>ks_ring := RingHolds \<lparr>ring_version = 1, ring_keys = moved_keys\<rparr>\<rparr>"

definition moved_pass :: "Entry list \<times> Maintenance" where
  "moved_pass =
     ([demo_entry ''b'' Retired 90 (Some 100) (Some 200)\<lparr>algorithm := Es256\<rparr>,
       demo_entry ''c'' Active 190 (Some 200) None\<lparr>algorithm := Es256\<rparr>,
       demo_entry ''fSJBQQ'' Retired 200 (Some 200) (Some 200)],
      \<lparr>rep_published = 1, rep_activated = 2, rep_retired = 2, rep_archived = 0, rep_forgotten = 0\<rparr>)"

lemma moved_finish:
  "fst (finish_pass demo_env demo_manager 200 v moved_pass st) = Inr (snd moved_pass)"
  "ring_of (snd (finish_pass demo_env demo_manager 200 v moved_pass st)) = fst moved_pass"
proof -
  have "to_archive demo_manager 200 (fst moved_pass) = []" "to_forget demo_manager 200 (fst moved_pass) = []"
    by code_simp+
  then show "fst (finish_pass demo_env demo_manager 200 v moved_pass st) = Inr (snd moved_pass)"
    "ring_of (snd (finish_pass demo_env demo_manager 200 v moved_pass st)) = fst moved_pass"
    by (simp_all add: finish_pass_def age_out_def moved_pass_def maintenance_is_empty_def write_ring_def
      demo_env_def ring_of_def read_ring_in_def)
qed

lemma moved_maintain:
  "\<exists>rep st'. maintain demo_env demo_manager 200 moved_store = Some (Inr rep, st') \<and> ring_of st' = fst moved_pass"
proof -
  let ?new = "demo_entry ''fSJBQQ'' Active 200 (Some 200) None"
  define p1 where "p1 = ([demo_entry ''b'' Retired 90 (Some 100) (Some 200)\<lparr>algorithm := Es256\<rparr>,
       demo_entry ''c'' Published 190 None None\<lparr>algorithm := Es256\<rparr>, ?new],
       \<lparr>rep_published = 1, rep_activated = 1, rep_retired = 1, rep_archived = 0, rep_forgotten = 0\<rparr>)"
  have "fst (adopt_algorithm demo_env demo_manager 200 (moved_keys, no_maintenance) moved_store) = Inr p1"
    unfolding p1_def by code_simp
  then obtain st1 where adopt:
    "adopt_algorithm demo_env demo_manager 200 (moved_keys, no_maintenance) moved_store = (Inr p1, st1)"
    by (metis prod.collapse)
  have first: "ensure_first demo_env demo_manager 200 (moved_keys, no_maintenance) moved_store
      = (Inr (moved_keys, no_maintenance), moved_store)"
    by (simp add: ensure_first_def moved_keys_def)
  have due: "activate_due (seconds_ahead demo_manager) 200 p1 = Some moved_pass"
    unfolding p1_def by code_simp
  have "\<not> successor_due demo_manager 200 (fst moved_pass)" by code_simp
  then have succ: "publish_successor demo_env demo_manager 200 moved_pass st1 = (Inr moved_pass, st1)"
    by (simp add: publish_successor_def moved_pass_def)
  have "read_ring_in (ks_ring moved_store) = Inr \<lparr>ring_version = 1, ring_keys = moved_keys\<rparr>"
    by (simp add: moved_store_def read_ring_in_def)
  then have "maintain demo_env demo_manager 200 moved_store
      = Some (finish_pass demo_env demo_manager 200 1 moved_pass st1)"
    by (simp add: maintain_def first adopt due succ)
  then show ?thesis using moved_finish [of 1 st1] by (metis prod.collapse)
qed

section \<open>Properties\<close>

text \<open>
  C24: a pass of the key lifecycle always returns. The source's hand-over \<open>loop\<close> has no bound of its
  own; it ends because each turn takes one key out of the published state, which needs the names of
  the ring to be distinct and the names of the keys the pass creates to be new.
\<close>

theorem maintain_returns:
  assumes "ring_wf env st" "fresh_names env m st (ring_of st)"
  shows "\<exists>result st'. maintain env m now st = Some (result, st')"
  using assms by (cases rule: maintain_stages [where now = now]) (metis prod.collapse)+

theorem maintain_returns_witness:
  "\<exists>result st'. maintain demo_env demo_manager 200 demo_store = Some (result, st')"
  by (rule maintain_returns [OF demo_run])

text \<open>
  C23: a pass that succeeds leaves a well-formed ring in which exactly one key is active, and every
  key that signs or is about to has its private half on disk.
\<close>

theorem maintain_leaves_one_active:
  assumes "ring_wf env st" "fresh_names env m st (ring_of st)"
    "maintain env m now st = Some (Inr rep, st')"
  shows "one_active (ring_of st') \<and> ring_wf env st'"
  using maintain_done [OF assms] by metis

theorem maintain_leaves_one_active_witness:
  "\<exists>st'. maintain demo_env demo_manager 200 demo_store = Some (Inr demo_report, st')
     \<and> one_active (ring_of st') \<and> ring_wf demo_env st'"
  using maintain_leaves_one_active [OF demo_run] demo_pass by metis

text \<open>
  Refinement. After a pass every entry of the ring is an entry it held before, moved along the
  life of a key, or one born in this pass and moved along; and every entry it held is either still
  there, moved along, or reached a point where it could be dropped.
\<close>

theorem maintain_refines_lifecycle:
  assumes "ring_wf env st" "fresh_names env m st (ring_of st)"
    "maintain env m now st = Some (Inr rep, st')"
  shows "(\<forall>e' \<in> set (ring_of st'). \<exists>e. moves m now e e' \<and> (e \<in> set (ring_of st) \<or> born m now e))
     \<and> (\<forall>e \<in> set (ring_of st).
          (\<exists>e' \<in> set (ring_of st'). moves m now e e') \<or> (\<exists>e'. moves m now e e' \<and> expirable m now e'))"
proof -
  from assms obtain p st1 where p: "pass_done env m now st p st1"
    and ring: "ring_of st' = map (age_entry m now) (filter (\<lambda>e. \<not> expirable m now e) (fst p))"
    by (rule maintain_done)
  have "\<exists>e. moves m now e e' \<and> (e \<in> set (ring_of st) \<or> born m now e)" if "e' \<in> set (ring_of st')" for e'
  proof -
    from that obtain d where d: "d \<in> set (fst p)" "e' = age_entry m now d" by (auto simp: ring)
    from p d(1) obtain e where "moves m now e d" "e \<in> set (ring_of st) \<or> born m now e"
      by (rule pass_done_new)
    then show ?thesis using d(2) age_entry_moves moves_trans by metis
  qed
  moreover have "(\<exists>e' \<in> set (ring_of st'). moves m now e e') \<or> (\<exists>e'. moves m now e e' \<and> expirable m now e')"
    if "e \<in> set (ring_of st)" for e
  proof -
    from p that obtain d where "d \<in> set (fst p)" "moves m now e d" by (rule pass_done_old)
    then show ?thesis using age_entry_moves moves_trans by (fastforce simp: ring)
  qed
  ultimately show ?thesis by blast
qed

theorem maintain_refines_lifecycle_witness:
  "\<exists>st'. maintain demo_env demo_manager 200 demo_store = Some (Inr demo_report, st')
     \<and> (\<forall>e' \<in> set (ring_of st'). \<exists>e. moves demo_manager 200 e e'
          \<and> (e \<in> set demo_keys \<or> born demo_manager 200 e))"
proof -
  obtain st' where "maintain demo_env demo_manager 200 demo_store = Some (Inr demo_report, st')"
    by (rule demo_pass)
  with maintain_refines_lifecycle [OF demo_run this] show ?thesis by (auto simp: demo_ring_of)
qed

lemma pass_keeps_key:
  assumes "ring_wf env st" "fresh_names env m st (ring_of st)"
    "maintain env m now st = Some (Inr rep, st')"
    "e \<in> set (ring_of st)" "0 < seconds_verify_retained m" "now \<noteq> - 1"
    "\<forall>t. retired_at e = Some t \<longrightarrow> now < saturating_add t (seconds_verify_retained m)"
  shows "\<exists>e' \<in> set (ring_of st'). kid e' = kid e \<and> to_jwk e' = to_jwk e"
proof -
  from assms(1-3) obtain p st1 where p: "pass_done env m now st p st1"
    and ring: "ring_of st' = map (age_entry m now) (filter (\<lambda>e. \<not> expirable m now e) (fst p))"
    by (rule maintain_done)
  from p assms(4) obtain d where d: "d \<in> set (fst p)" "moves m now e d" by (rule pass_done_old)
  have "\<not> expirable m now d"
  proof
    assume "expirable m now d"
    then obtain t where t: "retired_at d = Some t" "saturating_add t (seconds_verify_retained m) \<le> now"
      by (rule expirable_retired_at)
    have "retired_at e = Some t \<or> t = now"
      using moves_retired_at [OF d(2)] t(1) by auto
    with t(2) assms(5-7) show False by (auto simp: saturating_add_gt not_le [symmetric])
  qed
  then have "age_entry m now d \<in> set (ring_of st')" using d(1) by (simp add: ring)
  moreover have "kid (age_entry m now d) = kid e \<and> to_jwk (age_entry m now d) = to_jwk e"
    using moves_forward [OF moves_trans [OF d(2) age_entry_moves]]
    by (cases "algorithm e") (simp_all add: to_jwk_def)
  ultimately show ?thesis by blast
qed

lemma wf_public_keys: "ring_wf env st \<Longrightarrow> public_keys st = Inr (map to_jwk (ring_of st))"
  by (auto simp: ring_wf_def ring_of_def public_keys_def is_ok_def split: sum.splits)

text \<open>
  C25: a signature keeps verifying. A pass never drops a key from the published set before the whole
  verification time has passed since it stopped signing: a key retired at \<open>t\<close> stays while
  \<open>t + verify_retain\<close> is in the future, and a key that was still signing, or waiting to, stays.
\<close>

theorem maintain_keeps_verifiable_keys:
  assumes "ring_wf env st" "fresh_names env m st (ring_of st)"
    "maintain env m now st = Some (Inr rep, st')"
    "e \<in> set (ring_of st)" "0 < seconds_verify_retained m" "now \<noteq> - 1"
    "\<forall>t. retired_at e = Some t \<longrightarrow> now < saturating_add t (seconds_verify_retained m)"
  shows "\<exists>e' \<in> set (ring_of st'). kid e' = kid e \<and> to_jwk e' = to_jwk e"
  using assms by (rule pass_keeps_key)

theorem maintain_keeps_verifiable_keys_witness:
  "\<exists>st'. maintain demo_env demo_manager 200 demo_store = Some (Inr demo_report, st')
     \<and> (\<exists>e' \<in> set (ring_of st'). kid e' = ''a'')"
proof -
  let ?e = "demo_entry ''a'' Retired 0 (Some 0) (Some 170)"
  obtain st' where st': "maintain demo_env demo_manager 200 demo_store = Some (Inr demo_report, st')"
    by (rule demo_pass)
  have "?e \<in> set (ring_of demo_store)" by (simp add: demo_ring_of demo_keys_def)
  moreover have "0 < seconds_verify_retained demo_manager" by code_simp
  moreover have "(200 :: u64) \<noteq> - 1" by simp
  moreover have "\<forall>t. retired_at ?e = Some t \<longrightarrow> 200 < saturating_add t (seconds_verify_retained demo_manager)"
    by (simp add: demo_entry_def seconds_verify_retained_def demo_manager_def saturating_add_def max_def)
  ultimately have "\<exists>e' \<in> set (ring_of st'). kid e' = kid ?e \<and> to_jwk e' = to_jwk ?e"
    by (rule maintain_keeps_verifiable_keys [OF demo_run st'])
  with st' show ?thesis by (auto simp: demo_entry_def)
qed

text \<open>
  Publishing ahead. A key that is active after a pass was active before it, or had been published
  for at least \<open>publish_ahead\<close>, or was created by this very pass.
\<close>

theorem maintain_publishes_ahead:
  assumes "ring_wf env st" "fresh_names env m st (ring_of st)"
    "maintain env m now st = Some (Inr rep, st')"
    "e' \<in> set (ring_of st')" "key_state e' = Active"
  shows "e' \<in> set (ring_of st)
     \<or> (\<exists>e \<in> set (ring_of st). kid e = kid e' \<and> key_state e = Published
          \<and> saturating_add (created_at e) (seconds_ahead m) \<le> now)
     \<or> created_at e' = now \<and> algorithm e' = mgr_algorithm m"
proof -
  from assms(1-3) obtain p st1 where p: "pass_done env m now st p st1"
    and ring: "ring_of st' = map (age_entry m now) (filter (\<lambda>e. \<not> expirable m now e) (fst p))"
    by (rule maintain_done)
  from assms(4) obtain d where d: "d \<in> set (fst p)" "e' = age_entry m now d" by (auto simp: ring)
  from p d(1) obtain e where "moves m now e d" and from_ring: "e \<in> set (ring_of st) \<or> born m now e"
    by (rule pass_done_new)
  then have moved: "moves m now e e'" using d(2) age_entry_moves moves_trans by metis
  show ?thesis
  proof (cases "e \<in> set (ring_of st)")
    case True
    with moves_to_active [OF moved assms(5)] moves_forward [OF moved] show ?thesis
      by (auto simp: is_due_def)
  next
    case False
    with from_ring moves_forward [OF moved] show ?thesis by (auto simp: born_def)
  qed
qed

theorem maintain_publishes_ahead_witness:
  "\<exists>st' e'. maintain demo_env demo_manager 200 demo_store = Some (Inr demo_report, st')
     \<and> e' \<in> set (ring_of st') \<and> key_state e' = Active
     \<and> (e' \<in> set demo_keys
        \<or> (\<exists>e \<in> set demo_keys. kid e = kid e' \<and> key_state e = Published
             \<and> saturating_add (created_at e) (seconds_ahead demo_manager) \<le> 200)
        \<or> created_at e' = 200 \<and> algorithm e' = mgr_algorithm demo_manager)"
proof -
  obtain st' where st': "maintain demo_env demo_manager 200 demo_store = Some (Inr demo_report, st')"
    by (rule demo_pass)
  have "map_option (ring_of \<circ> snd) (maintain demo_env demo_manager 200 demo_store)
      = Some [(demo_entry ''a'' Archived 0 (Some 0) (Some 170)), demo_entry ''b'' Retired 90 (Some 100) (Some 200),
         demo_entry ''c'' Active 190 (Some 200) None]" by code_simp
  then have "demo_entry ''c'' Active 190 (Some 200) None \<in> set (ring_of st')" by (simp add: st')
  moreover have "key_state (demo_entry ''c'' Active 190 (Some 200) None) = Active"
    by (simp add: demo_entry_def)
  ultimately show ?thesis
    using maintain_publishes_ahead [OF demo_run st'] st' unfolding demo_ring_of by blast
qed

text \<open>
  C26: a ring that was maintained signs. After a pass that succeeds, \<open>sign\<close> returns a signature that
  names the active key, and that key is in the published set; file reads and the signature primitive
  are taken not to fail.
\<close>

theorem maintained_ring_signs:
  assumes "ring_wf env st" "fresh_names env m st (ring_of st)"
    "maintain env m now st = Some (Inr rep, st')"
    "\<And>name. \<not> env_fault env (ReadPem name)" "\<And>pair. env_sign env pair payload \<noteq> None"
  shows "\<exists>made published. fst (sign env m payload st') = Inr made \<and> public_keys st' = Inr published
     \<and> sig_key_id made \<in> set (map jwk_kid published)"
proof -
  have wf: "ring_wf env st'" "one_active (ring_of st')"
    using maintain_done [OF assms(1-3)] by metis+
  from sign_active [OF wf assms(4,5)] obtain made e where
    made: "fst (sign env m payload st') = Inr made" "e \<in> set (ring_of st')" "sig_key_id made = kid e"
    by blast
  have "public_keys st' = Inr (map to_jwk (ring_of st'))" using wf(1) by (rule wf_public_keys)
  moreover have "jwk_kid (to_jwk e) = kid e"
    by (auto simp: to_jwk_def okp_def ec_def split: RingAlgorithm.splits prod.splits)
  ultimately show ?thesis using made by (intro exI [of _ made]) force
qed

theorem maintained_ring_signs_witness:
  "\<exists>st' made published. maintain demo_env demo_manager 200 demo_store = Some (Inr demo_report, st')
     \<and> fst (sign demo_env demo_manager [7] st') = Inr made \<and> public_keys st' = Inr published
     \<and> sig_key_id made \<in> set (map jwk_kid published)"
proof -
  obtain st' where st': "maintain demo_env demo_manager 200 demo_store = Some (Inr demo_report, st')"
    by (rule demo_pass)
  have "\<not> env_fault demo_env (ReadPem name)" "env_sign demo_env pair [7] \<noteq> None" for name pair
    by (simp_all add: demo_env_def)
  from maintained_ring_signs [OF demo_run st' this] st' show ?thesis by blast
qed

text \<open>
  A second pass at the same instant is not always empty. A key retired longer ago than the
  whole verification time is archived by the first pass and forgotten by the second, although the
  contract of \<open>maintain\<close> says that calling it twice in a row does nothing the second time.
\<close>

theorem maintain_is_not_idempotent:
  "\<exists>env m now st rep1 st1 rep2 st2. ring_wf env st \<and> fresh_names env m st (ring_of st)
     \<and> maintain env m now st = Some (Inr rep1, st1) \<and> maintain env m now st1 = Some (Inr rep2, st2)
     \<and> rep_forgotten rep2 = 1"
proof -
  let ?keys = "[demo_entry ''a'' Retired 0 (Some 0) (Some 100), demo_entry ''b'' Active 90 (Some 190) None]"
  let ?st = "demo_store\<lparr>ks_ring := RingHolds \<lparr>ring_version = 1, ring_keys = ?keys\<rparr>\<rparr>"
  let ?pass = "maintain demo_env demo_manager 200"
  have ring: "ring_of ?st = ?keys" by (simp add: ring_of_def read_ring_in_def)
  have "ring_wf demo_env ?st"
    by (auto simp: ring_wf_def ring_of_def is_ok_def read_ring_in_def at_most_one_active_def ring_ready_def
      has_private_half_def demo_entry_def demo_store_def demo_env_def)
  moreover have "fresh_names demo_env demo_manager ?st (ring_of ?st)" unfolding ring by code_simp
  moreover have "(case ?pass ?st of Some (Inr _, st1) \<Rightarrow>
      (case ?pass st1 of Some (Inr rep2, _) \<Rightarrow> rep_forgotten rep2 | _ \<Rightarrow> 0) | _ \<Rightarrow> 0) = 1"
    by code_simp
  then have "\<exists>rep1 st1 rep2 st2. ?pass ?st = Some (Inr rep1, st1) \<and> ?pass st1 = Some (Inr rep2, st2)
      \<and> rep_forgotten rep2 = 1"
    by (auto split: option.splits sum.splits prod.splits)
  ultimately show ?thesis by blast
qed

text \<open>
  Adopting a new algorithm can be undone by the same pass. When a key of the old kind is waiting
  and due, the hand-over loop makes it the active one after the key of the configured algorithm was
  created, so the ring goes on signing with the algorithm it was told to leave.
\<close>

theorem waiting_key_undoes_algorithm_change:
  "\<exists>env m now st rep st' e. ring_wf env st \<and> fresh_names env m st (ring_of st)
     \<and> maintain env m now st = Some (Inr rep, st') \<and> e \<in> set (ring_of st')
     \<and> key_state e = Active \<and> algorithm e \<noteq> mgr_algorithm m"
proof -
  let ?e = "demo_entry ''c'' Active 190 (Some 200) None\<lparr>algorithm := Es256\<rparr>"
  have ring: "ring_of moved_store = moved_keys" by (simp add: ring_of_def read_ring_in_def moved_store_def)
  have "ring_wf demo_env moved_store"
    by (auto simp: ring_wf_def ring_of_def is_ok_def read_ring_in_def at_most_one_active_def moved_store_def
      moved_keys_def ring_ready_def has_private_half_def demo_entry_def demo_store_def demo_env_def)
  moreover have "fresh_names demo_env demo_manager moved_store (ring_of moved_store)"
    unfolding ring by code_simp
  moreover have "?e \<in> set (fst moved_pass)" by (simp add: moved_pass_def)
  moreover have "key_state ?e = Active \<and> algorithm ?e \<noteq> mgr_algorithm demo_manager"
    by (simp add: demo_entry_def demo_manager_def)
  ultimately show ?thesis using moved_maintain by metis
qed

end
