(* ===== verification/Decimal.thy ===== *)
theory Decimal
  imports Prelude
begin

text \<open>
  Decimal numbers as the standard library prints and parses them: \<open>{}\<close> and \<open>{:0w}\<close> of an integer,
  and \<open>str::parse\<close> for the integer types. What is printed parses back, zero padding included.
\<close>

section \<open>Definitions\<close>

fun digits_of :: "nat \<Rightarrow> string" where
  "digits_of n =
     (if n < 10 then [char_of (48 + n)] else digits_of (n div 10) @ [char_of (48 + n mod 10)])"

declare digits_of.simps [simp del]

text \<open>\<open>{:0w}\<close>: the sign counts toward the width and the zeroes follow it.\<close>

definition pad_zeroes :: "nat \<Rightarrow> string \<Rightarrow> string" where
  "pad_zeroes w s = replicate (w - length s) CHR ''0'' @ s"

definition show_padded :: "nat \<Rightarrow> int \<Rightarrow> string" where
  "show_padded w i =
     (if i < 0 then CHR ''-'' # pad_zeroes (w - 1) (digits_of (nat (- i)))
      else pad_zeroes w (digits_of (nat i)))"

definition digit_value :: "char \<Rightarrow> nat option" where
  "digit_value c = (if 48 \<le> (of_char c :: nat) \<and> of_char c \<le> (57 :: nat) then Some (of_char c - 48) else None)"

fun parse_digits :: "nat \<Rightarrow> string \<Rightarrow> nat option" where
  "parse_digits acc [] = Some acc"
| "parse_digits acc (c # cs) =
     (case digit_value c of None \<Rightarrow> None | Some d \<Rightarrow> parse_digits (10 * acc + d) cs)"

definition parse_nat :: "string \<Rightarrow> nat option" where
  "parse_nat s = (if s = [] then None else parse_digits 0 s)"

definition drop_plus :: "string \<Rightarrow> string" where
  "drop_plus s = (case s of c # cs \<Rightarrow> if c = CHR ''+'' then cs else s | [] \<Rightarrow> [])"

text \<open>\<open>str::parse\<close> of an unsigned type of \<open>w\<close> bits, and of \<open>i64\<close>.\<close>

definition parse_unsigned :: "nat \<Rightarrow> string \<Rightarrow> nat option" where
  "parse_unsigned w s =
     (case parse_nat (drop_plus s) of
        None \<Rightarrow> None
      | Some n \<Rightarrow> if n div 2 ^ w = 0 then Some n else None)"

definition parse_i64 :: "string \<Rightarrow> int option" where
  "parse_i64 s =
     (let negative = (case s of c # _ \<Rightarrow> c = CHR ''-'' | [] \<Rightarrow> False)
      in case parse_nat (if negative then tl s else drop_plus s) of
           None \<Rightarrow> None
         | Some n \<Rightarrow>
             (let i = (if negative then - int n else int n)
              in if - 9223372036854775808 \<le> i \<and> i < 9223372036854775808 then Some i else None))"

section \<open>Lemmas\<close>

text \<open>For evaluation the bound is computed on integers.\<close>

lemma parse_unsigned_code [code]:
  "parse_unsigned w s =
     (case parse_nat (drop_plus s) of
        None \<Rightarrow> None
      | Some n \<Rightarrow> if int n div 2 ^ w = 0 then Some n else None)"
proof -
  have "int n div 2 ^ w = int (n div 2 ^ w)" for n by (simp add: zdiv_int)
  then show ?thesis by (simp add: parse_unsigned_def split: option.splits)
qed

lemma digit_value_char_of: "n < 10 \<Longrightarrow> digit_value (char_of (48 + n)) = Some n"
  by (simp add: digit_value_def)

lemma parse_digits_append:
  "parse_digits acc (s @ t) = (case parse_digits acc s of None \<Rightarrow> None | Some v \<Rightarrow> parse_digits v t)"
  by (induction s arbitrary: acc) (auto split: option.splits)

lemma parse_digits_digits_of: "parse_digits 0 (digits_of n) = Some n"
proof (induction n rule: digits_of.induct)
  case (1 n)
  show ?case
  proof (cases "n < 10")
    case True
    then show ?thesis by (simp add: digits_of.simps [of n] digit_value_char_of)
  next
    case False
    have "digit_value (char_of (48 + n mod 10)) = Some (n mod 10)" by (simp add: digit_value_char_of)
    with 1 [OF False] False show ?thesis
      by (simp add: digits_of.simps [of n] parse_digits_append)
  qed
qed

lemma parse_digits_zeroes [simp]: "parse_digits 0 (replicate k CHR ''0'' @ s) = parse_digits 0 s"
  by (induction k) (simp_all add: digit_value_def)

lemma digits_of_nonempty [simp]: "digits_of n \<noteq> []"
  by (subst digits_of.simps) simp

lemma digits_of_digits: "c \<in> set (digits_of n) \<Longrightarrow> 48 \<le> (of_char c :: nat) \<and> of_char c \<le> (57 :: nat)"
proof (induction n rule: digits_of.induct)
  case (1 n)
  have "of_char (char_of (48 + n mod 10) :: char) = 48 + n mod 10" by (simp add: less_imp_le_nat)
  with 1 show ?case by (cases "n < 10") (auto simp: digits_of.simps [of n])
qed

lemma pad_zeroes_nonempty [simp]: "pad_zeroes w (digits_of n) \<noteq> []"
  by (simp add: pad_zeroes_def)

lemma parse_nat_padded: "parse_nat (pad_zeroes w (digits_of n)) = Some n"
  using pad_zeroes_nonempty [of w n] by (simp add: parse_nat_def pad_zeroes_def parse_digits_digits_of)

lemma pad_zeroes_digits: "c \<in> set (pad_zeroes w (digits_of n)) \<Longrightarrow> 48 \<le> (of_char c :: nat) \<and> of_char c \<le> (57 :: nat)"
  using digits_of_digits by (auto simp: pad_zeroes_def)

lemma pad_zeroes_no_sign:
  "CHR ''-'' \<notin> set (pad_zeroes w (digits_of n))" "CHR ''+'' \<notin> set (pad_zeroes w (digits_of n))"
  using pad_zeroes_digits [of "CHR ''-''" w n] pad_zeroes_digits [of "CHR ''+''" w n] by auto

lemma drop_plus_padded [simp]: "drop_plus (pad_zeroes w (digits_of n)) = pad_zeroes w (digits_of n)"
  using pad_zeroes_no_sign(2) [of w n] by (auto simp: drop_plus_def split: list.splits)

lemma parse_unsigned_padded: "n < 2 ^ k \<Longrightarrow> parse_unsigned k (pad_zeroes w (digits_of n)) = Some n"
  by (simp add: parse_unsigned_def parse_nat_padded)

lemma parse_i64_padded:
  assumes "0 \<le> i" "i < 9223372036854775808"
  shows "parse_i64 (show_padded w i) = Some i"
proof -
  have "(case pad_zeroes w (digits_of (nat i)) of c # _ \<Rightarrow> c = CHR ''-'' | [] \<Rightarrow> False) = False"
    using pad_zeroes_no_sign(1) [of w "nat i"] by (auto split: list.splits)
  with assms show ?thesis by (simp add: parse_i64_def show_padded_def parse_nat_padded)
qed

end
