(* ===== verification/Strings.thy ===== *)
theory Strings
  imports Prelude
begin

text \<open>
  The \<open>str\<close> methods of the standard library that work character by character: a string is its UTF-8
  bytes, and \<open>utf8_chars\<close> groups the bytes of each character. Trimming removes the characters with the
  Unicode white-space property; the ASCII operations leave every other character alone.
\<close>

section \<open>Definitions\<close>

text \<open>The characters of a \<open>str\<close>, each as the bytes that encode it.\<close>

definition continues_char :: "char \<Rightarrow> bool" where
  "continues_char c \<longleftrightarrow> is_continuation (of_char c)"

function utf8_chars :: "string \<Rightarrow> string list" where
  "utf8_chars [] = []"
| "utf8_chars (c # cs) = (c # takeWhile continues_char cs) # utf8_chars (dropWhile continues_char cs)"
  by pat_completeness auto
termination
  by (relation "measure length") (auto simp: le_imp_less_Suc length_dropWhile_le)

definition whitespace_char :: "string \<Rightarrow> bool" where
  "whitespace_char ch \<longleftrightarrow>
     (case utf8_decode (map of_char ch) of Some [c] \<Rightarrow> is_whitespace c | _ \<Rightarrow> False)"

text \<open>\<open>str::trim_start_matches\<close> and \<open>str::trim_end_matches\<close> with a predicate, and \<open>str::trim\<close>.\<close>

definition drop_end_while :: "('a \<Rightarrow> bool) \<Rightarrow> 'a list \<Rightarrow> 'a list" where
  "drop_end_while p xs = rev (dropWhile p (rev xs))"

definition trim :: "string \<Rightarrow> string" where
  "trim s = concat (drop_end_while whitespace_char (dropWhile whitespace_char (utf8_chars s)))"

text \<open>\<open>str::to_ascii_lowercase\<close> and \<open>str::eq_ignore_ascii_case\<close>.\<close>

definition ascii_lower :: "char \<Rightarrow> char" where
  "ascii_lower c = (if 65 \<le> (of_char c :: nat) \<and> of_char c \<le> (90 :: nat) then char_of (of_char c + 32 :: nat) else c)"

definition to_ascii_lowercase :: "string \<Rightarrow> string" where
  "to_ascii_lowercase s = map ascii_lower s"

definition eq_ignore_ascii_case :: "string \<Rightarrow> string \<Rightarrow> bool" where
  "eq_ignore_ascii_case s t \<longleftrightarrow> to_ascii_lowercase s = to_ascii_lowercase t"

text \<open>\<open>char::is_ascii_hexdigit\<close>.\<close>

definition is_ascii_hexdigit :: "char \<Rightarrow> bool" where
  "is_ascii_hexdigit c \<longleftrightarrow>
     (let n = (of_char c :: nat) in 48 \<le> n \<and> n \<le> 57 \<or> 65 \<le> n \<and> n \<le> 70 \<or> 97 \<le> n \<and> n \<le> 102)"

text \<open>\<open>str::strip_suffix\<close> with a set of characters.\<close>

definition strip_last :: "char set \<Rightarrow> string \<Rightarrow> string option" where
  "strip_last cs s = (if s \<noteq> [] \<and> last s \<in> cs then Some (butlast s) else None)"

section \<open>Lemmas\<close>

lemma concat_utf8_chars: "concat (utf8_chars s) = s"
  by (induction s rule: utf8_chars.induct) simp_all

lemma utf8_chars_Nil_iff [simp]: "utf8_chars s = [] \<longleftrightarrow> s = []"
  by (cases s) simp_all

lemma ascii_not_continues: "of_char c < (128 :: nat) \<Longrightarrow> \<not> continues_char c"
  by (simp add: continues_char_def is_continuation_def)

text \<open>A character boundary is where the next byte does not continue a character.\<close>

lemma utf8_chars_append:
  assumes "t = [] \<or> \<not> continues_char (hd t)"
  shows "utf8_chars (s @ t) = utf8_chars s @ utf8_chars t"
proof (induction s rule: utf8_chars.induct)
  case (2 c cs)
  have "takeWhile continues_char (cs @ t) = takeWhile continues_char cs
      \<and> dropWhile continues_char (cs @ t) = dropWhile continues_char cs @ t"
    using assms by (induction cs) (cases t; auto)+
  with 2 show ?case by simp
qed simp

lemma utf8_chars_ascii: "is_ascii s \<Longrightarrow> utf8_chars s = map (\<lambda>c. [c]) s"
proof (induction s)
  case (Cons c cs)
  then have "takeWhile continues_char cs = [] \<and> dropWhile continues_char cs = cs"
    by (cases cs) (simp_all add: is_ascii_def ascii_not_continues)
  with Cons show ?case by (simp add: is_ascii_def)
qed simp

lemma drop_end_while_id: "xs = [] \<or> \<not> p (last xs) \<Longrightarrow> drop_end_while p xs = xs"
  by (cases xs rule: rev_cases) (auto simp: drop_end_while_def)

lemma drop_end_while_last: "drop_end_while p xs \<noteq> [] \<Longrightarrow> \<not> p (last (drop_end_while p xs))"
proof -
  assume "drop_end_while p xs \<noteq> []"
  then have "dropWhile p (rev xs) \<noteq> []" by (simp add: drop_end_while_def)
  then show ?thesis by (metis drop_end_while_def hd_dropWhile last_rev)
qed

lemma trim_keeps:
  assumes "s = [] \<or> \<not> whitespace_char (hd (utf8_chars s)) \<and> \<not> whitespace_char (last (utf8_chars s))"
  shows "trim s = s"
proof (cases "s = []")
  case False
  then have "dropWhile whitespace_char (utf8_chars s) = utf8_chars s"
    using assms by (cases "utf8_chars s") auto
  moreover have "drop_end_while whitespace_char (utf8_chars s) = utf8_chars s"
    using assms False by (intro drop_end_while_id) simp
  ultimately show ?thesis by (simp add: trim_def concat_utf8_chars)
qed (simp add: trim_def drop_end_while_def)

text \<open>What trimming left alone has no white space at its ends.\<close>

lemma utf8_chars_pieces: "ch \<in> set (utf8_chars s) \<Longrightarrow> ch \<noteq> []"
  by (induction s rule: utf8_chars.induct) auto

lemma length_concat_drop:
  "concat (drop_end_while p (dropWhile p xs)) = concat xs \<Longrightarrow> \<forall>x \<in> set xs. x \<noteq> []
   \<Longrightarrow> xs \<noteq> [] \<Longrightarrow> \<not> p (hd xs) \<and> \<not> p (last xs)"
proof -
  assume same: "concat (drop_end_while p (dropWhile p xs)) = concat xs"
    and ne: "\<forall>x \<in> set xs. x \<noteq> []" "xs \<noteq> []"
  let ?d = "dropWhile p xs"
  have "xs = takeWhile p xs @ drop_end_while p ?d @ rev (takeWhile p (rev ?d))"
    by (metis drop_end_while_def rev_append rev_rev_ident takeWhile_dropWhile_id)
  from arg_cong [where f = concat, OF this] same
  have "concat (takeWhile p xs) @ concat (drop_end_while p ?d) @ concat (rev (takeWhile p (rev ?d)))
      = concat (drop_end_while p ?d)" by simp
  from arg_cong [where f = length, OF this]
  have "concat (takeWhile p xs) = [] \<and> concat (rev (takeWhile p (rev ?d))) = []" by simp
  moreover have "set (takeWhile p xs) \<subseteq> set xs" "set (takeWhile p (rev ?d)) \<subseteq> set xs"
    by (auto dest!: set_takeWhileD set_dropWhileD)
  ultimately have none: "takeWhile p xs = []" "takeWhile p (rev ?d) = []"
    using ne(1) by (metis concat_eq_Nil_conv last_in_set subsetD, metis concat_eq_Nil_conv last_in_set set_rev subsetD)
  have "\<not> p (hd xs)" using none(1) ne(2) by (cases xs) (auto split: if_splits)
  moreover from this have "?d = xs" using ne(2) by (cases xs) auto
  then have "\<not> p (hd (rev xs))" using none(2) ne(2) by (cases "rev xs") (auto split: if_splits)
  ultimately show ?thesis by (simp add: hd_rev)
qed

lemma trim_fixed:
  "trim s = s \<Longrightarrow> s \<noteq> [] \<Longrightarrow>
   \<not> whitespace_char (hd (utf8_chars s)) \<and> \<not> whitespace_char (last (utf8_chars s))"
  by (rule length_concat_drop) (simp_all add: trim_def concat_utf8_chars utf8_chars_pieces)

subsection \<open>Trimming twice\<close>

definition char_groups :: "string list \<Rightarrow> bool" where
  "char_groups gs \<longleftrightarrow> (\<forall>g \<in> set gs. g \<noteq> [] \<and> (\<forall>c \<in> set (tl g). continues_char c))
     \<and> (\<forall>g \<in> set (tl gs). \<not> continues_char (hd g))"

lemma char_groups_Cons:
  "char_groups (g # gs) \<longleftrightarrow> g \<noteq> [] \<and> (\<forall>c \<in> set (tl g). continues_char c)
     \<and> (gs = [] \<or> \<not> continues_char (hd (hd gs))) \<and> char_groups gs"
  by (cases gs) (auto simp: char_groups_def)

lemma char_groups_utf8_chars: "char_groups (utf8_chars s)"
proof (induction s rule: utf8_chars.induct)
  case (2 c cs)
  have "\<not> continues_char (hd (hd (utf8_chars (dropWhile continues_char cs))))" if "dropWhile continues_char cs \<noteq> []"
    using that hd_dropWhile [OF that] by (cases "dropWhile continues_char cs") auto
  with 2 show ?case by (auto simp: char_groups_Cons dest: set_takeWhileD)
qed (simp add: char_groups_def)

lemma utf8_chars_concat: "char_groups gs \<Longrightarrow> utf8_chars (concat gs) = gs"
proof (induction gs)
  case (Cons g gs)
  then obtain c cs where g: "g = c # cs" "\<forall>c \<in> set cs. continues_char c"
    by (cases g) (auto simp: char_groups_Cons)
  have next_start: "concat gs = [] \<or> \<not> continues_char (hd (concat gs))"
    using Cons.prems by (cases gs) (auto simp: char_groups_Cons)
  then have "takeWhile continues_char (cs @ concat gs) = cs \<and> dropWhile continues_char (cs @ concat gs) = concat gs"
    using g(2) takeWhile_append2 [of cs continues_char "concat gs"] dropWhile_append2 [of cs continues_char "concat gs"]
    by (cases "concat gs" rule: list.exhaust) (auto simp del: concat_eq_Nil_conv Nil_eq_concat_conv)
  with Cons g show ?case by (simp add: char_groups_Cons)
qed simp

lemma char_groups_appendD: "char_groups (xs @ ys) \<Longrightarrow> char_groups xs \<and> char_groups ys"
proof (induction xs)
  case (Cons g xs)
  then show ?case by (cases xs) (simp_all add: char_groups_Cons)
qed (simp add: char_groups_def)

lemma utf8_chars_trim: "utf8_chars (trim s) = drop_end_while whitespace_char (dropWhile whitespace_char (utf8_chars s))"
proof -
  let ?d = "dropWhile whitespace_char (utf8_chars s)"
  have "char_groups ?d"
    using char_groups_utf8_chars [of s] char_groups_appendD by (metis takeWhile_dropWhile_id)
  moreover have "?d = drop_end_while whitespace_char ?d @ rev (takeWhile whitespace_char (rev ?d))"
    by (metis drop_end_while_def rev_append rev_rev_ident takeWhile_dropWhile_id)
  ultimately have "char_groups (drop_end_while whitespace_char ?d)" by (metis char_groups_appendD)
  then show ?thesis by (simp add: trim_def utf8_chars_concat)
qed

lemma trim_ends:
  assumes "trim s \<noteq> []"
  shows "\<not> whitespace_char (hd (utf8_chars (trim s)))" "\<not> whitespace_char (last (utf8_chars (trim s)))"
proof -
  let ?d = "dropWhile whitespace_char (utf8_chars s)"
  have ne: "drop_end_while whitespace_char ?d \<noteq> []" using assms by (metis utf8_chars_Nil_iff utf8_chars_trim)
  then show "\<not> whitespace_char (last (utf8_chars (trim s)))" by (simp add: utf8_chars_trim drop_end_while_last)
  have "?d = drop_end_while whitespace_char ?d @ rev (takeWhile whitespace_char (rev ?d))"
    by (metis drop_end_while_def rev_append rev_rev_ident takeWhile_dropWhile_id)
  with ne have "hd (drop_end_while whitespace_char ?d) = hd ?d" "?d \<noteq> []"
    by (metis hd_append2, metis append_is_Nil_conv)
  with hd_dropWhile show "\<not> whitespace_char (hd (utf8_chars (trim s)))" by (metis utf8_chars_trim)
qed

lemma trim_trim [simp]: "trim (trim s) = trim s"
  using trim_ends [of s] by (intro trim_keeps) blast

text \<open>A graphic ASCII character in front of a trimmed string.\<close>

lemma last_utf8_chars_Cons:
  assumes "of_char a < (128 :: nat)" "x \<noteq> []" "\<not> whitespace_char (last (utf8_chars x))"
  shows "\<not> whitespace_char (last (utf8_chars (a # x)))"
proof (cases "dropWhile continues_char x = []")
  case False
  then have split: "last (utf8_chars (a # x)) = last (utf8_chars (dropWhile continues_char x))"
    by (simp del: dropWhile_eq_Nil_conv)
  obtain c cs where x: "x = c # cs" using assms(2) by (cases x) auto
  show ?thesis
  proof (cases "continues_char c")
    case True
    with False x have "last (utf8_chars x) = last (utf8_chars (dropWhile continues_char x))"
      by (simp del: dropWhile_eq_Nil_conv)
    with split assms(3) show ?thesis by simp
  next
    case False
    with split x assms(3) show ?thesis by simp
  qed
next
  case True
  then have "continues_char (hd x)" using assms(2) by (cases x) (auto split: if_splits)
  then have "utf8_decode (map of_char x) = None" using assms(2)
    by (cases x) (auto simp: continues_char_def is_continuation_def)
  moreover have "utf8_chars (a # x) = [a # x]"
    using True by (simp add: takeWhile_eq_all_conv)
  ultimately show ?thesis using assms(1) by (simp add: whitespace_char_def del: utf8_chars.simps)
qed

lemma trim_prefixed:
  assumes "\<forall>c \<in> set p. 32 < (of_char c :: nat) \<and> of_char c < (128 :: nat)" "length p \<ge> 2"
    and "trim x = x" "x \<noteq> []"
  shows "trim (p @ x) = p @ x"
proof -
  have "\<not> whitespace_char (last (utf8_chars (p @ x)))"
    using assms(1) trim_ends(2) [of x] assms(3,4)
    by (induction p) (simp_all add: last_utf8_chars_Cons del: utf8_chars.simps)
  moreover obtain a b q where p: "p = a # b # q" using assms(2) by (cases p rule: remdups_adj.cases) auto
  have "\<not> continues_char b" using assms(1) p by (simp add: ascii_not_continues)
  then have "hd (utf8_chars (p @ x)) = [a]" by (simp add: p)
  moreover have "\<not> whitespace_char [a]"
    using assms(1) p by (simp add: whitespace_char_def is_whitespace_def)
  ultimately show ?thesis by (intro trim_keeps) simp
qed

end
