(* ===== verification/AuditEvents.thy ===== *)
theory AuditEvents
  imports Decimal Strings
begin

text \<open>
  What an audit event says and how a person in it is rendered: \<open>crates/pic-x-core/src/audit.rs\<close>,
  \<open>redact.rs\<close> and \<open>pseudonym.rs\<close>, with the pseudonymiser, the tracing sink and the recording sink
  of \<open>crates/pic-x-std\<close>.

  A sink is a function of an event, the privacy policy in force and the sink's state. The locale
  \<open>private_sink\<close> is the privacy promise of the \<open>AuditSink\<close> contract: what a sink does depends on a
  person only through the rendering of that person. It is interpreted on every sink of the
  workspace, and gives that a whole run of events is the same for two runs that differ only in who
  the people are.
\<close>

section \<open>Definitions\<close>

subsection \<open>Redaction\<close>

definition MASK :: string where "MASK = ''********''"
definition MAX_TAIL :: nat where "MAX_TAIL = 4"

record Masked =
  masked_value :: string
  masked_keep :: nat

definition masked_full :: "string \<Rightarrow> Masked" where
  "masked_full v = \<lparr>masked_value = v, masked_keep = 0\<rparr>"

definition masked_tail :: "string \<Rightarrow> nat \<Rightarrow> Masked" where
  "masked_tail v keep =
     (let keep = min keep MAX_TAIL
      in \<lparr>masked_value = v, masked_keep = (if length (utf8_chars v) > keep then keep else 0)\<rparr>)"

definition masked_render :: "Masked \<Rightarrow> string" where
  "masked_render m =
     (if masked_keep m = 0 then MASK
      else MASK @ concat (drop (length (utf8_chars (masked_value m)) - masked_keep m)
                               (utf8_chars (masked_value m))))"

subsection \<open>Pseudonyms\<close>

definition TOKEN_BYTES :: nat where "TOKEN_BYTES = 16"

definition hex_digit :: "nat \<Rightarrow> char" where
  "hex_digit n = (if n < 10 then char_of (48 + n) else char_of (87 + n))"

definition hex :: "bytes \<Rightarrow> string" where
  "hex bs = concat (map (\<lambda>b. [hex_digit (unat b div 16), hex_digit (unat b mod 16)]) bs)"

text \<open>
  A policy is what \<open>pseudonymize\<close> does under the key in force. The MAC itself is a parameter; it
  takes keys of every length, as its type's documentation says, so the source's other branch is dead.
\<close>

type_synonym policy = "string \<Rightarrow> string"

record HmacPseudonymizer =
  pseudonym_key :: bytes
  key_version :: string

definition pseudonymize :: "(bytes \<Rightarrow> bytes \<Rightarrow> bytes) \<Rightarrow> HmacPseudonymizer \<Rightarrow> policy" where
  "pseudonymize hmac_sha256 p v =
     key_version p @ '':'' @ hex (take TOKEN_BYTES (hmac_sha256 (pseudonym_key p) (as_bytes v)))"

subsection \<open>Events\<close>

datatype AuditDestination = ToTracing | ToFile

datatype Sensitivity = Public | Pseudonymous | Personal

fun sensitivity_as_str :: "Sensitivity \<Rightarrow> string" where
  "sensitivity_as_str Public = ''public''"
| "sensitivity_as_str Pseudonymous = ''pseudonymous''"
| "sensitivity_as_str Personal = ''personal''"

datatype Subject = System string | Principal string | Continuity string | Capability string | Anonymous

fun subject_value :: "Subject \<Rightarrow> string option" where
  "subject_value (System v) = Some v"
| "subject_value (Principal v) = Some v"
| "subject_value (Continuity v) = Some v"
| "subject_value (Capability v) = Some v"
| "subject_value Anonymous = None"

fun sensitivity :: "Subject \<Rightarrow> Sensitivity" where
  "sensitivity (System _) = Public"
| "sensitivity Anonymous = Public"
| "sensitivity (Continuity _) = Pseudonymous"
| "sensitivity (Capability _) = Pseudonymous"
| "sensitivity (Principal _) = Personal"

definition is_personal :: "Subject \<Rightarrow> bool" where
  "is_personal s \<longleftrightarrow> sensitivity s = Personal"

fun subject_kind :: "Subject \<Rightarrow> string" where
  "subject_kind (System _) = ''system''"
| "subject_kind (Principal _) = ''principal''"
| "subject_kind (Continuity _) = ''continuity''"
| "subject_kind (Capability _) = ''capability''"
| "subject_kind Anonymous = ''anonymous''"

fun subject_display :: "Subject \<Rightarrow> string" where
  "subject_display (System v) = v"
| "subject_display (Continuity v) = v"
| "subject_display (Capability v) = v"
| "subject_display (Principal v) = masked_render (masked_full v)"
| "subject_display Anonymous = ''-''"

fun subject_render :: "Subject \<Rightarrow> policy option \<Rightarrow> string" where
  "subject_render (Principal v) (Some p) = p v"
| "subject_render s _ = subject_display s"

record AuditEvent =
  ev_action :: string
  ev_subject :: Subject
  ev_target :: "string option"
  ev_continuity_id :: "string option"
  ev_continuity_position :: "u64 option"

definition new_event :: "string \<Rightarrow> Subject \<Rightarrow> AuditEvent" where
  "new_event action s =
     \<lparr>ev_action = action, ev_subject = s, ev_target = None, ev_continuity_id = None,
      ev_continuity_position = None\<rparr>"

definition on_target :: "string \<Rightarrow> AuditEvent \<Rightarrow> AuditEvent" where
  "on_target t e = e\<lparr>ev_target := Some t\<rparr>"

definition with_continuity_id :: "string \<Rightarrow> AuditEvent \<Rightarrow> AuditEvent" where
  "with_continuity_id c e = e\<lparr>ev_continuity_id := Some c\<rparr>"

definition at_continuity_position :: "u64 \<Rightarrow> AuditEvent \<Rightarrow> AuditEvent" where
  "at_continuity_position n e = e\<lparr>ev_continuity_position := Some n\<rparr>"

datatype audit_error = AuditUnavailable string | AuditBackend string

text \<open>\<open>AuditSink::record\<close>: an event and the privacy policy in force, on the state of the sink.\<close>

type_synonym 's audit_sink = "AuditEvent \<Rightarrow> policy option \<Rightarrow> 's \<Rightarrow> (audit_error + unit) \<times> 's"

subsection \<open>The tracing sink and the recording sink\<close>

record tracing_record =
  tr_service_name :: string
  tr_service_version :: string
  tr_action :: string
  tr_subject :: string
  tr_subject_kind :: string
  tr_subject_sensitivity :: string
  tr_target :: "string option"
  tr_continuity_id :: "string option"
  tr_continuity_position :: "u64 option"

record TracingAuditSink =
  tracing_name :: string
  tracing_version :: string

definition tracing_sink_record ::
    "TracingAuditSink \<Rightarrow> AuditEvent \<Rightarrow> policy option \<Rightarrow> tracing_record list
     \<Rightarrow> (audit_error + unit) \<times> tracing_record list" where
  "tracing_sink_record sink e policy stream =
     (Inr (), stream @ [\<lparr>tr_service_name = tracing_name sink, tr_service_version = tracing_version sink,
        tr_action = ev_action e, tr_subject = subject_render (ev_subject e) policy,
        tr_subject_kind = subject_kind (ev_subject e),
        tr_subject_sensitivity = sensitivity_as_str (sensitivity (ev_subject e)),
        tr_target = ev_target e, tr_continuity_id = ev_continuity_id e,
        tr_continuity_position = ev_continuity_position e\<rparr>])"

definition recording_sink_record ::
    "AuditEvent \<Rightarrow> policy option \<Rightarrow> (string \<times> string) list \<Rightarrow> (audit_error + unit) \<times> (string \<times> string) list" where
  "recording_sink_record e policy events =
     (Inr (), events @ [(ev_action e, subject_render (ev_subject e) policy)])"

subsection \<open>Runs of a sink\<close>

fun record_all ::
    "(AuditEvent \<Rightarrow> policy option \<Rightarrow> 's \<Rightarrow> (audit_error + unit) \<times> 's) \<Rightarrow> policy option
     \<Rightarrow> AuditEvent list \<Rightarrow> 's \<Rightarrow> (audit_error + unit) list \<times> 's" where
  "record_all rec policy [] s = ([], s)"
| "record_all rec policy (e # es) s =
     (case rec e policy s of (r, s) \<Rightarrow> (case record_all rec policy es s of (rs, s) \<Rightarrow> (r # rs, s)))"

text \<open>Two events that say the same, except perhaps who the person is.\<close>

definition same_but_person :: "policy option \<Rightarrow> AuditEvent \<Rightarrow> AuditEvent \<Rightarrow> bool" where
  "same_but_person policy e f \<longleftrightarrow>
     e\<lparr>ev_subject := Anonymous\<rparr> = f\<lparr>ev_subject := Anonymous\<rparr>
     \<and> (ev_subject e = ev_subject f
        \<or> (is_personal (ev_subject e) \<and> is_personal (ev_subject f)
           \<and> subject_render (ev_subject e) policy = subject_render (ev_subject f) policy))"

section \<open>Lemmas\<close>

lemma is_personal_iff: "is_personal s \<longleftrightarrow> (\<exists>v. s = Principal v)"
  by (cases s) (simp_all add: is_personal_def)

lemma same_but_person_same_fields:
  assumes "same_but_person policy e f"
  shows "ev_action e = ev_action f" "ev_target e = ev_target f" "ev_continuity_id e = ev_continuity_id f"
    "ev_continuity_position e = ev_continuity_position f"
    "subject_render (ev_subject e) policy = subject_render (ev_subject f) policy"
    "subject_kind (ev_subject e) = subject_kind (ev_subject f)"
    "sensitivity (ev_subject e) = sensitivity (ev_subject f)"
  using assms by (cases e; cases f; auto simp: same_but_person_def is_personal_iff)+

locale private_sink =
  fixes rec :: "AuditEvent \<Rightarrow> policy option \<Rightarrow> 's \<Rightarrow> (audit_error + unit) \<times> 's"
  assumes blind: "same_but_person policy e f \<Longrightarrow> rec e policy s = rec f policy s"
begin

lemma runs_blind:
  "list_all2 (same_but_person policy) es fs \<Longrightarrow> record_all rec policy es s = record_all rec policy fs s"
  by (induction arbitrary: s rule: list_all2_induct) (simp_all add: blind split: prod.splits)

lemma people_unseen:
  assumes "list_all (\<lambda>(e, f). e\<lparr>ev_subject := Anonymous\<rparr> = f\<lparr>ev_subject := Anonymous\<rparr>
      \<and> (ev_subject e = ev_subject f \<or> is_personal (ev_subject e) \<and> is_personal (ev_subject f))) (zip es fs)"
    "length es = length fs"
  shows "record_all rec None es s = record_all rec None fs s"
proof (rule runs_blind, rule list_all2_all_nthI [OF assms(2)])
  fix i
  assume "i < length es"
  then show "same_but_person None (es ! i) (fs ! i)"
    using assms
    by (force simp: list_all_length same_but_person_def is_personal_iff masked_full_def masked_render_def)
qed

end

interpretation tracing_sink: private_sink "tracing_sink_record sink" for sink
  by unfold_locales (simp add: tracing_sink_record_def same_but_person_same_fields)

interpretation recording_sink: private_sink recording_sink_record
  by unfold_locales (simp add: recording_sink_record_def same_but_person_same_fields)

lemma masked_tail_bounded:
  "\<exists>k \<le> MAX_TAIL. masked_render (masked_tail v n) = MASK @ concat (drop (length (utf8_chars v) - k) (utf8_chars v))
     \<and> (v \<noteq> [] \<longrightarrow> k < length (utf8_chars v))"
proof -
  let ?k = "masked_keep (masked_tail v n)"
  have "v \<noteq> [] \<Longrightarrow> 0 < length (utf8_chars v)" by (cases v) simp_all
  then have "?k \<le> MAX_TAIL" "v \<noteq> [] \<longrightarrow> ?k < length (utf8_chars v)"
    by (auto simp: masked_tail_def Let_def)
  moreover have "masked_render (masked_tail v n) = MASK @ concat (drop (length (utf8_chars v) - ?k) (utf8_chars v))"
    by (simp add: masked_render_def masked_tail_def Let_def)
  ultimately show ?thesis by blast
qed

end
