(* ===== verification/Civil.thy ===== *)
theory Civil
  imports Decimal
begin

text \<open>
  Calendar arithmetic: \<open>crates/pic-x-std/src/audit/civil.rs\<close>.

  \<open>i64\<close> is \<open>int\<close> here: for the day numbers a clock of 64-bit seconds gives, no intermediate value
  leaves the type. Its division rounds toward zero and is written out as \<open>i64_div\<close>; the months and
  days of a date are \<open>nat\<close>, with the cast to 32 bits written out.

  \<open>next_date\<close> is the calendar as everybody knows it. The lemmas show that the closed-form
  \<open>date_of\<close> counts exactly that calendar, day by day, in both directions from the epoch, that
  \<open>days_of\<close> is its inverse, and that the text of a date reads back.
\<close>

section \<open>Definitions\<close>

definition DAY :: int where "DAY = 86400"
definition EPOCH_SHIFT :: int where "EPOCH_SHIFT = 719468"

record Date =
  date_year :: int
  date_month :: nat
  date_day :: nat

definition i64_div :: "int \<Rightarrow> int \<Rightarrow> int" where
  "i64_div a b = (if a < 0 then - ((- a) div b) else a div b)"

definition as_u32 :: "int \<Rightarrow> nat" where
  "as_u32 i = nat (i mod 4294967296)"

definition to_iso :: "Date \<Rightarrow> string" where
  "to_iso d =
     show_padded 4 (date_year d) @ ''-'' @ show_padded 2 (int (date_month d))
       @ ''-'' @ show_padded 2 (int (date_day d))"

definition from_iso :: "string \<Rightarrow> Date option" where
  "from_iso txt =
     (case split_on CHR ''-'' txt of
        y # m # d # rest \<Rightarrow>
          (case (parse_i64 y, parse_unsigned 32 m, parse_unsigned 32 d) of
             (Some year, Some month, Some day) \<Rightarrow>
               if rest \<noteq> [] \<or> \<not> (1 \<le> month \<and> month \<le> 12) \<or> \<not> (1 \<le> day \<and> day \<le> 31) then None
               else Some \<lparr>date_year = year, date_month = month, date_day = day\<rparr>
           | _ \<Rightarrow> None)
      | _ \<Rightarrow> None)"

definition day_of :: "int \<Rightarrow> int" where
  "day_of seconds = seconds div DAY"

definition date_of :: "int \<Rightarrow> Date" where
  "date_of days =
     (let shifted = days + EPOCH_SHIFT;
          era = i64_div (if shifted \<ge> 0 then shifted else shifted - 146096) 146097;
          day_of_era = shifted - era * 146097;
          year_of_era =
            i64_div (day_of_era - i64_div day_of_era 1460 + i64_div day_of_era 36524
                     - i64_div day_of_era 146096) 365;
          year = year_of_era + era * 400;
          day_of_year = day_of_era - (365 * year_of_era + i64_div year_of_era 4 - i64_div year_of_era 100);
          shifted_month = i64_div (5 * day_of_year + 2) 153;
          day = as_u32 (day_of_year - i64_div (153 * shifted_month + 2) 5 + 1);
          month = as_u32 (if shifted_month < 10 then shifted_month + 3 else shifted_month - 9)
      in \<lparr>date_year = (if month \<le> 2 then year + 1 else year), date_month = month, date_day = day\<rparr>)"

definition days_of :: "Date \<Rightarrow> int" where
  "days_of d =
     (let year = (if date_month d \<le> 2 then date_year d - 1 else date_year d);
          era = i64_div (if year \<ge> 0 then year else year - 399) 400;
          year_of_era = year - era * 400;
          shifted_month = (if date_month d > 2 then int (date_month d) - 3 else int (date_month d) + 9);
          day_of_year = i64_div (153 * shifted_month + 2) 5 + int (date_day d) - 1;
          day_of_era = year_of_era * 365 + i64_div year_of_era 4 - i64_div year_of_era 100 + day_of_year
      in era * 146097 + day_of_era - EPOCH_SHIFT)"

definition to_rfc3339 :: "int \<Rightarrow> string" where
  "to_rfc3339 seconds =
     (let time = seconds mod DAY
      in to_iso (date_of (day_of seconds)) @ ''T'' @ show_padded 2 (time div 3600) @ '':''
           @ show_padded 2 (time mod 3600 div 60) @ '':'' @ show_padded 2 (time mod 60) @ ''Z'')"

subsection \<open>The calendar\<close>

definition leap :: "int \<Rightarrow> bool" where
  "leap y \<longleftrightarrow> y mod 4 = 0 \<and> (y mod 100 \<noteq> 0 \<or> y mod 400 = 0)"

definition days_in_month :: "int \<Rightarrow> nat \<Rightarrow> nat" where
  "days_in_month y m =
     (if m = 2 then if leap y then 29 else 28
      else if m = 4 \<or> m = 6 \<or> m = 9 \<or> m = 11 then 30 else 31)"

definition valid_date :: "Date \<Rightarrow> bool" where
  "valid_date d \<longleftrightarrow> 1 \<le> date_month d \<and> date_month d \<le> 12 \<and> 1 \<le> date_day d
     \<and> date_day d \<le> days_in_month (date_year d) (date_month d)"

definition next_date :: "Date \<Rightarrow> Date" where
  "next_date d =
     (if date_day d < days_in_month (date_year d) (date_month d) then d\<lparr>date_day := Suc (date_day d)\<rparr>
      else if date_month d < 12 then d\<lparr>date_month := Suc (date_month d), date_day := 1\<rparr>
      else \<lparr>date_year = date_year d + 1, date_month = 1, date_day = 1\<rparr>)"

section \<open>Lemmas\<close>

subsection \<open>Years that start in March\<close>

text \<open>
  The day on which the year that starts in March of \<open>y\<close> begins, counted from March of year 0, and
  the place of a date in its year.
\<close>

definition year_start :: "int \<Rightarrow> int" where
  "year_start y = 365 * y + y div 4 - y div 100 + y div 400"

definition month_start :: "int \<Rightarrow> int" where
  "month_start m = (153 * m + 2) div 5"

definition march_year :: "Date \<Rightarrow> int" where
  "march_year d = (if date_month d \<le> 2 then date_year d - 1 else date_year d)"

definition march_month :: "Date \<Rightarrow> int" where
  "march_month d = (if date_month d > 2 then int (date_month d) - 3 else int (date_month d) + 9)"

definition march_day :: "Date \<Rightarrow> int" where
  "march_day d = month_start (march_month d) + int (date_day d) - 1"

lemma i64_div_nonneg [simp]: "0 \<le> a \<Longrightarrow> i64_div a b = a div b"
  by (simp add: i64_div_def)

lemma i64_div_floor:
  assumes "0 < b"
  shows "i64_div (if a \<ge> 0 then a else a - (b - 1)) b = a div b"
proof (cases "a \<ge> 0")
  case False
  have "a div b * b \<le> a" "a < a div b * b + b"
    using assms div_mult_mod_eq [of a b] pos_mod_bound [of b a] pos_mod_sign [of b a] by linarith+
  then have "(b - 1 - a) div b = - (a div b)"
    using assms by (intro int_div_pos_eq [where r = "b - 1 - a - b * - (a div b)"]) (auto simp: algebra_simps)
  with False assms show ?thesis by (simp add: i64_div_def)
qed simp

lemma div_step:
  assumes "0 < (k :: int)" "1 < k"
  shows "(y + 1) div k = y div k + (if (y + 1) mod k = 0 then 1 else 0)"
proof -
  have y: "y = k * (y div k) + y mod k" "0 \<le> y mod k" "y mod k < k" using assms by simp_all
  show ?thesis
  proof (cases "y mod k + 1 < k")
    case True
    then have "(y + 1) div k = y div k" "(y + 1) mod k = y mod k + 1"
      using y by (auto intro!: int_div_pos_eq [where r = "y mod k + 1"] int_mod_pos_eq [where q = "y div k"])
    then show ?thesis using y(2) by simp
  next
    case False
    then have "y + 1 = k * (y div k) + k" using y by linarith
    then have "y + 1 = k * (y div k + 1)" by (simp only: distrib_left mult_1_right)
    then have "(y + 1) div k = y div k + 1" "(y + 1) mod k = 0"
      using assms by (metis nonzero_mult_div_cancel_left less_irrefl, metis mod_mult_self1_is_0)
    then show ?thesis by simp
  qed
qed

lemma year_start_step: "year_start (y + 1) = year_start y + (if leap (y + 1) then 366 else 365)"
proof -
  have "400 dvd (y + 1) \<Longrightarrow> 100 dvd (y + 1)" "100 dvd (y + 1) \<Longrightarrow> 4 dvd (y + 1)"
    using dvd_trans [of 100 400 "y + 1"] dvd_trans [of 4 100 "y + 1"] by simp_all
  then have "(y + 1) mod 400 = 0 \<Longrightarrow> (y + 1) mod 100 = 0" "(y + 1) mod 100 = 0 \<Longrightarrow> (y + 1) mod 4 = 0"
    by (simp_all only: dvd_eq_mod_eq_0)
  moreover have "365 * (y + 1) + a' - b' + c' = 365 * y + a - b + c + (if p \<and> (\<not> q \<or> r) then 366 else 365)"
    if "a' = a + (if p then 1 else 0)" "b' = b + (if q then 1 else 0)" "c' = c + (if r then 1 else 0)"
      "r \<Longrightarrow> q" "q \<Longrightarrow> p" for a a' b b' c c' :: int and p q r
    using that by auto
  ultimately show ?thesis
    unfolding year_start_def leap_def using div_step [of _ y] by simp
qed

lemma year_start_mono: "y \<le> z \<Longrightarrow> year_start y \<le> year_start z"
proof (induction z rule: int_ge_induct)
  case (step z)
  then show ?case by (simp add: year_start_step)
qed simp

lemma year_start_of_era:
  assumes "0 \<le> w" "w < 400"
  shows "year_start (400 * e + w) = 146097 * e + 365 * w + w div 4 - w div 100"
proof -
  have "(w + 100 * e * 4) div 4 = 100 * e + w div 4" "(w + 4 * e * 100) div 100 = 4 * e + w div 100"
    "(w + e * 400) div 400 = e + w div 400"
    by (rule div_mult_self1, simp)+
  moreover have "400 * e + w = w + 100 * e * 4" "400 * e + w = w + 4 * e * 100" "400 * e + w = w + e * 400"
    by simp_all
  ultimately have "(400 * e + w) div 4 = 100 * e + w div 4" "(400 * e + w) div 100 = 4 * e + w div 100"
    "(400 * e + w) div 400 = e" using assms by (metis, metis, simp)
  then show ?thesis by (simp add: year_start_def)
qed

lemma days_of_eq: "days_of d = year_start (march_year d) + march_day d - EPOCH_SHIFT"
proof -
  let ?Y = "march_year d"
  have era: "i64_div (if ?Y \<ge> 0 then ?Y else ?Y - 399) 400 = ?Y div 400"
    using i64_div_floor [of 400 ?Y] by (simp split: if_splits)
  have "year_start (400 * (?Y div 400) + ?Y mod 400)
      = 146097 * (?Y div 400) + 365 * (?Y mod 400) + ?Y mod 400 div 4 - ?Y mod 400 div 100"
    by (rule year_start_of_era) simp_all
  moreover have "400 * (?Y div 400) + ?Y mod 400 = ?Y" by simp
  moreover have "?Y - ?Y div 400 * 400 = ?Y mod 400" by (simp add: minus_div_mult_eq_mod)
  moreover have "0 \<le> march_month d" by (simp add: march_month_def)
  ultimately show ?thesis
    using era unfolding days_of_def march_day_def month_start_def march_month_def [symmetric] march_year_def [symmetric] Let_def
    by simp
qed

subsection \<open>A day of a year, as a date\<close>

definition of_march :: "int \<Rightarrow> int \<Rightarrow> Date" where
  "of_march y doy =
     (let m = (5 * doy + 2) div 153;
          month = as_u32 (if m < 10 then m + 3 else m - 9)
      in \<lparr>date_year = (if month \<le> 2 then y + 1 else y), date_month = month,
          date_day = as_u32 (doy - month_start m + 1)\<rparr>)"

lemma march_month_cases:
  fixes doy :: int
  assumes "0 \<le> doy" "doy \<le> 365"
  obtains "(5 * doy + 2) div 153 = 0" "0 \<le> doy" "doy < 31" | "(5 * doy + 2) div 153 = 1" "31 \<le> doy" "doy < 61"
  | "(5 * doy + 2) div 153 = 2" "61 \<le> doy" "doy < 92" | "(5 * doy + 2) div 153 = 3" "92 \<le> doy" "doy < 122"
  | "(5 * doy + 2) div 153 = 4" "122 \<le> doy" "doy < 153" | "(5 * doy + 2) div 153 = 5" "153 \<le> doy" "doy < 184"
  | "(5 * doy + 2) div 153 = 6" "184 \<le> doy" "doy < 214" | "(5 * doy + 2) div 153 = 7" "214 \<le> doy" "doy < 245"
  | "(5 * doy + 2) div 153 = 8" "245 \<le> doy" "doy < 275" | "(5 * doy + 2) div 153 = 9" "275 \<le> doy" "doy < 306"
  | "(5 * doy + 2) div 153 = 10" "306 \<le> doy" "doy < 337" | "(5 * doy + 2) div 153 = 11" "337 \<le> doy" "doy < 366"
proof -
  let ?m = "(5 * doy + 2) div 153"
  have bounds: "153 * ?m \<le> 5 * doy + 2" "5 * doy + 2 < 153 * ?m + 153" by (simp_all add: pos_mod_bound minus_mod_eq_mult_div [symmetric])
  from this assms have "0 \<le> ?m" "?m < 12" by linarith+
  moreover have "m = 0 \<or> m = 1 \<or> m = 2 \<or> m = 3 \<or> m = 4 \<or> m = 5 \<or> m = 6 \<or> m = 7 \<or> m = 8 \<or> m = 9
      \<or> m = 10 \<or> m = 11" if "0 \<le> m" "m < 12" for m :: int using that by presburger
  ultimately have "?m = 0 \<or> ?m = 1 \<or> ?m = 2 \<or> ?m = 3 \<or> ?m = 4 \<or> ?m = 5 \<or> ?m = 6 \<or> ?m = 7 \<or> ?m = 8 \<or> ?m = 9
      \<or> ?m = 10 \<or> ?m = 11" by blast
  with bounds show thesis using that assms by (elim disjE) simp_all
qed

lemma as_u32_small: "0 \<le> i \<Longrightarrow> i < 4294967296 \<Longrightarrow> as_u32 i = nat i"
  by (simp add: as_u32_def)

lemmas of_march_simps = of_march_def month_start_def as_u32_small valid_date_def days_in_month_def
  march_year_def march_day_def march_month_def

lemma of_march_valid:
  assumes "0 \<le> doy" "doy \<le> (if leap (y + 1) then 365 else 364)"
  shows "valid_date (of_march y doy) \<and> march_year (of_march y doy) = y \<and> march_day (of_march y doy) = doy"
proof -
  have "doy \<le> 365" using assms(2) by (simp split: if_splits)
  with assms(1) show ?thesis
    by (cases rule: march_month_cases) (use assms(2) in \<open>auto simp: of_march_simps split: if_splits\<close>)
qed

lemma date_cases:
  assumes "1 \<le> date_month d" "date_month d \<le> 12"
  obtains "date_month d = 1" | "date_month d = 2" | "date_month d = 3" | "date_month d = 4"
    | "date_month d = 5" | "date_month d = 6" | "date_month d = 7" | "date_month d = 8"
    | "date_month d = 9" | "date_month d = 10" | "date_month d = 11" | "date_month d = 12"
proof -
  have "m = 1 \<or> m = 2 \<or> m = 3 \<or> m = 4 \<or> m = 5 \<or> m = 6 \<or> m = 7 \<or> m = 8 \<or> m = 9 \<or> m = 10 \<or> m = 11
      \<or> m = 12" if "1 \<le> m" "m \<le> 12" for m :: nat using that by presburger
  with assms show thesis using that by blast
qed

lemma days_in_month_le: "days_in_month y m \<le> 31"
  by (simp add: days_in_month_def)

lemma of_march_inverse:
  assumes "valid_date d"
  shows "of_march (march_year d) (march_day d) = d"
    "0 \<le> march_day d" "march_day d \<le> (if leap (march_year d + 1) then 365 else 364)"
proof -
  have r: "1 \<le> date_month d" "date_month d \<le> 12" "1 \<le> date_day d" "date_day d \<le> days_in_month (date_year d) (date_month d)"
    using assms by (simp_all add: valid_date_def)
  have "(5 * march_day d + 2) div 153 = march_month d \<and> 0 \<le> march_day d
    \<and> march_day d \<le> (if leap (march_year d + 1) then 365 else 364)"
    using r(1,2)
    by (cases rule: date_cases) (use r(3,4) in \<open>auto simp: of_march_simps split: if_splits\<close>)
  then show "of_march (march_year d) (march_day d) = d"
    "0 \<le> march_day d" "march_day d \<le> (if leap (march_year d + 1) then 365 else 364)"
    using r days_in_month_le [of "date_year d" "date_month d"]
    by (auto simp: of_march_def as_u32_small march_day_def march_year_def march_month_def)
qed


subsection \<open>The year of a day of an era\<close>

text \<open>
  Inside an era of 400 years the closed form divides by the average length of a year. Every century
  but the last has 36524 days; \<open>r\<close> is the day inside its century \<open>b\<close> and \<open>a\<close> the leap days before it.
\<close>

lemma century_year:
  fixes r b a y z q :: int
  assumes "0 \<le> r" "r < 36524" "0 \<le> b" "b \<le> 3" "a = (24 * b + r) div 1460" "y = (r - a) div 365" "z = y div 4"
  shows "0 \<le> y \<and> y \<le> 99 \<and> 0 \<le> r - 365 * y - z \<and> r - 365 * y - z \<le> 365
     \<and> (r - 365 * y - z = 365 \<longrightarrow> (y + 1) mod 4 = 0 \<and> y < 99)"
proof -
  have a: "1460 * a \<le> 24 * b + r" "24 * b + r < 1460 * a + 1460"
    unfolding assms(5) by (simp_all add: pos_mod_bound minus_mod_eq_mult_div [symmetric])
  have y: "365 * y \<le> r - a" "r - a < 365 * y + 365"
    unfolding assms(6) by (simp_all add: pos_mod_bound minus_mod_eq_mult_div [symmetric])
  have z: "4 * z \<le> y" "y < 4 * z + 4"
    unfolding assms(7) by (simp_all add: pos_mod_bound minus_mod_eq_mult_div [symmetric])
  have "0 \<le> a" "a \<le> 25" using a assms(1-4) by linarith+
  have "0 \<le> r - a" using a assms(1-4) by linarith
  then have "0 \<le> y" using y by linarith
  have "y \<le> 99" using a y assms(1-4) by linarith
  have "z \<le> a" using a y z assms(1-4) by linarith
  have "a \<le> z + 1" using a y z assms(1-4) \<open>a \<le> 25\<close> by linarith
  have last: "y = 4 * z + 3 \<and> y < 99" if "r - 365 * y - z = 365"
    using that a y z assms(1-4) \<open>a \<le> z + 1\<close> by linarith
  have "(y + 1) mod 4 = 0" if "y = 4 * z + 3"
    using that by simp
  with last show ?thesis
    using \<open>0 \<le> y\<close> \<open>y \<le> 99\<close> \<open>z \<le> a\<close> \<open>a \<le> z + 1\<close> y by auto
qed

lemma leap_in_century:
  fixes e b w :: int
  assumes "w mod 4 = 0" "0 < w" "w < 100"
  shows "leap (400 * e + 100 * b + w)"
proof -
  have "(w + (100 * e + 25 * b) * 4) mod 4 = w mod 4" "(w + (4 * e + b) * 100) mod 100 = w mod 100"
    by (rule mod_mult_self1)+
  moreover have "w + (100 * e + 25 * b) * 4 = 400 * e + 100 * b + w" "w + (4 * e + b) * 100 = 400 * e + 100 * b + w"
    by (simp_all add: algebra_simps)
  ultimately have "(400 * e + 100 * b + w) mod 4 = 0" "(400 * e + 100 * b + w) mod 100 = w"
    using assms by (metis, metis less_imp_le mod_pos_pos_trivial)
  then show ?thesis using assms(2) by (simp add: leap_def)
qed

lemma leap_of_era: "leap (400 * (e :: int) + 400)"
proof -
  have "4 dvd (400 * e + 400)" "400 dvd (400 * e + 400)"
    using dvd_mult2 [of 4 400 "e + 1"] by (simp_all add: algebra_simps)
  then show ?thesis unfolding leap_def dvd_eq_mod_eq_0 by blast
qed

lemma era_year:
  fixes doe e :: int
  defines "yoe \<equiv> (doe - doe div 1460 + doe div 36524 - doe div 146096) div 365"
  defines "doy \<equiv> doe - (365 * yoe + yoe div 4 - yoe div 100)"
  assumes "0 \<le> doe" "doe < 146097"
  shows "0 \<le> yoe \<and> yoe < 400 \<and> 0 \<le> doy \<and> doy \<le> (if leap (400 * e + yoe + 1) then 365 else 364)"
proof (cases "doe = 146096")
  case True
  then have "yoe = 399" unfolding yoe_def by simp
  moreover from this True have "doy = 365" unfolding doy_def by simp
  ultimately show ?thesis using leap_of_era [of e] by (simp add: add.commute)
next
  case False
  define b where "b = doe div 36524"
  define r where "r = doe mod 36524"
  define a where "a = (24 * b + r) div 1460"
  define y where "y = (r - a) div 365"
  have doe: "doe = 36524 * b + r" by (simp add: b_def r_def)
  have r: "0 \<le> r" "r < 36524" by (simp_all add: r_def)
  have b: "0 \<le> b" "b \<le> 3" using False assms(3,4) r doe by linarith+
  note year = century_year [OF r b a_def y_def refl]
  have "((24 * b + r) + 25 * b * 1460) div 1460 = 25 * b + a" unfolding a_def by (rule div_mult_self1) simp
  moreover have "doe = (24 * b + r) + 25 * b * 1460" by (simp add: doe)
  ultimately have "doe div 1460 = 25 * b + a" by simp
  moreover have "doe div 146096 = 0" using False assms(3,4) by (intro div_pos_pos_trivial) linarith+
  ultimately have "doe - doe div 1460 + doe div 36524 - doe div 146096 = (r - a) + 100 * b * 365"
    unfolding b_def [symmetric] by (simp add: doe)
  moreover have "((r - a) + 100 * b * 365) div 365 = 100 * b + y" unfolding y_def by (rule div_mult_self1) simp
  ultimately have yoe: "yoe = 100 * b + y" unfolding yoe_def by simp
  have "(y + 25 * b * 4) div 4 = 25 * b + y div 4" "(y + b * 100) div 100 = b + y div 100"
    by (rule div_mult_self1, simp)+
  moreover have "yoe = y + 25 * b * 4" "yoe = y + b * 100" by (simp_all add: yoe)
  ultimately have "yoe div 4 = 25 * b + y div 4" "yoe div 100 = b" using year by (metis, simp)
  then have doy: "doy = r - 365 * y - y div 4" unfolding doy_def by (simp add: doe yoe)
  have "leap (400 * e + 100 * b + (y + 1))" if "doy = 365"
    using year that doy by (intro leap_in_century) auto
  then have "leap (400 * e + yoe + 1)" if "doy = 365" using that by (simp add: yoe add.assoc)
  then have "doy \<le> (if leap (400 * e + yoe + 1) then 365 else 364)"
    using year doy by (cases "doy = 365") auto
  then show ?thesis using year b doy yoe by auto
qed

subsection \<open>Dates and day numbers\<close>

lemma date_of_march:
  obtains y doy where "days + EPOCH_SHIFT = year_start y + doy" "0 \<le> doy"
    "doy \<le> (if leap (y + 1) then 365 else 364)" "date_of days = of_march y doy"
proof -
  define s where "s = days + EPOCH_SHIFT"
  define e where "e = s div 146097"
  define doe where "doe = s mod 146097"
  define yoe where "yoe = (doe - doe div 1460 + doe div 36524 - doe div 146096) div 365"
  define doy where "doy = doe - (365 * yoe + yoe div 4 - yoe div 100)"
  have era: "i64_div (if s \<ge> 0 then s else s - 146096) 146097 = e"
    using i64_div_floor [of 146097 s] by (simp add: e_def split: if_splits)
  have doe: "s - e * 146097 = doe" "0 \<le> doe" "doe < 146097"
    by (simp_all add: doe_def e_def minus_div_mult_eq_mod)
  note year = era_year [OF doe(2,3), of e, folded yoe_def doy_def]
  have nonneg: "0 \<le> doe - doe div 1460 + doe div 36524 - doe div 146096"
  proof -
    have "doe div 1460 \<le> doe" using doe(2) zdiv_mono2 [of doe 1 1460] by simp
    moreover have "doe div 146096 \<le> doe div 36524" using doe(2) by (intro zdiv_mono2) simp_all
    ultimately show ?thesis by linarith
  qed
  have m: "0 \<le> (5 * doy + 2) div 153" using year by (intro pos_imp_zdiv_nonneg_iff [THEN iffD2]) linarith+
  have "date_of days = of_march (400 * e + yoe) doy"
    unfolding date_of_def of_march_def month_start_def Let_def s_def [symmetric] era doe(1)
    using doe(2) nonneg year m by (simp flip: yoe_def doy_def)
  moreover have "s = year_start (400 * e + yoe) + doy"
    using year doe(1) by (simp add: year_start_of_era doy_def)
  ultimately show thesis using that year unfolding s_def by blast
qed

lemma valid_date_of: "valid_date (date_of days)"
  using date_of_march [of days] of_march_valid by metis

lemma days_of_date_of: "days_of (date_of days) = days"
proof -
  obtain y doy where "days + EPOCH_SHIFT = year_start y + doy" "0 \<le> doy"
    "doy \<le> (if leap (y + 1) then 365 else 364)" "date_of days = of_march y doy"
    by (rule date_of_march)
  then show ?thesis using of_march_valid [of doy y] by (simp add: days_of_eq)
qed

lemma days_of_inj:
  assumes "valid_date c" "valid_date d" "days_of c = days_of d"
  shows "c = d"
proof -
  have range: "0 \<le> march_day x \<and> year_start (march_year x) + march_day x < year_start (march_year x + 1)"
    if "valid_date x" for x
    using of_march_inverse(2,3) [OF that] by (auto simp: year_start_step split: if_splits)
  have "\<not> march_year x < march_year x'" if "valid_date x" "valid_date x'" "days_of x = days_of x'" for x x'
    using range [OF that(1)] range [OF that(2)] that(3) year_start_mono [of "march_year x + 1" "march_year x'"]
    by (auto simp: days_of_eq)
  from this [OF assms] this [OF assms(2,1) assms(3) [symmetric]] have "march_year c = march_year d" by simp
  moreover from this assms(3) have "march_day c = march_day d" by (simp add: days_of_eq)
  ultimately show ?thesis using of_march_inverse(1) assms(1,2) by metis
qed

lemma date_of_days_of: "valid_date d \<Longrightarrow> date_of (days_of d) = d"
  by (rule days_of_inj [OF valid_date_of _ days_of_date_of])

lemma next_date_valid: "valid_date d \<Longrightarrow> valid_date (next_date d)"
  by (auto simp: valid_date_def next_date_def days_in_month_def)

lemma days_of_next_date:
  assumes "valid_date d"
  shows "days_of (next_date d) = days_of d + 1"
proof -
  have r: "1 \<le> date_month d" "date_month d \<le> 12" "1 \<le> date_day d" "date_day d \<le> days_in_month (date_year d) (date_month d)"
    using assms by (simp_all add: valid_date_def)
  have "year_start (date_year d) = year_start (date_year d - 1) + (if leap (date_year d) then 366 else 365)"
    using year_start_step [of "date_year d - 1"] by simp
  with r(1,2) show ?thesis
    by (cases rule: date_cases)
      (use r(3,4) in \<open>auto simp: next_date_def days_of_eq march_year_def march_month_def march_day_def
         days_in_month_def month_start_def split: if_splits\<close>)
qed

lemma year_bound:
  assumes "- 719468 \<le> days"
  shows "0 \<le> date_year (date_of days)"
proof -
  obtain y doy where y: "days + EPOCH_SHIFT = year_start y + doy" "0 \<le> doy"
    "doy \<le> (if leap (y + 1) then 365 else 364)" "date_of days = of_march y doy"
    by (rule date_of_march)
  have "0 \<le> y"
  proof (rule ccontr)
    assume "\<not> 0 \<le> y"
    then have "year_start (y + 1) \<le> year_start 0" by (intro year_start_mono) simp
    with y assms show False by (auto simp: year_start_step EPOCH_SHIFT_def year_start_def [of 0] split: if_splits)
  qed
  then show ?thesis by (simp add: y(4) of_march_def Let_def)
qed

lemma from_iso_to_iso:
  assumes "0 \<le> date_year d" "date_year d < 9223372036854775808"
    "1 \<le> date_month d" "date_month d \<le> 12" "1 \<le> date_day d" "date_day d \<le> 31"
  shows "from_iso (to_iso d) = Some d"
proof -
  have "split_on CHR ''-'' (to_iso d) = [show_padded 4 (date_year d),
      pad_zeroes 2 (digits_of (date_month d)), pad_zeroes 2 (digits_of (date_day d))]"
    using assms(1) by (simp add: to_iso_def show_padded_def split_on_append pad_zeroes_no_sign)
  then show ?thesis
    using assms by (simp add: from_iso_def parse_i64_padded parse_unsigned_padded)
qed

section \<open>Properties\<close>


text \<open>
  \<open>days_of\<close> and \<open>date_of\<close> are inverse to each other: on every day number, and on every date of
  the calendar.
\<close>

theorem days_and_dates_are_inverse:
  "days_of (date_of days) = days \<and> (valid_date d \<longrightarrow> date_of (days_of d) = d)"
  by (simp add: days_of_date_of date_of_days_of)

theorem days_and_dates_are_inverse_witness:
  "days_of (date_of 19782) = 19782
   \<and> date_of (days_of \<lparr>date_year = 2024, date_month = 2, date_day = 29\<rparr>)
       = \<lparr>date_year = 2024, date_month = 2, date_day = 29\<rparr>"
proof -
  have "valid_date \<lparr>date_year = 2024, date_month = 2, date_day = 29\<rparr>" by code_simp
  with days_and_dates_are_inverse [of 19782 "\<lparr>date_year = 2024, date_month = 2, date_day = 29\<rparr>"]
  show ?thesis by blast
qed

end
