(* ===== verification/AuditTrail.thy ===== *)
theory AuditTrail
  imports AuditEvents Civil Keys "HOL-Library.AList"
begin

text \<open>
  The audit trail kept in files: \<open>crates/pic-x-std/src/audit/file.rs\<close>.

  The directory is the files it holds, by name, with their text; \<open>None\<close> is a directory that is not
  there. A sink holds the day it has open, the number and the digest of the last record it wrote, and
  the seals it has emitted to the log stream. JSON, SHA-256, the signer of a seal and the failures of
  the file system are the environment; each reading of the clock is an argument. Every operation
  returns the trail it leaves behind, on the error paths too.
\<close>

section \<open>Definitions\<close>

definition PREFIX :: string where "PREFIX = ''audit-''"
definition SUFFIX :: string where "SUFFIX = ''.jsonl''"
definition SEAL_SUFFIX :: string where "SEAL_SUFFIX = ''.seal''"
definition GENESIS :: string where "GENESIS = replicate 64 CHR ''0''"

subsection \<open>Records and seals\<close>

record Body =
  body_seq :: u64
  body_at :: string
  body_prev :: string
  body_action :: string
  body_subject :: string
  body_subject_kind :: string
  body_subject_sensitivity :: string
  body_target :: "string option"
  body_continuity_id :: "string option"
  body_continuity_position :: "u64 option"
  body_service :: string
  body_version :: string

record AuditRecord =
  rec_body :: Body
  rec_digest :: string

record SealBody =
  seal_day :: string
  seal_at :: string
  seal_records :: u64
  seal_head :: string

record Seal =
  seal_body :: SealBody
  seal_kid :: "string option"
  seal_algorithm :: "string option"
  seal_signature :: "string option"

datatype trail_op =
    CreateTrail | RestrictTrail | ListTrail | RemoveDay string | WriteSeal string | RestrictSeal string
  | OpenDay string | RestrictDay string | ReadDay string | SyncDay string

text \<open>\<open>env_append\<close> says how many characters of a line reach the file before a write fails.\<close>

record audit_env =
  json_body :: "Body \<Rightarrow> string"
  json_record :: "AuditRecord \<Rightarrow> string"
  parse_record :: "string \<Rightarrow> AuditRecord option"
  json_seal_body :: "SealBody \<Rightarrow> string"
  json_seal :: "Seal \<Rightarrow> string"
  parse_seal :: "string \<Rightarrow> Seal option"
  sha256 :: "bytes \<Rightarrow> bytes"
  seal_signer :: "(bytes \<Rightarrow> key_error + Signature) option"
  trail_fault :: "trail_op \<Rightarrow> bool"
  append_fault :: "string \<Rightarrow> nat option"

definition expected_digest :: "audit_env \<Rightarrow> Body \<Rightarrow> string" where
  "expected_digest env b = hex (sha256 env (as_bytes (json_body env b)))"

definition signed_bytes :: "audit_env \<Rightarrow> Seal \<Rightarrow> bytes" where
  "signed_bytes env s = as_bytes (json_seal_body env (seal_body s))"

subsection \<open>The sink and its directory\<close>

record Open =
  open_day :: int
  open_seq :: u64
  open_previous :: string

record FileAuditSink =
  sink_service_name :: string
  sink_service_version :: string
  sink_retention :: u64

record trail =
  trail_files :: "(string \<times> string) list option"
  trail_open :: "Open option"
  trail_emitted :: "Seal list"

definition path_for :: "int \<Rightarrow> string" where
  "path_for day = PREFIX @ to_iso (date_of day) @ SUFFIX"

definition seal_path :: "int \<Rightarrow> string" where
  "seal_path day = PREFIX @ to_iso (date_of day) @ SEAL_SUFFIX"

definition day_of_file :: "string \<Rightarrow> int option" where
  "day_of_file name =
     Option.bind (strip_prefix PREFIX name) (\<lambda>r.
     Option.bind (strip_suffix SUFFIX r) (\<lambda>date. map_option days_of (from_iso date)))"

text \<open>\<open>BufRead::lines\<close>: a line that is not UTF-8 is an error.\<close>

definition line_is_utf8 :: "string \<Rightarrow> bool" where
  "line_is_utf8 l \<longleftrightarrow> utf8_decode (map of_char l) \<noteq> None"

definition is_blank :: "string \<Rightarrow> bool" where
  "is_blank l \<longleftrightarrow> (\<forall>c \<in> set (str_chars l). is_whitespace c)"

definition days_in :: "(string \<times> string) list \<Rightarrow> int list" where
  "days_in files = sort (List.map_filter (day_of_file \<circ> fst) files)"

definition days :: "audit_env \<Rightarrow> trail \<Rightarrow> audit_error + int list" where
  "days env t =
     (case trail_files t of
        None \<Rightarrow> Inr []
      | Some files \<Rightarrow>
          if trail_fault env ListTrail then Inl (AuditUnavailable ''reading the directory'')
          else Inr (days_in files))"

definition tail :: "audit_env \<Rightarrow> trail \<Rightarrow> audit_error + (u64 \<times> string) option" where
  "tail env t =
     and_then (days env t) (\<lambda>ds.
       if ds = [] then Inr None
       else
         (let name = path_for (last ds)
          in case Option.bind (trail_files t) (\<lambda>files. map_of files name) of
               None \<Rightarrow> Inl (AuditUnavailable ''opening the latest day'')
             | Some txt \<Rightarrow>
                 if trail_fault env (ReadDay name) then Inl (AuditUnavailable ''opening the latest day'')
                 else
                   (let written = filter (\<lambda>l. \<not> is_blank l) (takeWhile line_is_utf8 (str_lines txt))
                    in if written = [] then Inr None
                       else (case parse_record env (last written) of
                               None \<Rightarrow> Inl (AuditBackend ''reading the last record of the trail'')
                             | Some r \<Rightarrow> Inr (Some (body_seq (rec_body r), rec_digest r))))))"

text \<open>\<open>entries.flatten()\<close>: the names are visited in the order the directory lists them.\<close>

fun expire_names ::
    "audit_env \<Rightarrow> int \<Rightarrow> string list \<Rightarrow> (string \<times> string) list \<Rightarrow> (audit_error + nat) \<times> (string \<times> string) list" where
  "expire_names env oldest_kept [] files = (Inr 0, files)"
| "expire_names env oldest_kept (name # names) files =
     (case day_of_file name of
        None \<Rightarrow> expire_names env oldest_kept names files
      | Some day \<Rightarrow>
          if day \<ge> oldest_kept then expire_names env oldest_kept names files
          else if trail_fault env (RemoveDay name) then (Inl (AuditBackend ''removing a day''), files)
          else
            (let files = AList.delete name files;
                 files = (if trail_fault env (RemoveDay (seal_path day)) then files
                          else AList.delete (seal_path day) files)
             in case expire_names env oldest_kept names files of
                  (Inl e, files) \<Rightarrow> (Inl e, files)
                | (Inr n, files) \<Rightarrow> (Inr (Suc n), files)))"

definition expire :: "audit_env \<Rightarrow> FileAuditSink \<Rightarrow> int \<Rightarrow> trail \<Rightarrow> (audit_error + nat) \<times> trail" where
  "expire env sink today t =
     (let oldest_kept = today - uint (sink_retention sink) div 86400
      in case trail_files t of
           None \<Rightarrow> (Inr 0, t)
         | Some files \<Rightarrow>
             if trail_fault env ListTrail then (Inl (AuditUnavailable ''reading the directory''), t)
             else (case expire_names env oldest_kept (map fst files) files of
                     (r, files) \<Rightarrow> (r, t\<lparr>trail_files := Some files\<rparr>)))"

definition create_trail :: "trail \<Rightarrow> trail" where
  "create_trail t = (case trail_files t of None \<Rightarrow> t\<lparr>trail_files := Some []\<rparr> | Some _ \<Rightarrow> t)"

definition prepare :: "audit_env \<Rightarrow> FileAuditSink \<Rightarrow> int \<Rightarrow> trail \<Rightarrow> (audit_error + unit) \<times> trail" where
  "prepare env sink now t =
     (if trail_fault env CreateTrail then (Inl (AuditBackend ''creating the directory''), t)
      else
        (let t = create_trail t
         in if trail_fault env RestrictTrail then (Inl (AuditBackend ''restricting the directory''), t)
            else (case expire env sink (day_of now) t of
                    (Inl e, t) \<Rightarrow> (Inl e, t)
                  | (Inr _, t) \<Rightarrow> (Inr (), t))))"

definition put_file :: "string \<Rightarrow> string \<Rightarrow> trail \<Rightarrow> trail" where
  "put_file name txt t = t\<lparr>trail_files := map_option (AList.update name txt) (trail_files t)\<rparr>"

definition make_seal :: "audit_env \<Rightarrow> int \<Rightarrow> int \<Rightarrow> u64 \<Rightarrow> string \<Rightarrow> Seal" where
  "make_seal env now day records head =
     (let body = \<lparr>seal_day = to_iso (date_of day), seal_at = to_rfc3339 now, seal_records = records,
                  seal_head = head\<rparr>;
          payload = as_bytes (json_seal_body env body);
          signed = (case seal_signer env of
                      None \<Rightarrow> None
                    | Some keys_sign \<Rightarrow> (case keys_sign payload of Inl _ \<Rightarrow> None | Inr s \<Rightarrow> Some s))
      in \<lparr>seal_body = body, seal_kid = map_option sig_key_id signed,
          seal_algorithm = map_option sig_algorithm signed,
          seal_signature = map_option (\<lambda>s. hex (sig_bytes s)) signed\<rparr>)"

definition seal :: "audit_env \<Rightarrow> int \<Rightarrow> int \<Rightarrow> u64 \<Rightarrow> string \<Rightarrow> trail \<Rightarrow> (audit_error + unit) \<times> trail" where
  "seal env now day records head t =
     (let made = make_seal env now day records head;
          path = seal_path day
      in if trail_fault env (WriteSeal path) \<or> trail_files t = None
         then (Inl (AuditBackend ''writing a seal''), t)
         else
           (let t = put_file path (json_seal env made) t
            in if trail_fault env (RestrictSeal path) then (Inl (AuditBackend ''restricting a seal''), t)
               else (Inr (), t\<lparr>trail_emitted := trail_emitted t @ [made]\<rparr>)))"

definition open_file :: "string \<Rightarrow> trail \<Rightarrow> trail" where
  "open_file name t =
     (case trail_files t of
        None \<Rightarrow> t
      | Some files \<Rightarrow> if map_of files name = None then put_file name [] t else t)"

definition is_open_for :: "int \<Rightarrow> trail \<Rightarrow> bool" where
  "is_open_for day t = (case trail_open t of None \<Rightarrow> False | Some c \<Rightarrow> open_day c = day)"

definition open_for :: "audit_env \<Rightarrow> int \<Rightarrow> trail \<Rightarrow> (audit_error + unit) \<times> trail" where
  "open_for env day t =
     (if is_open_for day t then (Inr (), t)
      else
        (case (case trail_open t of
                 Some c \<Rightarrow> Inr (Some (open_seq c, open_previous c))
               | None \<Rightarrow> tail env t) of
           Inl e \<Rightarrow> (Inl e, t)
         | Inr left_off \<Rightarrow>
             (let path = path_for day
              in if trail_fault env CreateTrail then (Inl (AuditBackend ''creating the directory''), t)
                 else
                   (let t = create_trail t
                    in if trail_fault env (OpenDay path) then (Inl (AuditBackend ''opening a day''), t)
                       else
                         (let t = open_file path t
                          in if trail_fault env (RestrictDay path)
                             then (Inl (AuditBackend ''restricting a day''), t)
                             else
                               (let (seq, previous) =
                                  (case left_off of None \<Rightarrow> (0, GENESIS) | Some sp \<Rightarrow> sp)
                                in (Inr (), t\<lparr>trail_open := Some \<lparr>open_day = day, open_seq = seq,
                                                               open_previous = previous\<rparr>\<rparr>)))))))"

text \<open>
  A write through the open file: a file that was removed from the directory meanwhile takes the
  write with it.
\<close>

definition append_file :: "string \<Rightarrow> string \<Rightarrow> trail \<Rightarrow> trail" where
  "append_file name txt t =
     (case Option.bind (trail_files t) (\<lambda>files. map_of files name) of
        None \<Rightarrow> t
      | Some old \<Rightarrow> put_file name (old @ txt) t)"

definition body_of :: "FileAuditSink \<Rightarrow> Open \<Rightarrow> int \<Rightarrow> AuditEvent \<Rightarrow> policy option \<Rightarrow> Body" where
  "body_of sink c seconds e policy =
     \<lparr>body_seq = open_seq c + 1, body_at = to_rfc3339 seconds, body_prev = open_previous c,
      body_action = ev_action e, body_subject = subject_render (ev_subject e) policy,
      body_subject_kind = subject_kind (ev_subject e),
      body_subject_sensitivity = sensitivity_as_str (sensitivity (ev_subject e)),
      body_target = ev_target e, body_continuity_id = ev_continuity_id e,
      body_continuity_position = ev_continuity_position e,
      body_service = sink_service_name sink, body_version = sink_service_version sink\<rparr>"

definition write_record ::
    "audit_env \<Rightarrow> FileAuditSink \<Rightarrow> int \<Rightarrow> AuditEvent \<Rightarrow> policy option \<Rightarrow> trail \<Rightarrow> (audit_error + unit) \<times> trail" where
  "write_record env sink seconds e policy t =
     (case trail_open t of
        None \<Rightarrow> (Inl (AuditBackend ''the audit file was not opened''), t)
      | Some c \<Rightarrow>
          (let body = body_of sink c seconds e policy;
               digest = expected_digest env body;
               line = json_record env \<lparr>rec_body = body, rec_digest = digest\<rparr> @ [newline];
               path = path_for (open_day c)
           in case append_fault env line of
                Some k \<Rightarrow> (Inl (AuditBackend ''appending a record''), append_file path (take k line) t)
              | None \<Rightarrow>
                  (let t = append_file path line t
                   in if trail_fault env (SyncDay path) then (Inl (AuditBackend ''flushing a record''), t)
                      else (Inr (), t\<lparr>trail_open := Some (c\<lparr>open_seq := open_seq c + 1,
                                                           open_previous := digest\<rparr>)\<rparr>))))"

definition record_event ::
    "audit_env \<Rightarrow> FileAuditSink \<Rightarrow> int \<Rightarrow> int \<Rightarrow> AuditEvent \<Rightarrow> policy option \<Rightarrow> trail
     \<Rightarrow> (audit_error + unit) \<times> trail" where
  "record_event env sink seconds sealing e policy t =
     (let day = day_of seconds;
          rolled = \<not> is_open_for day t;
          t = (if rolled then
                 (case trail_open t of
                    None \<Rightarrow> t
                  | Some c \<Rightarrow> snd (seal env sealing (open_day c) (open_seq c) (open_previous c) t))
               else t)
      in case open_for env day t of
           (Inl err, t) \<Rightarrow> (Inl err, t)
         | (Inr _, t) \<Rightarrow>
             (case (if rolled then expire env sink day t else (Inr 0, t)) of
                (Inl err, t) \<Rightarrow> (Inl err, t)
              | (Inr _, t) \<Rightarrow> write_record env sink seconds e policy t))"

definition shutdown :: "audit_env \<Rightarrow> int \<Rightarrow> trail \<Rightarrow> (audit_error + unit) \<times> trail" where
  "shutdown env now t =
     (case trail_open t of
        None \<Rightarrow> (Inr (), t)
      | Some c \<Rightarrow>
          if trail_fault env (SyncDay (path_for (open_day c)))
          then (Inl (AuditBackend ''closing the trail''), t)
          else (Inr (), (snd (seal env now (open_day c) (open_seq c) (open_previous c) t))
                          \<lparr>trail_open := None\<rparr>))"

subsection \<open>Checking a trail\<close>

datatype verify_error =
    VerifyIo string
  | VerifyParse string nat
  | Altered string nat
  | ChainBroken string nat
  | Misnumbered string nat u64 u64
  | Rewritten Seal u64 string
  | RemovedFromEnd Seal u64

record Verification =
  ver_records :: u64
  ver_days :: nat
  ver_head :: string
  ver_seals :: "Seal list"

record verify_state =
  expected_previous :: string
  expected_seq :: u64
  vs_records :: u64
  vs_checked :: "Seal list"

fun read_seals ::
    "audit_env \<Rightarrow> (string \<times> string) list \<Rightarrow> int list \<Rightarrow> (u64 \<times> Seal) list \<Rightarrow> verify_error + (u64 \<times> Seal) list" where
  "read_seals env files [] seals = Inr seals"
| "read_seals env files (day # ds) seals =
     (case map_of files (seal_path day) of
        None \<Rightarrow> read_seals env files ds seals
      | Some txt \<Rightarrow>
          (case parse_seal env txt of
             None \<Rightarrow> Inl (VerifyParse (seal_path day) 0)
           | Some s \<Rightarrow> read_seals env files ds (AList.update (seal_records (seal_body s)) s seals)))"

definition verify_line ::
    "audit_env \<Rightarrow> (u64 \<times> Seal) list \<Rightarrow> string \<Rightarrow> nat \<Rightarrow> string \<Rightarrow> verify_state \<Rightarrow> verify_error + verify_state" where
  "verify_line env seals path index line vs =
     (if \<not> line_is_utf8 line then Inl (VerifyIo path)
      else if is_blank line then Inr vs
      else (case parse_record env line of
        None \<Rightarrow> Inl (VerifyParse path (index + 1))
      | Some r \<Rightarrow>
          if expected_digest env (rec_body r) \<noteq> rec_digest r then Inl (Altered path (index + 1))
          else if body_prev (rec_body r) \<noteq> expected_previous vs then Inl (ChainBroken path (index + 1))
          else if body_seq (rec_body r) \<noteq> expected_seq vs
          then Inl (Misnumbered path (index + 1) (body_seq (rec_body r)) (expected_seq vs))
          else
            (let vs = vs\<lparr>expected_previous := rec_digest r, expected_seq := expected_seq vs + 1,
                         vs_records := vs_records vs + 1\<rparr>
             in case map_of seals (vs_records vs) of
                  None \<Rightarrow> Inr vs
                | Some s \<Rightarrow>
                    if seal_head (seal_body s) \<noteq> expected_previous vs
                    then Inl (Rewritten s (vs_records vs) (expected_previous vs))
                    else Inr (vs\<lparr>vs_checked := vs_checked vs @ [s]\<rparr>))))"

fun verify_lines ::
    "audit_env \<Rightarrow> (u64 \<times> Seal) list \<Rightarrow> string \<Rightarrow> nat \<Rightarrow> string list \<Rightarrow> verify_state \<Rightarrow> verify_error + verify_state" where
  "verify_lines env seals path index [] vs = Inr vs"
| "verify_lines env seals path index (l # ls) vs =
     and_then (verify_line env seals path index l vs) (verify_lines env seals path (index + 1) ls)"

fun verify_days ::
    "audit_env \<Rightarrow> (u64 \<times> Seal) list \<Rightarrow> (string \<times> string) list \<Rightarrow> int list \<Rightarrow> verify_state
     \<Rightarrow> verify_error + verify_state" where
  "verify_days env seals files [] vs = Inr vs"
| "verify_days env seals files (day # ds) vs =
     (case map_of files (path_for day) of
        None \<Rightarrow> Inl (VerifyIo (path_for day))
      | Some txt \<Rightarrow>
          and_then (verify_lines env seals (path_for day) 0 (str_lines txt) vs)
            (verify_days env seals files ds))"

definition verify_start :: verify_state where
  "verify_start = \<lparr>expected_previous = GENESIS, expected_seq = 1, vs_records = 0, vs_checked = []\<rparr>"

definition verify :: "audit_env \<Rightarrow> (string \<times> string) list option \<Rightarrow> verify_error + Verification" where
  "verify env dir =
     (case dir of
        None \<Rightarrow> Inl (VerifyIo [])
      | Some files \<Rightarrow>
          and_then (read_seals env files (days_in files) []) (\<lambda>seals.
          and_then (verify_days env seals files (days_in files) verify_start) (\<lambda>vs.
            case min_by_key fst (filter (\<lambda>(point, _). point > vs_records vs) seals) of
              Some (_, s) \<Rightarrow> Inl (RemovedFromEnd s (vs_records vs))
            | None \<Rightarrow>
                Inr \<lparr>ver_records = vs_records vs, ver_days = length (days_in files),
                     ver_head = expected_previous vs, ver_seals = vs_checked vs\<rparr>)))"

end
