(* ===== verification/AuditChain.thy ===== *)
theory AuditChain
  imports AuditTrail
begin

text \<open>
  What checking a trail establishes, and that recording keeps a trail checkable.
\<close>

section \<open>The chain\<close>

fun chain :: "audit_env \<Rightarrow> string \<Rightarrow> u64 \<Rightarrow> AuditRecord list \<Rightarrow> bool" where
  "chain env p s [] = True"
| "chain env p s (r # rs) =
     (expected_digest env (rec_body r) = rec_digest r \<and> body_prev (rec_body r) = p
      \<and> body_seq (rec_body r) = s \<and> chain env (rec_digest r) (s + 1) rs)"

definition head_of :: "AuditRecord list \<Rightarrow> string" where
  "head_of rs = (if rs = [] then GENESIS else rec_digest (last rs))"

fun parse_lines :: "audit_env \<Rightarrow> string list \<Rightarrow> AuditRecord list option" where
  "parse_lines env [] = Some []"
| "parse_lines env (l # ls) =
     (if \<not> line_is_utf8 l then None
      else if is_blank l then parse_lines env ls
      else (case parse_record env l of
              None \<Rightarrow> None
            | Some r \<Rightarrow> map_option (Cons r) (parse_lines env ls)))"

definition trail_lines :: "(string \<times> string) list \<Rightarrow> int list \<Rightarrow> string list" where
  "trail_lines files ds = concat (map (\<lambda>d. str_lines (the (map_of files (path_for d)))) ds)"

definition records_in :: "audit_env \<Rightarrow> (string \<times> string) list \<Rightarrow> AuditRecord list option" where
  "records_in env files = parse_lines env (trail_lines files (days_in files))"

text \<open>A seal holds over a list of records: it names one of them, or none, as the head.\<close>

definition seal_holds :: "AuditRecord list \<Rightarrow> Seal \<Rightarrow> bool" where
  "seal_holds rs s \<longleftrightarrow>
     unat (seal_records (seal_body s)) \<le> length rs
     \<and> (0 < unat (seal_records (seal_body s))
          \<longrightarrow> seal_head (seal_body s) = rec_digest (rs ! (unat (seal_records (seal_body s)) - 1)))"

section \<open>Lemmas\<close>

subsection \<open>Checking is checking the chain\<close>

definition check_one ::
    "audit_env \<Rightarrow> (u64 \<times> Seal) list \<Rightarrow> AuditRecord \<Rightarrow> verify_state \<Rightarrow> verify_state option" where
  "check_one env seals r vs =
     (let vs' = vs\<lparr>expected_previous := rec_digest r, expected_seq := expected_seq vs + 1,
                   vs_records := vs_records vs + 1\<rparr>
      in if expected_digest env (rec_body r) \<noteq> rec_digest r \<or> body_prev (rec_body r) \<noteq> expected_previous vs
            \<or> body_seq (rec_body r) \<noteq> expected_seq vs then None
         else (case map_of seals (vs_records vs + 1) of
                 None \<Rightarrow> Some vs'
               | Some s \<Rightarrow>
                   if seal_head (seal_body s) \<noteq> rec_digest r then None
                   else Some (vs'\<lparr>vs_checked := vs_checked vs @ [s]\<rparr>)))"

fun check_all ::
    "audit_env \<Rightarrow> (u64 \<times> Seal) list \<Rightarrow> AuditRecord list \<Rightarrow> verify_state \<Rightarrow> verify_state option" where
  "check_all env seals [] vs = Some vs"
| "check_all env seals (r # rs) vs = Option.bind (check_one env seals r vs) (check_all env seals rs)"

lemma parse_lines_append:
  "parse_lines env (ks @ ls) =
     Option.bind (parse_lines env ks) (\<lambda>rs. map_option (append rs) (parse_lines env ls))"
  by (induction ks) (auto simp: map_option_case split: option.splits)

lemma check_all_append:
  "check_all env seals (qs @ rs) vs = Option.bind (check_all env seals qs vs) (check_all env seals rs)"
  by (induction qs arbitrary: vs) (auto split: Option.bind_split)

lemma verify_line_Inr_iff:
  "verify_line env seals path i l vs = Inr vs' \<longleftrightarrow>
     line_is_utf8 l \<and> (if is_blank l then vs' = vs
       else \<exists>r. parse_record env l = Some r \<and> check_one env seals r vs = Some vs')"
  by (auto simp: verify_line_def check_one_def Let_def split: option.splits if_splits)

lemma verify_lines_Inr_iff:
  "verify_lines env seals path i ls vs = Inr vs' \<longleftrightarrow>
     (\<exists>rs. parse_lines env ls = Some rs \<and> check_all env seals rs vs = Some vs')"
proof (induction ls arbitrary: i vs)
  case (Cons l ls)
  then show ?case
    by (auto simp: and_then_Inr_iff verify_line_Inr_iff bind_eq_Some_conv split: option.splits)
qed simp

lemma verify_days_Inr_iff:
  "verify_days env seals files ds vs = Inr vs' \<longleftrightarrow>
     (\<forall>d \<in> set ds. map_of files (path_for d) \<noteq> None)
     \<and> (\<exists>rs. parse_lines env (trail_lines files ds) = Some rs \<and> check_all env seals rs vs = Some vs')"
proof (induction ds arbitrary: vs)
  case (Cons d ds)
  then show ?case
    by (cases "map_of files (path_for d)")
      (auto simp: and_then_Inr_iff verify_lines_Inr_iff trail_lines_def parse_lines_append
        check_all_append bind_eq_Some_conv)
qed (simp add: trail_lines_def)

lemma check_one_Some:
  "check_one env seals r vs = Some vs' \<longleftrightarrow>
     expected_digest env (rec_body r) = rec_digest r \<and> body_prev (rec_body r) = expected_previous vs
     \<and> body_seq (rec_body r) = expected_seq vs
     \<and> (\<forall>s. map_of seals (vs_records vs + 1) = Some s \<longrightarrow> seal_head (seal_body s) = rec_digest r)
     \<and> vs' = \<lparr>expected_previous = rec_digest r, expected_seq = expected_seq vs + 1, vs_records = vs_records vs + 1,
         vs_checked = vs_checked vs
           @ (case map_of seals (vs_records vs + 1) of None \<Rightarrow> [] | Some s \<Rightarrow> [s])\<rparr>"
  by (cases vs) (auto simp: check_one_def Let_def split: option.splits)

lemma check_all_chain:
  assumes "check_all env seals rs vs = Some vs'"
  shows "chain env (expected_previous vs) (expected_seq vs) rs
     \<and> expected_previous vs' = (if rs = [] then expected_previous vs else rec_digest (last rs))
     \<and> vs_records vs' = vs_records vs + of_nat (length rs)"
  using assms
proof (induction rs arbitrary: vs)
  case (Cons r rs)
  then obtain vs1 where vs1: "check_one env seals r vs = Some vs1" "check_all env seals rs vs1 = Some vs'"
    by (auto simp: bind_eq_Some_conv)
  from Cons.IH [OF vs1(2)] vs1(1) show ?case by (simp add: check_one_Some algebra_simps)
qed simp

text \<open>The seals met on the way, and that meeting them all is enough.\<close>

lemma check_all_seals:
  assumes "check_all env seals rs vs = Some vs'" "i < length rs"
    "map_of seals (vs_records vs + of_nat (Suc i)) = Some s"
  shows "seal_head (seal_body s) = rec_digest (rs ! i)"
  using assms
proof (induction rs arbitrary: vs i)
  case (Cons r rs)
  then obtain vs1 where vs1: "check_one env seals r vs = Some vs1" "check_all env seals rs vs1 = Some vs'"
    by (auto simp: bind_eq_Some_conv)
  have "vs_records vs1 = vs_records vs + 1" using vs1(1) by (simp add: check_one_Some)
  with vs1 Cons.IH [OF vs1(2)] Cons.prems(2,3) show ?case
    by (cases i) (auto simp: check_one_Some algebra_simps)
qed simp

lemma check_all_complete:
  assumes "chain env (expected_previous vs) (expected_seq vs) rs"
    "\<And>i s. i < length rs \<Longrightarrow> map_of seals (vs_records vs + of_nat (Suc i)) = Some s
       \<Longrightarrow> seal_head (seal_body s) = rec_digest (rs ! i)"
  shows "\<exists>vs'. check_all env seals rs vs = Some vs'"
  using assms
proof (induction rs arbitrary: vs)
  case (Cons r rs)
  have "\<And>s. map_of seals (vs_records vs + 1) = Some s \<Longrightarrow> seal_head (seal_body s) = rec_digest r"
    using Cons.prems(2) [of 0] by simp
  with Cons.prems(1) obtain vs1 where vs1: "check_one env seals r vs = Some vs1"
    by (simp add: check_one_Some)
  then have after: "expected_previous vs1 = rec_digest r" "expected_seq vs1 = expected_seq vs + 1"
    "vs_records vs1 = vs_records vs + 1" by (simp_all add: check_one_Some)
  have "\<exists>vs'. check_all env seals rs vs1 = Some vs'"
  proof (rule Cons.IH)
    show "chain env (expected_previous vs1) (expected_seq vs1) rs" using Cons.prems(1) by (simp add: after)
    fix i s
    assume "i < length rs" "map_of seals (vs_records vs1 + of_nat (Suc i)) = Some s"
    then show "seal_head (seal_body s) = rec_digest (rs ! i)"
      using Cons.prems(2) [of "Suc i" s] by (simp add: after algebra_simps)
  qed
  with vs1 show ?case by simp
qed simp

subsection \<open>Seals beside the trail\<close>

definition sealed_in :: "audit_env \<Rightarrow> (string \<times> string) list \<Rightarrow> int \<Rightarrow> Seal \<Rightarrow> bool" where
  "sealed_in env files d s \<longleftrightarrow> (\<exists>txt. map_of files (seal_path d) = Some txt \<and> parse_seal env txt = Some s)"

definition seals_parse :: "audit_env \<Rightarrow> (string \<times> string) list \<Rightarrow> int list \<Rightarrow> bool" where
  "seals_parse env files ds \<longleftrightarrow>
     (\<forall>d \<in> set ds. \<forall>txt. map_of files (seal_path d) = Some txt \<longrightarrow> parse_seal env txt \<noteq> None)"

lemma read_seals_Inr:
  assumes "seals_parse env files ds"
  shows "\<exists>out. read_seals env files ds seals = Inr out"
  using assms by (induction ds arbitrary: seals) (auto simp: seals_parse_def split: option.splits)

lemma read_seals_from:
  assumes "read_seals env files ds seals = Inr out" "map_of out k = Some s"
  shows "map_of seals k = Some s \<or> (\<exists>d \<in> set ds. sealed_in env files d s \<and> seal_records (seal_body s) = k)"
  using assms
proof (induction ds arbitrary: seals)
  case (Cons d ds)
  show ?case
  proof (cases "map_of files (seal_path d)")
    case None
    with Cons show ?thesis by auto
  next
    case (Some content)
    with Cons.prems obtain s' where s': "parse_seal env content = Some s'"
      "read_seals env files ds (AList.update (seal_records (seal_body s')) s' seals) = Inr out"
      by (auto split: option.splits)
    have "sealed_in env files d s'" using Some s'(1) by (simp add: sealed_in_def)
    with Cons.IH [OF s'(2) Cons.prems(2)] show ?thesis
      by (auto simp: update_conv' split: if_splits)
  qed
qed simp

lemma read_seals_keeps_points:
  assumes "read_seals env files ds seals = Inr out"
  shows "fst ` set seals \<subseteq> fst ` set out
    \<and> (\<forall>d \<in> set ds. \<forall>s. sealed_in env files d s \<longrightarrow> seal_records (seal_body s) \<in> fst ` set out)"
  using assms
proof (induction ds arbitrary: seals)
  case (Cons d ds)
  show ?case
  proof (cases "map_of files (seal_path d)")
    case None
    with Cons show ?thesis by (auto simp: sealed_in_def)
  next
    case (Some content)
    with Cons.prems obtain s where s: "parse_seal env content = Some s"
      "read_seals env files ds (AList.update (seal_records (seal_body s)) s seals) = Inr out"
      by (auto split: option.splits)
    have "fst ` set (AList.update (seal_records (seal_body s)) s seals)
        = insert (seal_records (seal_body s)) (fst ` set seals)" by (simp add: dom_update)
    with Cons.IH [OF s(2)] Some s(1) show ?thesis by (auto simp: sealed_in_def)
  qed
qed simp

lemma read_seals_distinct:
  assumes "read_seals env files ds seals = Inr out" "distinct (map fst seals)"
  shows "distinct (map fst out)"
  using assms
proof (induction ds arbitrary: seals)
  case (Cons d ds)
  then show ?case by (auto simp: distinct_update split: option.splits)
qed simp

subsection \<open>What a trail that verifies holds\<close>

lemma verify_Inr_iff:
  "verify env (Some files) = Inr v \<longleftrightarrow>
     (\<exists>seals vs. read_seals env files (days_in files) [] = Inr seals
        \<and> verify_days env seals files (days_in files) verify_start = Inr vs
        \<and> (\<forall>k \<in> fst ` set seals. k \<le> vs_records vs)
        \<and> v = \<lparr>ver_records = vs_records vs, ver_days = length (days_in files),
               ver_head = expected_previous vs, ver_seals = vs_checked vs\<rparr>)"
proof -
  have last_check: "(case min_by_key fst (filter (\<lambda>(point, _). point > n) seals) of
        Some (_, s) \<Rightarrow> Inl (f s) | None \<Rightarrow> Inr w) = Inr v \<longleftrightarrow> (\<forall>k \<in> fst ` set seals. k \<le> n) \<and> v = w"
    for n :: u64 and seals :: "(u64 \<times> Seal) list" and f w
  proof (cases "min_by_key fst (filter (\<lambda>(point, _). point > n) seals)")
    case None
    then show ?thesis by (auto simp: filter_empty_conv not_less)
  next
    case (Some p)
    then have "p \<in> set (filter (\<lambda>(point, _). point > n) seals)" by (rule min_by_key_Some [THEN conjunct1])
    then have "fst p \<in> fst ` set seals" "\<not> fst p \<le> n" by auto
    then show ?thesis using Some by (cases p) auto
  qed
  show ?thesis unfolding verify_def option.case and_then_Inr_iff last_check by auto
qed

lemma verify_sound:
  assumes "verify env (Some files) = Inr v"
  obtains rs where "records_in env files = Some rs" "chain env GENESIS 1 rs"
    "ver_head v = head_of rs" "ver_records v = of_nat (length rs)"
    "\<And>d s. d \<in> set (days_in files) \<Longrightarrow> sealed_in env files d s \<Longrightarrow> seal_records (seal_body s) \<le> ver_records v"
proof -
  from assms obtain seals vs where ver: "read_seals env files (days_in files) [] = Inr seals"
      "verify_days env seals files (days_in files) verify_start = Inr vs"
      "\<forall>k \<in> fst ` set seals. k \<le> vs_records vs" "ver_records v = vs_records vs" "ver_head v = expected_previous vs"
    by (auto simp: verify_Inr_iff)
  from ver(2) obtain rs where rs: "records_in env files = Some rs" "check_all env seals rs verify_start = Some vs"
    by (auto simp: verify_days_Inr_iff records_in_def)
  from check_all_chain [OF rs(2)] have "chain env GENESIS 1 rs" "ver_head v = head_of rs"
    "ver_records v = of_nat (length rs)"
    using ver(4,5) by (simp_all add: verify_start_def head_of_def)
  moreover have "seal_records (seal_body s) \<le> ver_records v"
    if "d \<in> set (days_in files)" "sealed_in env files d s" for d s
  proof -
    have "seal_records (seal_body s) \<in> fst ` set seals"
      using read_seals_keeps_points [OF ver(1)] that by blast
    with ver(3) have "seal_records (seal_body s) \<le> vs_records vs" by blast
    then show ?thesis by (simp add: ver(4))
  qed
  ultimately show thesis using rs(1) that by blast
qed

lemma verify_complete:
  assumes "\<forall>d \<in> set (days_in files). map_of files (path_for d) \<noteq> None"
    "records_in env files = Some rs" "chain env GENESIS 1 rs" "length rs < 2 ^ 64"
    "seals_parse env files (days_in files)"
    "\<And>d s. d \<in> set (days_in files) \<Longrightarrow> sealed_in env files d s \<Longrightarrow> seal_holds rs s"
  shows "\<exists>v. verify env (Some files) = Inr v \<and> ver_head v = head_of rs \<and> ver_records v = of_nat (length rs)"
proof -
  obtain seals where seals: "read_seals env files (days_in files) [] = Inr seals"
    using read_seals_Inr [OF assms(5)] by blast
  have holds: "seal_holds rs s \<and> seal_records (seal_body s) = k" if "map_of seals k = Some s" for k s
    using read_seals_from [OF seals that] assms(6) by auto
  have size: "unat (of_nat n :: u64) = n" if "n \<le> length rs" for n
    using that assms(4) by (simp add: unsigned_of_nat take_bit_nat_eq_self_iff)
  have heads: "seal_head (seal_body s) = rec_digest (rs ! i)"
    if "i < length rs" "map_of seals (of_nat (Suc i)) = Some s" for i s
    using holds [OF that(2)] size [of "Suc i"] that(1) by (simp add: seal_holds_def)
  obtain vs where vs: "check_all env seals rs verify_start = Some vs"
    using check_all_complete [of env verify_start rs seals] assms(3) heads by (auto simp: verify_start_def)
  have days: "verify_days env seals files (days_in files) verify_start = Inr vs"
    using assms(1,2) vs by (auto simp: verify_days_Inr_iff records_in_def)
  have counted: "vs_records vs = of_nat (length rs)" "expected_previous vs = head_of rs"
    using check_all_chain [OF vs] by (simp_all add: verify_start_def head_of_def)
  have "k \<le> vs_records vs" if "k \<in> fst ` set seals" for k
  proof -
    from that obtain s where "map_of seals k = Some s"
      by (metis domD dom_map_of_conv_image_fst)
    from holds [OF this] size [of "length rs"] show ?thesis
      by (auto simp: seal_holds_def word_le_nat_alt counted)
  qed
  with seals days counted show ?thesis by (auto simp: verify_Inr_iff)
qed

subsection \<open>The head stands for the whole chain\<close>

lemma chain_snoc:
  "chain env p s (rs @ [r]) \<longleftrightarrow> chain env p s rs \<and> expected_digest env (rec_body r) = rec_digest r
     \<and> body_prev (rec_body r) = (if rs = [] then p else rec_digest (last rs))
     \<and> body_seq (rec_body r) = s + of_nat (length rs)"
  by (induction rs arbitrary: p s) (auto simp: algebra_simps)

lemma chain_head_determines:
  assumes "chain env GENESIS s rs" "chain env GENESIS s' qs" "head_of rs = head_of qs"
    "\<And>a b. expected_digest env a = expected_digest env b \<Longrightarrow> a = b" "\<And>a. expected_digest env a \<noteq> GENESIS"
  shows "rs = qs"
  using assms(1-3)
proof (induction rs arbitrary: qs rule: rev_induct)
  case Nil
  show ?case
  proof (cases qs rule: rev_cases)
    case (snoc qs' q)
    with Nil.prems(2) have "expected_digest env (rec_body q) = rec_digest q" by (simp add: chain_snoc)
    with Nil.prems(3) snoc have False using assms(5) [of "rec_body q"] by (simp add: head_of_def)
    then show ?thesis ..
  qed simp
next
  case (snoc r rs)
  have "qs \<noteq> []"
  proof
    assume "qs = []"
    with snoc.prems(3) have "rec_digest r = GENESIS" by (simp add: head_of_def)
    with snoc.prems(1) show False using assms(5) [of "rec_body r"] by (simp add: chain_snoc)
  qed
  then obtain q qs' where qs: "qs = qs' @ [q]" by (cases qs rule: rev_cases) auto
  have ends: "chain env GENESIS s rs" "expected_digest env (rec_body r) = rec_digest r"
    "body_prev (rec_body r) = head_of rs" "chain env GENESIS s' qs'"
    "expected_digest env (rec_body q) = rec_digest q" "body_prev (rec_body q) = head_of qs'"
    using snoc.prems(1,2) by (simp_all add: qs chain_snoc head_of_def)
  have digest: "rec_digest r = rec_digest q" using snoc.prems(3) by (simp add: qs head_of_def)
  with ends(2,5) have body: "rec_body r = rec_body q" by (intro assms(4)) simp
  with digest have "r = q" by (cases r; cases q) simp
  moreover have "head_of rs = head_of qs'" using ends(3,6) body by simp
  with ends(1,4) have "rs = qs'" by (intro snoc.IH)
  ultimately show ?case by (simp add: qs)
qed

end
