(* ===== verification/AuditRun.thy ===== *)
theory AuditRun
  imports AuditChain "HOL-Library.Multiset"
begin

text \<open>
  Recording keeps a trail checkable: the invariant of a trail that a sink writes, and the machine of
  its operations.
\<close>

section \<open>Names of files\<close>

lemma year_upper:
  assumes "0 \<le> day" "day < 9223372036854775808"
  shows "date_year (date_of day) < 9223372036854775808"
proof -
  obtain y doy where y: "day + EPOCH_SHIFT = year_start y + doy" "0 \<le> doy"
    "doy \<le> (if leap (y + 1) then 365 else 364)" "date_of day = of_march y doy"
    by (rule date_of_march)
  have "y < 9223372036854775807"
  proof (rule ccontr)
    assume "\<not> y < 9223372036854775807"
    then have "year_start 9223372036854775807 \<le> year_start y" by (intro year_start_mono) simp
    with y assms show False by (simp add: year_start_def [of 9223372036854775807] EPOCH_SHIFT_def)
  qed
  then show ?thesis by (simp add: y(4) of_march_def Let_def)
qed

definition nameable :: "int \<Rightarrow> bool" where
  "nameable day \<longleftrightarrow> 0 \<le> day \<and> day < 9223372036854775808"

lemma day_of_file_path_for:
  assumes "nameable day"
  shows "day_of_file (path_for day) = Some day"
proof -
  have valid: "valid_date (date_of day)" by (rule valid_date_of)
  have "from_iso (to_iso (date_of day)) = Some (date_of day)"
    using assms year_bound [of day] year_upper [of day] valid
      days_in_month_le [of "date_year (date_of day)" "date_month (date_of day)"]
    by (intro from_iso_to_iso) (auto simp: nameable_def valid_date_def)
  moreover have "strip_prefix PREFIX (path_for day) = Some (to_iso (date_of day) @ SUFFIX)"
    by (simp add: path_for_def strip_prefix_Some_iff)
  moreover have "strip_suffix SUFFIX (to_iso (date_of day) @ SUFFIX) = Some (to_iso (date_of day))"
    by (simp add: strip_suffix_Some_iff)
  ultimately show ?thesis by (simp add: day_of_file_def days_of_date_of)
qed

lemma day_of_file_seal_path [simp]: "day_of_file (seal_path day) = None"
proof -
  have "strip_prefix PREFIX (seal_path day) = Some (to_iso (date_of day) @ SEAL_SUFFIX)"
    by (simp add: seal_path_def strip_prefix_Some_iff)
  moreover have "strip_suffix SUFFIX (x @ SEAL_SUFFIX) = None" for x
    by (simp add: strip_suffix_def SUFFIX_def SEAL_SUFFIX_def)
  ultimately show ?thesis by (simp add: day_of_file_def)
qed

lemma path_for_inj: "nameable d \<Longrightarrow> nameable d' \<Longrightarrow> path_for d = path_for d' \<longleftrightarrow> d = d'"
  by (metis day_of_file_path_for option.inject)

lemma path_for_not_seal: "path_for d \<noteq> seal_path d'"
proof
  assume "path_for d = seal_path d'"
  then have "last (butlast (path_for d)) = last (butlast (seal_path d'))" by simp
  then show False by (simp add: path_for_def seal_path_def SUFFIX_def SEAL_SUFFIX_def butlast_append)
qed

section \<open>Days of a directory\<close>

lemma map_filter_append: "List.map_filter f (xs @ ys) = List.map_filter f xs @ List.map_filter f ys"
  by (simp add: map_filter_def)

lemma days_in_keys: "days_in files = sort (List.map_filter day_of_file (map fst files))"
proof -
  have "List.map_filter (day_of_file \<circ> fst) files = List.map_filter day_of_file (map fst files)"
    by (induction files) (auto simp: map_filter_simps split: option.splits)
  then show ?thesis by (simp add: days_in_def)
qed

lemma set_days_in: "set (days_in files) = {d. \<exists>name \<in> fst ` set files. day_of_file name = Some d}"
  by (force simp: days_in_def map_filter_def)

lemma sorted_days_in [simp]: "sorted (days_in files)"
  by (simp add: days_in_def)

lemma sorted_le_last: "sorted xs \<Longrightarrow> x \<in> set xs \<Longrightarrow> x \<le> last (xs :: int list)"
  by (induction xs) auto

lemma days_in_update_same:
  "name \<in> fst ` set files \<or> day_of_file name = None \<Longrightarrow> days_in (AList.update name v files) = days_in files"
  by (auto simp: days_in_keys update_keys map_filter_simps map_filter_append)

lemma days_in_update_new:
  assumes "name \<notin> fst ` set files" "day_of_file name = Some d" "\<forall>d' \<in> set (days_in files). d' \<le> d"
  shows "days_in (AList.update name v files) = days_in files @ [d]"
proof -
  have "days_in (AList.update name v files) = sort (List.map_filter day_of_file (map fst files) @ [d])"
    using assms(1,2) by (simp add: days_in_keys update_keys map_filter_simps map_filter_append)
  also have "\<dots> = days_in files @ [d]"
  proof (rule properties_for_sort)
    show "mset (days_in files @ [d]) = mset (List.map_filter day_of_file (map fst files) @ [d])"
      by (simp add: days_in_keys)
    show "sorted (days_in files @ [d])" using assms(3) by (simp add: sorted_append)
  qed
  finally show ?thesis .
qed

section \<open>Text of files\<close>

text \<open>What the sink relies on of JSON: what is written parses back and is one line of text.\<close>

definition json_sound :: "audit_env \<Rightarrow> bool" where
  "json_sound env \<longleftrightarrow>
     (\<forall>r. parse_record env (json_record env r) = Some r \<and> line_is_utf8 (json_record env r)
        \<and> \<not> is_blank (json_record env r) \<and> (\<forall>c \<in> set (json_record env r). 32 \<le> (of_char c :: nat)))
     \<and> (\<forall>s. parse_seal env (json_seal env s) = Some s)"

definition no_faults :: "audit_env \<Rightarrow> bool" where
  "no_faults env \<longleftrightarrow> (\<forall>f. \<not> trail_fault env f) \<and> (\<forall>l. append_fault env l = None)"

definition ends_line :: "string \<Rightarrow> bool" where
  "ends_line s \<longleftrightarrow> s = [] \<or> last s = newline"

lemma str_lines_append: "ends_line old \<Longrightarrow> str_lines (old @ new) = str_lines old @ str_lines new"
proof (induction "length old" arbitrary: old rule: less_induct)
  case less
  show ?case
  proof (cases "old = []")
    case False
    with less.prems have "newline \<in> set old" by (metis ends_line_def last_in_set)
    then obtain l r where old: "old = l @ newline # r" "newline \<notin> set l"
      by (metis split_list_first)
    have "ends_line r" using less.prems by (auto simp: ends_line_def old(1) split: if_splits)
    then have "str_lines (r @ new) = str_lines r @ str_lines new" using less.hyps old(1) by simp
    then show ?thesis using str_lines_line [OF old(2)] by (simp add: old(1))
  qed simp
qed

lemma json_line:
  assumes "json_sound env"
  shows "str_lines (json_record env r @ [newline]) = [json_record env r]"
    "parse_lines env [json_record env r] = Some [r]"
proof -
  let ?l = "json_record env r"
  have "\<forall>c \<in> set ?l. 32 \<le> (of_char c :: nat)" using assms by (simp add: json_sound_def)
  then have "newline \<notin> set ?l" "CHR 0x0D \<notin> set ?l" by (auto simp: newline_def)
  then have "strip_cr ?l = ?l" "newline \<notin> set ?l" by (auto simp: strip_cr_def dest: last_in_set)
  then show "str_lines (?l @ [newline]) = [?l]" using str_lines_line [of ?l "[]"] by simp
  show "parse_lines env [?l] = Some [r]" using assms by (simp add: json_sound_def)
qed

section \<open>The invariant of a trail\<close>

definition files_inv :: "audit_env \<Rightarrow> (string \<times> string) list \<Rightarrow> AuditRecord list \<Rightarrow> bool" where
  "files_inv env files rs \<longleftrightarrow>
     distinct (map fst files)
     \<and> (\<forall>name \<in> fst ` set files. \<forall>d. day_of_file name = Some d \<longrightarrow> name = path_for d \<and> nameable d)
     \<and> (\<forall>d \<in> set (days_in files). \<forall>s. map_of files (path_for d) = Some s \<longrightarrow> ends_line s)
     \<and> records_in env files = Some rs \<and> chain env GENESIS 1 rs
     \<and> (\<forall>d s. map_of files (seal_path d) = Some s \<longrightarrow> (\<exists>made. parse_seal env s = Some made \<and> seal_holds rs made))"

text \<open>
  Every day holds a record. For the latest day this is where a sink that starts finds the head again.
\<close>

definition written :: "audit_env \<Rightarrow> (string \<times> string) list \<Rightarrow> int \<Rightarrow> bool" where
  "written env files d \<longleftrightarrow> parse_lines env (str_lines (the (map_of files (path_for d)))) \<noteq> Some []"

definition days_written :: "audit_env \<Rightarrow> (string \<times> string) list \<Rightarrow> bool" where
  "days_written env files \<longleftrightarrow> (\<forall>d \<in> set (days_in files). written env files d)"

definition open_inv :: "(string \<times> string) list \<Rightarrow> AuditRecord list \<Rightarrow> Open \<Rightarrow> bool" where
  "open_inv files rs c \<longleftrightarrow>
     open_seq c = of_nat (length rs) \<and> open_previous c = head_of rs \<and> days_in files \<noteq> []
     \<and> open_day c = last (days_in files)"

definition trail_inv :: "audit_env \<Rightarrow> trail \<Rightarrow> AuditRecord list \<Rightarrow> bool" where
  "trail_inv env t rs \<longleftrightarrow>
     (case trail_files t of
        None \<Rightarrow> trail_open t = None \<and> rs = []
      | Some files \<Rightarrow>
          files_inv env files rs \<and> days_written env files
          \<and> (case trail_open t of None \<Rightarrow> True | Some c \<Rightarrow> open_inv files rs c))"

lemma files_inv_day:
  assumes "files_inv env files rs" "d \<in> set (days_in files)"
  obtains s where "map_of files (path_for d) = Some s" "ends_line s" "nameable d" "path_for d \<in> fst ` set files"
proof -
  from assms obtain name where name: "name \<in> fst ` set files" "day_of_file name = Some d"
    by (auto simp: set_days_in)
  moreover have "name = path_for d \<and> nameable d" using assms(1) name unfolding files_inv_def by blast
  ultimately have "path_for d \<in> fst ` set files" "nameable d" by simp_all
  then obtain s where "map_of files (path_for d) = Some s"
    by (metis dom_map_of_conv_image_fst domD)
  with assms \<open>path_for d \<in> fst ` set files\<close> \<open>nameable d\<close> show thesis
    by (intro that) (auto simp: files_inv_def)
qed

lemma trail_lines_cong:
  "(\<And>d. d \<in> set ds \<Longrightarrow> map_of files (path_for d) = map_of files' (path_for d)) \<Longrightarrow>
   trail_lines files ds = trail_lines files' ds"
  by (simp add: trail_lines_def cong: map_cong)

lemma trail_lines_append [simp]: "trail_lines files (ds @ ds') = trail_lines files ds @ trail_lines files ds'"
  by (simp add: trail_lines_def)

subsection \<open>Sealing\<close>

lemma seal_holds_whole:
  assumes "length rs < 2 ^ 64" "seal_records (seal_body s) = of_nat (length rs)"
    "seal_head (seal_body s) = head_of rs"
  shows "seal_holds rs s"
proof -
  have "unat (of_nat (length rs) :: u64) = length rs"
    using assms(1) by (simp add: unsigned_of_nat take_bit_nat_eq_self_iff)
  then show ?thesis using assms by (simp add: seal_holds_def head_of_def last_conv_nth)
qed

lemma seal_holds_more: "seal_holds rs s \<Longrightarrow> seal_holds (rs @ qs) s"
  by (auto simp: seal_holds_def nth_append)

lemma files_inv_seal:
  assumes "files_inv env files rs" "seal_holds rs s" "json_sound env"
  shows "files_inv env (AList.update (seal_path d) (json_seal env s) files) rs"
proof -
  let ?files = "AList.update (seal_path d) (json_seal env s) files"
  have days: "days_in ?files = days_in files" by (simp add: days_in_update_same)
  have same: "map_of ?files (path_for d') = map_of files (path_for d')" for d'
    by (simp add: update_conv' path_for_not_seal)
  have keys: "fst ` set ?files = insert (seal_path d) (fst ` set files)" by (simp add: dom_update)
  have parse: "parse_seal env (json_seal env s) = Some s" using assms(3) by (simp add: json_sound_def)
  have "records_in env ?files = records_in env files"
    unfolding records_in_def days by (simp add: same cong: trail_lines_cong)
  moreover have "\<exists>made. parse_seal env x = Some made \<and> seal_holds rs made"
    if "map_of ?files (seal_path d') = Some x" for d' x
    using that assms(1,2) parse by (auto simp: files_inv_def update_conv' split: if_splits)
  ultimately show ?thesis
    using assms(1) unfolding files_inv_def days same keys
    by (auto simp: distinct_update simp del: map_of_eq_Some_iff)
qed

subsection \<open>Opening a day\<close>

lemma files_inv_open:
  assumes "files_inv env files rs" "nameable d" "map_of files (path_for d) = None"
    "\<forall>d' \<in> set (days_in files). d' \<le> d"
  shows "files_inv env (AList.update (path_for d) [] files) rs"
    "days_in (AList.update (path_for d) [] files) = days_in files @ [d]"
proof -
  let ?files = "AList.update (path_for d) [] files"
  have new: "path_for d \<notin> fst ` set files" using assms(3) by (simp add: map_of_eq_None_iff)
  show days: "days_in ?files = days_in files @ [d]"
    using new assms(2,4) by (intro days_in_update_new) (simp_all add: day_of_file_path_for)
  have other: "map_of ?files (path_for d') = map_of files (path_for d')" if "d' \<in> set (days_in files)" for d'
    using files_inv_day [OF assms(1) that] new by (metis fun_upd_other update_conv')
  have seals: "map_of ?files (seal_path d') = map_of files (seal_path d')" for d'
    using path_for_not_seal [of d d'] by (simp add: update_conv')
  have "trail_lines ?files (days_in files @ [d]) = trail_lines files (days_in files)"
    using trail_lines_cong [of "days_in files" ?files files] other
    by (simp add: trail_lines_def update_conv')
  then have "records_in env ?files = records_in env files" by (simp add: records_in_def days)
  moreover have "fst ` set ?files = insert (path_for d) (fst ` set files)" by (simp add: dom_update)
  moreover have "ends_line s" if "d' \<in> set (days_in ?files)" "map_of ?files (path_for d') = Some s" for d' s
    using that assms(1) other by (cases "d' = d") (auto simp: days update_conv' ends_line_def files_inv_def)
  ultimately show "files_inv env ?files rs"
    using assms(1,2) unfolding files_inv_def seals
    by (auto simp: distinct_update day_of_file_path_for simp del: map_of_eq_Some_iff)
qed

subsection \<open>Appending a record\<close>

lemma days_in_distinct:
  assumes "files_inv env files rs"
  shows "distinct (days_in files)"
proof -
  have "distinct (List.map_filter day_of_file names)"
    if "distinct names" "\<forall>name \<in> set names. \<forall>d. day_of_file name = Some d \<longrightarrow> name = path_for d" for names
    using that by (induction names) (auto simp: map_filter_simps map_filter_def split: option.splits)
  from this [of "map fst files"] show ?thesis
    using assms by (simp add: days_in_keys files_inv_def)
qed

lemma files_inv_append:
  assumes "files_inv env files rs" "json_sound env" "days_in files \<noteq> []"
    "map_of files (path_for (last (days_in files))) = Some old" "chain env GENESIS 1 (rs @ [r])"
  defines "files' \<equiv> AList.update (path_for (last (days_in files))) (old @ json_record env r @ [newline]) files"
  shows "files_inv env files' (rs @ [r])" "days_in files' = days_in files"
    "(\<forall>d \<in> set (days_in files) - {last (days_in files)}. written env files d) \<Longrightarrow> days_written env files'"
proof -
  let ?d = "last (days_in files)" and ?ds = "butlast (days_in files)"
  let ?line = "json_record env r @ [newline]"
  have split: "days_in files = ?ds @ [?d]" using assms(3) by simp
  have d: "nameable ?d" "path_for ?d \<in> fst ` set files" "ends_line old"
    using files_inv_day [OF assms(1), of ?d] assms(3,4) by auto
  show days: "days_in files' = days_in files" unfolding files'_def by (simp add: days_in_update_same d(2))
  have earlier: "map_of files' (path_for d') = map_of files (path_for d')" if "d' \<in> set ?ds" for d'
  proof -
    have "d' \<in> set (days_in files)" using that by (rule in_set_butlastD)
    then have "nameable d'" by (rule files_inv_day [OF assms(1)])
    moreover have "distinct (?ds @ [?d])" using days_in_distinct [OF assms(1)] split by simp
    then have "d' \<noteq> ?d" using that by auto
    ultimately show ?thesis using d(1) by (simp add: files'_def update_conv' path_for_inj)
  qed
  have last_day: "map_of files' (path_for ?d) = Some (old @ ?line)" by (simp add: files'_def update_conv')
  have "trail_lines files' (days_in files) = trail_lines files ?ds @ str_lines (old @ ?line)"
    by (subst split) (simp add: trail_lines_cong [OF earlier] trail_lines_def [of _ "[?d]"] last_day)
  also have "\<dots> = trail_lines files (days_in files) @ [json_record env r]"
    by (subst (2) split) (simp add: str_lines_append d(3) json_line [OF assms(2)] trail_lines_def [of _ "[?d]"] assms(4))
  finally have "records_in env files' = Some (rs @ [r])"
    using assms(1) json_line(2) [OF assms(2), of r]
    by (simp add: records_in_def days parse_lines_append files_inv_def)
  moreover have "map_of files' (seal_path d') = map_of files (seal_path d')" for d'
    using path_for_not_seal [of ?d d'] by (simp add: files'_def update_conv')
  moreover have "fst ` set files' = fst ` set files" using d(2) by (auto simp: files'_def dom_update)
  moreover have "ends_line s" if "d' \<in> set (days_in files)" "map_of files' (path_for d') = Some s" for d' s
  proof (cases "d' = ?d")
    case True
    with that(2) last_day have "s = old @ ?line" by simp
    then show ?thesis by (simp add: ends_line_def)
  next
    case False
    have "set (days_in files) = insert ?d (set ?ds)" by (subst split) simp
    with that(1) False have "d' \<in> set ?ds" by simp
    with earlier that assms(1) show ?thesis by (auto simp: files_inv_def)
  qed
  moreover have "\<exists>made. parse_seal env x = Some made \<and> seal_holds (rs @ [r]) made"
    if "map_of files (seal_path d') = Some x" for d' x
    using that assms(1) seal_holds_more [of rs _ "[r]"] unfolding files_inv_def by meson
  moreover have "distinct (map fst files')"
    using assms(1) by (simp add: files'_def distinct_update files_inv_def)
  ultimately show "files_inv env files' (rs @ [r])"
    using assms(1,5) unfolding files_inv_def days by (simp del: map_of_eq_Some_iff)
  show "days_written env files'" if "\<forall>d \<in> set (days_in files) - {?d}. written env files d"
  proof -
    have all: "set (days_in files) = insert ?d (set ?ds)" by (subst split) simp
    have "written env files' ?d"
      using json_line(2) [OF assms(2), of r]
      by (auto simp: written_def last_day str_lines_append d(3) json_line [OF assms(2)]
          parse_lines_append bind_eq_Some_conv simp del: parse_lines.simps)
    moreover have "written env files' d'" if "d' \<in> set (days_in files)" "d' \<noteq> ?d" for d'
      using that all earlier [of d'] \<open>\<forall>d \<in> set (days_in files) - {?d}. written env files d\<close>
      by (simp add: written_def)
    ultimately show ?thesis unfolding days_written_def days by blast
  qed
qed

section \<open>The operations keep the invariant\<close>

definition trail_days :: "trail \<Rightarrow> int list" where
  "trail_days t = (case trail_files t of None \<Rightarrow> [] | Some files \<Rightarrow> days_in files)"

definition next_record ::
    "audit_env \<Rightarrow> FileAuditSink \<Rightarrow> AuditRecord list \<Rightarrow> int \<Rightarrow> AuditEvent \<Rightarrow> policy option \<Rightarrow> AuditRecord" where
  "next_record env sink rs seconds e policy =
     (let c = \<lparr>open_day = day_of seconds, open_seq = of_nat (length rs), open_previous = head_of rs\<rparr>;
          b = body_of sink c seconds e policy
      in \<lparr>rec_body = b, rec_digest = expected_digest env b\<rparr>)"

lemma next_record_chain:
  "chain env GENESIS 1 rs \<Longrightarrow> chain env GENESIS 1 (rs @ [next_record env sink rs seconds e policy])"
  by (simp add: chain_snoc next_record_def Let_def body_of_def head_of_def)

lemma expire_names_nothing:
  assumes "\<forall>name \<in> set names. \<forall>d. day_of_file name = Some d \<longrightarrow> oldest \<le> d"
  shows "expire_names env oldest names files = (Inr 0, files)"
  using assms by (induction names) (auto split: option.splits)

lemma expire_nothing:
  assumes "trail_files t = Some files" "no_faults env"
    "\<forall>d \<in> set (days_in files). today - uint (sink_retention sink) div 86400 \<le> d"
  shows "expire env sink today t = (Inr 0, t)"
proof -
  have "expire_names env (today - uint (sink_retention sink) div 86400) (map fst files) files = (Inr 0, files)"
    using assms(3) by (intro expire_names_nothing) (auto simp: set_days_in)
  then show ?thesis using assms(1,2) by (simp add: expire_def no_faults_def)
qed

lemma parse_lines_Some:
  assumes "parse_lines env ls = Some rs"
  shows "takeWhile line_is_utf8 ls = ls"
    "map (parse_record env) (filter (\<lambda>l. \<not> is_blank l) ls) = map Some rs"
  using assms by (induction ls arbitrary: rs) (auto split: if_splits option.splits)

lemma tail_spec:
  assumes "trail_inv env t rs" "trail_open t = None" "no_faults env"
  shows "tail env t = Inr (if rs = [] then None else Some (of_nat (length rs), head_of rs))"
proof (cases "trail_files t")
  case None
  with assms show ?thesis by (simp add: tail_def days_def trail_inv_def)
next
  case (Some files)
  then have inv: "files_inv env files rs" "days_written env files"
    using assms(1) by (simp_all add: trail_inv_def)
  have days: "days env t = Inr (days_in files)" using Some assms(3) by (simp add: days_def no_faults_def)
  have rs: "parse_lines env (trail_lines files (days_in files)) = Some rs" "chain env GENESIS 1 rs"
    using inv(1) by (simp_all add: files_inv_def records_in_def)
  show ?thesis
  proof (cases "days_in files = []")
    case True
    then show ?thesis using days rs(1) by (simp add: tail_def trail_lines_def)
  next
    case False
    let ?d = "last (days_in files)"
    obtain s where s: "map_of files (path_for ?d) = Some s"
      using files_inv_day [OF inv(1), of ?d] False by auto
    have "days_in files = butlast (days_in files) @ [?d]" using False by simp
    then have "trail_lines files (days_in files) = trail_lines files (butlast (days_in files)) @ str_lines s"
      by (metis trail_lines_append s option.sel trail_lines_def concat.simps list.map append_Nil2)
    then obtain qs ls where ls: "parse_lines env (str_lines s) = Some ls" "rs = qs @ ls"
      using rs(1) by (auto simp: parse_lines_append bind_eq_Some_conv)
    have "ls \<noteq> []" using inv(2) last_in_set [OF False] s ls(1) by (force simp: days_written_def written_def)
    then obtain ps r where r: "ls = ps @ [r]" by (cases ls rule: rev_cases) auto
    let ?w = "filter (\<lambda>l. \<not> is_blank l) (str_lines s)"
    have w: "map (parse_record env) ?w = map Some ls" using parse_lines_Some(2) [OF ls(1)] .
    then have "?w \<noteq> []" using \<open>ls \<noteq> []\<close> by (metis list.map_disc_iff)
    then have "parse_record env (last ?w) = Some r" using w by (metis r last_map last_snoc \<open>ls \<noteq> []\<close>)
    moreover have "body_seq (rec_body r) = of_nat (length rs)" "rec_digest r = head_of rs" "rs \<noteq> []"
      using rs(2) chain_snoc [of env GENESIS 1 "qs @ ps" r] by (simp_all add: ls(2) r head_of_def)
    ultimately show ?thesis
      using days Some assms(3) s False \<open>?w \<noteq> []\<close>
      by (simp add: tail_def no_faults_def Let_def parse_lines_Some(1) [OF ls(1)])
  qed
qed

text \<open>The seal of the open day, whether it rolls over or shuts down.\<close>

lemma seal_step:
  assumes "trail_inv env t rs" "trail_open t = Some c" "json_sound env" "no_faults env" "length rs < 2 ^ 64"
  obtains t' where "seal env now (open_day c) (open_seq c) (open_previous c) t = (Inr (), t')"
    "trail_inv env t' rs" "trail_open t' = Some c" "trail_days t' = trail_days t"
proof -
  from assms(1,2) obtain files where files: "trail_files t = Some files" "files_inv env files rs"
      "days_written env files" "open_inv files rs c"
    by (auto simp: trail_inv_def split: option.splits)
  define s where "s = make_seal env now (open_day c) (open_seq c) (open_previous c)"
  have s: "seal_records (seal_body s) = open_seq c" "seal_head (seal_body s) = open_previous c"
    by (simp_all add: s_def make_seal_def Let_def)
  have step: "seal env now (open_day c) (open_seq c) (open_previous c) t
      = (Inr (), t\<lparr>trail_files := Some (AList.update (seal_path (open_day c)) (json_seal env s) files),
                   trail_emitted := trail_emitted t @ [s]\<rparr>)"
    using assms(4) files(1) by (simp add: seal_def Let_def no_faults_def put_file_def flip: s_def)
  let ?files = "AList.update (seal_path (open_day c)) (json_seal env s) files"
  have "seal_holds rs s"
    using files(4) s(1,2) assms(5) by (intro seal_holds_whole) (simp_all add: open_inv_def)
  then have "files_inv env ?files rs" using files(2) assms(3) by (intro files_inv_seal)
  moreover have days: "days_in ?files = days_in files" by (simp add: days_in_update_same)
  moreover have "days_written env ?files"
    using files(3) by (simp add: days_written_def written_def days update_conv' path_for_not_seal)
  ultimately show thesis
    using that [OF step] files assms(2) by (simp add: trail_inv_def open_inv_def trail_days_def)
qed

lemma open_for_step:
  assumes "trail_inv env t rs" "\<not> is_open_for day t" "no_faults env" "nameable day"
    "\<forall>d \<in> set (trail_days t). d \<le> day"
  obtains t' files where "open_for env day t = (Inr (), t')" "trail_files t' = Some files"
    "files_inv env files rs" "set (days_in files) = insert day (set (trail_days t))"
    "trail_open t' = Some \<lparr>open_day = day, open_seq = of_nat (length rs), open_previous = head_of rs\<rparr>"
    "days_in files \<noteq> []" "last (days_in files) = day"
    "\<forall>d \<in> set (days_in files) - {day}. written env files d"
proof -
  define t1 where "t1 = create_trail t"
  obtain files where files: "trail_files t1 = Some files" "files_inv env files rs" "days_in files = trail_days t"
    "days_written env files"
  proof (cases "trail_files t")
    case None
    have "files_inv env [] []"
      by (simp add: files_inv_def records_in_def days_in_def trail_lines_def map_filter_simps)
    with None assms(1) show thesis
      by (intro that [of "[]"]) (simp_all add: t1_def create_trail_def trail_inv_def trail_days_def days_in_def
          map_filter_simps days_written_def)
  next
    case (Some files)
    with assms(1) show thesis
      by (intro that [of files]) (simp_all add: t1_def create_trail_def trail_inv_def trail_days_def)
  qed
  have left: "(case trail_open t of Some c \<Rightarrow> Inr (Some (open_seq c, open_previous c)) | None \<Rightarrow> tail env t)
      = Inr (if trail_open t = None \<and> rs = [] then None else Some (of_nat (length rs), head_of rs))"
    using assms(1) tail_spec [OF assms(1) _ assms(3)]
    by (auto simp: trail_inv_def open_inv_def split: option.splits)
  let ?c = "\<lparr>open_day = day, open_seq = of_nat (length rs), open_previous = head_of rs\<rparr>"
  let ?t = "(open_file (path_for day) t1)\<lparr>trail_open := Some ?c\<rparr>"
  have opened: "open_for env day t = (Inr (), ?t)"
    using assms(2,3) by (simp add: open_for_def left no_faults_def Let_def t1_def [symmetric] head_of_def)
  show thesis
  proof (cases "map_of files (path_for day)")
    case None
    let ?files = "AList.update (path_for day) [] files"
    have "trail_files ?t = Some ?files" using None files(1) by (simp add: open_file_def put_file_def)
    moreover note new = files_inv_open [OF files(2) assms(4) None] assms(5) files(3)
    moreover have "written env ?files d" if "d \<in> set (trail_days t)" "d \<noteq> day" for d
    proof -
      have "nameable d" using that(1) files(3) by (auto intro: files_inv_day [OF files(2)])
      then show ?thesis
        using that files(3,4) assms(4) by (simp add: days_written_def written_def update_conv' path_for_inj)
    qed
    ultimately show thesis using that [OF opened, of ?files] by simp
  next
    case (Some old)
    then have "day \<in> set (days_in files)"
      using assms(4) by (auto simp: set_days_in day_of_file_path_for intro!: bexI dest!: map_of_SomeD)
    moreover from this have "last (days_in files) = day"
      using assms(5) files(3) sorted_days_in [of files]
      by (metis empty_iff last_in_set order_antisym list.set(1) sorted_le_last)
    moreover have "trail_files ?t = Some files" using Some files(1) by (simp add: open_file_def)
    moreover from \<open>day \<in> set (days_in files)\<close> have "days_in files \<noteq> []" by auto
    ultimately show thesis using that [OF opened, of files] files(2-4) by (simp add: insert_absorb days_written_def)
  qed
qed

lemma write_record_step:
  assumes "trail_files t = Some files" "files_inv env files rs" "days_in files \<noteq> []"
    "trail_open t = Some c" "open_inv files rs c" "json_sound env" "no_faults env"
    "\<forall>d \<in> set (days_in files) - {last (days_in files)}. written env files d"
  obtains t' where "write_record env sink seconds e policy t = (Inr (), t')"
    "trail_inv env t' (rs @ [next_record env sink rs seconds e policy])"
    "trail_days t' = days_in files" "trail_open t' \<noteq> None"
proof -
  let ?r = "next_record env sink rs seconds e policy"
  obtain old where old: "map_of files (path_for (last (days_in files))) = Some old"
    using files_inv_day [OF assms(2)] assms(3) by (metis last_in_set)
  let ?files = "AList.update (path_for (last (days_in files))) (old @ json_record env ?r @ [newline]) files"
  let ?c = "c\<lparr>open_seq := open_seq c + 1, open_previous := rec_digest ?r\<rparr>"
  have body: "body_of sink c seconds e policy = rec_body ?r"
    using assms(5) by (simp add: next_record_def Let_def body_of_def open_inv_def)
  have "\<lparr>rec_body = rec_body ?r, rec_digest = rec_digest ?r\<rparr> = ?r" by simp
  moreover have "expected_digest env (rec_body ?r) = rec_digest ?r" by (simp add: next_record_def Let_def)
  ultimately have step: "write_record env sink seconds e policy t
      = (Inr (), t\<lparr>trail_files := Some ?files, trail_open := Some ?c\<rparr>)"
    using assms(1,4,5,7) old
    by (simp only: write_record_def option.case body Let_def) (simp add: no_faults_def open_inv_def append_file_def put_file_def)
  have "chain env GENESIS 1 (rs @ [?r])" using assms(2) by (intro next_record_chain) (simp add: files_inv_def)
  note files = files_inv_append [OF assms(2,6,3) old this]
  have "open_inv ?files (rs @ [?r]) ?c"
    using assms(5) files(2) by (simp add: open_inv_def head_of_def)
  then show thesis using that [OF step] files(1,2) files(3) [OF assms(8)] by (simp add: trail_inv_def trail_days_def)
qed

lemma record_event_step:
  assumes "trail_inv env t rs" "json_sound env" "no_faults env" "length rs < 2 ^ 64"
    "nameable (day_of seconds)" "\<forall>d \<in> set (trail_days t). d \<le> day_of seconds"
    "\<forall>d \<in> set (trail_days t). day_of seconds - uint (sink_retention sink) div 86400 \<le> d"
  obtains t' where "record_event env sink seconds sealing e policy t = (Inr (), t')"
    "trail_inv env t' (rs @ [next_record env sink rs seconds e policy])"
    "set (trail_days t') = insert (day_of seconds) (set (trail_days t))"
proof (cases "is_open_for (day_of seconds) t")
  case True
  then obtain c files where c: "trail_open t = Some c" "open_day c = day_of seconds" "trail_files t = Some files"
      "files_inv env files rs" "open_inv files rs c" "days_written env files"
    using assms(1) by (auto simp: is_open_for_def trail_inv_def split: option.splits)
  then have days: "days_in files \<noteq> []" "last (days_in files) = day_of seconds" by (simp_all add: open_inv_def)
  obtain t' where t': "write_record env sink seconds e policy t = (Inr (), t')"
      "trail_inv env t' (rs @ [next_record env sink rs seconds e policy])" "trail_days t' = days_in files"
    using write_record_step [OF c(3,4) days(1) c(1,5) assms(2,3)] c(6) unfolding days_written_def by blast
  have "record_event env sink seconds sealing e policy t = (Inr (), t')"
    using True t'(1) by (simp add: record_event_def open_for_def Let_def)
  moreover have "set (trail_days t') = insert (day_of seconds) (set (trail_days t))"
    using t'(3) c(3) days last_in_set [OF days(1)] by (auto simp: trail_days_def)
  ultimately show thesis using that t'(2) by blast
next
  case False
  define t1 where "t1 = (case trail_open t of None \<Rightarrow> t
      | Some c \<Rightarrow> snd (seal env sealing (open_day c) (open_seq c) (open_previous c) t))"
  have t1: "trail_inv env t1 rs" "trail_open t1 = trail_open t" "trail_days t1 = trail_days t"
  proof (atomize (full), cases "trail_open t")
    case None
    then show "trail_inv env t1 rs \<and> trail_open t1 = trail_open t \<and> trail_days t1 = trail_days t"
      using assms(1) by (simp add: t1_def)
  next
    case (Some c)
    obtain t2 where "seal env sealing (open_day c) (open_seq c) (open_previous c) t = (Inr (), t2)"
      "trail_inv env t2 rs" "trail_open t2 = Some c" "trail_days t2 = trail_days t"
      by (rule seal_step [OF assms(1) Some assms(2-4)])
    then show "trail_inv env t1 rs \<and> trail_open t1 = trail_open t \<and> trail_days t1 = trail_days t"
      using Some by (simp add: t1_def)
  qed
  have "\<not> is_open_for (day_of seconds) t1" using False t1(2) by (simp add: is_open_for_def)
  from open_for_step [OF t1(1) this assms(3,5)] assms(6) t1(3) obtain t2 files where t2:
    "open_for env (day_of seconds) t1 = (Inr (), t2)" "trail_files t2 = Some files" "files_inv env files rs"
    "set (days_in files) = insert (day_of seconds) (set (trail_days t))"
    "trail_open t2 = Some \<lparr>open_day = day_of seconds, open_seq = of_nat (length rs), open_previous = head_of rs\<rparr>"
    "days_in files \<noteq> []" "last (days_in files) = day_of seconds"
    "\<forall>d \<in> set (days_in files) - {day_of seconds}. written env files d" by metis
  have exp: "expire env sink (day_of seconds) t2 = (Inr 0, t2)"
    using assms(7) t2(4) by (intro expire_nothing [OF t2(2) assms(3)]) (auto simp: pos_imp_zdiv_nonneg_iff)
  have opened: "open_inv files rs \<lparr>open_day = day_of seconds, open_seq = of_nat (length rs), open_previous = head_of rs\<rparr>"
    using t2(6,7) by (simp add: open_inv_def)
  obtain t' where t': "write_record env sink seconds e policy t2 = (Inr (), t')"
      "trail_inv env t' (rs @ [next_record env sink rs seconds e policy])" "trail_days t' = days_in files"
    using write_record_step [OF t2(2,3,6,5) opened assms(2,3)] t2(8) unfolding t2(7) by blast
  have "record_event env sink seconds sealing e policy t = (Inr (), t')"
    using False t2(1) exp t'(1) by (simp add: record_event_def Let_def flip: t1_def)
  then show thesis using that t' t2(4) by simp
qed

lemma shutdown_step:
  assumes "trail_inv env t rs" "json_sound env" "no_faults env" "length rs < 2 ^ 64"
  obtains t' where "shutdown env now t = (Inr (), t')" "trail_inv env t' rs" "trail_days t' = trail_days t"
proof (cases "trail_open t")
  case None
  with assms(1) that show thesis by (simp add: shutdown_def)
next
  case (Some c)
  obtain t2 where t2: "seal env now (open_day c) (open_seq c) (open_previous c) t = (Inr (), t2)"
    "trail_inv env t2 rs" "trail_days t2 = trail_days t"
    using seal_step [OF assms(1) Some assms(2-4)] by metis
  have "trail_inv env (t2\<lparr>trail_open := None\<rparr>) rs"
    using t2(2) by (auto simp: trail_inv_def split: option.splits)
  then show thesis
    using that Some t2(1,3) assms(3) by (simp add: shutdown_def no_faults_def trail_days_def)
qed

lemma trail_inv_verifies:
  assumes "trail_inv env t rs" "length rs < 2 ^ 64" "trail_files t = Some files"
  shows "\<exists>v. verify env (Some files) = Inr v \<and> ver_head v = head_of rs \<and> ver_records v = of_nat (length rs)"
proof -
  have inv: "files_inv env files rs" using assms(1,3) by (simp add: trail_inv_def)
  show ?thesis
  proof (rule verify_complete)
    show "\<forall>d \<in> set (days_in files). map_of files (path_for d) \<noteq> None"
      using files_inv_day [OF inv] by (metis option.simps(3))
    show "seals_parse env files (days_in files)"
      using inv by (fastforce simp: files_inv_def seals_parse_def simp del: map_of_eq_Some_iff)
    show "seal_holds rs s" if "sealed_in env files d s" for d s
      using inv that by (fastforce simp: files_inv_def sealed_in_def simp del: map_of_eq_Some_iff)
  qed (use inv assms(2) in \<open>simp_all add: files_inv_def\<close>)
qed

lemma prepare_step:
  assumes "trail_inv env t rs" "no_faults env"
    "\<forall>d \<in> set (trail_days t). day_of now - uint (sink_retention sink) div 86400 \<le> d"
  obtains t' where "prepare env sink now t = (Inr (), t')" "trail_inv env t' rs" "trail_days t' = trail_days t"
proof -
  define t1 where "t1 = create_trail t"
  obtain files where files: "trail_files t1 = Some files" "days_in files = trail_days t" "trail_inv env t1 rs"
  proof (cases "trail_files t")
    case None
    then show thesis
      using assms(1) that
      by (simp add: t1_def create_trail_def trail_days_def days_in_def map_filter_simps trail_inv_def files_inv_def
          records_in_def trail_lines_def days_written_def)
  next
    case (Some files)
    with assms(1) that show thesis by (simp add: t1_def create_trail_def trail_days_def)
  qed
  have "expire env sink (day_of now) t1 = (Inr 0, t1)"
    using assms(3) files(2) by (intro expire_nothing [OF files(1) assms(2)]) simp
  then have "prepare env sink now t = (Inr (), t1)"
    using assms(2) by (simp add: prepare_def no_faults_def Let_def t1_def [symmetric])
  then show thesis using that files by (simp add: trail_days_def)
qed

section \<open>The machine of a sink\<close>

text \<open>
  What a process does to its trail, over restarts: it prepares the directory, records events and shuts
  down. The clock does not go back to a day before the latest one, and no day is past its retention.
\<close>

definition new_trail :: trail where
  "new_trail = \<lparr>trail_files = None, trail_open = None, trail_emitted = []\<rparr>"

inductive trail_reach ::
    "audit_env \<Rightarrow> FileAuditSink \<Rightarrow> trail \<Rightarrow> (int \<times> AuditEvent \<times> policy option) list \<Rightarrow> bool"
    for env sink where
  start: "trail_reach env sink new_trail []"
| prepared: "trail_reach env sink t es \<Longrightarrow>
     \<forall>d \<in> set (trail_days t). day_of now - uint (sink_retention sink) div 86400 \<le> d \<Longrightarrow>
     prepare env sink now t = (r, t') \<Longrightarrow> trail_reach env sink t' es"
| recorded: "trail_reach env sink t es \<Longrightarrow> nameable (day_of s) \<Longrightarrow>
     \<forall>d \<in> set (trail_days t). d \<le> day_of s \<and> day_of s - uint (sink_retention sink) div 86400 \<le> d \<Longrightarrow>
     record_event env sink s sealing e policy t = (r, t') \<Longrightarrow> trail_reach env sink t' (es @ [(s, e, policy)])"
| stopped: "trail_reach env sink t es \<Longrightarrow> shutdown env now t = (r, t') \<Longrightarrow> trail_reach env sink t' es"

fun records_for ::
    "audit_env \<Rightarrow> FileAuditSink \<Rightarrow> AuditRecord list \<Rightarrow> (int \<times> AuditEvent \<times> policy option) list \<Rightarrow> AuditRecord list" where
  "records_for env sink rs [] = rs"
| "records_for env sink rs ((s, e, policy) # es) =
     records_for env sink (rs @ [next_record env sink rs s e policy]) es"

lemma records_for_snoc:
  "records_for env sink rs (es @ [(s, e, policy)])
     = records_for env sink rs es @ [next_record env sink (records_for env sink rs es) s e policy]"
  by (induction rs es rule: records_for.induct) simp_all

lemma length_records_for: "length (records_for env sink rs es) = length rs + length es"
  by (induction rs es rule: records_for.induct) simp_all

lemma trail_reach_inv:
  assumes "trail_reach env sink t es" "json_sound env" "no_faults env" "length es < 2 ^ 64"
  shows "trail_inv env t (records_for env sink [] es)"
  using assms(1,4)
proof (induction rule: trail_reach.induct)
  case start
  then show ?case by (simp add: trail_inv_def new_trail_def)
next
  case (prepared t es now r t')
  then show ?case using prepare_step [OF _ assms(3), of t] by (metis prod.inject)
next
  case (recorded t es s sealing e policy r t')
  have "trail_inv env t (records_for env sink [] es)" "length (records_for env sink [] es) < 2 ^ 64"
    using recorded.IH recorded.prems by (simp_all add: length_records_for)
  from record_event_step [OF this(1) assms(2,3) this(2) recorded.hyps(2), of sink] recorded.hyps(3,4)
  show ?case by (metis records_for_snoc prod.inject)
next
  case (stopped t es now r t')
  have "length (records_for env sink [] es) < 2 ^ 64" using stopped.prems by (simp add: length_records_for)
  from shutdown_step [OF stopped.IH [OF stopped.prems] assms(2,3) this] stopped.hyps(2)
  show ?case by (metis prod.inject)
qed

end
