(* ===== verification/AuditGuarantees.thy ===== *)
theory AuditGuarantees
  imports AuditRun
begin

text \<open>
  The guarantees of the audit trail, and a codec to run them with.
\<close>

section \<open>A stand-in for JSON\<close>

text \<open>
  Each field is written in hexadecimal and ended by a comma: not JSON, but a codec with the two
  properties the sink relies on, so that the statements below can be run on concrete trails.
\<close>

definition hex_value :: "char \<Rightarrow> nat" where
  "hex_value c = (if (of_char c :: nat) < 58 then of_char c - 48 else of_char c - 87)"

fun unhex :: "string \<Rightarrow> string" where
  "unhex (a # b # s) = char_of (16 * hex_value a + hex_value b) # unhex s"
| "unhex _ = []"

definition write_fields :: "string list \<Rightarrow> string" where
  "write_fields fs = concat (map (\<lambda>f. hex (as_bytes f) @ '','') fs)"

definition read_fields :: "string \<Rightarrow> string list" where
  "read_fields s = map unhex (butlast (split_on CHR '','' s))"

definition some_field :: "string option \<Rightarrow> string" where
  "some_field f = (case f of None \<Rightarrow> '''' | Some s \<Rightarrow> ''+'' @ s)"

definition field_some :: "string \<Rightarrow> string option" where
  "field_some s = (case s of [] \<Rightarrow> None | _ # r \<Rightarrow> Some r)"

definition word_field :: "u64 \<Rightarrow> string" where
  "word_field w = digits_of (unat w)"

definition field_word :: "string \<Rightarrow> u64" where
  "field_word s = (case parse_nat s of None \<Rightarrow> 0 | Some n \<Rightarrow> of_nat n)"

definition body_fields :: "Body \<Rightarrow> string list" where
  "body_fields b =
     [word_field (body_seq b), body_at b, body_prev b, body_action b, body_subject b, body_subject_kind b,
      body_subject_sensitivity b, some_field (body_target b), some_field (body_continuity_id b),
      some_field (map_option word_field (body_continuity_position b)), body_service b, body_version b]"

definition demo_parse_record :: "string \<Rightarrow> AuditRecord option" where
  "demo_parse_record s =
     (case read_fields s of
        [sq, at_time, prev, act, sub, kind, sens, tgt, cid, cpos, svc, ver, dig] \<Rightarrow>
          Some \<lparr>rec_body = \<lparr>body_seq = field_word sq, body_at = at_time, body_prev = prev, body_action = act,
                  body_subject = sub, body_subject_kind = kind, body_subject_sensitivity = sens,
                  body_target = field_some tgt, body_continuity_id = field_some cid,
                  body_continuity_position = map_option field_word (field_some cpos),
                  body_service = svc, body_version = ver\<rparr>, rec_digest = dig\<rparr>
      | _ \<Rightarrow> None)"

definition demo_parse_seal :: "string \<Rightarrow> Seal option" where
  "demo_parse_seal s =
     (case read_fields s of
        [day, at_time, recs, head, k, alg, sig] \<Rightarrow>
          Some \<lparr>seal_body = \<lparr>seal_day = day, seal_at = at_time, seal_records = field_word recs, seal_head = head\<rparr>,
                seal_kid = field_some k, seal_algorithm = field_some alg, seal_signature = field_some sig\<rparr>
      | _ \<Rightarrow> None)"

text \<open>A digest that cannot collide: the text itself, with a digit before it that is not zero.\<close>

definition demo_audit_env :: audit_env where
  "demo_audit_env =
     \<lparr>json_body = (\<lambda>b. write_fields (body_fields b)),
      json_record = (\<lambda>r. write_fields (body_fields (rec_body r) @ [rec_digest r])),
      parse_record = demo_parse_record,
      json_seal_body = (\<lambda>b. write_fields [seal_day b, seal_at b, word_field (seal_records b), seal_head b]),
      json_seal = (\<lambda>s. write_fields [seal_day (seal_body s), seal_at (seal_body s),
                     word_field (seal_records (seal_body s)), seal_head (seal_body s),
                     some_field (seal_kid s), some_field (seal_algorithm s), some_field (seal_signature s)]),
      parse_seal = demo_parse_seal, sha256 = (\<lambda>b. 16 # b), seal_signer = None,
      trail_fault = (\<lambda>f. False), append_fault = (\<lambda>l. None)\<rparr>"

lemma hex_value_hex_digit: "n < 16 \<Longrightarrow> hex_value (hex_digit n) = n"
  by (simp add: hex_value_def hex_digit_def)

lemma hex_Cons: "hex (b # bs) = hex_digit (unat b div 16) # hex_digit (unat b mod 16) # hex bs"
  by (simp add: hex_def)

lemma unhex_hex: "unhex (hex (as_bytes s)) = s"
proof (induction s)
  case (Cons c s)
  have "of_char c < (256 :: nat)" by simp
  then have "of_char c div 16 < (16 :: nat)" by linarith
  then show ?case
    using Cons by (simp add: as_bytes_def hex_Cons hex_value_hex_digit del: of_nat_of_char)
qed (simp add: as_bytes_def hex_def)

lemma hex_digit_chars: "n < 16 \<Longrightarrow> 48 \<le> (of_char (hex_digit n) :: nat) \<and> of_char (hex_digit n) \<le> (102 :: nat)"
  by (simp add: hex_digit_def)

lemma hex_chars: "c \<in> set (hex bs) \<Longrightarrow> 48 \<le> (of_char c :: nat) \<and> of_char c \<le> (102 :: nat)"
proof (induction bs)
  case (Cons b bs)
  have "unat b div 16 < 16" using unsigned_less [of b, where 'a = nat] by simp
  then show ?case
    using Cons hex_digit_chars [of "unat b div 16"] hex_digit_chars [of "unat b mod 16"]
    by (auto simp: hex_Cons)
qed (simp add: hex_def)

lemma split_on_fields:
  "split_on CHR '','' (write_fields fs) = map (\<lambda>f. hex (as_bytes f)) fs @ [[]]"
proof (induction fs)
  case (Cons f fs)
  have "CHR '','' \<notin> set (hex (as_bytes f))" using hex_chars [of "CHR '',''"] by auto
  from split_on_append [OF this] Cons show ?case by (simp add: write_fields_def)
qed (simp add: write_fields_def)

lemma read_write_fields: "read_fields (write_fields fs) = fs"
  by (simp add: read_fields_def split_on_fields unhex_hex comp_def)

lemma field_word_word_field [simp]: "field_word (word_field w) = w"
  by (simp add: field_word_def word_field_def parse_nat_def parse_digits_digits_of)

lemma field_some_some_field [simp]: "field_some (some_field f) = f"
  by (cases f) (simp_all add: field_some_def some_field_def)

lemma write_fields_chars:
  "c \<in> set (write_fields fs) \<Longrightarrow> 44 \<le> (of_char c :: nat) \<and> of_char c \<le> (102 :: nat)"
proof (induction fs)
  case (Cons f fs)
  have "write_fields (f # fs) = hex (as_bytes f) @ '','' @ write_fields fs" by (simp add: write_fields_def)
  with Cons show ?case using hex_chars [of c "as_bytes f"] by auto
qed (simp add: write_fields_def)

lemma write_fields_text:
  assumes "fs \<noteq> []"
  shows "line_is_utf8 (write_fields fs)" "\<not> is_blank (write_fields fs)"
    "\<forall>c \<in> set (write_fields fs). 32 \<le> (of_char c :: nat)"
proof -
  have ascii: "utf8_decode (map of_char (write_fields fs)) = Some (map of_char (write_fields fs))"
    using write_fields_chars by (intro utf8_decode_ascii) force
  then show "line_is_utf8 (write_fields fs)" by (simp add: line_is_utf8_def)
  show "\<forall>c \<in> set (write_fields fs). 32 \<le> (of_char c :: nat)" using write_fields_chars by force
  have "CHR '','' \<in> set (write_fields fs)" using assms by (cases fs) (simp_all add: write_fields_def)
  then have "of_char CHR '','' \<in> set (str_chars (write_fields fs))"
    unfolding str_chars_def ascii option.case set_map by (rule imageI)
  then show "\<not> is_blank (write_fields fs)" by (auto simp: is_blank_def is_whitespace_def intro!: bexI [of _ 44])
qed

lemma demo_json_sound: "json_sound demo_audit_env"
  unfolding json_sound_def
proof (intro conjI allI)
  fix r
  show "parse_record demo_audit_env (json_record demo_audit_env r) = Some r"
    by (cases r; cases "rec_body r")
      (simp add: demo_audit_env_def demo_parse_record_def read_write_fields body_fields_def option.map_comp
        comp_def option.map_ident)
next
  fix r
  show "line_is_utf8 (json_record demo_audit_env r)" "\<not> is_blank (json_record demo_audit_env r)"
    "\<forall>c \<in> set (json_record demo_audit_env r). 32 \<le> (of_char c :: nat)"
    unfolding demo_audit_env_def audit_env.select_convs by (rule write_fields_text, simp)+
next
  fix s
  show "parse_seal demo_audit_env (json_seal demo_audit_env s) = Some s"
    by (simp add: demo_audit_env_def demo_parse_seal_def read_write_fields)
qed

lemma demo_no_faults: "no_faults demo_audit_env"
  by (simp add: no_faults_def demo_audit_env_def)

lemma hex_digit_inj: "m < 16 \<Longrightarrow> n < 16 \<Longrightarrow> hex_digit m = hex_digit n \<longleftrightarrow> m = n"
  by (metis hex_value_hex_digit)

lemma inj_hex: "hex a = hex b \<Longrightarrow> a = b"
proof (induction a arbitrary: b)
  case Nil
  then show ?case by (cases b) (simp_all add: hex_def)
next
  case (Cons x a)
  then obtain y c where b: "b = y # c" by (cases b) (simp_all add: hex_def)
  have same: "hex_digit (unat x div 16) = hex_digit (unat y div 16)"
    "hex_digit (unat x mod 16) = hex_digit (unat y mod 16)" "hex a = hex c"
    using Cons.prems by (simp_all add: b hex_Cons)
  have "unat x div 16 < 16" "unat y div 16 < 16"
    using unsigned_less [of x, where 'a = nat] unsigned_less [of y, where 'a = nat] by simp_all
  then have "unat x div 16 = unat y div 16" "unat x mod 16 = unat y mod 16"
    using same(1,2) by (simp_all add: hex_digit_inj)
  then have "unat x = unat y"
    using mult_div_mod_eq [of 16 "unat x"] mult_div_mod_eq [of 16 "unat y"] by linarith
  then have "x = y" by (rule unsigned_word_eqI)
  then show ?case using Cons.IH [OF same(3)] by (simp add: b)
qed

lemma demo_digest_inj: "expected_digest demo_audit_env a = expected_digest demo_audit_env b \<Longrightarrow> a = b"
proof -
  assume "expected_digest demo_audit_env a = expected_digest demo_audit_env b"
  then have "as_bytes (write_fields (body_fields a)) = as_bytes (write_fields (body_fields b))"
    by (auto simp: expected_digest_def demo_audit_env_def dest: inj_hex)
  then have "body_fields a = body_fields b"
    by (metis of_bytes_as_bytes read_write_fields)
  then have "json_record demo_audit_env \<lparr>rec_body = a, rec_digest = []\<rparr>
      = json_record demo_audit_env \<lparr>rec_body = b, rec_digest = []\<rparr>"
    by (simp add: demo_audit_env_def)
  then show ?thesis
    using demo_json_sound unfolding json_sound_def by (metis AuditRecord.select_convs(1) option.inject)
qed

lemma demo_digest_not_genesis: "expected_digest demo_audit_env a \<noteq> GENESIS"
proof
  assume same: "expected_digest demo_audit_env a = GENESIS"
  have "hex_digit 1 = CHR ''1''" by code_simp
  then have "hd (expected_digest demo_audit_env a) = CHR ''1''"
    by (simp add: expected_digest_def demo_audit_env_def hex_Cons)
  moreover have "hd GENESIS = CHR ''0''" by (simp add: GENESIS_def numeral_eq_Suc)
  ultimately show False using same by simp
qed

section \<open>Expiry\<close>

lemma chain_suffix_seq:
  assumes "chain env p s (qs @ r # rs)"
  shows "body_seq (rec_body r) = s + of_nat (length qs)"
  using assms by (induction qs arbitrary: p s) (auto simp: algebra_simps)

lemma verify_fails_if_numbers_start_later:
  assumes "records_in env files = Some (r # rs)" "body_seq (rec_body r) \<noteq> 1"
  shows "verify env (Some files) \<noteq> Inr v"
proof
  assume "verify env (Some files) = Inr v"
  then obtain qs where "records_in env files = Some qs" "chain env GENESIS 1 qs" by (rule verify_sound)
  with assms show False by auto
qed

text \<open>What a pass of \<open>expire\<close> keeps: every day that is young enough, with its text as it was.\<close>

definition expired :: "int \<Rightarrow> string \<Rightarrow> bool" where
  "expired oldest name = (case day_of_file name of None \<Rightarrow> False | Some d \<Rightarrow> d < oldest)"

definition gone_with :: "int \<Rightarrow> string list \<Rightarrow> string set" where
  "gone_with oldest names =
     {n \<in> set names. expired oldest n} \<union> {seal_path d | d n. n \<in> set names \<and> day_of_file n = Some d \<and> d < oldest}"

lemma expire_names_filter:
  assumes "no_faults env"
  shows "snd (expire_names env oldest names files) = filter (\<lambda>p. fst p \<notin> gone_with oldest names) files"
proof (induction names arbitrary: files)
  case Nil
  show ?case by (simp add: gone_with_def)
next
  case (Cons n names)
  show ?case
  proof (cases "\<exists>d. day_of_file n = Some d \<and> d < oldest")
    case True
    then obtain d where d: "day_of_file n = Some d" "d < oldest" by blast
    have rest: "snd (expire_names env oldest (n # names) files)
        = snd (expire_names env oldest names (AList.delete (seal_path d) (AList.delete n files)))"
      using assms d by (auto simp: no_faults_def split: prod.splits sum.splits)
    have "gone_with oldest (n # names) = {n, seal_path d} \<union> gone_with oldest names"
      using d by (auto simp: gone_with_def expired_def)
    then have "fst p \<notin> gone_with oldest (n # names) \<longleftrightarrow>
        (case p of (k, _) \<Rightarrow> n \<noteq> k) \<and> (case p of (k, _) \<Rightarrow> seal_path d \<noteq> k) \<and> fst p \<notin> gone_with oldest names" for p
      by (cases p) (simp, blast)
    note split_gone = this
    show ?thesis by (simp only: rest Cons.IH AList.delete_eq filter_filter conj_assoc split_gone)
  next
    case False
    moreover from this have "gone_with oldest (n # names) = gone_with oldest names"
      by (auto simp: gone_with_def expired_def split: option.splits)
    moreover from False have "expire_names env oldest (n # names) files = expire_names env oldest names files"
      by (auto split: option.splits)
    ultimately show ?thesis using Cons.IH by simp
  qed
qed

lemma map_of_filter_key: "k \<notin> G \<Longrightarrow> map_of (filter (\<lambda>p. fst p \<notin> G) xs) k = map_of xs k"
  by (induction xs) auto

lemma expire_keeps_young_days:
  assumes "no_faults env" "snd (expire_names env oldest (map fst files) files) = files'"
  shows "days_in files' = filter (\<lambda>d. oldest \<le> d) (days_in files)"
    "\<And>d. d \<in> set (days_in files') \<Longrightarrow> nameable d \<Longrightarrow> map_of files' (path_for d) = map_of files (path_for d)"
proof -
  let ?gone = "gone_with oldest (map fst files)"
  have files': "files' = filter (\<lambda>p. fst p \<notin> ?gone) files"
    using expire_names_filter [OF assms(1)] assms(2) by simp
  have young: "n \<in> ?gone \<longleftrightarrow> d < oldest" if "n \<in> fst ` set files" "day_of_file n = Some d" for n d
    using that by (force simp: gone_with_def expired_def)
  have "List.map_filter day_of_file (filter (\<lambda>n. n \<notin> ?gone) names) = filter (\<lambda>d. oldest \<le> d) (List.map_filter day_of_file names)"
    if "set names \<subseteq> fst ` set files" for names
    using that by (induction names) (auto simp: map_filter_simps young not_less split: option.splits)
  from this [of "map fst files"] show days: "days_in files' = filter (\<lambda>d. oldest \<le> d) (days_in files)"
    by (simp add: files' days_in_keys filter_sort filter_map comp_def)
  show "map_of files' (path_for d) = map_of files (path_for d)" if "d \<in> set (days_in files')" "nameable d" for d
  proof -
    have "path_for d \<notin> ?gone"
      using that days path_for_not_seal day_of_file_path_for [OF that(2)] by (auto simp: gone_with_def expired_def)
    then show ?thesis unfolding files' by (rule map_of_filter_key)
  qed
qed

lemma sorted_split_filter:
  "sorted xs \<Longrightarrow> xs = filter (\<lambda>x. x < k) xs @ filter (\<lambda>x. k \<le> x) (xs :: int list)"
proof (induction xs)
  case (Cons x xs)
  show ?case
  proof (cases "x < k")
    case True
    with Cons show ?thesis by simp
  next
    case False
    with Cons.prems have "\<forall>y \<in> set xs. k \<le> y" by auto
    then have "filter (\<lambda>x. x < k) xs = []" "filter (\<lambda>x. k \<le> x) xs = xs"
      by (auto simp: filter_empty_conv filter_id_conv not_less)
    with False show ?thesis by simp
  qed
qed simp

lemma expire_leaves_suffix:
  assumes "files_inv env files rs" "no_faults env" "snd (expire_names env oldest (map fst files) files) = files'"
  obtains gone qs where "rs = gone @ qs" "records_in env files' = Some qs"
    "parse_lines env (trail_lines files (filter (\<lambda>d. d < oldest) (days_in files))) = Some gone"
    "parse_lines env (trail_lines files (filter (\<lambda>d. oldest \<le> d) (days_in files))) = Some qs"
proof -
  note young = expire_keeps_young_days [OF assms(2,3)]
  have "nameable d" if "d \<in> set (days_in files')" for d
    using that young(1) by (auto intro: files_inv_day [OF assms(1)])
  then have "trail_lines files' (days_in files') = trail_lines files (days_in files')"
    using young(2) by (intro trail_lines_cong) simp
  moreover have "trail_lines files (days_in files)
      = trail_lines files (filter (\<lambda>d. d < oldest) (days_in files)) @ trail_lines files (days_in files')"
    unfolding young(1) by (metis sorted_split_filter sorted_days_in trail_lines_append)
  moreover have "parse_lines env (trail_lines files (days_in files)) = Some rs"
    using assms(1) by (simp add: files_inv_def records_in_def)
  ultimately show thesis
    using that young(1) by (auto simp: records_in_def parse_lines_append bind_eq_Some_conv)
qed

lemma written_day_has_record:
  assumes "d \<in> set ds" "written env files d" "parse_lines env (trail_lines files ds) = Some rs"
  shows "rs \<noteq> []"
proof -
  obtain as bs where "ds = as @ d # bs" using assms(1) by (meson split_list)
  then have "trail_lines files ds = trail_lines files as @ str_lines (the (map_of files (path_for d))) @ trail_lines files bs"
    by (simp add: trail_lines_def)
  with assms(2,3) show ?thesis
    by (auto simp: parse_lines_append bind_eq_Some_conv written_def)
qed

section \<open>The file sink as a sink\<close>

interpretation file_sink: private_sink "record_event env sink seconds sealing" for env sink seconds sealing
proof
  fix policy :: "policy option" and e f :: AuditEvent and t :: trail
  assume "same_but_person policy e f"
  then have "body_of sink c seconds e policy = body_of sink c seconds f policy" for c
    by (simp add: body_of_def same_but_person_same_fields)
  then have "write_record env sink seconds e policy = write_record env sink seconds f policy"
    by (intro ext) (simp add: write_record_def split: option.split)
  then show "record_event env sink seconds sealing e policy t = record_event env sink seconds sealing f policy t"
    unfolding record_event_def by (rule ssubst) (rule refl)
qed

subsection \<open>What a sink keeps\<close>

text \<open>
  What a client needs of a sink: an event it reports as recorded is recorded. \<open>before\<close> is what holds
  of the sink when the client calls it, \<open>after\<close> what holds of it once an event was recorded.
\<close>

locale kept_sink =
  fixes rec :: "'s audit_sink"
    and before :: "'s \<Rightarrow> bool"
    and after :: "AuditEvent \<Rightarrow> policy option \<Rightarrow> 's \<Rightarrow> bool"
  assumes recorded_kept: "before s \<Longrightarrow> rec e p s = (Inr (), s') \<Longrightarrow> after e p s'"

interpretation file_kept: kept_sink "record_event aenv sink seconds sealing"
    "\<lambda>t. trail_reach aenv sink t es \<and> nameable (day_of seconds)
         \<and> (\<forall>d \<in> set (trail_days t). d \<le> day_of seconds
              \<and> day_of seconds - uint (sink_retention sink) div 86400 \<le> d)"
    "\<lambda>e p t. trail_reach aenv sink t (es @ [(seconds, e, p)])"
  for aenv sink seconds sealing es
  by unfold_locales (blast intro: trail_reach.recorded)

interpretation tracing_kept: kept_sink "tracing_sink_record sink" "\<lambda>t. t = stream"
    "\<lambda>e p t. butlast t = stream \<and> tr_action (last t) = ev_action e
             \<and> tr_subject (last t) = subject_render (ev_subject e) p
             \<and> tr_continuity_id (last t) = ev_continuity_id e"
  for sink stream
  by unfold_locales (auto simp: tracing_sink_record_def)

interpretation recording_kept: kept_sink recording_sink_record "\<lambda>t. t = events"
    "\<lambda>e p t. t = events @ [(ev_action e, subject_render (ev_subject e) p)]"
  for events
  by unfold_locales (auto simp: recording_sink_record_def)

text \<open>The last event of a reachable trail is the last record of a directory that verifies.\<close>

lemma last_event_on_trail:
  assumes reach: "trail_reach aenv sink t (es @ [(seconds, event, p)])"
    and "json_sound aenv" "no_faults aenv" "length es + 1 < 2 ^ 64"
  obtains files v rs c where "trail_files t = Some files" "verify aenv (Some files) = Inr v"
    "ver_records v = of_nat (length es + 1)" "records_in aenv files = Some rs" "rs \<noteq> []"
    "rec_body (last rs) = body_of sink c seconds event p"
proof -
  let ?rs = "records_for aenv sink [] (es @ [(seconds, event, p)])"
  have inv: "trail_inv aenv t ?rs"
    by (rule trail_reach_inv [OF reach assms(2,3)]) (use assms(4) in simp)
  have len: "length ?rs = length es + 1" by (simp add: length_records_for)
  then have ne: "?rs \<noteq> []" by auto
  with inv obtain files where files: "trail_files t = Some files"
    by (auto simp: trail_inv_def split: option.splits)
  have "records_in aenv files = Some ?rs" using inv files by (simp add: trail_inv_def files_inv_def)
  moreover obtain v where "verify aenv (Some files) = Inr v" "ver_records v = of_nat (length es + 1)"
    using trail_inv_verifies [OF inv _ files] assms(4) by (auto simp: len)
  moreover obtain c where "rec_body (last ?rs) = body_of sink c seconds event p"
    by (simp add: records_for_snoc next_record_def Let_def)
  ultimately show thesis using that files ne by blast
qed

section \<open>A trail to run\<close>

definition demo_sink :: FileAuditSink where
  "demo_sink = \<lparr>sink_service_name = ''x'', sink_service_version = ''1'', sink_retention = 86400\<rparr>"

definition demo_event :: AuditEvent where
  "demo_event = new_event ''go'' (Principal ''ann'')"

lemma demo_reach:
  obtains t where "trail_reach demo_audit_env demo_sink t [(5, demo_event, None), (90000, demo_event, None)]"
    "set (trail_days t) = {0, 1}"
proof -
  have days: "day_of 5 = 0" "day_of 90000 = 1" by (simp_all add: day_of_def DAY_def)
  have new: "trail_inv demo_audit_env new_trail []" "trail_days new_trail = []"
    by (simp_all add: trail_inv_def new_trail_def trail_days_def)
  obtain t1 where t1: "record_event demo_audit_env demo_sink 5 5 demo_event None new_trail = (Inr (), t1)"
      "trail_inv demo_audit_env t1 [next_record demo_audit_env demo_sink [] 5 demo_event None]"
      "set (trail_days t1) = {0}"
    by (rule record_event_step [OF new(1) demo_json_sound demo_no_faults, of 5 demo_sink 5 demo_event None])
      (simp_all add: new(2) days nameable_def)
  have r1: "trail_reach demo_audit_env demo_sink t1 ([] @ [(5, demo_event, None)])"
    using new(2) by (intro recorded [OF start _ _ t1(1)]) (simp_all add: days nameable_def)
  obtain t2 where t2: "record_event demo_audit_env demo_sink 90000 90000 demo_event None t1 = (Inr (), t2)"
      "set (trail_days t2) = {0, 1}"
    by (rule record_event_step [OF t1(2) demo_json_sound demo_no_faults, of 90000 demo_sink 90000 demo_event None])
      (use t1(3) in \<open>auto simp: days nameable_def demo_sink_def\<close>)
  have "trail_reach demo_audit_env demo_sink t2 (([] @ [(5, demo_event, None)]) @ [(90000, demo_event, None)])"
    using t1(3) by (intro recorded [OF r1 _ _ t2(1)]) (simp_all add: days nameable_def demo_sink_def)
  then show thesis using that t2(2) by simp
qed

section \<open>Properties\<close>



text \<open>
  Recording succeeds. From every trail a process can have reached, \<open>record\<close> reports success, and
  what it leaves is again such a trail.
\<close>

theorem recording_succeeds:
  assumes "trail_reach env sink t es" "json_sound env" "no_faults env" "length es < 2 ^ 64"
    "nameable (day_of seconds)"
    "\<forall>d \<in> set (trail_days t). d \<le> day_of seconds \<and> day_of seconds - uint (sink_retention sink) div 86400 \<le> d"
  shows "\<exists>t'. record_event env sink seconds sealing e policy t = (Inr (), t')
     \<and> trail_reach env sink t' (es @ [(seconds, e, policy)])"
proof -
  have "length (records_for env sink [] es) < 2 ^ 64" using assms(4) by (simp add: length_records_for)
  from record_event_step [OF trail_reach_inv [OF assms(1-4)] assms(2,3) this assms(5)] assms(6)
  obtain t' where "record_event env sink seconds sealing e policy t = (Inr (), t')" by meson
  with recorded [OF assms(1,5,6)] show ?thesis by blast
qed

theorem recording_succeeds_witness:
  "\<exists>t t'. record_event demo_audit_env demo_sink 90001 90001 demo_event None t = (Inr (), t')
     \<and> trail_reach demo_audit_env demo_sink t'
         ([(5, demo_event, None), (90000, demo_event, None)] @ [(90001, demo_event, None)])"
proof -
  obtain t where t: "trail_reach demo_audit_env demo_sink t [(5, demo_event, None), (90000, demo_event, None)]"
    "set (trail_days t) = {0, 1}" by (rule demo_reach)
  have "length [(5 :: int, demo_event, None :: policy option), (90000, demo_event, None)] < 2 ^ 64" by simp
  from recording_succeeds [OF t(1) demo_json_sound demo_no_faults this, of 90001 90001 demo_event None] t(2)
  show ?thesis by (auto simp: day_of_def DAY_def nameable_def demo_sink_def)
qed

text \<open>
  C28: the head attests to the whole trail. Two directories that verify with the same head hold the
  same records, as long as the digest does not collide and is never the genesis value: no record can be
  changed, removed, added or reordered while the head stays.
\<close>

theorem head_attests_to_the_trail:
  assumes "verify env (Some files) = Inr v" "verify env (Some files') = Inr v'" "ver_head v = ver_head v'"
    "\<And>a b. expected_digest env a = expected_digest env b \<Longrightarrow> a = b" "\<And>a. expected_digest env a \<noteq> GENESIS"
  shows "records_in env files = records_in env files'"
proof -
  obtain rs where rs: "records_in env files = Some rs" "chain env GENESIS 1 rs" "ver_head v = head_of rs"
    using assms(1) by (rule verify_sound)
  obtain qs where qs: "records_in env files' = Some qs" "chain env GENESIS 1 qs" "ver_head v' = head_of qs"
    using assms(2) by (rule verify_sound)
  have "rs = qs" using chain_head_determines [OF rs(2) qs(2) _ assms(4,5)] rs(3) qs(3) assms(3) by simp
  then show ?thesis by (simp add: rs qs)
qed

theorem head_attests_to_the_trail_witness:
  "\<exists>t t' files files' v v'. shutdown demo_audit_env 90002 t = (Inr (), t')
     \<and> trail_files t = Some files \<and> trail_files t' = Some files'
     \<and> verify demo_audit_env (Some files) = Inr v \<and> verify demo_audit_env (Some files') = Inr v'
     \<and> records_in demo_audit_env files = records_in demo_audit_env files'"
proof -
  let ?es = "[(5 :: int, demo_event, None :: policy option), (90000, demo_event, None)]"
  let ?rs = "records_for demo_audit_env demo_sink [] ?es"
  have small: "length ?es < 2 ^ 64" "length ?rs < 2 ^ 64" "?rs \<noteq> []" by simp_all
  obtain t where t: "trail_reach demo_audit_env demo_sink t ?es" by (rule demo_reach)
  have inv: "trail_inv demo_audit_env t ?rs"
    by (rule trail_reach_inv [OF t demo_json_sound demo_no_faults small(1)])
  obtain t' where t': "shutdown demo_audit_env 90002 t = (Inr (), t')" "trail_inv demo_audit_env t' ?rs"
    by (rule shutdown_step [OF inv demo_json_sound demo_no_faults small(2)])
  obtain files files' where files: "trail_files t = Some files" "trail_files t' = Some files'"
    using inv t'(2) small(3) by (auto simp: trail_inv_def split: option.splits)
  obtain v v' where v: "verify demo_audit_env (Some files) = Inr v" "verify demo_audit_env (Some files') = Inr v'"
      "ver_head v = ver_head v'"
    using trail_inv_verifies [OF inv small(2) files(1)] trail_inv_verifies [OF t'(2) small(2) files(2)] by metis
  from head_attests_to_the_trail [OF v demo_digest_inj demo_digest_not_genesis] t'(1) files v(1,2)
  show ?thesis by blast
qed

text \<open>
  A truncation below a seal is seen. When a seal beside the trail counts more records than the
  trail still holds, \<open>verify\<close> reports an error, whatever the remaining records are.
\<close>

theorem seal_reveals_truncation:
  assumes "d \<in> set (days_in files)" "sealed_in env files d s" "records_in env files = Some rs"
    "length rs < unat (seal_records (seal_body s))"
  shows "\<exists>err. verify env (Some files) = Inl err"
proof (cases "verify env (Some files)")
  case (Inr v)
  then obtain qs where "records_in env files = Some qs" "ver_records v = of_nat (length qs)"
    "seal_records (seal_body s) \<le> ver_records v" using assms(1,2) by (metis verify_sound)
  then have "seal_records (seal_body s) \<le> of_nat (length rs)" using assms(3) by simp
  moreover have "length rs < 2 ^ 64" using assms(4) unat_u64_less [of "seal_records (seal_body s)"] by simp
  then have "unat (of_nat (length rs) :: u64) = length rs"
    by (simp add: unsigned_of_nat take_bit_nat_eq_self_iff)
  ultimately show ?thesis using assms(4) by (simp add: word_le_nat_alt)
qed blast

theorem seal_reveals_truncation_witness:
  "\<exists>err. verify demo_audit_env
     (Some [(path_for 0, []), (seal_path 0, json_seal demo_audit_env (make_seal demo_audit_env 9 0 3 ''00''))])
     = Inl err"
proof (rule seal_reveals_truncation)
  let ?s = "make_seal demo_audit_env 9 0 3 ''00''"
  let ?files = "[(path_for 0, []), (seal_path 0, json_seal demo_audit_env ?s)]"
  have days: "days_in ?files = [0]"
    by (simp add: days_in_def map_filter_simps day_of_file_path_for nameable_def)
  then show "0 \<in> set (days_in ?files)" by simp
  show "sealed_in demo_audit_env ?files 0 ?s"
    using demo_json_sound path_for_not_seal [of 0 0] by (simp add: sealed_in_def json_sound_def)
  show "records_in demo_audit_env ?files = Some []" unfolding records_in_def days by (simp add: trail_lines_def)
  show "length ([] :: AuditRecord list) < unat (seal_records (seal_body ?s))"
    by (simp add: make_seal_def Let_def)
qed

text \<open>
  Expiry breaks the check. When a pass of \<open>expire\<close> drops one day of a trail and keeps another,
  what is left does not verify any more: the check starts at record 1 and the genesis digest, and the
  trail now starts later. So a trail that outlives its retention never verifies again.
\<close>

theorem expired_trail_fails_to_verify:
  assumes "trail_reach env sink t es" "json_sound env" "no_faults env" "length es < 2 ^ 64"
    "expire env sink today t = (r, t')"
    "d \<in> set (trail_days t)" "d < today - uint (sink_retention sink) div 86400"
    "d' \<in> set (trail_days t)" "today - uint (sink_retention sink) div 86400 \<le> d'"
  shows "\<exists>err. verify env (trail_files t') = Inl err"
proof -
  let ?rs = "records_for env sink [] es" and ?oldest = "today - uint (sink_retention sink) div 86400"
  have inv: "trail_inv env t ?rs" by (rule trail_reach_inv [OF assms(1-4)])
  with assms(6) obtain files where files: "trail_files t = Some files" "files_inv env files ?rs"
      "days_written env files" "trail_days t = days_in files"
    by (auto simp: trail_inv_def trail_days_def split: option.splits)
  define files' where "files' = snd (expire_names env ?oldest (map fst files) files)"
  have t': "trail_files t' = Some files'"
    using assms(3,5) files(1) by (auto simp: files'_def expire_def no_faults_def Let_def split: prod.splits)
  obtain gone qs where gone: "?rs = gone @ qs" "records_in env files' = Some qs"
      "parse_lines env (trail_lines files (filter (\<lambda>d. d < ?oldest) (days_in files))) = Some gone"
      "parse_lines env (trail_lines files (filter (\<lambda>d. ?oldest \<le> d) (days_in files))) = Some qs"
    by (rule expire_leaves_suffix [OF files(2) assms(3) files'_def [symmetric]])
  have "gone \<noteq> []"
    using assms(6,7) files(3,4) by (intro written_day_has_record [OF _ _ gone(3), of d]) (simp_all add: days_written_def)
  have "qs \<noteq> []"
    using assms(8,9) files(3,4) by (intro written_day_has_record [OF _ _ gone(4), of d']) (simp_all add: days_written_def)
  then obtain q qs' where q: "qs = q # qs'" by (cases qs) auto
  have "chain env GENESIS 1 (gone @ q # qs')" using files(2) gone(1) by (simp add: files_inv_def q)
  then have "body_seq (rec_body q) = 1 + of_nat (length gone)" by (rule chain_suffix_seq)
  moreover have "length ?rs = length es" by (simp add: length_records_for)
  with gone(1) assms(4) have "length gone < 2 ^ 64" by simp
  then have "unat (of_nat (length gone) :: u64) \<noteq> 0" using \<open>gone \<noteq> []\<close> by (simp only: unat_of_nat_u64) simp
  then have "(of_nat (length gone) :: u64) \<noteq> 0" by auto
  ultimately have "verify env (Some files') \<noteq> Inr v" for v
    using verify_fails_if_numbers_start_later [of env files' q qs'] gone(2) q by simp
  then show ?thesis unfolding t' by (cases "verify env (Some files')") auto
qed

theorem expired_trail_fails_to_verify_witness:
  "\<exists>t t' r err. trail_reach demo_audit_env demo_sink t [(5, demo_event, None), (90000, demo_event, None)]
     \<and> expire demo_audit_env demo_sink 2 t = (r, t') \<and> verify demo_audit_env (trail_files t') = Inl err"
proof -
  obtain t where t: "trail_reach demo_audit_env demo_sink t [(5, demo_event, None), (90000, demo_event, None)]"
    "set (trail_days t) = {0, 1}" by (rule demo_reach)
  obtain r t' where e: "expire demo_audit_env demo_sink 2 t = (r, t')" by (metis prod.collapse)
  have "length [(5 :: int, demo_event, None :: policy option), (90000, demo_event, None)] < 2 ^ 64" by simp
  from expired_trail_fails_to_verify [OF t(1) demo_json_sound demo_no_faults this e, of 0 1] t(2)
  have "\<exists>err. verify demo_audit_env (trail_files t') = Inl err" by (simp add: demo_sink_def)
  with t(1) e show ?thesis by blast
qed

text \<open>
  C32: no person in the clear. Without a pseudonymiser, two runs of events that differ only in who the
  people are leave the very same trail and emit the same seals: nothing the file sink writes depends on
  the identifier of a principal, nor on its length.
\<close>

theorem trail_hides_people:
  assumes "length es = length fs"
    "list_all (\<lambda>(e, f). e\<lparr>ev_subject := Anonymous\<rparr> = f\<lparr>ev_subject := Anonymous\<rparr>
       \<and> (ev_subject e = ev_subject f \<or> is_personal (ev_subject e) \<and> is_personal (ev_subject f))) (zip es fs)"
  shows "record_all (record_event env sink seconds sealing) None es t
       = record_all (record_event env sink seconds sealing) None fs t"
  by (rule file_sink.people_unseen [OF assms(2,1)])

theorem trail_hides_people_witness:
  "record_all (record_event demo_audit_env demo_sink 5 5) None
     [demo_event, new_event ''stop'' (System ''host'')] new_trail
   = record_all (record_event demo_audit_env demo_sink 5 5) None
     [new_event ''go'' (Principal ''bartholomew''), new_event ''stop'' (System ''host'')] new_trail"
  by (rule trail_hides_people) (simp_all add: demo_event_def new_event_def is_personal_def)

text \<open>
  An empty latest day loses the chain. When the file of the latest day exists but holds nothing, as
  it does when the process died, or dropping an old day failed, between opening the day and writing to
  it, a sink that starts takes the trail to be new: whatever the days before hold, the next record is
  numbered 1 and names the genesis digest.
\<close>

theorem empty_latest_day_restarts_the_chain:
  assumes "trail_files t = Some files" "trail_open t = None" "no_faults env" "days_in files \<noteq> []"
    "map_of files (path_for (last (days_in files))) = Some []"
  shows "\<exists>t'. open_for env day t = (Inr (), t')
     \<and> trail_open t' = Some \<lparr>open_day = day, open_seq = 0, open_previous = GENESIS\<rparr>"
proof -
  have "tail env t = Inr None" using assms by (simp add: tail_def days_def no_faults_def)
  then show ?thesis
    using assms(1-3) by (simp add: open_for_def is_open_for_def no_faults_def create_trail_def Let_def)
qed

theorem empty_latest_day_restarts_the_chain_witness:
  "\<exists>t'. open_for demo_audit_env 1 \<lparr>trail_files = Some [(path_for 0, ''records''), (path_for 1, [])],
       trail_open = None, trail_emitted = []\<rparr> = (Inr (), t')
     \<and> trail_open t' = Some \<lparr>open_day = 1, open_seq = 0, open_previous = GENESIS\<rparr>"
proof (rule empty_latest_day_restarts_the_chain [OF _ _ demo_no_faults])
  let ?files = "[(path_for 0, ''records''), (path_for 1, [])]"
  have "days_in ?files = [0, 1]"
    by (simp add: days_in_def map_filter_simps day_of_file_path_for nameable_def)
  then show "days_in ?files \<noteq> []" "map_of ?files (path_for (last (days_in ?files))) = Some []"
    by (simp_all add: path_for_inj nameable_def)
qed simp_all

end
