(* ===== verification/Json.thy ===== *)
theory Json
  imports Prelude "HOL-Library.List_Lexorder" "HOL-Library.Char_ord"
begin

text \<open>
  The two containers of the standard library and of \<open>serde_json\<close> the realm works on.

  \<^item> A \<open>BTreeMap\<close> is the list of its entries in key order; \<open>bt_get\<close>, \<open>bt_contains\<close> and
    \<open>bt_insert\<close> are its \<open>get\<close>, \<open>contains_key\<close> and \<open>insert\<close>. Keys are compared byte by byte.
  \<^item> \<open>Value\<close> is \<open>serde_json::Value\<close>. A number is an integer, or a float by its 64 bits; an object is
    a \<open>BTreeMap\<close>, which is what \<open>serde_json::Map\<close> is without the \<open>preserve_order\<close> feature.

  The lemmas give a \<open>BTreeMap\<close> its meaning as a partial map and show that insertion keeps the order,
  so that two maps with the same entries are the same list.
\<close>

section \<open>Definitions\<close>

subsection \<open>Ordered maps\<close>

type_synonym ('k, 'v) btree = "('k \<times> 'v) list"

definition bt_get :: "'k \<Rightarrow> ('k, 'v) btree \<Rightarrow> 'v option" where
  "bt_get k m = map_of m k"

definition bt_contains :: "'k \<Rightarrow> ('k, 'v) btree \<Rightarrow> bool" where
  "bt_contains k m \<longleftrightarrow> bt_get k m \<noteq> None"

fun bt_insert :: "'k::linorder \<Rightarrow> 'v \<Rightarrow> ('k, 'v) btree \<Rightarrow> ('k, 'v) btree" where
  "bt_insert k v [] = [(k, v)]"
| "bt_insert k v ((k', v') # m) =
     (if k < k' then (k, v) # (k', v') # m
      else if k = k' then (k, v) # m
      else (k', v') # bt_insert k v m)"

text \<open>What makes a list of entries a \<open>BTreeMap\<close>.\<close>

definition bt_wf :: "('k::linorder, 'v) btree \<Rightarrow> bool" where
  "bt_wf m \<longleftrightarrow> sorted_wrt (<) (map fst m)"

subsection \<open>JSON values\<close>

datatype Value =
    Null
  | Boolean bool
  | Integer int
  | Float u64
  | JString string
  | JArray "Value list"
  | JObject "(string, Value) btree"

definition value_get :: "string \<Rightarrow> Value \<Rightarrow> Value option" where
  "value_get k v = (case v of JObject m \<Rightarrow> bt_get k m | _ \<Rightarrow> None)"

definition as_str :: "Value \<Rightarrow> string option" where
  "as_str v = (case v of JString s \<Rightarrow> Some s | _ \<Rightarrow> None)"

definition as_array :: "Value \<Rightarrow> Value list option" where
  "as_array v = (case v of JArray vs \<Rightarrow> Some vs | _ \<Rightarrow> None)"

definition as_object :: "Value \<Rightarrow> (string, Value) btree option" where
  "as_object v = (case v of JObject m \<Rightarrow> Some m | _ \<Rightarrow> None)"

definition i64_min :: int where "i64_min = - (2 ^ 63)"
definition i64_max :: int where "i64_max = 2 ^ 63 - 1"

definition in_i64 :: "int \<Rightarrow> bool" where
  "in_i64 n \<longleftrightarrow> i64_min \<le> n \<and> n \<le> i64_max"

text \<open>A number is an \<open>i64\<close> when it is an integer in range; a float is not, whole or otherwise.\<close>

definition as_i64 :: "Value \<Rightarrow> int option" where
  "as_i64 v = (case v of Integer n \<Rightarrow> if in_i64 n then Some n else None | _ \<Rightarrow> None)"

text \<open>The idiom \<open>value.get(k).and_then(Value::as_str)\<close>.\<close>

definition get_str :: "string \<Rightarrow> Value \<Rightarrow> string option" where
  "get_str k v = Option.bind (value_get k v) as_str"

subsection \<open>Third-party codecs\<close>

text \<open>
  \<open>serde_json::from_slice\<close> and \<open>Value::to_string\<close>, the \<open>URL_SAFE_NO_PAD\<close> engine of the \<open>base64\<close>
  crate, and SHA-256. An error is the text it displays.
\<close>

record web_env =
  json_from_slice :: "bytes \<Rightarrow> string + Value"
  json_to_string :: "Value \<Rightarrow> string"
  url_safe_encode :: "bytes \<Rightarrow> string"
  url_safe_decode :: "string \<Rightarrow> string + bytes"
  web_sha256 :: "bytes \<Rightarrow> bytes"

section \<open>Lemmas\<close>

lemma bt_get_Nil [simp]: "bt_get k [] = None"
  by (simp add: bt_get_def)

lemma bt_get_insert [simp]: "bt_get k' (bt_insert k v m) = (if k' = k then Some v else bt_get k' m)"
  by (induction m) (auto simp: bt_get_def)

lemma map_of_bt_insert: "map_of (bt_insert k v m) = (map_of m)(k \<mapsto> v)"
  by (rule ext) (simp add: bt_get_def [symmetric])

lemma set_bt_insert_subset: "set (bt_insert k v m) \<subseteq> insert (k, v) (set m)"
  by (induction m) (auto split: if_splits)

lemma keys_bt_insert [simp]: "fst ` set (bt_insert k v m) = insert k (fst ` set m)"
proof (induction m)
  case (Cons e m)
  then show ?case by (cases e) (simp add: insert_commute)
qed simp

lemma bt_wf_Nil [simp]: "bt_wf []"
  by (simp add: bt_wf_def)

lemma bt_wf_insert: "bt_wf m \<Longrightarrow> bt_wf (bt_insert k v m)"
proof (induction m)
  case (Cons e m)
  have "k'' \<in> fst ` set (bt_insert k v m) \<Longrightarrow> k'' = k \<or> k'' \<in> fst ` set m" for k''
    by simp
  with Cons show ?case by (cases e) (fastforce simp: bt_wf_def)
qed (simp add: bt_wf_def)

lemma bt_wf_distinct: "bt_wf m \<Longrightarrow> distinct (map fst m)"
  using strict_sorted_iff unfolding bt_wf_def by blast

text \<open>A map is determined by what \<open>get\<close> answers.\<close>

lemma bt_ext:
  assumes "bt_wf m" "bt_wf n" "\<And>k. bt_get k m = bt_get k n"
  shows "m = n"
proof -
  have "map_of m = map_of n"
    using assms(3) by (auto simp: bt_get_def)
  then have "set m = set n"
    using assms(1,2) by (metis bt_wf_distinct set_map_of_compr)
  moreover have "sorted_wrt (\<lambda>x y. fst x < fst y) m" "sorted_wrt (\<lambda>x y. fst x < fst y) n"
    using assms(1,2) by (simp_all add: bt_wf_def sorted_wrt_map)
  moreover have "sorted_wrt (\<lambda>x y. fst x < fst y) xs \<Longrightarrow> sorted_wrt (\<lambda>x y. fst x < fst y) ys
    \<Longrightarrow> set xs = set ys \<Longrightarrow> xs = ys" for xs ys :: "('a \<times> 'b) list"
  proof (induction xs arbitrary: ys)
    case (Cons x xs)
    then obtain y zs where ys: "ys = y # zs" by (cases ys) auto
    have "x = y"
      using Cons.prems unfolding ys by (metis (no_types) list.set_intros(1) order_less_asym set_ConsD sorted_wrt.simps(2))
    moreover have "x \<notin> set xs" "y \<notin> set zs"
      using Cons.prems unfolding ys by auto
    ultimately have "set xs = set zs"
      using Cons.prems(3) unfolding ys by (metis insert_ident list.simps(15))
    with Cons \<open>x = y\<close> show ?case unfolding ys by simp
  qed simp
  ultimately show ?thesis by blast
qed

lemma value_get_simps [simp]:
  "value_get k Null = None" "value_get k (Boolean b) = None" "value_get k (Integer n) = None"
  "value_get k (Float f) = None" "value_get k (JString s) = None" "value_get k (JArray vs) = None"
  "value_get k (JObject m) = bt_get k m"
  by (simp_all add: value_get_def)

lemma as_str_Some_iff [simp]: "as_str v = Some s \<longleftrightarrow> v = JString s"
  by (cases v) (auto simp: as_str_def)

lemma as_array_Some_iff [simp]: "as_array v = Some vs \<longleftrightarrow> v = JArray vs"
  by (cases v) (auto simp: as_array_def)

lemma as_object_Some_iff [simp]: "as_object v = Some m \<longleftrightarrow> v = JObject m"
  by (cases v) (auto simp: as_object_def)

lemma as_i64_Some_iff: "as_i64 v = Some n \<longleftrightarrow> v = Integer n \<and> in_i64 n"
  by (cases v) (auto simp: as_i64_def)

lemma get_str_Some_iff: "get_str k v = Some s \<longleftrightarrow> value_get k v = Some (JString s)"
  by (auto simp: get_str_def bind_eq_Some_conv)

end
