(* ===== verification/Realms.thy ===== *)
theory Realms
  imports Json
begin

text \<open>
  \<open>crates/pic-x-core/src/realm.rs\<close>: what a realm is at run time, the Exchange Profiles and trusted
  attesters it carries, and the registry that resolves a request to a realm. A realm's collaborators
  (key rings, audit sink, pseudonymiser) are trait objects in the code and type parameters here. A
  \<open>Duration\<close> is its whole seconds.

  The lemmas show that the registry built from the realms of a deployment answers to exactly the
  paths they are mounted at, and that the public catalogue holds the realms that opted in and no other.
\<close>

section \<open>Definitions\<close>

definition DEFAULT_TOKEN_LIFETIME :: u64 where "DEFAULT_TOKEN_LIFETIME = 3600"
definition DEFAULT_KEY_CACHE_STALE_FOR :: u64 where "DEFAULT_KEY_CACHE_STALE_FOR = 3600"
definition DEFAULT_SIGNING_ALGORITHM :: string where "DEFAULT_SIGNING_ALGORITHM = ''EdDSA''"

definition OAUTH_ACCESS_TOKEN_TYPE :: string where
  "OAUTH_ACCESS_TOKEN_TYPE = ''urn:ietf:params:oauth:token-type:access_token''"
definition EXCHANGE_SOURCE_OAUTH_ACCESS_TOKEN :: string where
  "EXCHANGE_SOURCE_OAUTH_ACCESS_TOKEN = ''oauth-access-token''"
definition EXCHANGE_ON_UNMATCHED_SCOPE_REJECT :: string where
  "EXCHANGE_ON_UNMATCHED_SCOPE_REJECT = ''reject''"

subsection \<open>Exchange Profiles and attesters\<close>

datatype TokenInitialExpiryPolicy = Later | Pic | OAuth

fun policy_as_str :: "TokenInitialExpiryPolicy \<Rightarrow> string" where
  "policy_as_str Later = ''later''"
| "policy_as_str Pic = ''pic''"
| "policy_as_str OAuth = ''oauth''"

record ClaimMapping =
  cm_from :: "string option"
  cm_value :: "string option"
  cm_value_type :: "string option"
  cm_encoding :: "string option"

record PrivilegeEmit =
  emit_scope :: string
  emit_operation :: string
  emit_resource_type :: string
  emit_resource_id :: string

text \<open>The priority of a rule is an \<open>i32\<close>; it is only compared.\<close>

record PrivilegeRule =
  rule_name :: string
  rule_priority :: int
  rule_pattern :: string
  rule_emit :: PrivilegeEmit

record ExchangeProfilePrivileges =
  privileges_source :: string
  privileges_rules :: "PrivilegeRule list"

record ExchangeProfileClaims =
  identity_context :: "(string, ClaimMapping) btree"
  scopes_mapping :: ClaimMapping

record ExchangeTokenValidation =
  allowed_algorithms :: "string list"
  require_expiration :: bool
  require_token_type :: "string option"

record ExchangeProfileSource =
  source_token_type :: string
  source_format :: string
  source_issuer :: string
  discovery_url :: "string option"
  source_audience :: string
  source_validation :: ExchangeTokenValidation

definition discovery_base :: "ExchangeProfileSource \<Rightarrow> string" where
  "discovery_base s = (case discovery_url s of Some url \<Rightarrow> url | None \<Rightarrow> source_issuer s)"

record ExchangeProfileConfig =
  profile_id :: string
  profile_source :: ExchangeProfileSource
  profile_claims :: ExchangeProfileClaims
  profile_privileges :: ExchangeProfilePrivileges
  on_unmatched_scope :: string

record TrustedAttesterConfig =
  ta_id :: string
  ta_issuer :: string
  ta_jwks_uri :: string
  ta_proof_types :: "string list"
  ta_formats :: "string list"

subsection \<open>A realm\<close>

record ('keys, 'sink, 'ps) Realm =
  realm_name :: string
  mount_path :: string
  realm_issuer :: "string option"
  listed :: bool
  operations_keys :: "'keys option"
  token_keys :: "'keys option"
  audit :: 'sink
  pseudonymizer :: "'ps option"
  exchange_profiles :: "ExchangeProfileConfig list"
  trusted_attesters :: "TrustedAttesterConfig list"
  token_lifetime :: u64
  token_initial_expiry_policy :: TokenInitialExpiryPolicy
  key_cache_stale_for :: u64
  token_signing_algorithm :: string

definition new_realm ::
  "string \<Rightarrow> string \<Rightarrow> string option \<Rightarrow> bool \<Rightarrow> 'keys option \<Rightarrow> 'keys option \<Rightarrow> 'sink \<Rightarrow> 'ps option
   \<Rightarrow> ('keys, 'sink, 'ps) Realm" where
  "new_realm nm path iss lst op_keys tok_keys sink ps =
     \<lparr> realm_name = nm, mount_path = path, realm_issuer = iss, listed = lst,
       operations_keys = op_keys, token_keys = tok_keys, audit = sink, pseudonymizer = ps,
       exchange_profiles = [], trusted_attesters = [],
       token_lifetime = DEFAULT_TOKEN_LIFETIME, token_initial_expiry_policy = Later,
       key_cache_stale_for = DEFAULT_KEY_CACHE_STALE_FOR,
       token_signing_algorithm = DEFAULT_SIGNING_ALGORITHM \<rparr>"

definition with_token_lifetime :: "u64 \<Rightarrow> ('k, 's, 'p) Realm \<Rightarrow> ('k, 's, 'p) Realm" where
  "with_token_lifetime d r = r\<lparr> token_lifetime := d \<rparr>"

definition with_token_initial_expiry_policy ::
  "TokenInitialExpiryPolicy \<Rightarrow> ('k, 's, 'p) Realm \<Rightarrow> ('k, 's, 'p) Realm" where
  "with_token_initial_expiry_policy p r = r\<lparr> token_initial_expiry_policy := p \<rparr>"

definition with_key_cache_stale_for :: "u64 \<Rightarrow> ('k, 's, 'p) Realm \<Rightarrow> ('k, 's, 'p) Realm" where
  "with_key_cache_stale_for d r = r\<lparr> key_cache_stale_for := d \<rparr>"

definition with_token_signing_algorithm :: "string \<Rightarrow> ('k, 's, 'p) Realm \<Rightarrow> ('k, 's, 'p) Realm" where
  "with_token_signing_algorithm a r = r\<lparr> token_signing_algorithm := a \<rparr>"

definition with_exchange_profiles ::
  "ExchangeProfileConfig list \<Rightarrow> ('k, 's, 'p) Realm \<Rightarrow> ('k, 's, 'p) Realm" where
  "with_exchange_profiles ps r = r\<lparr> exchange_profiles := ps \<rparr>"

definition with_trusted_attesters ::
  "TrustedAttesterConfig list \<Rightarrow> ('k, 's, 'p) Realm \<Rightarrow> ('k, 's, 'p) Realm" where
  "with_trusted_attesters ats r = r\<lparr> trusted_attesters := ats \<rparr>"

text \<open>\<open>str::trim_end_matches\<close> with one character.\<close>

definition trim_end_matches :: "'a \<Rightarrow> 'a list \<Rightarrow> 'a list" where
  "trim_end_matches c s = rev (dropWhile (\<lambda>x. x = c) (rev s))"

definition realm_url :: "('k, 's, 'p) Realm \<Rightarrow> string \<Rightarrow> string" where
  "realm_url r path =
     (case realm_issuer r of
        Some iss \<Rightarrow> trim_end_matches CHR ''/'' iss @ path
      | None \<Rightarrow> mount_path r @ path)"

subsection \<open>The registry\<close>

record ('keys, 'sink, 'ps) Realms =
  realms_by_name :: "(string, ('keys, 'sink, 'ps) Realm) btree"
  realms_by_mount :: "(string, string) btree"

definition new_realms :: "('k, 's, 'p) Realm list \<Rightarrow> ('k, 's, 'p) Realms" where
  "new_realms rs =
     fold (\<lambda>r reg. \<lparr> realms_by_name = bt_insert (realm_name r) r (realms_by_name reg),
                       realms_by_mount = bt_insert (mount_path r) (realm_name r) (realms_by_mount reg) \<rparr>)
       rs \<lparr> realms_by_name = [], realms_by_mount = [] \<rparr>"

definition by_name :: "('k, 's, 'p) Realms \<Rightarrow> string \<Rightarrow> ('k, 's, 'p) Realm option" where
  "by_name reg nm = bt_get nm (realms_by_name reg)"

definition by_mount :: "('k, 's, 'p) Realms \<Rightarrow> string \<Rightarrow> ('k, 's, 'p) Realm option" where
  "by_mount reg path =
     Option.bind (bt_get path (realms_by_mount reg)) (\<lambda>nm. bt_get nm (realms_by_name reg))"

definition all_realms :: "('k, 's, 'p) Realms \<Rightarrow> ('k, 's, 'p) Realm list" where
  "all_realms reg = map snd (realms_by_name reg)"

definition listed_realms :: "('k, 's, 'p) Realms \<Rightarrow> ('k, 's, 'p) Realm list" where
  "listed_realms reg = filter listed (map snd (realms_by_name reg))"

definition realms_len :: "('k, 's, 'p) Realms \<Rightarrow> nat" where
  "realms_len reg = length (realms_by_name reg)"

definition realms_is_empty :: "('k, 's, 'p) Realms \<Rightarrow> bool" where
  "realms_is_empty reg \<longleftrightarrow> realms_by_name reg = []"

section \<open>Lemmas\<close>

lemma trim_end_matches_not_last: "trim_end_matches c s = [] \<or> last (trim_end_matches c s) \<noteq> c"
  using hd_dropWhile [of "\<lambda>x. x = c" "rev s"] by (auto simp: trim_end_matches_def last_rev)

lemma trim_end_matches_idem [simp]:
  "trim_end_matches c (trim_end_matches c s) = trim_end_matches c s"
  by (simp add: trim_end_matches_def)

text \<open>The two indexes of the registry, each as a fold over the realms.\<close>

lemma new_realms_alt:
  "new_realms rs =
     \<lparr> realms_by_name = fold (\<lambda>r. bt_insert (realm_name r) r) rs [],
       realms_by_mount = fold (\<lambda>r. bt_insert (mount_path r) (realm_name r)) rs [] \<rparr>"
proof -
  have "fold (\<lambda>r reg. \<lparr> realms_by_name = bt_insert (realm_name r) r (realms_by_name reg),
              realms_by_mount = bt_insert (mount_path r) (realm_name r) (realms_by_mount reg) \<rparr>) rs
          \<lparr> realms_by_name = m, realms_by_mount = n \<rparr>
        = \<lparr> realms_by_name = fold (\<lambda>r. bt_insert (realm_name r) r) rs m,
            realms_by_mount = fold (\<lambda>r. bt_insert (mount_path r) (realm_name r)) rs n \<rparr>" for m n
    by (induction rs arbitrary: m n) simp_all
  then show ?thesis by (simp add: new_realms_def)
qed

lemma bt_get_fold_insert:
  assumes "distinct (map key xs)"
  shows "bt_get k (fold (\<lambda>x. bt_insert (key x) (val x)) xs m) = Some v
         \<longleftrightarrow> (\<exists>x \<in> set xs. key x = k \<and> val x = v) \<or> (k \<notin> key ` set xs \<and> bt_get k m = Some v)"
  using assms by (induction xs arbitrary: m) force+

lemma bt_wf_fold_insert: "bt_wf m \<Longrightarrow> bt_wf (fold (\<lambda>x. bt_insert (key x) (val x)) xs m)"
  by (induction xs arbitrary: m) (simp_all add: bt_wf_insert)

lemma by_name_iff:
  assumes "distinct (map realm_name rs)"
  shows "by_name (new_realms rs) nm = Some r \<longleftrightarrow> r \<in> set rs \<and> realm_name r = nm"
  using assms by (auto simp: by_name_def new_realms_alt bt_get_fold_insert)

lemma by_mount_iff:
  assumes "distinct (map realm_name rs)" "distinct (map mount_path rs)"
  shows "by_mount (new_realms rs) path = Some r \<longleftrightarrow> r \<in> set rs \<and> mount_path r = path"
  using assms
  by (auto simp: by_mount_def new_realms_alt bt_get_fold_insert bind_eq_Some_conv
        inj_on_def distinct_map)

lemma set_all_realms:
  assumes "distinct (map realm_name rs)"
  shows "set (all_realms (new_realms rs)) = set rs"
proof -
  let ?m = "realms_by_name (new_realms rs)"
  have wf: "bt_wf ?m" by (simp add: new_realms_alt bt_wf_fold_insert)
  have "(k, r) \<in> set ?m \<longleftrightarrow> r \<in> set rs \<and> realm_name r = k" for k r
    using by_name_iff [OF assms, of k r] map_of_eq_Some_iff [OF bt_wf_distinct [OF wf], of k r]
    by (simp only: by_name_def bt_get_def)
  then have "r \<in> snd ` set ?m \<longleftrightarrow> r \<in> set rs" for r
    by (metis (no_types, lifting) image_iff prod.collapse snd_conv)
  then show ?thesis by (simp add: all_realms_def set_eq_iff)
qed

text \<open>
  The registry a deployment builds from realms of distinct names and distinct mount paths answers
  a request path with a realm exactly when that realm is mounted at that very path, and a name with
  the realm of that name; the catalogue it publishes holds exactly the realms that opted in.
\<close>

theorem registry_resolves_exactly:
  assumes "distinct (map realm_name rs)" "distinct (map mount_path rs)"
  shows "(by_mount (new_realms rs) path = Some r \<longleftrightarrow> r \<in> set rs \<and> mount_path r = path)
    \<and> (by_name (new_realms rs) nm = Some r \<longleftrightarrow> r \<in> set rs \<and> realm_name r = nm)
    \<and> set (listed_realms (new_realms rs)) = {r \<in> set rs. listed r}"
proof -
  have "set (listed_realms (new_realms rs)) = {r \<in> set (all_realms (new_realms rs)). listed r}"
    by (auto simp: listed_realms_def all_realms_def)
  then show ?thesis
    using by_mount_iff [OF assms] by_name_iff [OF assms(1)] set_all_realms [OF assms(1)] by auto
qed

definition acme_realm :: "(unit, unit, unit) Realm" where
  "acme_realm = new_realm ''acme'' ''/realms/acme'' None True None None () None"

definition beta_realm :: "(unit, unit, unit) Realm" where
  "beta_realm = new_realm ''beta'' ''/realms/beta'' None False None None () None"

theorem registry_resolves_exactly_witness:
  "by_mount (new_realms [acme_realm, beta_realm]) ''/realms/acme'' = Some acme_realm
   \<and> set (listed_realms (new_realms [acme_realm, beta_realm])) = {acme_realm}"
proof -
  have *: "distinct (map realm_name [acme_realm, beta_realm])"
    "distinct (map mount_path [acme_realm, beta_realm])"
    "listed acme_realm" "\<not> listed beta_realm" "mount_path acme_realm = ''/realms/acme''"
    by (simp_all add: acme_realm_def beta_realm_def new_realm_def)
  then show ?thesis
    using registry_resolves_exactly [OF *(1,2), of "''/realms/acme''" acme_realm "''acme''"] by auto
qed

end
