(* ===== verification/KeyCache.thy ===== *)
theory KeyCache
  imports Realms
begin

text \<open>
  \<open>crates/pic-x-realm/src/attester_keys.rs\<close> and \<open>idp_keys.rs\<close>: the key sets of the attesters and of
  the identity providers a realm trusts, held in memory, replaced by a refresh pass and read on the
  request path. An \<open>Instant\<close> and a \<open>Duration\<close> are nanoseconds; \<open>Instant::elapsed\<close> saturates at zero.
  A pass reads the network and the clock once per source, so both are arguments indexed by the
  position of the source. The transport (\<open>key_fetch.rs\<close>) is the argument \<open>fetch\<close>; the locks are never
  poisoned.

  The lemmas give each cache one abstract meaning: what it answers for a source is determined by the
  outcomes of the passes so far, as \<open>served\<close> says. They rest on a locale for what the two caches share.
\<close>

section \<open>Definitions\<close>

type_synonym instant = nat
type_synonym duration = nat

definition nanos_per_second :: nat where "nanos_per_second = 1000000000"

definition elapsed :: "instant \<Rightarrow> instant \<Rightarrow> duration" where
  "elapsed now at = now - at"

datatype cache_error =
    FetchFailed string
  | KeySetNotJson
  | NoKeysArray
  | DiscoveryNotJson
  | DiscoveryNoIssuer
  | DiscoveryOtherIssuer string string
  | DiscoveryNoJwksUri
  | NotConfigured string
  | NotFetchedYet string
  | StaleFor string nat nat

subsection \<open>Key sets\<close>

text \<open>A key is kept when it is published for signatures and carries no private component.\<close>

definition usable_key :: "Value \<Rightarrow> bool" where
  "usable_key jwk \<longleftrightarrow>
     (case get_str ''use'' jwk of None \<Rightarrow> True | Some usage \<Rightarrow> usage = ''sig'')
     \<and> value_get ''d'' jwk = None"

definition parse_key_set :: "'e web_env_scheme \<Rightarrow> bytes \<Rightarrow> cache_error + Value list" where
  "parse_key_set env body =
     and_then (map_err (\<lambda>_. KeySetNotJson) (json_from_slice env body)) (\<lambda>document.
     and_then (ok_or NoKeysArray (Option.bind (value_get ''keys'' document) as_array)) (\<lambda>keys.
     Inr (filter usable_key keys)))"

record CacheEntry =
  entry_keys :: "Value list"
  fetched_at :: instant
  failed_since :: "instant option"

type_synonym cache_entries = "(string, CacheEntry) btree"

text \<open>
  What one source's outcome does to the entries: a set replaces the entry, a failure is noted on an
  entry that has none noted, and never creates or clears one.
\<close>

definition note_outcome ::
  "instant \<Rightarrow> cache_error + Value list \<Rightarrow> string \<Rightarrow> cache_entries \<Rightarrow> cache_entries" where
  "note_outcome now outcome k entries =
     (case outcome of
        Inr keys \<Rightarrow> bt_insert k \<lparr> entry_keys = keys, fetched_at = now, failed_since = None \<rparr> entries
      | Inl _ \<Rightarrow>
          (case bt_get k entries of
             Some entry \<Rightarrow>
               if failed_since entry = None
               then bt_insert k (entry\<lparr> failed_since := Some now \<rparr>) entries
               else entries
           | None \<Rightarrow> entries))"

text \<open>What an entry answers: its keys, unless refreshing has been failing for too long.\<close>

definition serve_entry ::
  "instant \<Rightarrow> duration \<Rightarrow> string \<Rightarrow> CacheEntry \<Rightarrow> cache_error + Value list" where
  "serve_entry now stale_for k entry =
     (case failed_since entry of
        Some since \<Rightarrow>
          (let failure_age = elapsed now since in
           if failure_age > stale_for
           then Inl (StaleFor k (failure_age div nanos_per_second)
                      (elapsed now (fetched_at entry) div nanos_per_second))
           else Inr (entry_keys entry))
      | None \<Rightarrow> Inr (entry_keys entry))"

subsection \<open>Attester keys\<close>

definition REFRESH_EVERY :: duration where "REFRESH_EVERY = 300 * nanos_per_second"
definition RETRY_UNTIL_READY :: duration where "RETRY_UNTIL_READY = 3 * nanos_per_second"

record AttesterKeyCache =
  ak_attesters :: "TrustedAttesterConfig list"
  ak_serve_stale_for :: duration
  ak_entries :: cache_entries

definition attester_cache_with_stale_for ::
  "TrustedAttesterConfig list \<Rightarrow> duration \<Rightarrow> AttesterKeyCache" where
  "attester_cache_with_stale_for ats stale_for =
     \<lparr> ak_attesters = ats, ak_serve_stale_for = stale_for, ak_entries = [] \<rparr>"

definition attester_cache_is_ready :: "AttesterKeyCache \<Rightarrow> bool" where
  "attester_cache_is_ready c \<longleftrightarrow>
     list_all (\<lambda>a. bt_contains (ta_id a) (ak_entries c)) (ak_attesters c)"

type_synonym fetcher = "string \<Rightarrow> string + bytes"

definition attester_outcome ::
  "'e web_env_scheme \<Rightarrow> fetcher \<Rightarrow> TrustedAttesterConfig \<Rightarrow> cache_error + Value list" where
  "attester_outcome env fetch a =
     and_then (map_err FetchFailed (fetch (ta_jwks_uri a))) (parse_key_set env)"

definition attester_refresh ::
  "'e web_env_scheme \<Rightarrow> (nat \<Rightarrow> fetcher) \<Rightarrow> (nat \<Rightarrow> instant) \<Rightarrow> AttesterKeyCache \<Rightarrow> AttesterKeyCache" where
  "attester_refresh env fetch clock c =
     c\<lparr> ak_entries :=
          fold (\<lambda>(i, a). note_outcome (clock i) (attester_outcome env (fetch i) a) (ta_id a))
            (enumerate 0 (ak_attesters c)) (ak_entries c) \<rparr>"

definition attester_keys_for ::
  "AttesterKeyCache \<Rightarrow> instant \<Rightarrow> string \<Rightarrow> cache_error + Value list" where
  "attester_keys_for c now attester_id =
     and_then (guard_that (\<exists>a \<in> set (ak_attesters c). ta_id a = attester_id)
                (NotConfigured attester_id)) (\<lambda>_.
     and_then (ok_or (NotFetchedYet attester_id) (bt_get attester_id (ak_entries c))) (\<lambda>entry.
     serve_entry now (ak_serve_stale_for c) attester_id entry))"

subsection \<open>Identity-provider keys\<close>

record IdpKeyCache =
  ik_profiles :: "ExchangeProfileConfig list"
  ik_serve_stale_for :: duration
  ik_entries :: cache_entries

definition idp_cache_with_stale_for ::
  "ExchangeProfileConfig list \<Rightarrow> duration \<Rightarrow> IdpKeyCache" where
  "idp_cache_with_stale_for ps stale_for =
     \<lparr> ik_profiles = ps, ik_serve_stale_for = stale_for, ik_entries = [] \<rparr>"

definition idp_cache_is_empty :: "IdpKeyCache \<Rightarrow> bool" where
  "idp_cache_is_empty c \<longleftrightarrow> ik_profiles c = []"

definition idp_cache_is_ready :: "IdpKeyCache \<Rightarrow> bool" where
  "idp_cache_is_ready c \<longleftrightarrow>
     list_all (\<lambda>p. bt_contains (profile_id p) (ik_entries c)) (ik_profiles c)"

definition idp_keys_for :: "IdpKeyCache \<Rightarrow> instant \<Rightarrow> string \<Rightarrow> cache_error + Value list" where
  "idp_keys_for c now pid =
     and_then (ok_or (NotFetchedYet pid) (bt_get pid (ik_entries c))) (\<lambda>entry.
     serve_entry now (ik_serve_stale_for c) pid entry)"

definition fetch_provider_keys ::
  "'e web_env_scheme \<Rightarrow> fetcher \<Rightarrow> string \<Rightarrow> string \<Rightarrow> cache_error + Value list" where
  "fetch_provider_keys env fetch base iss =
     (let discovery_uri = trim_end_matches CHR ''/'' base @ ''/.well-known/openid-configuration'' in
      and_then (map_err FetchFailed (fetch discovery_uri)) (\<lambda>body.
      and_then (map_err (\<lambda>_. DiscoveryNotJson) (json_from_slice env body)) (\<lambda>document.
      and_then (ok_or DiscoveryNoIssuer (get_str ''issuer'' document)) (\<lambda>declared.
      and_then (guard_that (trim_end_matches CHR ''/'' declared = trim_end_matches CHR ''/'' iss)
                 (DiscoveryOtherIssuer declared iss)) (\<lambda>_.
      and_then (ok_or DiscoveryNoJwksUri (get_str ''jwks_uri'' document)) (\<lambda>jwks_uri.
      and_then (map_err FetchFailed (fetch jwks_uri)) (parse_key_set env)))))))"

definition idp_outcome ::
  "'e web_env_scheme \<Rightarrow> fetcher \<Rightarrow> ExchangeProfileConfig \<Rightarrow> cache_error + Value list" where
  "idp_outcome env fetch p =
     fetch_provider_keys env fetch (discovery_base (profile_source p)) (source_issuer (profile_source p))"

definition idp_refresh ::
  "'e web_env_scheme \<Rightarrow> (nat \<Rightarrow> fetcher) \<Rightarrow> (nat \<Rightarrow> instant) \<Rightarrow> IdpKeyCache \<Rightarrow> IdpKeyCache" where
  "idp_refresh env fetch clock c =
     c\<lparr> ik_entries :=
          fold (\<lambda>(i, p). note_outcome (clock i) (idp_outcome env (fetch i) p) (profile_id p))
            (enumerate 0 (ik_profiles c)) (ik_entries c) \<rparr>"

section \<open>What a cache promises\<close>

text \<open>
  The outcomes of the passes for one source, oldest first. A cache serves the last set fetched; once
  refreshing fails it keeps serving it until the first of the failures since is older than
  \<open>stale_for\<close>; with no set ever fetched it answers that.
\<close>

type_synonym outcomes = "(instant \<times> (cache_error + Value list)) list"

definition served :: "duration \<Rightarrow> instant \<Rightarrow> string \<Rightarrow> outcomes \<Rightarrow> cache_error + Value list" where
  "served stale_for now k h =
     (let failures = takeWhile (\<lambda>x. \<not> is_ok (snd x)) (rev h);
          rest = dropWhile (\<lambda>x. \<not> is_ok (snd x)) (rev h)
      in case rest of
           [] \<Rightarrow> Inl (NotFetchedYet k)
         | (at, Inl e) # _ \<Rightarrow> Inl (NotFetchedYet k)
         | (at, Inr keys) # _ \<Rightarrow>
             if failures \<noteq> [] \<and> now - fst (last failures) > stale_for
             then Inl (StaleFor k ((now - fst (last failures)) div nanos_per_second)
                        ((now - at) div nanos_per_second))
             else Inr keys)"

text \<open>The entry of one source after its outcomes, one at a time.\<close>

definition entry_step ::
  "instant \<times> (cache_error + Value list) \<Rightarrow> CacheEntry option \<Rightarrow> CacheEntry option" where
  "entry_step x e =
     (case snd x of
        Inr keys \<Rightarrow> Some \<lparr> entry_keys = keys, fetched_at = fst x, failed_since = None \<rparr>
      | Inl _ \<Rightarrow>
          map_option (\<lambda>entry. if failed_since entry = None
                              then entry\<lparr> failed_since := Some (fst x) \<rparr> else entry) e)"

section \<open>Lemmas\<close>

lemma bt_get_note_outcome:
  "bt_get j (note_outcome now outcome k entries)
   = (if j = k then entry_step (now, outcome) (bt_get k entries) else bt_get j entries)"
  by (auto simp: note_outcome_def entry_step_def split: sum.splits option.splits)

text \<open>A pass over sources of distinct keys takes one step for each of them.\<close>

lemma bt_get_pass:
  assumes "distinct (map key ps)" "p \<in> set ps"
  shows "bt_get (key p) (fold (\<lambda>p. note_outcome (now p) (out p) (key p)) ps m)
         = entry_step (now p, out p) (bt_get (key p) m)"
  using assms
proof (induction ps arbitrary: m)
  case (Cons q ps)
  have other: "k \<notin> key ` set ps \<Longrightarrow>
      bt_get k (fold (\<lambda>p. note_outcome (now p) (out p) (key p)) ps m') = bt_get k m'" for k m'
    by (induction ps arbitrary: m') (auto simp: bt_get_note_outcome)
  from Cons.prems have "p \<noteq> q \<Longrightarrow> key p \<noteq> key q" by (auto simp: image_iff)
  with Cons show ?case
    by (cases "p = q") (auto simp: other bt_get_note_outcome)
qed simp

text \<open>The entry the outcomes of a source leave, read off the last success and the failures since.\<close>

lemma entry_after_outcomes:
  "fold entry_step h None =
     (let failures = takeWhile (\<lambda>x. \<not> is_ok (snd x)) (rev h);
          rest = dropWhile (\<lambda>x. \<not> is_ok (snd x)) (rev h)
      in case rest of
           (at, Inr keys) # _ \<Rightarrow>
             Some \<lparr> entry_keys = keys, fetched_at = at,
                    failed_since = (if failures = [] then None else Some (fst (last failures))) \<rparr>
         | _ \<Rightarrow> None)"
proof (induction h rule: rev_induct)
  case (snoc x h)
  then show ?case
    by (cases x; cases "snd x")
      (auto simp: entry_step_def Let_def simp del: dropWhile_eq_Nil_conv takeWhile_eq_Nil_iff
        split: list.splits sum.splits)
qed (simp add: Let_def)

lemma served_from_entry:
  "served stale_for now k h =
     and_then (ok_or (NotFetchedYet k) (fold entry_step h None)) (serve_entry now stale_for k)"
proof (cases "dropWhile (\<lambda>x. \<not> is_ok (snd x)) (rev h)")
  case (Cons x xs)
  then show ?thesis
    by (cases x; cases "snd x")
      (auto simp only: served_def entry_after_outcomes serve_entry_def elapsed_def Let_def
        list.case prod.case sum.case snd_conv option.case ok_or_simps and_then_simps CacheEntry.simps
        split: if_splits)
qed (simp add: served_def entry_after_outcomes Let_def del: dropWhile_eq_Nil_conv)

lemma served_keys_were_fetched: "served stale_for now k h = Inr keys \<Longrightarrow> \<exists>at. (at, Inr keys) \<in> set h"
proof -
  assume "served stale_for now k h = Inr keys"
  then have "\<exists>at xs. dropWhile (\<lambda>x. \<not> is_ok (snd x)) (rev h) = (at, Inr keys) # xs"
    by (auto simp: served_def Let_def split: list.splits sum.splits if_splits)
  then show ?thesis
    by (metis list.set_intros(1) set_dropWhileD set_rev)
qed

lemma parse_key_set_usable:
  "parse_key_set env body = Inr keys \<Longrightarrow> jwk \<in> set keys \<Longrightarrow> usable_key jwk"
  by (auto simp: parse_key_set_def result_iffs)

subsection \<open>The contract of a refreshed cache\<close>

text \<open>
  What the two caches share: entries that only a pass changes, one outcome per source and pass, and
  an answer computed from the entry of the source.
\<close>

locale refreshed_cache =
  fixes sources :: "'c \<Rightarrow> 'src list"
    and key :: "'src \<Rightarrow> string"
    and stale_for :: "'c \<Rightarrow> duration"
    and entries :: "'c \<Rightarrow> cache_entries"
    and outcome :: "fetcher \<Rightarrow> 'src \<Rightarrow> cache_error + Value list"
    and refresh :: "(nat \<Rightarrow> fetcher) \<Rightarrow> (nat \<Rightarrow> instant) \<Rightarrow> 'c \<Rightarrow> 'c"
    and keys_for :: "'c \<Rightarrow> instant \<Rightarrow> string \<Rightarrow> cache_error + Value list"
  assumes sources_refresh: "sources (refresh f t c) = sources c"
    and stale_for_refresh: "stale_for (refresh f t c) = stale_for c"
    and entries_refresh: "entries (refresh f t c) =
          fold (\<lambda>(i, s). note_outcome (t i) (outcome (f i) s) (key s))
            (enumerate 0 (sources c)) (entries c)"
    and keys_for_source: "s \<in> set (sources c) \<Longrightarrow>
          keys_for c now (key s) =
            and_then (ok_or (NotFetchedYet (key s)) (bt_get (key s) (entries c)))
              (serve_entry now (stale_for c) (key s))"
    and outcome_usable: "outcome g s = Inr keys \<Longrightarrow> jwk \<in> set keys \<Longrightarrow> usable_key jwk"
begin

lemma bt_get_refresh:
  assumes "distinct (map key (sources c))" "i < length (sources c)"
  shows "bt_get (key (sources c ! i)) (entries (refresh f t c))
         = entry_step (t i, outcome (f i) (sources c ! i)) (bt_get (key (sources c ! i)) (entries c))"
proof -
  have "map (key \<circ> snd) (enumerate 0 (sources c)) = map key (sources c)"
    by (simp add: map_map [symmetric] del: map_map)
  moreover have "(i, sources c ! i) \<in> set (enumerate 0 (sources c))"
    using assms(2) by (simp add: in_set_enumerate_eq)
  ultimately show ?thesis
    using assms(1)
      bt_get_pass [of "key \<circ> snd" "enumerate 0 (sources c)" "(i, sources c ! i)" "\<lambda>p. t (fst p)"
        "\<lambda>p. outcome (f (fst p)) (snd p)" "entries c"]
    by (simp add: entries_refresh case_prod_beta' comp_def)
qed

lemma passes_keep_sources:
  "sources (fold (\<lambda>(f, t). refresh f t) ps c) = sources c"
  "stale_for (fold (\<lambda>(f, t). refresh f t) ps c) = stale_for c"
  by (induction ps arbitrary: c) (auto simp: sources_refresh stale_for_refresh)

lemma bt_get_passes:
  assumes "distinct (map key (sources c))" "i < length (sources c)"
  shows "bt_get (key (sources c ! i)) (entries (fold (\<lambda>(f, t). refresh f t) ps c))
         = fold entry_step (map (\<lambda>(f, t). (t i, outcome (f i) (sources c ! i))) ps)
             (bt_get (key (sources c ! i)) (entries c))"
  using assms
proof (induction ps arbitrary: c)
  case (Cons p ps)
  then show ?case
    using Cons.IH [of "refresh (fst p) (snd p) c"]
    by (simp add: bt_get_refresh sources_refresh case_prod_beta')
qed simp

lemma keys_for_refines:
  assumes "distinct (map key (sources c))" "i < length (sources c)" "entries c = []"
  shows "keys_for (fold (\<lambda>(f, t). refresh f t) ps c) now (key (sources c ! i))
         = served (stale_for c) now (key (sources c ! i))
             (map (\<lambda>(f, t). (t i, outcome (f i) (sources c ! i))) ps)"
  using assms
  by (simp add: keys_for_source passes_keep_sources bt_get_passes served_from_entry)

lemma keys_for_usable:
  assumes "distinct (map key (sources c))" "i < length (sources c)" "entries c = []"
    and "keys_for (fold (\<lambda>(f, t). refresh f t) ps c) now (key (sources c ! i)) = Inr keys"
    and "jwk \<in> set keys"
  shows "usable_key jwk"
proof -
  obtain at where "(at, Inr keys) \<in> set (map (\<lambda>(f, t). (t i, outcome (f i) (sources c ! i))) ps)"
    using keys_for_refines [OF assms(1-3)] assms(4) served_keys_were_fetched by metis
  with assms(5) show ?thesis by (auto dest: outcome_usable [OF sym])
qed

end

interpretation attester_cache: refreshed_cache ak_attesters ta_id ak_serve_stale_for ak_entries
    "attester_outcome env" "attester_refresh env" attester_keys_for
  for env :: "'e web_env_scheme"
  by unfold_locales
    (auto simp: attester_refresh_def attester_keys_for_def attester_outcome_def result_iffs
      guard_that_def intro: parse_key_set_usable)

interpretation idp_cache: refreshed_cache ik_profiles profile_id ik_serve_stale_for ik_entries
    "idp_outcome env" "idp_refresh env" idp_keys_for
  for env :: "'e web_env_scheme"
  by unfold_locales
    (auto simp: idp_refresh_def idp_keys_for_def idp_outcome_def fetch_provider_keys_def
      Let_def result_iffs intro: parse_key_set_usable)

section \<open>Properties\<close>

text \<open>
  C22: Whatever passes have run since the cache was built, what it answers for a configured attester is
  what the outcomes of those passes call for: the last set the attester published, removals
  included; that set for as long as the first of the failures since is no older than the staleness
  bound; an error after that, and an error when no set was ever fetched.
\<close>

theorem attester_cache_serves_outcomes:
  assumes "distinct (map ta_id ats)" "i < length ats"
  shows "attester_keys_for
           (fold (\<lambda>(fetch, clock). attester_refresh env fetch clock) passes
             (attester_cache_with_stale_for ats stale_for))
           now (ta_id (ats ! i))
         = served stale_for now (ta_id (ats ! i))
             (map (\<lambda>(fetch, clock). (clock i, attester_outcome env (fetch i) (ats ! i))) passes)"
  using attester_cache.keys_for_refines [of "attester_cache_with_stale_for ats stale_for" i env passes now]
    assms by (simp add: attester_cache_with_stale_for_def)

text \<open>
  A key an identity-provider cache serves was published for signatures, carries no private
  component, and came out of a pass in which the discovery document of the configured provider named
  the configured issuer.
\<close>

theorem idp_cache_serves_the_issuer:
  assumes "distinct (map profile_id ps)" "i < length ps"
    and "idp_keys_for
           (fold (\<lambda>(fetch, clock). idp_refresh env fetch clock) passes
             (idp_cache_with_stale_for ps stale_for))
           now (profile_id (ps ! i)) = Inr keys"
    and "jwk \<in> set keys"
  shows "usable_key jwk \<and>
    (\<exists>(fetch, clock) \<in> set passes. \<exists>body document declared.
       fetch i (trim_end_matches CHR ''/'' (discovery_base (profile_source (ps ! i)))
                @ ''/.well-known/openid-configuration'') = Inr body
       \<and> json_from_slice env body = Inr document
       \<and> get_str ''issuer'' document = Some declared
       \<and> trim_end_matches CHR ''/'' declared
           = trim_end_matches CHR ''/'' (source_issuer (profile_source (ps ! i))))"
proof -
  let ?c = "idp_cache_with_stale_for ps stale_for"
  have c: "ik_profiles ?c = ps" "ik_entries ?c = []" "ik_serve_stale_for ?c = stale_for"
    by (simp_all add: idp_cache_with_stale_for_def)
  have "served stale_for now (profile_id (ps ! i))
      (map (\<lambda>(fetch, clock). (clock i, idp_outcome env (fetch i) (ps ! i))) passes) = Inr keys"
    using idp_cache.keys_for_refines [of ?c i env passes now] assms(1-3) by (simp add: c)
  from served_keys_were_fetched [OF this] obtain fetch clock
    where pass: "(fetch, clock) \<in> set passes" "idp_outcome env (fetch i) (ps ! i) = Inr keys"
    by auto
  moreover have "usable_key jwk"
    using pass(2) assms(4) by (rule idp_cache.outcome_usable)
  ultimately show ?thesis
    unfolding idp_outcome_def fetch_provider_keys_def Let_def result_iffs by blast
qed

subsection \<open>A deployment\<close>

definition demo_key :: Value where
  "demo_key = JObject [(''kid'', JString ''k1''), (''kty'', JString ''OKP''), (''use'', JString ''sig'')]"

definition demo_key_set :: Value where
  "demo_key_set = JObject [(''keys'', JArray
     [demo_key, JObject [(''kid'', JString ''k2''), (''use'', JString ''enc'')],
      JObject [(''d'', JString ''secret''), (''kid'', JString ''k3'')]])]"

definition demo_discovery :: Value where
  "demo_discovery = JObject [(''issuer'', JString ''https://idp/''), (''jwks_uri'', JString ''https://idp/keys'')]"

text \<open>A codec of two documents: the key set is written \<open>K\<close>, the discovery document \<open>D\<close>.\<close>

definition demo_web_env :: web_env where
  "demo_web_env = \<lparr>
     json_from_slice = (\<lambda>b. if b = as_bytes ''K'' then Inr demo_key_set
                            else if b = as_bytes ''D'' then Inr demo_discovery else Inl ''not JSON''),
     json_to_string = (\<lambda>_. []), url_safe_encode = (\<lambda>_. []), url_safe_decode = (\<lambda>_. Inl ''not base64''),
     web_sha256 = id \<rparr>"

definition demo_attester :: TrustedAttesterConfig where
  "demo_attester = \<lparr> ta_id = ''lab'', ta_issuer = ''https://lab'', ta_jwks_uri = ''https://lab/keys'',
                     ta_proof_types = [''sd-jwt''], ta_formats = [''sd-jwt''] \<rparr>"

definition demo_source :: ExchangeProfileSource where
  "demo_source = \<lparr> source_token_type = ''oauth-access-token'', source_format = ''jwt'',
     source_issuer = ''https://idp'', discovery_url = None, source_audience = ''pic-x'',
     source_validation = \<lparr> allowed_algorithms = [''EdDSA''], require_expiration = True,
                           require_token_type = None \<rparr> \<rparr>"

definition demo_mapping :: ClaimMapping where
  "demo_mapping = \<lparr> cm_from = Some ''scope'', cm_value = None, cm_value_type = Some ''set'',
                    cm_encoding = Some ''space-delimited'' \<rparr>"

definition demo_profile :: ExchangeProfileConfig where
  "demo_profile = \<lparr> profile_id = ''corporate'', profile_source = demo_source,
     profile_claims = \<lparr> identity_context = [], scopes_mapping = demo_mapping \<rparr>,
     profile_privileges = \<lparr> privileges_source = ''scopes'', privileges_rules = [] \<rparr>,
     on_unmatched_scope = ''reject'' \<rparr>"

text \<open>One pass that succeeds at 0, then two that fail, at 5 and at 9.\<close>

definition demo_passes :: "((nat \<Rightarrow> fetcher) \<times> (nat \<Rightarrow> instant)) list" where
  "demo_passes = [(\<lambda>_ _. Inr (as_bytes ''K''), \<lambda>_. 0), (\<lambda>_ _. Inl ''refused'', \<lambda>_. 5),
                  (\<lambda>_ _. Inl ''refused'', \<lambda>_. 9)]"

lemma demo_parse: "parse_key_set demo_web_env (as_bytes ''K'') = Inr [demo_key]"
  by (simp add: parse_key_set_def demo_web_env_def demo_key_set_def demo_key_def bt_get_def
      usable_key_def get_str_def as_str_def as_array_def)

theorem attester_cache_serves_outcomes_witness:
  "attester_keys_for
     (fold (\<lambda>(fetch, clock). attester_refresh demo_web_env fetch clock) demo_passes
       (attester_cache_with_stale_for [demo_attester] 3)) 8 ''lab'' = Inr [demo_key]
   \<and> \<not> is_ok (attester_keys_for
        (fold (\<lambda>(fetch, clock). attester_refresh demo_web_env fetch clock) demo_passes
          (attester_cache_with_stale_for [demo_attester] 3)) 9 ''lab'')"
proof -
  have "ta_id demo_attester = ''lab''" by (simp add: demo_attester_def)
  moreover have "map (\<lambda>(fetch, clock). (clock 0, attester_outcome demo_web_env (fetch 0) demo_attester))
      demo_passes = [(0, Inr [demo_key]), (5, Inl (FetchFailed ''refused'')), (9, Inl (FetchFailed ''refused''))]"
    by (simp add: demo_passes_def attester_outcome_def demo_parse)
  ultimately show ?thesis
    using attester_cache_serves_outcomes [of "[demo_attester]" 0 demo_web_env demo_passes 3 8]
      attester_cache_serves_outcomes [of "[demo_attester]" 0 demo_web_env demo_passes 3 9]
    by (simp add: served_def)
qed

definition demo_idp_passes :: "((nat \<Rightarrow> fetcher) \<times> (nat \<Rightarrow> instant)) list" where
  "demo_idp_passes =
     [(\<lambda>_ uri. if uri = ''https://idp/keys'' then Inr (as_bytes ''K'') else Inr (as_bytes ''D''), \<lambda>_. 0)]"

lemma demo_idp_outcome:
  "idp_outcome demo_web_env
     (\<lambda>uri. if uri = ''https://idp/keys'' then Inr (as_bytes ''K'') else Inr (as_bytes ''D'')) demo_profile
   = Inr [demo_key]"
proof -
  have "json_from_slice demo_web_env (as_bytes ''D'') = Inr demo_discovery"
    by (simp add: demo_web_env_def as_bytes_def)
  then show ?thesis
    by (simp add: idp_outcome_def fetch_provider_keys_def demo_profile_def demo_source_def
        discovery_base_def trim_end_matches_def demo_discovery_def get_str_def bt_get_def as_str_def
        demo_parse Let_def)
qed

theorem idp_cache_serves_the_issuer_witness:
  "idp_keys_for
     (fold (\<lambda>(fetch, clock). idp_refresh demo_web_env fetch clock) demo_idp_passes
       (idp_cache_with_stale_for [demo_profile] 3)) 8 ''corporate'' = Inr [demo_key]
   \<and> usable_key demo_key"
proof -
  have "profile_id demo_profile = ''corporate''" by (simp add: demo_profile_def)
  then have keys: "idp_keys_for
     (fold (\<lambda>(fetch, clock). idp_refresh demo_web_env fetch clock) demo_idp_passes
       (idp_cache_with_stale_for [demo_profile] 3)) 8 (profile_id ([demo_profile] ! 0)) = Inr [demo_key]"
    by (simp add: demo_idp_passes_def idp_refresh_def idp_cache_with_stale_for_def idp_keys_for_def
        note_outcome_def demo_idp_outcome serve_entry_def bt_get_def)
  with idp_cache_serves_the_issuer [of "[demo_profile]" 0, OF _ _ keys] \<open>profile_id demo_profile = _\<close>
  show ?thesis by simp
qed

end
