(* ===== verification/Evidence.thy ===== *)
theory Evidence
  imports KeyCache
begin

text \<open>
  \<open>crates/pic-x-realm/src/por.rs\<close>: the validation of issuer-signed SD-JWT presentations. The
  operations follow the code in its order: size and UTF-8, the split at \<open>~\<close>, the compact JWS, the
  trusted issuer, the issuer's signature, \<open>_sd_alg\<close>, the validity claims, the disclosures, the key
  bound through \<open>cnf.jwk\<close>. JSON, base64url and SHA-256 come with \<open>web_env\<close>; the key parser and
  the algorithms of the \<open>pic\<close> crate and the RSA verification of \<open>ring\<close> are the fields
  \<open>evidence_env\<close> adds. A \<open>dyn ArtifactVerifier\<close> is its \<open>verify\<close> method. The text of a rejection is a
  constructor of \<open>rejection\<close>, with what the message interpolates. Times are \<open>i64\<close> in the code and
  integers here. The mutex of the validator is its state, passed explicitly, and is never poisoned.

  The lemmas say exactly which disclosures are accepted and which claims they yield, what an accepted
  presentation guarantees, that the remembered answer is the answer a fresh validation would give,
  and that the DER encoding of an RSA key reads back as the two integers it was made from.
\<close>

unbundle bit_operations_syntax

section \<open>Definitions\<close>

type_synonym ArtifactVerifier = "bytes \<Rightarrow> bytes \<Rightarrow> bool"

datatype SigningAlgorithm = EdDSA | ES256 | ES384

record ExpectedAlgorithms =
  expected_jose :: string
  expected_cose :: "SigningAlgorithm option"

record evidence_env = web_env +
  public_key_from_jwk :: "Value \<Rightarrow> string + ArtifactVerifier"
  expected_algorithms_for_jwk :: "Value \<Rightarrow> string + ExpectedAlgorithms"
  rsa_pkcs1_sha256_verify :: "bytes \<Rightarrow> bytes \<Rightarrow> bytes \<Rightarrow> bool"

datatype rejection =
    EvidenceTooLarge
  | EvidenceNotUtf8
  | NoTrailingTilde
  | NoIssuerSignedJwt
  | TooManyDisclosures
  | NotCompactJws
  | SegmentNotBase64url string
  | SegmentNotJson string
  | NoIssClaim
  | IssuerNotTrusted string
  | ProofTypeNotConfigured string
  | NoAlgHeader
  | AlgNone
  | SignatureNotBase64url
  | KeySetUnavailable string cache_error
  | NoVerificationKeys string
  | NoKeyMatchesKid string
  | SignatureDoesNotVerify string
  | UnsupportedSdAlg string
  | NoExpClaim
  | EvidenceExpired
  | EvidenceNotYetValid
  | IssuedInTheFuture
  | DisclosureNotCommitted
  | DisclosureTwice
  | DisclosureNotBase64url
  | DisclosureNotArray
  | DisclosureNotTriple
  | DisclosureNameNotString
  | DisclosureReservedName
  | DisclosureOverwrites
  | NoBoundKey
  | BoundKeyUnusable string

datatype RejectReason = PorRejected rejection

definition reject :: "rejection \<Rightarrow> RejectReason" where
  "reject description = PorRejected description"

definition WORKLOAD_COSE_ALGORITHMS :: "string list" where
  "WORKLOAD_COSE_ALGORITHMS = [''EdDSA'', ''ES256'', ''ES384'']"
definition SD_ALG_SHA_256 :: string where "SD_ALG_SHA_256 = ''sha-256''"
definition MAX_EVIDENCE_BYTES :: nat where "MAX_EVIDENCE_BYTES = 64 * 1024"
definition MAX_DISCLOSURES :: nat where "MAX_DISCLOSURES = 128"
definition CLOCK_SKEW_SECONDS :: int where "CLOCK_SKEW_SECONDS = 60"

record ProofOfRelationship =
  por_type :: string
  por_evidence :: bytes

record ProcessedProfileEvidence =
  pe_attester_id :: string
  pe_issuer :: string
  pe_claims :: "(string, Value) btree"

record Accepted =
  accepted_evidence :: bytes
  accepted_jwk :: Value
  accepted_processed :: ProcessedProfileEvidence

record SdJwtProfileValidator =
  sv_attesters :: "TrustedAttesterConfig list"
  sv_keys :: "string \<Rightarrow> cache_error + Value list"
  sv_now :: int

subsection \<open>The presentation\<close>

definition split_presentation :: "string \<Rightarrow> RejectReason + string \<times> string list" where
  "split_presentation presentation =
     and_then (guard_that (strip_suffix ''~'' presentation \<noteq> None) (reject NoTrailingTilde)) (\<lambda>_.
     let segments = split_on CHR ''~'' presentation in
     and_then (guard_that (hd segments \<noteq> []) (reject NoIssuerSignedJwt)) (\<lambda>_.
     let disclosures = filter (\<lambda>s. s \<noteq> []) (tl segments) in
     and_then (guard_that (length disclosures \<le> MAX_DISCLOSURES) (reject TooManyDisclosures)) (\<lambda>_.
     Inr (hd segments, disclosures))))"

definition decode_json :: "'e web_env_scheme \<Rightarrow> string \<Rightarrow> string \<Rightarrow> RejectReason + Value" where
  "decode_json env segment label =
     and_then (map_err (\<lambda>_. PorRejected (SegmentNotBase64url label)) (url_safe_decode env segment)) (\<lambda>bytes.
     map_err (\<lambda>_. PorRejected (SegmentNotJson label)) (json_from_slice env bytes))"

definition decode_jws_segments :: "'e web_env_scheme \<Rightarrow> string \<Rightarrow> RejectReason + Value \<times> Value" where
  "decode_jws_segments env jws =
     (case split_on CHR ''.'' jws of
        [header, payload, _] \<Rightarrow>
          and_then (decode_json env header ''header'') (\<lambda>h.
          and_then (decode_json env payload ''payload'') (\<lambda>p. Inr (h, p)))
      | _ \<Rightarrow> Inl (reject NotCompactJws))"

definition jws_signature_parts :: "'e web_env_scheme \<Rightarrow> string \<Rightarrow> RejectReason + bytes \<times> bytes" where
  "jws_signature_parts env jws =
     (let parts = split_on CHR ''.'' jws in
      and_then (guard_that (length parts = 3) (reject NotCompactJws)) (\<lambda>_.
      let signing_input = as_bytes (parts ! 0 @ ''.'' @ parts ! 1) in
      and_then (map_err (\<lambda>_. reject SignatureNotBase64url) (url_safe_decode env (parts ! 2))) (\<lambda>signature.
      Inr (signing_input, signature))))"

subsection \<open>RSA keys in DER\<close>

text \<open>\<open>usize::to_be_bytes\<close> on a 64-bit target.\<close>

definition to_be_bytes :: "nat \<Rightarrow> bytes" where
  "to_be_bytes n = map (\<lambda>i. of_nat (n div 256 ^ (7 - i))) [0..<8]"

definition der_length :: "nat \<Rightarrow> bytes" where
  "der_length len =
     (if len < 128 then [of_nat len]
      else let bytes = to_be_bytes len;
               start = (case position (\<lambda>byte. byte \<noteq> 0) bytes of Some i \<Rightarrow> i | None \<Rightarrow> length bytes - 1);
               significant = drop start bytes
           in (128 OR of_nat (length significant)) # significant)"

definition der_integer :: "bytes \<Rightarrow> bytes" where
  "der_integer v =
     (let trimmed = (case position (\<lambda>byte. byte \<noteq> 0) v of Some i \<Rightarrow> i | None \<Rightarrow> length v);
          v = drop trimmed v;
          content = (if v \<noteq> [] \<and> hd v AND 128 \<noteq> 0 then 0 # v else v)
      in 2 # der_length (length content) @ content)"

definition der_rsa_public_key :: "bytes \<Rightarrow> bytes \<Rightarrow> bytes" where
  "der_rsa_public_key modulus exponent =
     (let body = der_integer modulus @ der_integer exponent
      in 48 # der_length (length body) @ body)"

datatype rsa_key_error = NoModulus | NoExponent | ModulusNotBase64url | ExponentNotBase64url | TooShort nat

record RsaVerifier =
  rsa_key :: bytes

definition rsa_verify :: "'e evidence_env_scheme \<Rightarrow> RsaVerifier \<Rightarrow> ArtifactVerifier" where
  "rsa_verify env key data signature = rsa_pkcs1_sha256_verify env (rsa_key key) data signature"

definition rsa_key_from_jwk :: "'e web_env_scheme \<Rightarrow> Value \<Rightarrow> rsa_key_error + RsaVerifier" where
  "rsa_key_from_jwk env jwk =
     and_then (ok_or NoModulus (get_str ''n'' jwk)) (\<lambda>modulus.
     and_then (ok_or NoExponent (get_str ''e'' jwk)) (\<lambda>exponent.
     and_then (map_err (\<lambda>_. ModulusNotBase64url) (url_safe_decode env modulus)) (\<lambda>modulus.
     and_then (map_err (\<lambda>_. ExponentNotBase64url) (url_safe_decode env exponent)) (\<lambda>exponent.
     and_then (guard_that (256 \<le> length modulus) (TooShort (length modulus * 8))) (\<lambda>_.
     Inr \<lparr> rsa_key = der_rsa_public_key modulus exponent \<rparr>)))))"

datatype jwk_error = CarriesPrivateKey | RsaKeyError rsa_key_error | PicKeyError string

definition verification_key_from_jwk :: "'e evidence_env_scheme \<Rightarrow> Value \<Rightarrow> jwk_error + ArtifactVerifier" where
  "verification_key_from_jwk env jwk =
     (if value_get ''d'' jwk \<noteq> None then Inl CarriesPrivateKey
      else if get_str ''kty'' jwk = Some ''RSA''
      then and_then (map_err RsaKeyError (rsa_key_from_jwk env jwk)) (\<lambda>key. Inr (rsa_verify env key))
      else map_err PicKeyError (public_key_from_jwk env jwk))"

definition expected_jose_algorithm :: "'e evidence_env_scheme \<Rightarrow> Value \<Rightarrow> string option" where
  "expected_jose_algorithm env jwk =
     (if get_str ''kty'' jwk = Some ''RSA'' then Some ''RS256''
      else (case expected_algorithms_for_jwk env jwk of
              Inr expected \<Rightarrow> Some (expected_jose expected)
            | Inl _ \<Rightarrow> None))"

definition algorithm_matches :: "'e evidence_env_scheme \<Rightarrow> string \<Rightarrow> Value \<Rightarrow> bool" where
  "algorithm_matches env algorithm jwk \<longleftrightarrow> expected_jose_algorithm env jwk = Some algorithm"

subsection \<open>The issuer's signature\<close>

text \<open>Whether one selected key verifies the signature; the loop of the code stops at the first.\<close>

definition issuer_key_verifies ::
  "'e evidence_env_scheme \<Rightarrow> string \<Rightarrow> bytes \<Rightarrow> bytes \<Rightarrow> Value \<Rightarrow> bool" where
  "issuer_key_verifies env algorithm signing_input signature jwk \<longleftrightarrow>
     algorithm_matches env algorithm jwk
     \<and> (case verification_key_from_jwk env jwk of
          Inr key \<Rightarrow> key signing_input signature
        | Inl _ \<Rightarrow> False)"

definition kid_selects :: "string option \<Rightarrow> Value \<Rightarrow> bool" where
  "kid_selects key_id jwk \<longleftrightarrow>
     (case key_id of Some wanted \<Rightarrow> get_str ''kid'' jwk = Some wanted | None \<Rightarrow> True)"

definition verify_issuer_signature ::
  "'e evidence_env_scheme \<Rightarrow> string \<Rightarrow> Value \<Rightarrow> TrustedAttesterConfig
   \<Rightarrow> (string \<Rightarrow> cache_error + Value list) \<Rightarrow> RejectReason + unit" where
  "verify_issuer_signature env issuer_signed header attester keys =
     and_then (ok_or (reject NoAlgHeader) (get_str ''alg'' header)) (\<lambda>algorithm.
     and_then (guard_that (algorithm \<noteq> ''none'') (reject AlgNone)) (\<lambda>_.
     let key_id = get_str ''kid'' header in
     and_then (jws_signature_parts env issuer_signed) (\<lambda>(signing_input, signature).
     and_then (map_err (\<lambda>e. PorRejected (KeySetUnavailable (ta_id attester) e)) (keys (ta_id attester))) (\<lambda>candidates.
     and_then (guard_that (candidates \<noteq> []) (PorRejected (NoVerificationKeys (ta_id attester)))) (\<lambda>_.
     let selected = filter (kid_selects key_id) candidates in
     and_then (guard_that (selected \<noteq> []) (PorRejected (NoKeyMatchesKid (ta_id attester)))) (\<lambda>_.
     guard_that (list_ex (issuer_key_verifies env algorithm signing_input signature) selected)
       (PorRejected (SignatureDoesNotVerify (ta_id attester)))))))))"

subsection \<open>Disclosures\<close>

definition committed_digests :: "Value \<Rightarrow> string list" where
  "committed_digests payload =
     (case Option.bind (value_get ''_sd'' payload) as_array of
        Some values \<Rightarrow> List.map_filter as_str values
      | None \<Rightarrow> [])"

definition always_disclosed :: "Value \<Rightarrow> (string, Value) btree" where
  "always_disclosed payload =
     (case as_object payload of
        Some obj \<Rightarrow>
          fold (\<lambda>(key, v) claims.
                  if key \<noteq> ''_sd'' \<and> key \<noteq> ''_sd_alg'' then bt_insert key v claims else claims) obj []
      | None \<Rightarrow> [])"

definition disclosure_digest :: "'e web_env_scheme \<Rightarrow> string \<Rightarrow> string" where
  "disclosure_digest env disclosure = url_safe_encode env (web_sha256 env (as_bytes disclosure))"

text \<open>One disclosure: the claims gathered so far and the digests already used.\<close>

definition process_disclosure ::
  "'e web_env_scheme \<Rightarrow> string list \<Rightarrow> string \<Rightarrow> (string, Value) btree \<times> string list
   \<Rightarrow> RejectReason + (string, Value) btree \<times> string list" where
  "process_disclosure env committed disclosure st =
     (case st of (claims, used) \<Rightarrow>
        let computed = disclosure_digest env disclosure in
        and_then (guard_that (computed \<in> set committed) (reject DisclosureNotCommitted)) (\<lambda>_.
        and_then (guard_that (computed \<notin> set used) (reject DisclosureTwice)) (\<lambda>_.
        and_then (map_err (\<lambda>_. reject DisclosureNotBase64url) (url_safe_decode env disclosure)) (\<lambda>decoded.
        and_then (ok_or (reject DisclosureNotArray)
                   (case json_from_slice env decoded of Inr v \<Rightarrow> as_array v | Inl _ \<Rightarrow> None)) (\<lambda>parts.
        case parts of
          [_, name, v] \<Rightarrow>
            and_then (ok_or (reject DisclosureNameNotString) (as_str name)) (\<lambda>name.
            and_then (guard_that (\<not> (starts_with ''_sd'' name \<or> name = ''...''))
                       (reject DisclosureReservedName)) (\<lambda>_.
            and_then (guard_that (\<not> bt_contains name claims) (reject DisclosureOverwrites)) (\<lambda>_.
            Inr (bt_insert name v claims, computed # used))))
        | _ \<Rightarrow> Inl (reject DisclosureNotTriple))))))"

fun process_all ::
  "'e web_env_scheme \<Rightarrow> string list \<Rightarrow> string list \<Rightarrow> (string, Value) btree \<times> string list
   \<Rightarrow> RejectReason + (string, Value) btree \<times> string list" where
  "process_all env committed [] st = Inr st"
| "process_all env committed (d # ds) st =
     and_then (process_disclosure env committed d st) (process_all env committed ds)"

definition process_disclosures ::
  "'e web_env_scheme \<Rightarrow> Value \<Rightarrow> string list \<Rightarrow> RejectReason + (string, Value) btree" where
  "process_disclosures env payload disclosures =
     and_then (process_all env (committed_digests payload) disclosures (always_disclosed payload, []))
       (\<lambda>(claims, _). Inr claims)"

subsection \<open>Validity and the bound key\<close>

definition validate_validity_claims :: "Value \<Rightarrow> int \<Rightarrow> RejectReason + unit" where
  "validate_validity_claims payload now =
     (let claim = (\<lambda>name. Option.bind (value_get name payload) as_i64) in
      case claim ''exp'' of
        None \<Rightarrow> Inl (reject NoExpClaim)
      | Some expiry \<Rightarrow>
          and_then (guard_that (\<not> now - CLOCK_SKEW_SECONDS \<ge> expiry) (reject EvidenceExpired)) (\<lambda>_.
          and_then (guard_that (case claim ''nbf'' of
                       Some not_before \<Rightarrow> \<not> now + CLOCK_SKEW_SECONDS < not_before | None \<Rightarrow> True)
                     (reject EvidenceNotYetValid)) (\<lambda>_.
          guard_that (case claim ''iat'' of
                        Some issued_at \<Rightarrow> \<not> now + CLOCK_SKEW_SECONDS < issued_at | None \<Rightarrow> True)
            (reject IssuedInTheFuture))))"

definition cnf_jwk :: "Value \<Rightarrow> Value option" where
  "cnf_jwk payload = Option.bind (value_get ''cnf'' payload) (value_get ''jwk'')"

definition rebuild_workload_key :: "'e evidence_env_scheme \<Rightarrow> Value \<Rightarrow> RejectReason + ArtifactVerifier" where
  "rebuild_workload_key env jwk =
     map_err (\<lambda>e. PorRejected (BoundKeyUnusable e)) (public_key_from_jwk env jwk)"

definition workload_key_from_cnf :: "'e evidence_env_scheme \<Rightarrow> Value \<Rightarrow> RejectReason + ArtifactVerifier" where
  "workload_key_from_cnf env payload =
     and_then (ok_or (reject NoBoundKey) (cnf_jwk payload)) (\<lambda>jwk.
     map_err (\<lambda>e. PorRejected (BoundKeyUnusable e)) (public_key_from_jwk env jwk))"

subsection \<open>The validator\<close>

definition validate_evidence_with_key ::
  "'e evidence_env_scheme \<Rightarrow> SdJwtProfileValidator \<Rightarrow> ProofOfRelationship
   \<Rightarrow> RejectReason + ArtifactVerifier \<times> ProcessedProfileEvidence \<times> Value" where
  "validate_evidence_with_key env v por =
     and_then (guard_that (length (por_evidence por) \<le> MAX_EVIDENCE_BYTES) (reject EvidenceTooLarge)) (\<lambda>_.
     and_then (ok_or (reject EvidenceNotUtf8) (from_utf8 (por_evidence por))) (\<lambda>presentation.
     and_then (split_presentation presentation) (\<lambda>(issuer_signed, disclosures).
     and_then (decode_jws_segments env issuer_signed) (\<lambda>(header, payload).
     and_then (ok_or (reject NoIssClaim) (get_str ''iss'' payload)) (\<lambda>iss.
     and_then (ok_or (PorRejected (IssuerNotTrusted iss))
                (find (\<lambda>candidate. ta_issuer candidate = iss) (sv_attesters v))) (\<lambda>attester.
     and_then (guard_that (''sd-jwt'' \<in> set (ta_proof_types attester))
                (PorRejected (ProofTypeNotConfigured (ta_id attester)))) (\<lambda>_.
     and_then (verify_issuer_signature env issuer_signed header attester (sv_keys v)) (\<lambda>_.
     and_then (case get_str ''_sd_alg'' payload of
                 Some alg \<Rightarrow> guard_that (alg = SD_ALG_SHA_256) (PorRejected (UnsupportedSdAlg alg))
               | None \<Rightarrow> Inr ()) (\<lambda>_.
     and_then (validate_validity_claims payload (sv_now v)) (\<lambda>_.
     and_then (process_disclosures env payload disclosures) (\<lambda>claims.
     and_then (ok_or (reject NoBoundKey) (cnf_jwk payload)) (\<lambda>jwk.
     and_then (workload_key_from_cnf env payload) (\<lambda>workload_key.
     Inr (workload_key,
          \<lparr> pe_attester_id = ta_id attester, pe_issuer = iss, pe_claims = claims \<rparr>, jwk))))))))))))))"

definition cached_for :: "Accepted option \<Rightarrow> bytes \<Rightarrow> Accepted option" where
  "cached_for accepted evidence =
     (case accepted of
        Some entry \<Rightarrow> if accepted_evidence entry = evidence then Some entry else None
      | None \<Rightarrow> None)"

definition validate ::
  "'e evidence_env_scheme \<Rightarrow> SdJwtProfileValidator \<Rightarrow> ProofOfRelationship \<Rightarrow> Accepted option
   \<Rightarrow> (RejectReason + ArtifactVerifier) \<times> Accepted option" where
  "validate env v por accepted =
     (case cached_for accepted (por_evidence por) of
        Some cached \<Rightarrow> (rebuild_workload_key env (accepted_jwk cached), accepted)
      | None \<Rightarrow>
          (case validate_evidence_with_key env v por of
             Inl e \<Rightarrow> (Inl e, accepted)
           | Inr (verifier, processed, jwk) \<Rightarrow>
               (Inr verifier,
                Some \<lparr> accepted_evidence = por_evidence por, accepted_jwk = jwk,
                       accepted_processed = processed \<rparr>)))"

definition validate_and_remember ::
  "'e evidence_env_scheme \<Rightarrow> SdJwtProfileValidator \<Rightarrow> ProofOfRelationship \<Rightarrow> Accepted option
   \<Rightarrow> (RejectReason + ProcessedProfileEvidence) \<times> Accepted option" where
  "validate_and_remember env v por accepted =
     (case cached_for accepted (por_evidence por) of
        Some cached \<Rightarrow> (Inr (accepted_processed cached), accepted)
      | None \<Rightarrow>
          (case validate_evidence_with_key env v por of
             Inl e \<Rightarrow> (Inl e, accepted)
           | Inr (_, processed, jwk) \<Rightarrow>
               (Inr processed,
                Some \<lparr> accepted_evidence = por_evidence por, accepted_jwk = jwk,
                       accepted_processed = processed \<rparr>)))"

definition accepted_claims :: "Accepted option \<Rightarrow> ProcessedProfileEvidence option" where
  "accepted_claims accepted = map_option accepted_processed accepted"

section \<open>What the encodings and the disclosures mean\<close>

text \<open>The value of big-endian bytes, and a reader of DER lengths, integers and RSA public keys.\<close>

definition be_value :: "bytes \<Rightarrow> nat" where
  "be_value bs = foldl (\<lambda>acc b. acc * 256 + unat b) 0 bs"

fun read_length :: "bytes \<Rightarrow> (nat \<times> bytes) option" where
  "read_length [] = None"
| "read_length (b # rest) =
     (if unat b < 128 then Some (unat b, rest)
      else let n = unat b - 128 in
           if 0 < n \<and> n \<le> length rest then Some (be_value (take n rest), drop n rest) else None)"

definition read_tagged :: "8 word \<Rightarrow> bytes \<Rightarrow> (bytes \<times> bytes) option" where
  "read_tagged tag bs =
     (case bs of
        [] \<Rightarrow> None
      | t # rest \<Rightarrow>
          if t = tag
          then Option.bind (read_length rest) (\<lambda>(n, rest).
                 if n \<le> length rest then Some (take n rest, drop n rest) else None)
          else None)"

text \<open>An integer that is not negative: its first byte has a clear high bit.\<close>

definition read_natural :: "bytes \<Rightarrow> (nat \<times> bytes) option" where
  "read_natural bs =
     Option.bind (read_tagged 2 bs) (\<lambda>(content, rest).
       if content \<noteq> [] \<and> unat (hd content) < 128 then Some (be_value content, rest) else None)"

definition read_rsa_public_key :: "bytes \<Rightarrow> (nat \<times> nat) option" where
  "read_rsa_public_key bs =
     Option.bind (read_tagged 48 bs) (\<lambda>(body, rest).
     Option.bind (read_natural body) (\<lambda>(modulus, body).
     Option.bind (read_natural body) (\<lambda>(exponent, body).
       if rest = [] \<and> body = [] then Some (modulus, exponent) else None)))"

text \<open>The claim a disclosure carries, when it is an object-property disclosure.\<close>

definition disclosed_claim :: "'e web_env_scheme \<Rightarrow> string \<Rightarrow> (string \<times> Value) option" where
  "disclosed_claim env disclosure =
     (case url_safe_decode env disclosure of
        Inl _ \<Rightarrow> None
      | Inr decoded \<Rightarrow>
          (case json_from_slice env decoded of
             Inr (JArray [_, JString name, v]) \<Rightarrow> Some (name, v)
           | _ \<Rightarrow> None))"

definition reserved_name :: "string \<Rightarrow> bool" where
  "reserved_name name \<longleftrightarrow> starts_with ''_sd'' name \<or> name = ''...''"

section \<open>Lemmas\<close>

subsection \<open>DER\<close>

lemma be_value_Nil [simp]: "be_value [] = 0"
  by (simp add: be_value_def)

lemma be_value_snoc [simp]: "be_value (bs @ [b]) = be_value bs * 256 + unat b"
  by (simp add: be_value_def)

lemma be_value_zeros [simp]: "be_value (0 # bs) = be_value bs"
  by (simp add: be_value_def)

lemma be_value_digits:
  "be_value (map (\<lambda>i. of_nat (n div 256 ^ (k - Suc i))) [0..<k]) = n mod 256 ^ k"
proof (induction k arbitrary: n)
  case (Suc k)
  have eq: "map (\<lambda>i. of_nat (n div 256 ^ (k - i)) :: 8 word) [0..<k]
        = map (\<lambda>i. of_nat (n div 256 div 256 ^ (k - Suc i))) [0..<k]"
    by (rule map_cong) (auto simp: div_mult2_eq [symmetric] Suc_diff_Suc simp flip: power_Suc)
  have "be_value (map (\<lambda>i. of_nat (n div 256 ^ (k - i))) [0..<k]) = n div 256 mod 256 ^ k"
    unfolding eq by (rule Suc)
  then show ?case
    by (simp add: unsigned_of_nat take_bit_eq_mod mod_mult2_eq)
qed simp

lemma be_value_to_be_bytes: "n < 2 ^ 64 \<Longrightarrow> be_value (to_be_bytes n) = n"
  using be_value_digits [of n 8] by (simp add: to_be_bytes_def)

lemma be_value_drop_position:
  "position (\<lambda>b. b \<noteq> 0) bs = Some i \<Longrightarrow> be_value (drop i bs) = be_value bs \<and> drop i bs \<noteq> [] \<and> hd (drop i bs) \<noteq> 0"
proof (induction bs arbitrary: i)
  case (Cons b bs)
  then show ?case by (cases "b = 0") auto
qed simp

lemma be_value_no_position: "position (\<lambda>b. b \<noteq> 0) bs = None \<Longrightarrow> be_value bs = 0"
  by (induction bs) (auto split: if_splits)

lemma or_high_bit:
  assumes "m \<le> 8"
  shows "unat (128 OR of_nat m :: 8 word) = 128 + m"
proof -
  have "list_all (\<lambda>m. unat (128 OR of_nat m :: 8 word) = 128 + m) [0, 1, 2, 3, 4, 5, 6, 7, 8]"
    by simp
  moreover have "m \<in> set [0, 1, 2, 3, 4, 5, 6, 7, 8]" using assms by auto
  ultimately show ?thesis by (simp only: list_all_iff)
qed

lemma read_length_der_length:
  assumes "n < 2 ^ 64"
  shows "read_length (der_length n @ rest) = Some (n, rest)"
proof (cases "n < 128")
  case True
  then show ?thesis by (simp add: der_length_def unsigned_of_nat take_bit_nat_eq_self)
next
  case False
  obtain i where i: "position (\<lambda>b. b \<noteq> 0) (to_be_bytes n) = Some i"
    using be_value_no_position [of "to_be_bytes n"] be_value_to_be_bytes [OF assms] False by fastforce
  define sg where "sg = drop i (to_be_bytes n)"
  have s: "be_value sg = n" "sg \<noteq> []"
    using be_value_drop_position [OF i] be_value_to_be_bytes [OF assms] by (simp_all add: sg_def)
  have "length sg \<le> 8" by (simp add: sg_def to_be_bytes_def)
  then have tag: "unat (128 OR of_nat (length sg) :: 8 word) = 128 + length sg" by (rule or_high_bit)
  have "der_length n = (128 OR of_nat (length sg)) # sg"
    unfolding der_length_def Let_def i using False by (simp only: if_False option.case sg_def)
  moreover have "read_length ((128 OR of_nat (length sg)) # sg @ rest) = Some (n, rest)"
    unfolding read_length.simps tag Let_def using s by simp
  ultimately show ?thesis by simp
qed

lemma read_tagged_content:
  "length content < 2 ^ 64 \<Longrightarrow>
   read_tagged tag (tag # der_length (length content) @ content @ rest) = Some (content, rest)"
  by (simp add: read_tagged_def read_length_der_length)

lemma high_bit_clear: "b AND 128 = 0 \<longleftrightarrow> unat (b :: 8 word) < 128"
proof -
  have "b AND 128 = 0 \<longleftrightarrow> \<not> bit b 7"
    using and_exp_eq_0_iff_not_bit [of b 7] by simp
  also have "\<dots> \<longleftrightarrow> unat b < 128"
  proof -
    have "bit (unat b) 7 \<longleftrightarrow> bit b 7" by (simp add: bit_unsigned_iff)
    then have "bit b 7 \<longleftrightarrow> odd (unat b div 128)" by (simp add: bit_iff_odd [of "unat b"])
    moreover have "unat b < 256" using unsigned_less [of b] by simp
    moreover have "unat b div 128 = 1" if "128 \<le> unat b" "unat b < 256"
      by (rule div_nat_eqI) (use that in simp_all)
    ultimately show ?thesis by (cases "unat b < 128") auto
  qed
  finally show ?thesis .
qed

lemma read_natural_der_integer:
  assumes "length v < 2 ^ 63" "\<exists>b \<in> set v. b \<noteq> 0"
  shows "read_natural (der_integer v @ rest) = Some (be_value v, rest)"
proof -
  obtain i where i: "position (\<lambda>b. b \<noteq> 0) v = Some i"
    using assms(2) position_None_iff [of "\<lambda>b. b \<noteq> 0" v] by auto
  define w where "w = drop i v"
  have w: "be_value w = be_value v" "w \<noteq> []" "length w < 2 ^ 63"
    using be_value_drop_position [OF i] assms(1) by (simp_all add: w_def)
  define content where "content = (if w \<noteq> [] \<and> hd w AND 128 \<noteq> 0 then 0 # w else w)"
  have c: "be_value content = be_value v" "content \<noteq> []" "unat (hd content) < 128" "length content < 2 ^ 64"
    using w high_bit_clear [of "hd w"] by (simp_all add: content_def)
  have "der_integer v = 2 # der_length (length content) @ content"
    unfolding der_integer_def Let_def i content_def w_def by (simp only: option.case)
  then show ?thesis
    using c read_tagged_content [of content 2 rest] by (simp add: read_natural_def)
qed

lemma length_der_length: "length (der_length n) \<le> 9"
  by (simp add: der_length_def Let_def to_be_bytes_def)

lemma length_der_integer: "length (der_integer v) \<le> length v + 11"
proof -
  define c where "c = (let w = drop (case position (\<lambda>byte. byte \<noteq> 0) v of Some i \<Rightarrow> i | None \<Rightarrow> length v) v
                       in if w \<noteq> [] \<and> hd w AND 128 \<noteq> 0 then 0 # w else w)"
  have "der_integer v = 2 # der_length (length c) @ c" unfolding der_integer_def c_def Let_def ..
  moreover have "length c \<le> Suc (length v)" by (simp add: c_def Let_def le_SucI)
  ultimately show ?thesis using length_der_length [of "length c"] by simp
qed

text \<open>
  The DER an RSA JWK is turned into reads back as the modulus and the exponent, both as
  non-negative integers, whatever leading zeroes the JWK carried and whether or not a sign byte had
  to be added; short and long forms of the lengths included.
\<close>

theorem der_rsa_public_key_reads_back:
  assumes "length modulus < 2 ^ 60" "length exponent < 2 ^ 60"
    and "\<exists>b \<in> set modulus. b \<noteq> 0" "\<exists>b \<in> set exponent. b \<noteq> 0"
  shows "read_rsa_public_key (der_rsa_public_key modulus exponent)
         = Some (be_value modulus, be_value exponent)"
proof -
  let ?body = "der_integer modulus @ der_integer exponent"
  have "length ?body < 2 ^ 64"
    using length_der_integer [of modulus] length_der_integer [of exponent] assms(1,2) by simp
  from read_tagged_content [OF this, of 48 "[]"]
  have "read_tagged 48 (der_rsa_public_key modulus exponent) = Some (?body, [])"
    by (simp add: der_rsa_public_key_def Let_def)
  moreover have "read_natural ?body = Some (be_value modulus, der_integer exponent)"
    using assms by (simp add: read_natural_der_integer)
  moreover have "read_natural (der_integer exponent) = Some (be_value exponent, [])"
    using read_natural_der_integer [of exponent "[]"] assms by simp
  ultimately show ?thesis by (simp add: read_rsa_public_key_def)
qed

theorem der_rsa_public_key_reads_back_witness:
  "read_rsa_public_key (der_rsa_public_key [0, 200, 1] [1, 0, 1]) = Some (51201, 65537)"
  using der_rsa_public_key_reads_back [of "[0, 200, 1]" "[1, 0, 1]"] by (simp add: be_value_def)

subsection \<open>Disclosures\<close>

lemma case_triple_Inr_iff:
  "(case parts of [_, name, v] \<Rightarrow> f name v | _ \<Rightarrow> Inl e) = Inr st
   \<longleftrightarrow> (\<exists>salt name v. parts = [salt, name, v] \<and> f name v = Inr st)"
  by (cases parts; cases "tl parts"; cases "tl (tl parts)"; cases "tl (tl (tl parts))") auto

lemma process_disclosure_iff:
  "process_disclosure env committed d (claims, used) = Inr st \<longleftrightarrow>
   (\<exists>name v. disclosed_claim env d = Some (name, v)
      \<and> disclosure_digest env d \<in> set committed \<and> disclosure_digest env d \<notin> set used
      \<and> \<not> reserved_name name \<and> \<not> bt_contains name claims
      \<and> st = (bt_insert name v claims, disclosure_digest env d # used))"
proof -
  have claim: "disclosed_claim env d = Some (name, v) \<longleftrightarrow>
     (\<exists>decoded salt. url_safe_decode env d = Inr decoded
        \<and> json_from_slice env decoded = Inr (JArray [salt, JString name, v]))" for name v
    by (auto simp: disclosed_claim_def split: sum.splits Value.splits list.splits)
  have arr: "(case json_from_slice env b of Inl _ \<Rightarrow> None | Inr v \<Rightarrow> as_array v) = Some parts
      \<longleftrightarrow> json_from_slice env b = Inr (JArray parts)" for b parts
    by (auto split: sum.splits)
  show ?thesis
    unfolding process_disclosure_def Let_def prod.case result_iffs arr claim reserved_name_def
      case_triple_Inr_iff
    by (auto simp: result_iffs)
qed


lemma process_all_iff:
  "process_all env committed ds (claims, used) = Inr (claims', used') \<longleftrightarrow>
   (\<exists>pairs. list_all2 (\<lambda>d p. disclosed_claim env d = Some p) ds pairs
      \<and> disclosure_digest env ` set ds \<subseteq> set committed
      \<and> distinct (map (disclosure_digest env) ds) \<and> disclosure_digest env ` set ds \<inter> set used = {}
      \<and> distinct (map fst pairs) \<and> (\<forall>p \<in> set pairs. \<not> reserved_name (fst p) \<and> \<not> bt_contains (fst p) claims)
      \<and> claims' = fold (\<lambda>(name, v). bt_insert name v) pairs claims
      \<and> used' = rev (map (disclosure_digest env) ds) @ used)"
proof (induction ds arbitrary: claims used)
  case (Cons d ds)
  show ?case (is "?l \<longleftrightarrow> ?r")
  proof
    assume ?l
    then obtain name v where d: "disclosed_claim env d = Some (name, v)"
      "disclosure_digest env d \<in> set committed" "disclosure_digest env d \<notin> set used"
      "\<not> reserved_name name" "\<not> bt_contains name claims"
      and "process_all env committed ds (bt_insert name v claims, disclosure_digest env d # used)
           = Inr (claims', used')"
      by (auto simp: result_iffs process_disclosure_iff)
    from this(6) obtain pairs where
      "list_all2 (\<lambda>d p. disclosed_claim env d = Some p) ds pairs"
      "disclosure_digest env ` set ds \<subseteq> set committed" "distinct (map (disclosure_digest env) ds)"
      "disclosure_digest env ` set ds \<inter> set (disclosure_digest env d # used) = {}"
      "distinct (map fst pairs)"
      "\<forall>p \<in> set pairs. \<not> reserved_name (fst p) \<and> \<not> bt_contains (fst p) (bt_insert name v claims)"
      "claims' = fold (\<lambda>(name, v). bt_insert name v) pairs (bt_insert name v claims)"
      "used' = rev (map (disclosure_digest env) ds) @ disclosure_digest env d # used"
      by (simp only: Cons.IH) blast
    with d show ?r
      by (intro exI [of _ "(name, v) # pairs"]) (auto simp: bt_contains_def split: if_splits)
  next
    assume ?r
    then obtain pairs0 where
      "list_all2 (\<lambda>d p. disclosed_claim env d = Some p) (d # ds) pairs0"
      "disclosure_digest env ` set (d # ds) \<subseteq> set committed" "distinct (map (disclosure_digest env) (d # ds))"
      "disclosure_digest env ` set (d # ds) \<inter> set used = {}"
      "distinct (map fst pairs0)"
      "\<forall>p \<in> set pairs0. \<not> reserved_name (fst p) \<and> \<not> bt_contains (fst p) claims"
      "claims' = fold (\<lambda>(name, v). bt_insert name v) pairs0 claims"
      "used' = rev (map (disclosure_digest env) (d # ds)) @ used"
      by blast
    note r = this
    from r(1) obtain name v pairs where "pairs0 = (name, v) # pairs"
      by (auto simp: list_all2_Cons1)
    note r = r [unfolded this]
    have "process_disclosure env committed d (claims, used)
        = Inr (bt_insert name v claims, disclosure_digest env d # used)"
      using r by (auto simp: process_disclosure_iff)
    moreover have "process_all env committed ds (bt_insert name v claims, disclosure_digest env d # used)
        = Inr (claims', used')"
      unfolding Cons.IH using r by (intro exI [of _ pairs]) (auto simp: bt_contains_def image_iff)
    ultimately show ?l by simp
  qed
qed auto

lemma fold_insert_some:
  assumes "distinct (map fst pairs)"
  shows "bt_get k (fold (\<lambda>(name, v). bt_insert name v) pairs m)
         = (case map_of pairs k of Some v \<Rightarrow> Some v | None \<Rightarrow> bt_get k m)"
  using assms
proof (induction pairs arbitrary: m)
  case (Cons p pairs)
  have "map_of pairs (fst p) = None"
    using Cons.prems by (simp add: map_of_eq_None_iff)
  with Cons show ?case by (cases p) (auto split: option.splits)
qed simp

lemma bt_wf_fold_pairs: "bt_wf m \<Longrightarrow> bt_wf (fold (\<lambda>(name, v). bt_insert name v) pairs m)"
  by (induction pairs arbitrary: m) (auto simp: bt_wf_insert)

lemma always_disclosed_alt:
  "always_disclosed (JObject obj) =
     fold (\<lambda>(name, v). bt_insert name v) (filter (\<lambda>p. fst p \<noteq> ''_sd'' \<and> fst p \<noteq> ''_sd_alg'') obj) []"
proof -
  have "fold (\<lambda>(key, v) claims.
      if key \<noteq> ''_sd'' \<and> key \<noteq> ''_sd_alg'' then bt_insert key v claims else claims) obj m
    = fold (\<lambda>(name, v). bt_insert name v) (filter (\<lambda>p. fst p \<noteq> ''_sd'' \<and> fst p \<noteq> ''_sd_alg'') obj) m" for m
    by (induction obj arbitrary: m) auto
  then show ?thesis by (simp add: always_disclosed_def as_object_def)
qed

lemma bt_wf_always_disclosed: "bt_wf (always_disclosed (JObject obj))"
  by (simp add: always_disclosed_alt bt_wf_fold_pairs)

lemma bt_get_always_disclosed:
  assumes "bt_wf obj"
  shows "bt_get k (always_disclosed (JObject obj))
         = (if k = ''_sd'' \<or> k = ''_sd_alg'' then None else bt_get k obj)"
proof -
  have d: "distinct (map fst obj)" using assms by (rule bt_wf_distinct)
  then have "distinct (map fst (filter (\<lambda>p. fst p \<noteq> ''_sd'' \<and> fst p \<noteq> ''_sd_alg'') obj))"
    by (rule distinct_map_filter)
  moreover have "map_of (filter (\<lambda>p. P (fst p)) obj) k = (if P k then map_of obj k else None)" for P
    by (induction obj) auto
  from this [of "\<lambda>x. x \<noteq> ''_sd'' \<and> x \<noteq> ''_sd_alg''"]
  have "map_of (filter (\<lambda>p. fst p \<noteq> ''_sd'' \<and> fst p \<noteq> ''_sd_alg'') obj) k
      = (if k = ''_sd'' \<or> k = ''_sd_alg'' then None else map_of obj k)" by auto
  ultimately show ?thesis
    by (simp add: always_disclosed_alt fold_insert_some bt_get_def [of _ obj] option.case_eq_if
        del: map_of_eq_Some_iff map_of_eq_None_iff)
qed

text \<open>The claims a list of distinct pairs adds to what is always disclosed, key by key.\<close>

lemma added_claims_iff:
  assumes "bt_wf obj" "distinct (map fst pairs)"
  shows "claims = fold (\<lambda>(name, v). bt_insert name v) pairs (always_disclosed (JObject obj)) \<longleftrightarrow>
    bt_wf claims \<and> (\<forall>k. bt_get k claims =
      (case map_of pairs k of
         Some v \<Rightarrow> Some v
       | None \<Rightarrow> if k = ''_sd'' \<or> k = ''_sd_alg'' then None else bt_get k obj))"
proof -
  let ?f = "fold (\<lambda>(name, v). bt_insert name v) pairs (always_disclosed (JObject obj))"
  have "claims = ?f \<longleftrightarrow> bt_wf claims \<and> (\<forall>k. bt_get k claims = bt_get k ?f)"
    using bt_ext [of claims ?f] bt_wf_fold_pairs [OF bt_wf_always_disclosed, of pairs obj] by auto
  then show ?thesis
    by (simp only: fold_insert_some [OF assms(2)] bt_get_always_disclosed [OF assms(1)])
qed

text \<open>
  C6: Processing the disclosures of a credential succeeds exactly when every one of them is an
  object-property disclosure whose digest the credential commits to, no digest is presented twice, and
  no disclosed name is reserved, repeated or already a claim of the credential. The claims it yields
  are then the credential's own, less the SD-JWT machinery, with the disclosed ones added.
\<close>

theorem processed_claims_exact:
  assumes "bt_wf obj"
  shows "process_disclosures env (JObject obj) ds = Inr claims \<longleftrightarrow>
    bt_wf claims \<and>
    (\<exists>pairs. list_all2 (\<lambda>d p. disclosed_claim env d = Some p) ds pairs
       \<and> (\<forall>d \<in> set ds. disclosure_digest env d \<in> set (committed_digests (JObject obj)))
       \<and> distinct (map (disclosure_digest env) ds)
       \<and> distinct (map fst pairs)
       \<and> (\<forall>(name, v) \<in> set pairs. \<not> reserved_name name \<and> bt_get name obj = None)
       \<and> (\<forall>k. bt_get k claims =
             (case map_of pairs k of
                Some v \<Rightarrow> Some v
              | None \<Rightarrow> if k = ''_sd'' \<or> k = ''_sd_alg'' then None else bt_get k obj)))"
    (is "?l \<longleftrightarrow> _")
proof -
  let ?shape = "\<lambda>pairs. list_all2 (\<lambda>d p. disclosed_claim env d = Some p) ds pairs
       \<and> (\<forall>d \<in> set ds. disclosure_digest env d \<in> set (committed_digests (JObject obj)))
       \<and> distinct (map (disclosure_digest env) ds) \<and> distinct (map fst pairs)
       \<and> (\<forall>(name, v) \<in> set pairs. \<not> reserved_name name \<and> bt_get name obj = None)"
  let ?claims = "\<lambda>pairs. \<forall>k. bt_get k claims =
             (case map_of pairs k of
                Some v \<Rightarrow> Some v
              | None \<Rightarrow> if k = ''_sd'' \<or> k = ''_sd_alg'' then None else bt_get k obj)"
  let ?m = "always_disclosed (JObject obj)"
  have reserved: "reserved_name ''_sd''" "reserved_name ''_sd_alg''"
    by (simp_all add: reserved_name_def starts_with_def)
  have names: "(\<forall>p \<in> set pairs. \<not> reserved_name (fst p) \<and> \<not> bt_contains (fst p) ?m)
      \<longleftrightarrow> (\<forall>(name, v) \<in> set pairs. \<not> reserved_name name \<and> bt_get name obj = None)"
    for pairs :: "(string \<times> Value) list"
  proof -
    have "\<not> reserved_name n \<and> \<not> bt_contains n ?m \<longleftrightarrow> \<not> reserved_name n \<and> bt_get n obj = None" for n
      using reserved by (auto simp: bt_contains_def bt_get_always_disclosed [OF assms])
    then show ?thesis by (simp only: case_prod_beta')
  qed
  have "?l \<longleftrightarrow> (\<exists>pairs. list_all2 (\<lambda>d p. disclosed_claim env d = Some p) ds pairs
      \<and> disclosure_digest env ` set ds \<subseteq> set (committed_digests (JObject obj))
      \<and> distinct (map (disclosure_digest env) ds) \<and> distinct (map fst pairs)
      \<and> (\<forall>p \<in> set pairs. \<not> reserved_name (fst p) \<and> \<not> bt_contains (fst p) ?m)
      \<and> claims = fold (\<lambda>(name, v). bt_insert name v) pairs ?m)"
    by (simp add: process_disclosures_def result_iffs process_all_iff)
  also have "\<dots> \<longleftrightarrow> (\<exists>pairs. ?shape pairs \<and> claims = fold (\<lambda>(name, v). bt_insert name v) pairs ?m)"
    unfolding names by (simp add: image_subset_iff)
  also have "\<dots> \<longleftrightarrow> bt_wf claims \<and> (\<exists>pairs. ?shape pairs \<and> ?claims pairs)"
  proof -
    have "claims = fold (\<lambda>(name, v). bt_insert name v) pairs ?m \<longleftrightarrow> bt_wf claims \<and> ?claims pairs"
      if "distinct (map fst pairs)" for pairs
      by (rule added_claims_iff [OF assms that])
    then show ?thesis by (safe; blast)
  qed
  finally show ?thesis by (simp only: conj_assoc)
qed

subsection \<open>Acceptance\<close>

lemma verify_issuer_signature_Inr_iff:
  "verify_issuer_signature env issuer_signed header attester keys = Inr u \<longleftrightarrow>
   (\<exists>algorithm signing_input signature candidates.
      get_str ''alg'' header = Some algorithm \<and> algorithm \<noteq> ''none''
      \<and> jws_signature_parts env issuer_signed = Inr (signing_input, signature)
      \<and> keys (ta_id attester) = Inr candidates
      \<and> (\<exists>jwk \<in> set candidates. kid_selects (get_str ''kid'' header) jwk
           \<and> issuer_key_verifies env algorithm signing_input signature jwk))"
  by (force simp: verify_issuer_signature_def Let_def result_iffs list_ex_iff filter_empty_conv)

lemma issuer_key_verifies_iff:
  "issuer_key_verifies env algorithm signing_input signature jwk \<longleftrightarrow>
   expected_jose_algorithm env jwk = Some algorithm
   \<and> (\<exists>key. verification_key_from_jwk env jwk = Inr key \<and> key signing_input signature)"
  by (auto simp: issuer_key_verifies_def algorithm_matches_def split: sum.splits)

lemma verification_key_is_public: "verification_key_from_jwk env jwk = Inr key \<Longrightarrow> value_get ''d'' jwk = None"
  by (auto simp: verification_key_from_jwk_def split: if_splits)

lemma validate_validity_claims_exp:
  "validate_validity_claims payload now = Inr u \<Longrightarrow>
   \<exists>expiry. value_get ''exp'' payload = Some (Integer expiry) \<and> now < expiry + CLOCK_SKEW_SECONDS"
  by (auto simp: validate_validity_claims_def Let_def result_iffs bind_eq_Some_conv as_i64_Some_iff
      split: option.splits)

lemma split_presentation_bound:
  "split_presentation s = Inr (jwt, ds) \<Longrightarrow> length ds \<le> MAX_DISCLOSURES"
  by (auto simp: split_presentation_def Let_def result_iffs)

lemma accepted_evidence_key:
  "validate_evidence_with_key env v por = Inr (key, processed, jwk) \<Longrightarrow> public_key_from_jwk env jwk = Inr key"
  unfolding validate_evidence_with_key_def result_iffs prod.case_eq_if
  by (auto simp: workload_key_from_cnf_def result_iffs)


subsection \<open>The remembered answer\<close>

text \<open>What a validator can have remembered, after any sequence of the two operations that validate.\<close>

inductive remembers ::
  "'e evidence_env_scheme \<Rightarrow> SdJwtProfileValidator \<Rightarrow> Accepted option \<Rightarrow> bool"
  for env v where
  remembers_nothing: "remembers env v None"
| remembers_validate: "remembers env v acc \<Longrightarrow> remembers env v (snd (validate env v por acc))"
| remembers_validate_and_remember:
    "remembers env v acc \<Longrightarrow> remembers env v (snd (validate_and_remember env v por acc))"

lemma validate_evidence_cong:
  "por_evidence por = por_evidence por' \<Longrightarrow>
   validate_evidence_with_key env v por = validate_evidence_with_key env v por'"
  by (simp add: validate_evidence_with_key_def)

lemma cached_for_Some_iff:
  "cached_for acc evidence = Some e \<longleftrightarrow> acc = Some e \<and> accepted_evidence e = evidence"
  by (auto simp: cached_for_def split: option.splits if_splits)

text \<open>The two operations leave the same state behind.\<close>

lemma snd_validate_and_remember:
  "snd (validate_and_remember env v por acc) = snd (validate env v por acc)"
  by (auto simp: validate_def validate_and_remember_def split: option.splits sum.splits)

lemma snd_validate:
  "snd (validate env v por acc) = Some e \<Longrightarrow>
   acc = Some e \<or> accepted_evidence e = por_evidence por \<and>
     (\<exists>key. validate_evidence_with_key env v por = Inr (key, accepted_processed e, accepted_jwk e))"
  by (auto simp: validate_def split: option.splits sum.splits)

lemma remembered_was_validated:
  assumes "remembers env v acc"
  shows "acc = Some e \<Longrightarrow> por_evidence por = accepted_evidence e \<Longrightarrow>
    \<exists>key. validate_evidence_with_key env v por = Inr (key, accepted_processed e, accepted_jwk e)"
  using assms
proof (induction arbitrary: e por)
  case (remembers_validate acc por')
  then show ?case using snd_validate validate_evidence_cong by metis
next
  case (remembers_validate_and_remember acc por')
  then show ?case using snd_validate snd_validate_and_remember validate_evidence_cong by metis
qed simp

lemma rebuilt_key_is_bound_key:
  "validate_evidence_with_key env v por = Inr (key, processed, jwk) \<Longrightarrow> rebuild_workload_key env jwk = Inr key"
  by (drule accepted_evidence_key) (simp add: rebuild_workload_key_def)

text \<open>
  Whatever a validator has validated before, what it answers for a presentation is what a
  validation from scratch would answer, both for the verifier and for the processed claims: the
  remembered answer is only a shortcut.
\<close>

theorem remembered_answer_is_fresh:
  assumes "remembers env v acc"
  shows "fst (validate env v por acc)
           = and_then (validate_evidence_with_key env v por) (\<lambda>(key, _, _). Inr key)
    \<and> fst (validate_and_remember env v por acc)
           = and_then (validate_evidence_with_key env v por) (\<lambda>(_, processed, _). Inr processed)"
proof (cases "cached_for acc (por_evidence por)")
  case None
  then show ?thesis
    by (auto simp: validate_def validate_and_remember_def split: sum.splits)
next
  case (Some e)
  then obtain key where "validate_evidence_with_key env v por = Inr (key, accepted_processed e, accepted_jwk e)"
    using remembered_was_validated [OF assms, of e por] by (auto simp: cached_for_Some_iff)
  with Some show ?thesis
    by (simp add: validate_def validate_and_remember_def rebuilt_key_is_bound_key)
qed

subsection \<open>A presentation\<close>

text \<open>
  A codec under which a segment is its own text: \<open>h\<close> is the header, \<open>p\<close> the payload and \<open>d\<close> the one
  disclosure, whose digest is itself. A signature verifies when it is \<open>s\<close>.
\<close>

definition demo_workload_jwk :: Value where
  "demo_workload_jwk = JObject [(''crv'', JString ''Ed25519''), (''kty'', JString ''OKP'')]"

definition demo_payload :: "(string, Value) btree" where
  "demo_payload = [(''_sd'', JArray [JString ''d'']), (''cnf'', JObject [(''jwk'', demo_workload_jwk)]),
     (''exp'', Integer 1000), (''iss'', JString ''https://lab'')]"

definition demo_json :: "bytes \<Rightarrow> string + Value" where
  "demo_json b =
     (if b = as_bytes ''h'' then Inr (JObject [(''alg'', JString ''EdDSA''), (''kid'', JString ''k1'')])
      else if b = as_bytes ''p'' then Inr (JObject demo_payload)
      else if b = as_bytes ''d'' then Inr (JArray [JString ''salt'', JString ''department'', JString ''docs''])
      else Inl ''not JSON'')"

definition demo_verifier :: ArtifactVerifier where
  "demo_verifier data signature \<longleftrightarrow> signature = as_bytes ''s''"

definition demo_evidence_env :: evidence_env where
  "demo_evidence_env = \<lparr>
     json_from_slice = demo_json, json_to_string = (\<lambda>_. ''json''), url_safe_encode = of_bytes,
     url_safe_decode = (\<lambda>s. Inr (as_bytes s)), web_sha256 = id,
     public_key_from_jwk = (\<lambda>_. Inr demo_verifier),
     expected_algorithms_for_jwk = (\<lambda>_. Inr \<lparr> expected_jose = ''EdDSA'', expected_cose = Some EdDSA \<rparr>),
     rsa_pkcs1_sha256_verify = (\<lambda>_ _ _. False) \<rparr>"

definition demo_validator :: SdJwtProfileValidator where
  "demo_validator = \<lparr> sv_attesters = [demo_attester], sv_keys = (\<lambda>_. Inr [demo_key]), sv_now = 900 \<rparr>"

definition demo_por :: ProofOfRelationship where
  "demo_por = \<lparr> por_type = ''sd-jwt'', por_evidence = as_bytes ''h.p.s~d~'' \<rparr>"

definition demo_claims :: "(string, Value) btree" where
  "demo_claims = [(''cnf'', JObject [(''jwk'', demo_workload_jwk)]), (''department'', JString ''docs''),
     (''exp'', Integer 1000), (''iss'', JString ''https://lab'')]"

definition demo_processed :: ProcessedProfileEvidence where
  "demo_processed = \<lparr> pe_attester_id = ''lab'', pe_issuer = ''https://lab'', pe_claims = demo_claims \<rparr>"

text \<open>The part of a codec the presentation uses.\<close>

definition demo_codec :: "'e evidence_env_scheme \<Rightarrow> bool" where
  "demo_codec env \<longleftrightarrow>
     url_safe_decode env = (\<lambda>s. Inr (as_bytes s)) \<and> url_safe_encode env = of_bytes \<and> web_sha256 env = id
     \<and> (\<forall>s \<in> {''h'', ''p'', ''d''}. json_from_slice env (as_bytes s) = demo_json (as_bytes s))
     \<and> public_key_from_jwk env = (\<lambda>_. Inr demo_verifier)
     \<and> expected_algorithms_for_jwk env
         = (\<lambda>_. Inr \<lparr> expected_jose = ''EdDSA'', expected_cose = Some EdDSA \<rparr>)"

lemma demo_codec_evidence: "demo_codec demo_evidence_env"
  by (simp add: demo_codec_def demo_evidence_env_def)

lemmas demo_simps = demo_codec_def demo_json_def demo_payload_def bt_get_def get_str_def
  as_str_def as_array_def as_object_def

lemma demo_disclosures:
  "demo_codec env \<Longrightarrow> process_disclosures env (JObject demo_payload) [''d''] = Inr demo_claims"
  by (simp add: process_disclosures_def process_disclosure_def committed_digests_def always_disclosed_def
      demo_simps disclosure_digest_def starts_with_def bt_contains_def demo_claims_def
      map_filter_simps Let_def)

lemma demo_split: "split_presentation ''h.p.s~d~'' = Inr (''h.p.s'', [''d''])"
  by (simp add: split_presentation_def strip_suffix_def MAX_DISCLOSURES_def Let_def)

lemma demo_decode: "demo_codec env \<Longrightarrow> decode_jws_segments env ''h.p.s''
  = Inr (JObject [(''alg'', JString ''EdDSA''), (''kid'', JString ''k1'')], JObject demo_payload)"
  by (simp add: decode_jws_segments_def decode_json_def demo_codec_def demo_json_def)

lemma demo_signature: "demo_codec env \<Longrightarrow> keys (ta_id demo_attester) = Inr [demo_key] \<Longrightarrow>
    verify_issuer_signature env ''h.p.s''
      (JObject [(''alg'', JString ''EdDSA''), (''kid'', JString ''k1'')]) demo_attester keys = Inr ()"
  by (simp add: verify_issuer_signature_def jws_signature_parts_def demo_simps demo_key_def kid_selects_def
      issuer_key_verifies_def algorithm_matches_def expected_jose_algorithm_def
      verification_key_from_jwk_def demo_verifier_def Let_def)

lemma demo_validates:
  assumes "demo_codec env" "sv_attesters v = [demo_attester]" "sv_now v = 900" "sv_keys v ''lab'' = Inr [demo_key]"
  shows "validate_evidence_with_key env v demo_por = Inr (demo_verifier, demo_processed, demo_workload_jwk)"
proof -
  have "from_utf8 (por_evidence demo_por) = Some ''h.p.s~d~''"
    by (simp add: demo_por_def from_utf8_ascii is_ascii_def)
  moreover have "length (por_evidence demo_por) \<le> MAX_EVIDENCE_BYTES"
    by (simp add: demo_por_def MAX_EVIDENCE_BYTES_def as_bytes_def)
  moreover have "get_str ''iss'' (JObject demo_payload) = Some ''https://lab''"
    "get_str ''_sd_alg'' (JObject demo_payload) = None"
    "cnf_jwk (JObject demo_payload) = Some demo_workload_jwk"
    by (simp_all add: demo_payload_def get_str_def bt_get_def as_str_def cnf_jwk_def)
  moreover have "validate_validity_claims (JObject demo_payload) 900 = Inr ()"
    by (simp add: validate_validity_claims_def demo_payload_def bt_get_def as_i64_def in_i64_def
        i64_min_def i64_max_def CLOCK_SKEW_SECONDS_def Let_def)
  moreover have "workload_key_from_cnf env (JObject demo_payload) = Inr demo_verifier"
    using calculation(5) assms(1) by (simp add: workload_key_from_cnf_def demo_codec_def)
  moreover have "ta_issuer demo_attester = ''https://lab''" "ta_proof_types demo_attester = [''sd-jwt'']"
    "ta_id demo_attester = ''lab''"
    by (simp_all add: demo_attester_def)
  ultimately show ?thesis
    by (simp add: validate_evidence_with_key_def demo_split demo_decode [OF assms(1)]
        demo_disclosures [OF assms(1)] demo_signature [OF assms(1)] demo_processed_def assms)
qed

lemma demo_validator_validates:
  "validate_evidence_with_key demo_evidence_env demo_validator demo_por
   = Inr (demo_verifier, demo_processed, demo_workload_jwk)"
  by (rule demo_validates [OF demo_codec_evidence]) (simp_all add: demo_validator_def)


theorem processed_claims_exact_witness:
  "bt_wf demo_payload \<and> process_disclosures demo_evidence_env (JObject demo_payload) [''d''] = Inr demo_claims
   \<and> bt_get ''department'' demo_claims = Some (JString ''docs'')
   \<and> (\<exists>pairs. list_all2 (\<lambda>d p. disclosed_claim demo_evidence_env d = Some p) [''d''] pairs)"
proof -
  have wf: "bt_wf demo_payload" by (simp add: bt_wf_def demo_payload_def)
  have "bt_get ''department'' demo_claims = Some (JString ''docs'')"
    by (simp add: demo_claims_def bt_get_def)
  with processed_claims_exact [OF wf, of demo_evidence_env "[''d'']" demo_claims] demo_disclosures [OF demo_codec_evidence] wf
  show ?thesis by blast
qed

theorem remembered_answer_is_fresh_witness:
  "remembers demo_evidence_env demo_validator
     (snd (validate demo_evidence_env demo_validator demo_por None))
   \<and> fst (validate demo_evidence_env demo_validator demo_por
           (snd (validate demo_evidence_env demo_validator demo_por None))) = Inr demo_verifier"
proof -
  have "remembers demo_evidence_env demo_validator
      (snd (validate demo_evidence_env demo_validator demo_por None))"
    by (intro remembers_validate remembers_nothing)
  from remembered_answer_is_fresh [OF this, of demo_por] this show ?thesis
    by (simp add: demo_validator_validates)
qed

end
