(* ===== verification/Form.thy ===== *)
theory Form
  imports Json
begin

text \<open>
  The edges of \<open>crates/pic-x-realm/src/exchange.rs\<close>: the errors an exchange answers with, and the
  parsing of the form a client posts. The text of a description is a constructor of \<open>description\<close>,
  with what the message interpolates. \<open>percent_decode\<close> keeps the index arithmetic of the source as a
  recursion on the bytes that are left.

  The lemmas show that decoding inverts percent-encoding, whatever a client chose to escape, and that
  a form of distinct parameters parses to exactly those parameters, while a repeated one is refused.
\<close>

unbundle bit_operations_syntax

section \<open>Definitions\<close>

subsection \<open>Errors\<close>

text \<open>The descriptions, by the part of the exchange they come from.\<close>

datatype form_problem =
    BodyNotUtf8 | DuplicateParameter string | IncompleteEscape | NonHexEscape | ValueNotUtf8
  | MissingParameter string

datatype request_problem =
    UnsupportedGrantType string | RequestedTokenType | ProposalOnAdvancement
  | UnsupportedSubjectTokenType string | WrongProposalType | InvalidProposal string
  | InvalidAuthority string | NoChallenge | NoLineageIdentifier | NoTokenRing | CannotIssue string
  | NotRecorded | ClockBeforeEpoch | CannotSignWith string | RingNotReady

datatype source_problem =
    NoProfileAccepts | SourceNoAlg | SourceAlgNotAllowed string string | SourceNoTyp
  | SourceTypMismatch string string | SourceIssuerMismatch | SourceAudienceMismatch | SourceNoExp
  | SourceExpired | IdpKeysUnavailable string | NoIdpKeyMatches | SourceSignatureInvalid
  | SourceNotCompactJws | SourceSignatureNotBase64url string | SourceNotBase64url string string
  | SourceNotJson string string

datatype claim_problem =
    NoFromOrValue | MissingClaim string | NonStringItem string | NotStringOrArray string | NotAString string

datatype mapping_problem =
    IdentityClaimUnmapped string claim_problem | ScopesNotASet | ScopesNoSource | ScopesNoClaim string
  | ScopesNonString string | ScopesBadType string | ScopesNone
  | InvalidRulePattern string string string | UnterminatedPlaceholder string
  | MissingCapture string string | ScopeNotAccepted string string | NoInvariants

datatype expiry_problem =
    ProposalNotBase64url string | ProposalNotJson string | BadTokenExpiresAt | TokenExpiresTooFar
  | BadTokenLifetime | TokenLifetimeTooLong | TokenLifetimeOverflows | RealmLifetimeOverflows
  | InitialExpiryPast

datatype candidate_problem =
    CandidateUndecodable string string | WrongProofType string | EvidenceRejected | NoCnfJwk
  | CnfJwkUnusable string | CandidateAlgMismatch string string | NoCoseAlgorithm
  | CoseAlgMismatch string | CoseNoAlgorithm string | CoseKidMismatch string string
  | ContinuityNoKid | TransitionNoKid | ChallengeRepeats | JtiMismatch | JtiMissing
  | PredecessorNoExpiry | ExpMismatch | ExpMissing | PredecessorNoLineage | PredecessorExpired
  | CandidateRejected string | SettledNoLineage

datatype description =
    InForm form_problem | InRequest request_problem | InSource source_problem
  | InMapping mapping_problem | InExpiry expiry_problem | InCandidate candidate_problem

record ExchangeError =
  err_status :: nat
  err_code :: string
  err_description :: description

definition invalid_request :: "description \<Rightarrow> ExchangeError" where
  "invalid_request d = \<lparr> err_status = 400, err_code = ''invalid_request'', err_description = d \<rparr>"
definition invalid_grant :: "description \<Rightarrow> ExchangeError" where
  "invalid_grant d = \<lparr> err_status = 400, err_code = ''invalid_grant'', err_description = d \<rparr>"
definition invalid_target :: "description \<Rightarrow> ExchangeError" where
  "invalid_target d = \<lparr> err_status = 400, err_code = ''invalid_target'', err_description = d \<rparr>"
definition unsupported_token_type :: "description \<Rightarrow> ExchangeError" where
  "unsupported_token_type d = \<lparr> err_status = 400, err_code = ''unsupported_token_type'', err_description = d \<rparr>"
definition temporarily_unavailable :: "description \<Rightarrow> ExchangeError" where
  "temporarily_unavailable d = \<lparr> err_status = 503, err_code = ''temporarily_unavailable'', err_description = d \<rparr>"
definition server_error :: "description \<Rightarrow> ExchangeError" where
  "server_error d = \<lparr> err_status = 500, err_code = ''server_error'', err_description = d \<rparr>"

subsection \<open>The form\<close>

definition from_hex :: "8 word \<Rightarrow> ExchangeError + 8 word" where
  "from_hex byte =
     (if 48 \<le> byte \<and> byte \<le> 57 then Inr (byte - 48)
      else if 97 \<le> byte \<and> byte \<le> 102 then Inr (byte - 97 + 10)
      else if 65 \<le> byte \<and> byte \<le> 70 then Inr (byte - 65 + 10)
      else Inl (invalid_request (InForm NonHexEscape)))"

fun percent_bytes :: "bytes \<Rightarrow> ExchangeError + bytes" where
  "percent_bytes [] = Inr []"
| "percent_bytes (byte # rest) =
     (if byte = 43 then and_then (percent_bytes rest) (\<lambda>decoded. Inr (32 # decoded))
      else if byte = 37 then
        (case rest of
           h # l # rest' \<Rightarrow>
             and_then (from_hex h) (\<lambda>high.
             and_then (from_hex l) (\<lambda>low.
             and_then (percent_bytes rest') (\<lambda>decoded. Inr ((push_bit 4 high OR low) # decoded))))
         | _ \<Rightarrow> Inl (invalid_request (InForm IncompleteEscape)))
      else and_then (percent_bytes rest) (\<lambda>decoded. Inr (byte # decoded)))"

definition percent_decode :: "string \<Rightarrow> ExchangeError + string" where
  "percent_decode v =
     and_then (percent_bytes (as_bytes v)) (\<lambda>decoded.
     ok_or (invalid_request (InForm ValueNotUtf8)) (from_utf8 decoded))"

fun parse_pairs :: "string list \<Rightarrow> (string, string) btree \<Rightarrow> ExchangeError + (string, string) btree" where
  "parse_pairs [] form = Inr form"
| "parse_pairs (pair # pairs) form =
     (case (case split_once CHR ''='' pair of Some (k, v) \<Rightarrow> (k, v) | None \<Rightarrow> (pair, [])) of (k, v) \<Rightarrow>
        and_then (percent_decode k) (\<lambda>key.
        and_then (percent_decode v) (\<lambda>v.
        and_then (guard_that (\<not> bt_contains key form) (invalid_request (InForm (DuplicateParameter key)))) (\<lambda>_.
        parse_pairs pairs (bt_insert key v form)))))"

definition parse_form :: "bytes \<Rightarrow> ExchangeError + (string, string) btree" where
  "parse_form body =
     and_then (ok_or (invalid_request (InForm BodyNotUtf8)) (from_utf8 body)) (\<lambda>text.
     parse_pairs (filter (\<lambda>pair. pair \<noteq> []) (split_on CHR ''&'' text)) [])"

definition require :: "(string, string) btree \<Rightarrow> string \<Rightarrow> ExchangeError + string" where
  "require form name =
     (case bt_get name form of
        Some v \<Rightarrow> if v \<noteq> [] then Inr v else Inl (invalid_request (InForm (MissingParameter name)))
      | None \<Rightarrow> Inl (invalid_request (InForm (MissingParameter name))))"

section \<open>What a client sends\<close>

text \<open>
  A percent-encoding of a string: some bytes escaped, some spaces written as \<open>+\<close>, the rest as they
  are. The characters that mean something in a form are always escaped.
\<close>

definition hex_char :: "nat \<Rightarrow> char" where
  "hex_char n = ''0123456789ABCDEF'' ! n"

definition plain_char :: "char \<Rightarrow> bool" where
  "plain_char c \<longleftrightarrow> c \<noteq> CHR ''%'' \<and> c \<noteq> CHR ''+'' \<and> c \<noteq> CHR ''&'' \<and> c \<noteq> CHR ''='' \<and> of_char c < (128 :: nat)"

definition escaped_char :: "char \<Rightarrow> string" where
  "escaped_char c = [CHR ''%'', hex_char (of_char c div 16), hex_char (of_char c mod 16)]"

inductive encodes :: "string \<Rightarrow> string \<Rightarrow> bool" where
  encodes_Nil: "encodes [] []"
| encodes_plain: "plain_char c \<Longrightarrow> encodes s e \<Longrightarrow> encodes (c # s) (c # e)"
| encodes_space: "encodes s e \<Longrightarrow> encodes (CHR '' '' # s) (CHR ''+'' # e)"
| encodes_escape: "encodes s e \<Longrightarrow> encodes (c # s) (escaped_char c @ e)"

definition percent_encode :: "string \<Rightarrow> string" where
  "percent_encode s = concat (map (\<lambda>c. if plain_char c then [c] else escaped_char c) s)"

definition is_str :: "string \<Rightarrow> bool" where
  "is_str s \<longleftrightarrow> from_utf8 (as_bytes s) = Some s"

fun render_form :: "(string \<times> string) list \<Rightarrow> string" where
  "render_form [] = []"
| "render_form [(k, v)] = k @ ''='' @ v"
| "render_form ((k, v) # ps) = k @ ''='' @ v @ ''&'' @ render_form ps"

section \<open>Lemmas\<close>

lemma percent_bytes_plain:
  "b \<noteq> 43 \<Longrightarrow> b \<noteq> 37 \<Longrightarrow> percent_bytes (b # rest) = and_then (percent_bytes rest) (\<lambda>d. Inr (b # d))"
  by simp

lemma from_hex_hex_char: "n < 16 \<Longrightarrow> from_hex (of_nat (of_char (hex_char n))) = Inr (of_nat n)"
proof -
  assume "n < 16"
  then have "n \<in> set [0..<16]" by simp
  moreover have "list_all (\<lambda>n. from_hex (of_nat (of_char (hex_char n))) = Inr (of_nat n)) [0..<16]"
    by (simp add: hex_char_def from_hex_def upt_rec)
  ultimately show ?thesis by (simp only: list_all_iff)
qed

lemma nibbles: "b < 256 \<Longrightarrow> push_bit 4 (of_nat (b div 16)) OR of_nat (b mod 16) = (of_nat b :: 8 word)"
proof -
  have "push_bit 4 (of_nat (b div 16)) OR of_nat (b mod 16) = (of_nat (push_bit 4 (b div 16) OR (b mod 16)) :: 8 word)"
    by (simp add: of_nat_push_bit of_nat_or_eq)
  also have "push_bit 4 (b div 16) OR (b mod 16) = b"
  proof -
    have "push_bit 4 (drop_bit 4 b) OR take_bit 4 b = b"
      by (rule bit_eqI) (auto simp: bit_simps)
    then show ?thesis by (simp add: drop_bit_eq_div take_bit_eq_mod)
  qed
  finally show ?thesis .
qed

lemma of_char_byte_eq: "(of_nat (of_char c) :: 8 word) = of_nat (of_char d) \<longleftrightarrow> c = d"
proof
  assume "(of_nat (of_char c) :: 8 word) = of_nat (of_char d)"
  then have "unat (of_nat (of_char c) :: 8 word) = unat (of_nat (of_char d) :: 8 word)" by (rule arg_cong)
  then show "c = d" unfolding unat_of_char by simp
qed simp

lemma high_nibble: "of_char c div 16 < (16 :: nat)"
proof -
  have "of_char c < (16 * 16 :: nat)" by simp
  then show ?thesis by (rule less_mult_imp_div_less)
qed

lemma percent_bytes_encodes: "encodes s e \<Longrightarrow> percent_bytes (as_bytes e) = Inr (as_bytes s)"
proof (induction rule: encodes.induct)
  case (encodes_plain c s e)
  have "(of_nat (of_char c) :: 8 word) \<noteq> 43" "(of_nat (of_char c) :: 8 word) \<noteq> 37"
    using encodes_plain.hyps(1) of_char_byte_eq [of c "CHR ''+''"] of_char_byte_eq [of c "CHR ''%''"]
    by (simp_all add: plain_char_def)
  with encodes_plain show ?case by (simp add: as_bytes_def)
next
  case (encodes_escape s e c)
  have "percent_bytes (as_bytes (escaped_char c) @ bs) = and_then (percent_bytes bs) (\<lambda>d. Inr (of_nat (of_char c) # d))" for bs
  proof -
    have "from_hex (of_nat (of_char (hex_char (of_char c div 16)))) = Inr (of_nat (of_char c div 16))"
      "from_hex (of_nat (of_char (hex_char (of_char c mod 16)))) = Inr (of_nat (of_char c mod 16))"
      by (rule from_hex_hex_char, rule high_nibble, rule from_hex_hex_char, simp)
    moreover have "(push_bit 4 (of_nat (of_char c div 16)) OR of_nat (of_char c mod 16) :: 8 word)
        = of_nat (of_char c)"
      by (rule nibbles) simp
    ultimately show ?thesis by (simp only: as_bytes_def escaped_char_def list.map append.simps
          percent_bytes.simps list.case and_then_simps) simp
  qed
  with encodes_escape show ?case by (simp add: as_bytes_def)
qed (simp_all add: as_bytes_def)

lemma percent_decode_encodes: "encodes s e \<Longrightarrow> is_str s \<Longrightarrow> percent_decode e = Inr s"
  by (simp add: percent_decode_def percent_bytes_encodes is_str_def)

lemma is_ascii_simps [simp]:
  "is_ascii []" "is_ascii (c # s) \<longleftrightarrow> of_char c < (128 :: nat) \<and> is_ascii s"
  "is_ascii (s @ t) \<longleftrightarrow> is_ascii s \<and> is_ascii t"
  by (auto simp: is_ascii_def)

lemma hex_char_safe:
  assumes "n < 16"
  shows "of_char (hex_char n) < (128 :: nat) \<and> hex_char n \<noteq> CHR ''&'' \<and> hex_char n \<noteq> CHR ''=''"
proof -
  have "list_all (\<lambda>c. of_char c < (128 :: nat) \<and> c \<noteq> CHR ''&'' \<and> c \<noteq> CHR ''='') ''0123456789ABCDEF''" by simp
  then show ?thesis using assms unfolding hex_char_def by (simp only: list_all_length) simp
qed

lemma escaped_char_safe:
  "is_ascii (escaped_char c)" "CHR ''&'' \<notin> set (escaped_char c)" "CHR ''='' \<notin> set (escaped_char c)"
  using hex_char_safe [OF high_nibble, of c] hex_char_safe [of "of_char c mod 16"]
  by (auto simp: escaped_char_def)

lemma encodes_safe: "encodes s e \<Longrightarrow> is_ascii e \<and> CHR ''&'' \<notin> set e \<and> CHR ''='' \<notin> set e"
  by (induction rule: encodes.induct) (auto simp: escaped_char_safe plain_char_def)

lemma split_render_form:
  "ps \<noteq> [] \<Longrightarrow> \<forall>(k, v) \<in> set ps. CHR ''&'' \<notin> set k \<and> CHR ''&'' \<notin> set v \<Longrightarrow>
   split_on CHR ''&'' (render_form ps) = map (\<lambda>(k, v). k @ ''='' @ v) ps"
proof (induction ps rule: render_form.induct)
  case (3 k v p ps)
  then have "split_on CHR ''&'' ((k @ ''='' @ v) @ CHR ''&'' # render_form (p # ps))
      = (k @ ''='' @ v) # map (\<lambda>(k, v). k @ ''='' @ v) (p # ps)"
    by (subst split_on_append) auto
  then show ?case by simp
qed auto

lemma is_ascii_render_form:
  "\<forall>(k, v) \<in> set ps. is_ascii k \<and> is_ascii v \<Longrightarrow> is_ascii (render_form ps)"
  by (induction ps rule: render_form.induct) simp_all

text \<open>One parameter and how the client wrote it.\<close>

definition sends :: "string \<times> string \<Rightarrow> string \<times> string \<Rightarrow> bool" where
  "sends p e \<longleftrightarrow> encodes (fst p) (fst e) \<and> encodes (snd p) (snd e) \<and> is_str (fst p) \<and> is_str (snd p)"

lemma parse_pairs_sends:
  assumes "list_all2 sends ps es"
  shows "parse_pairs (map (\<lambda>(k, v). k @ ''='' @ v) es) form
    = (case find (\<lambda>i. bt_contains (fst (ps ! i)) form \<or> fst (ps ! i) \<in> fst ` set (take i ps)) [0..<length ps] of
         None \<Rightarrow> Inr (fold (\<lambda>(k, v). bt_insert k v) ps form)
       | Some i \<Rightarrow> Inl (invalid_request (InForm (DuplicateParameter (fst (ps ! i))))))"
  using assms
proof (induction arbitrary: form rule: list_all2_induct)
  case (Cons p ps e es)
  obtain k v where p: "p = (k, v)" by (cases p)
  have "split_once CHR ''='' (fst e @ ''='' @ snd e) = Some e"
    using encodes_safe Cons.hyps(1) by (cases e) (auto simp: split_once_Some sends_def)
  then have pair: "parse_pairs (map (\<lambda>(k, v). k @ ''='' @ v) (e # es)) form
      = and_then (guard_that (\<not> bt_contains k form) (invalid_request (InForm (DuplicateParameter k)))) (\<lambda>_.
          parse_pairs (map (\<lambda>(k, v). k @ ''='' @ v) es) (bt_insert k v form))"
    using Cons.hyps(1) percent_decode_encodes [of k "fst e"] percent_decode_encodes [of v "snd e"]
    by (cases e) (simp add: p sends_def)
  have shift: "find P [0..<Suc n] = (if P 0 then Some 0 else map_option Suc (find (P \<circ> Suc) [0..<n]))" for P n
  proof -
    have "find P (map Suc xs) = map_option Suc (find (P \<circ> Suc) xs)" for xs by (induction xs) auto
    then show ?thesis by (simp add: upt_conv_Cons map_Suc_upt [symmetric] del: upt_Suc)
  qed
  have "(\<lambda>i. bt_contains (fst ((p # ps) ! i)) form \<or> fst ((p # ps) ! i) \<in> fst ` set (take i (p # ps))) \<circ> Suc
      = (\<lambda>i. bt_contains (fst (ps ! i)) (bt_insert k v form) \<or> fst (ps ! i) \<in> fst ` set (take i ps))"
    by (rule ext) (auto simp: bt_contains_def p)
  then show ?case
    unfolding pair Cons.IH by (simp add: shift p split: option.splits del: upt_Suc)
qed simp


lemma encodes_percent_encode: "encodes s (percent_encode s)"
  by (induction s) (auto simp: percent_encode_def intro: encodes.intros)

lemma fold_bt_insert_find:
  "distinct (map fst ps) \<longleftrightarrow> find (\<lambda>i. fst (ps ! i) \<in> fst ` set (take i ps)) [0..<length ps] = None"
proof
  assume d: "distinct (map fst ps)"
  have "fst (ps ! i) \<notin> fst ` set (take i ps)" if "i < length ps" for i
  proof
    assume "fst (ps ! i) \<in> fst ` set (take i ps)"
    then obtain j where "j < i" "fst (ps ! i) = fst (ps ! j)"
      using that by (auto simp: in_set_conv_nth image_iff)
    with d that show False by (auto simp: distinct_conv_nth)
  qed
  then show "find (\<lambda>i. fst (ps ! i) \<in> fst ` set (take i ps)) [0..<length ps] = None"
    by (simp add: find_None_iff)
next
  assume none: "find (\<lambda>i. fst (ps ! i) \<in> fst ` set (take i ps)) [0..<length ps] = None"
  have "fst (ps ! i) \<noteq> fst (ps ! j)" if "j < i" "i < length ps" for i j
  proof -
    have "ps ! j \<in> set (take i ps)" using that by (auto simp: in_set_conv_nth intro!: exI [of _ j])
    with none that show ?thesis by (auto simp: find_None_iff image_iff)
  qed
  then show "distinct (map fst ps)"
    by (auto simp: distinct_conv_nth) (metis linorder_neqE_nat)
qed

lemma parse_form_render:
  assumes "list_all2 sends ps es"
  shows "parse_form (as_bytes (render_form es)) = parse_pairs (map (\<lambda>(k, v). k @ ''='' @ v) es) []"
proof -
  have safe: "\<forall>(k, v) \<in> set es. is_ascii k \<and> is_ascii v \<and> CHR ''&'' \<notin> set k \<and> CHR ''&'' \<notin> set v"
    using assms by (induction rule: list_all2_induct) (auto simp: sends_def dest: encodes_safe)
  have "filter (\<lambda>p. p \<noteq> []) (map (\<lambda>(k, v). k @ ''='' @ v) es) = map (\<lambda>(k, v). k @ ''='' @ v) es"
    by (auto simp: filter_id_conv)
  then have pieces: "filter (\<lambda>p. p \<noteq> []) (split_on CHR ''&'' (render_form es)) = map (\<lambda>(k, v). k @ ''='' @ v) es"
  proof (cases "es = []")
    case False
    have "\<forall>(k, v) \<in> set es. CHR ''&'' \<notin> set k \<and> CHR ''&'' \<notin> set v" using safe by auto
    from split_render_form [OF False this] show ?thesis by (simp only: \<open>filter _ _ = _\<close>)
  qed simp
  have "is_ascii (render_form es)" using safe by (intro is_ascii_render_form) auto
  then show ?thesis
    unfolding parse_form_def by (simp only: from_utf8_ascii ok_or_simps and_then_simps pieces)
qed

lemma parse_form_sends:
  assumes "list_all2 sends ps es"
  shows "parse_form (as_bytes (render_form es))
    = (case find (\<lambda>i. fst (ps ! i) \<in> fst ` set (take i ps)) [0..<length ps] of
         None \<Rightarrow> Inr (fold (\<lambda>(k, v). bt_insert k v) ps [])
       | Some i \<Rightarrow> Inl (invalid_request (InForm (DuplicateParameter (fst (ps ! i))))))"
  using parse_pairs_sends [OF assms, of "[]"] by (simp add: bt_contains_def parse_form_render [OF assms])

lemma parse_form_distinct:
  assumes "list_all2 sends ps es" "distinct (map fst ps)"
  shows "parse_form (as_bytes (render_form es)) = Inr (fold (\<lambda>(k, v). bt_insert k v) ps [])"
  using parse_form_sends [OF assms(1)] assms(2) by (simp add: fold_bt_insert_find)

lemma sends_plain: "list_all plain_char k \<Longrightarrow> list_all plain_char v \<Longrightarrow> sends (k, v) (k, v)"
proof -
  have "encodes s s \<and> is_str s" if "list_all plain_char s" for s
  proof -
    have "encodes s s" using that by (induction s) (auto intro: encodes.intros)
    moreover have "is_ascii s" using that by (auto simp: is_ascii_def list_all_iff plain_char_def)
    ultimately show ?thesis by (simp add: is_str_def from_utf8_ascii)
  qed
  then show "list_all plain_char k \<Longrightarrow> list_all plain_char v \<Longrightarrow> sends (k, v) (k, v)"
    by (simp add: sends_def)
qed

section \<open>Properties\<close>

text \<open>
  A form whose parameters a client percent-encoded, escaping whatever it liked beyond what it had
  to, parses to exactly those parameters when their names are distinct; when a name is repeated the
  form is refused, and the refusal names a parameter that occurs twice.
\<close>

theorem form_round_trip:
  assumes "list_all2 sends ps es"
  shows "(distinct (map fst ps) \<longrightarrow>
            parse_form (as_bytes (render_form es)) = Inr (fold (\<lambda>(k, v). bt_insert k v) ps []))
    \<and> (\<not> distinct (map fst ps) \<longrightarrow>
            (\<exists>i j. i < j \<and> j < length ps \<and> fst (ps ! i) = fst (ps ! j)
              \<and> parse_form (as_bytes (render_form es))
                  = Inl (invalid_request (InForm (DuplicateParameter (fst (ps ! j)))))))"
proof (cases "find (\<lambda>i. fst (ps ! i) \<in> fst ` set (take i ps)) [0..<length ps]")
  case None
  then show ?thesis unfolding parse_form_sends [OF assms] using fold_bt_insert_find [of ps] by simp
next
  case (Some j)
  then have "j < length ps" "fst (ps ! j) \<in> fst ` set (take j ps)" by (auto simp: find_Some_iff)
  then obtain i where "i < j" "fst (ps ! i) = fst (ps ! j)"
    by (auto simp: in_set_conv_nth image_iff)
  with Some \<open>j < length ps\<close> show ?thesis
    unfolding parse_form_sends [OF assms] using fold_bt_insert_find [of ps] by auto
qed

theorem form_round_trip_witness:
  "parse_form (as_bytes (render_form [(''a'', ''x+y''), (''b'', ''%26'')]))
     = Inr [(''a'', ''x y''), (''b'', ''&'')]"
proof -
  have "encodes ''x y'' ''x+y''"
    by (intro encodes_plain encodes_space encodes_Nil) (simp_all add: plain_char_def)
  moreover have "escaped_char CHR ''&'' @ [] = ''%26''" by (simp add: escaped_char_def hex_char_def)
  then have "encodes ''&'' ''%26''" using encodes_escape [OF encodes_Nil, of "CHR ''&''"] by simp
  moreover have "encodes ''a'' ''a''" "encodes ''b'' ''b''"
    by (intro encodes_plain encodes_Nil; simp add: plain_char_def)+
  ultimately have "list_all2 sends [(''a'', ''x y''), (''b'', ''&'')] [(''a'', ''x+y''), (''b'', ''%26'')]"
    by (simp add: sends_def is_str_def from_utf8_ascii)
  from form_round_trip [OF this] show ?thesis by simp
qed

end
