(* ===== verification/SourceToken.thy ===== *)
theory SourceToken
  imports Evidence Form AuditEvents
begin

text \<open>
  The first half of an initial exchange in \<open>crates/pic-x-realm/src/exchange.rs\<close>: decoding the access
  token, choosing the Exchange Profile, verifying the token, and mapping its claims and scopes to
  authority. The regular expressions of the \<open>regex\<close> crate and the order of the \<open>pic\<close> crate's
  \<open>Invariant\<close> are the fields \<open>mapping_env\<close> adds: a compiled pattern is the function from a text to its
  named captures.

  The lemmas show that a token is accepted only with a signature that verifies under a key its
  provider publishes; that each scope is mapped by the matching rule of highest priority, the first
  declared among equals; and that the authority derived comes from the token's scopes and nothing else.
\<close>

section \<open>Definitions\<close>

subsection \<open>Text\<close>

fun split_when :: "('a \<Rightarrow> bool) \<Rightarrow> 'a list \<Rightarrow> 'a list list" where
  "split_when p [] = [[]]"
| "split_when p (x # xs) =
     (if p x then [] # split_when p xs
      else (case split_when p xs of [] \<Rightarrow> [[x]] | w # ws \<Rightarrow> (x # w) # ws))"

text \<open>\<open>str::split_whitespace\<close>.\<close>

definition split_whitespace :: "string \<Rightarrow> string list" where
  "split_whitespace s =
     filter (\<lambda>w. w \<noteq> []) (map concat (split_when whitespace_char (utf8_chars s)))"

definition claim_at_path :: "Value \<Rightarrow> string \<Rightarrow> Value option" where
  "claim_at_path v path =
     fold (\<lambda>segment current. Option.bind current (value_get segment)) (split_on CHR ''.'' path) (Some v)"

subsection \<open>The access token\<close>

record DecodedJwt =
  jwt_header :: Value
  jwt_payload :: Value
  jwt_signing_input :: string
  jwt_signature :: bytes

definition decode_json_segment :: "'e web_env_scheme \<Rightarrow> string \<Rightarrow> string \<Rightarrow> ExchangeError + Value" where
  "decode_json_segment env segment label =
     and_then (map_err (\<lambda>e. invalid_grant (InSource (SourceNotBase64url label e)))
                (url_safe_decode env segment)) (\<lambda>bytes.
     map_err (\<lambda>e. invalid_grant (InSource (SourceNotJson label e))) (json_from_slice env bytes))"

definition jwt_decode :: "'e web_env_scheme \<Rightarrow> string \<Rightarrow> ExchangeError + DecodedJwt" where
  "jwt_decode env token =
     (case split_on CHR ''.'' token of
        [header, payload, signature] \<Rightarrow>
          and_then (decode_json_segment env header ''source access token header'') (\<lambda>h.
          and_then (decode_json_segment env payload ''source access token payload'') (\<lambda>p.
          and_then (map_err (\<lambda>e. invalid_grant (InSource (SourceSignatureNotBase64url e)))
                     (url_safe_decode env signature)) (\<lambda>sig.
          Inr \<lparr> jwt_header = h, jwt_payload = p, jwt_signing_input = header @ ''.'' @ payload,
                jwt_signature = sig \<rparr>)))
      | _ \<Rightarrow> Inl (invalid_grant (InSource SourceNotCompactJws)))"

definition header_string :: "DecodedJwt \<Rightarrow> string \<Rightarrow> string option" where
  "header_string jwt name = Option.bind (value_get name (jwt_header jwt)) as_str"

definition claim_string :: "DecodedJwt \<Rightarrow> string \<Rightarrow> string option" where
  "claim_string jwt name = Option.bind (claim_at_path (jwt_payload jwt) name) as_str"

definition claim_i64 :: "DecodedJwt \<Rightarrow> string \<Rightarrow> int option" where
  "claim_i64 jwt name = Option.bind (claim_at_path (jwt_payload jwt) name) as_i64"

definition audience_contains :: "DecodedJwt \<Rightarrow> string \<Rightarrow> bool" where
  "audience_contains jwt expected =
     (case claim_at_path (jwt_payload jwt) ''aud'' of
        Some (JString v) \<Rightarrow> v = expected
      | Some (JArray vs) \<Rightarrow> list_ex (\<lambda>v. as_str v = Some expected) vs
      | _ \<Rightarrow> False)"

subsection \<open>Which profile, and whether the token is genuine\<close>

definition profile_accepts :: "DecodedJwt \<Rightarrow> ExchangeProfileConfig \<Rightarrow> bool" where
  "profile_accepts jwt profile \<longleftrightarrow>
     source_token_type (profile_source profile) = EXCHANGE_SOURCE_OAUTH_ACCESS_TOKEN
     \<and> claim_string jwt ''iss'' = Some (source_issuer (profile_source profile))
     \<and> audience_contains jwt (source_audience (profile_source profile))"

definition select_initial_profile ::
  "ExchangeProfileConfig list \<Rightarrow> DecodedJwt \<Rightarrow> ExchangeError + ExchangeProfileConfig" where
  "select_initial_profile profiles jwt =
     ok_or (invalid_grant (InSource NoProfileAccepts)) (find (profile_accepts jwt) profiles)"

text \<open>The clock: \<open>None\<close> when it is before the Unix epoch.\<close>

definition unix_now :: "int option \<Rightarrow> ExchangeError + int" where
  "unix_now clock = ok_or (server_error (InRequest ClockBeforeEpoch)) clock"

text \<open>Whether one candidate key verifies the token; the loop of the code stops at the first.\<close>

definition source_key_verifies :: "'e evidence_env_scheme \<Rightarrow> string \<Rightarrow> DecodedJwt \<Rightarrow> Value \<Rightarrow> bool" where
  "source_key_verifies env algorithm jwt jwk \<longleftrightarrow>
     (case get_str ''alg'' jwk of Some published \<Rightarrow> published = algorithm | None \<Rightarrow> True)
     \<and> (case verification_key_from_jwk env jwk of
          Inr key \<Rightarrow> key (as_bytes (jwt_signing_input jwt)) (jwt_signature jwt)
        | Inl _ \<Rightarrow> False)"

definition verify_source_signature ::
  "'e evidence_env_scheme \<Rightarrow> (string \<Rightarrow> cache_error + Value list) \<Rightarrow> DecodedJwt \<Rightarrow> ExchangeProfileConfig
   \<Rightarrow> ExchangeError + unit" where
  "verify_source_signature env idp_keys jwt profile =
     and_then (map_err (\<lambda>_. temporarily_unavailable (InSource (IdpKeysUnavailable (profile_id profile))))
                (idp_keys (profile_id profile))) (\<lambda>published.
     and_then (ok_or (invalid_grant (InSource SourceNoAlg)) (header_string jwt ''alg'')) (\<lambda>algorithm.
     let candidates = filter (kid_selects (header_string jwt ''kid'')) published in
     and_then (guard_that (candidates \<noteq> []) (invalid_grant (InSource NoIdpKeyMatches))) (\<lambda>_.
     guard_that (list_ex (source_key_verifies env algorithm jwt) candidates)
       (invalid_grant (InSource SourceSignatureInvalid)))))"

definition validate_source_jwt ::
  "'e evidence_env_scheme \<Rightarrow> (string \<Rightarrow> cache_error + Value list) \<Rightarrow> int option \<Rightarrow> DecodedJwt
   \<Rightarrow> ExchangeProfileConfig \<Rightarrow> ExchangeError + unit" where
  "validate_source_jwt env idp_keys clock jwt profile =
     (let source = profile_source profile; validation = source_validation source in
      and_then (ok_or (invalid_grant (InSource SourceNoAlg)) (header_string jwt ''alg'')) (\<lambda>alg.
      and_then (guard_that (alg \<in> set (allowed_algorithms validation))
                 (invalid_grant (InSource (SourceAlgNotAllowed alg (profile_id profile))))) (\<lambda>_.
      and_then (case require_token_type validation of
                  None \<Rightarrow> Inr ()
                | Some required \<Rightarrow>
                    and_then (ok_or (invalid_grant (InSource SourceNoTyp)) (header_string jwt ''typ'')) (\<lambda>typ.
                    guard_that (typ = required) (invalid_grant (InSource (SourceTypMismatch typ required))))) (\<lambda>_.
      and_then (guard_that (claim_string jwt ''iss'' = Some (source_issuer source))
                 (invalid_grant (InSource SourceIssuerMismatch))) (\<lambda>_.
      and_then (guard_that (audience_contains jwt (source_audience source))
                 (invalid_grant (InSource SourceAudienceMismatch))) (\<lambda>_.
      and_then (if require_expiration validation
                then and_then (ok_or (invalid_grant (InSource SourceNoExp)) (claim_i64 jwt ''exp'')) (\<lambda>exp.
                     and_then (unix_now clock) (\<lambda>now.
                     guard_that (\<not> exp \<le> now) (invalid_grant (InSource SourceExpired))))
                else Inr ()) (\<lambda>_.
      verify_source_signature env idp_keys jwt profile)))))))"

subsection \<open>Claims to authority\<close>

datatype AuthorityValue = One string | Many "string list"

record Invariant =
  inv_scope :: string
  inv_operation :: string
  inv_resource_type :: string
  inv_resource_id :: string

type_synonym captures = "string \<Rightarrow> string option"
type_synonym regex = "string \<Rightarrow> captures option"

record mapping_env = evidence_env +
  regex_new :: "string \<Rightarrow> string + regex"
  invariant_less :: "Invariant \<Rightarrow> Invariant \<Rightarrow> bool"

definition map_authority_value :: "ClaimMapping \<Rightarrow> Value \<Rightarrow> claim_problem + AuthorityValue" where
  "map_authority_value mapping payload =
     (case cm_value mapping of
        Some v \<Rightarrow> Inr (One v)
      | None \<Rightarrow>
          and_then (ok_or NoFromOrValue (cm_from mapping)) (\<lambda>path.
          and_then (ok_or (MissingClaim path) (claim_at_path payload path)) (\<lambda>v.
          if cm_value_type mapping = Some ''set'' then
            (case v of
               JArray vs \<Rightarrow>
                 and_then (collect_results (\<lambda>item. ok_or (NonStringItem path) (as_str item)) vs)
                   (\<lambda>items. Inr (Many items))
             | JString text \<Rightarrow>
                 if cm_encoding mapping = Some ''space-delimited'' then Inr (Many (split_whitespace text))
                 else Inr (Many [text])
             | _ \<Rightarrow> Inl (NotStringOrArray path))
          else and_then (ok_or (NotAString path) (as_str v)) (\<lambda>text. Inr (One text)))))"

fun map_identity_entries ::
  "(string, ClaimMapping) btree \<Rightarrow> Value \<Rightarrow> (string, AuthorityValue) btree
   \<Rightarrow> ExchangeError + (string, AuthorityValue) btree" where
  "map_identity_entries [] payload identity = Inr identity"
| "map_identity_entries ((key, mapping) # rest) payload identity =
     and_then (map_err (\<lambda>e. invalid_grant (InMapping (IdentityClaimUnmapped key e)))
                (map_authority_value mapping payload)) (\<lambda>v.
     map_identity_entries rest payload (bt_insert key v identity))"

definition map_identity_context ::
  "ExchangeProfileConfig \<Rightarrow> Value \<Rightarrow> ExchangeError + (string, AuthorityValue) btree option" where
  "map_identity_context profile payload =
     and_then (map_identity_entries (identity_context (profile_claims profile)) payload []) (\<lambda>identity.
     Inr (if identity \<noteq> [] then Some identity else None))"

definition map_scopes :: "ClaimMapping \<Rightarrow> Value \<Rightarrow> ExchangeError + string list" where
  "map_scopes mapping payload =
     and_then (guard_that (cm_value_type mapping = Some ''set'') (invalid_grant (InMapping ScopesNotASet))) (\<lambda>_.
     and_then (ok_or (invalid_grant (InMapping ScopesNoSource)) (cm_from mapping)) (\<lambda>path.
     and_then (ok_or (invalid_grant (InMapping (ScopesNoClaim path))) (claim_at_path payload path)) (\<lambda>source.
     and_then (case source of
                 JString text \<Rightarrow>
                   if cm_encoding mapping = Some ''space-delimited'' then Inr (split_whitespace text)
                   else Inr [text]
               | JArray vs \<Rightarrow>
                   collect_results (\<lambda>v. ok_or (invalid_grant (InMapping (ScopesNonString path))) (as_str v)) vs
               | _ \<Rightarrow> Inl (invalid_grant (InMapping (ScopesBadType path)))) (\<lambda>scopes.
     let scopes = filter (\<lambda>scope. scope \<noteq> []) scopes in
     and_then (guard_that (scopes \<noteq> []) (invalid_grant (InMapping ScopesNone))) (\<lambda>_.
     Inr scopes)))))"

text \<open>\<open>str::find\<close> for the placeholder marker, with what stands before and after it.\<close>

fun find_marker :: "string \<Rightarrow> (string \<times> string) option" where
  "find_marker [] = None"
| "find_marker (c # cs) =
     (case cs of
        d # ds \<Rightarrow>
          if c = CHR ''$'' \<and> d = CHR ''{'' then Some ([], ds)
          else map_option (\<lambda>(before, after). (c # before, after)) (find_marker cs)
      | [] \<Rightarrow> None)"

lemma find_marker_length: "find_marker s = Some (before, after) \<Longrightarrow> length after < length s"
proof (induction s arbitrary: before)
  case (Cons c cs)
  then show ?case by (cases cs) (auto split: if_splits)
qed simp

lemma split_once_length: "split_once d s = Some (l, r) \<Longrightarrow> length r < length s"
  by (auto simp: split_once_Some)

function render_loop ::
  "string \<Rightarrow> string \<Rightarrow> captures \<Rightarrow> string \<Rightarrow> string \<Rightarrow> ExchangeError + string" where
  "render_loop template raw caps rendered rest =
     (case find_marker rest of
        None \<Rightarrow> Inr (rendered @ rest)
      | Some (before, after) \<Rightarrow>
          (case split_once CHR ''}'' after of
             None \<Rightarrow> Inl (invalid_request (InMapping (UnterminatedPlaceholder template)))
           | Some (name, rest') \<Rightarrow>
               if name = ''raw''
               then render_loop template raw caps (rendered @ before @ raw) rest'
               else (case caps name of
                       None \<Rightarrow> Inl (invalid_request (InMapping (MissingCapture template name)))
                     | Some v \<Rightarrow> render_loop template raw caps (rendered @ before @ v) rest')))"
  by pat_completeness auto
termination
  by (relation "measure (\<lambda>(_, _, _, _, rest). length rest)")
    (auto dest!: find_marker_length split_once_length)

declare render_loop.simps [simp del]

definition render_template :: "string \<Rightarrow> string \<Rightarrow> captures \<Rightarrow> ExchangeError + string" where
  "render_template template raw caps = render_loop template raw caps [] template"

text \<open>The compiled rules, highest priority first; \<open>sort_by_key\<close> is stable.\<close>

definition compile_rules ::
  "'e mapping_env_scheme \<Rightarrow> ExchangeProfileConfig \<Rightarrow> ExchangeError + (PrivilegeRule \<times> regex) list" where
  "compile_rules env profile =
     and_then (collect_results (\<lambda>rule.
        and_then (map_err (\<lambda>e. invalid_request (InMapping
                     (InvalidRulePattern (profile_id profile) (rule_name rule) e)))
                   (regex_new env (rule_pattern rule))) (\<lambda>pattern. Inr (rule, pattern)))
        (privileges_rules (profile_privileges profile))) (\<lambda>rules.
     Inr (sort_key (\<lambda>(rule, _). - rule_priority rule) rules))"

fun first_match :: "(PrivilegeRule \<times> regex) list \<Rightarrow> string \<Rightarrow> (PrivilegeRule \<times> captures) option" where
  "first_match [] scope = None"
| "first_match ((rule, pattern) # rules) scope =
     (case pattern scope of
        Some caps \<Rightarrow> Some (rule, caps)
      | None \<Rightarrow> first_match rules scope)"

definition emit_invariant :: "PrivilegeRule \<Rightarrow> string \<Rightarrow> captures \<Rightarrow> ExchangeError + Invariant" where
  "emit_invariant rule scope caps =
     and_then (render_template (emit_scope (rule_emit rule)) scope caps) (\<lambda>s.
     and_then (render_template (emit_operation (rule_emit rule)) scope caps) (\<lambda>op.
     and_then (render_template (emit_resource_type (rule_emit rule)) scope caps) (\<lambda>rt.
     and_then (render_template (emit_resource_id (rule_emit rule)) scope caps) (\<lambda>rid.
     Inr \<lparr> inv_scope = s, inv_operation = op, inv_resource_type = rt, inv_resource_id = rid \<rparr>))))"

text \<open>\<open>BTreeSet::insert\<close> under an order given as an argument.\<close>

fun set_insert :: "('a \<Rightarrow> 'a \<Rightarrow> bool) \<Rightarrow> 'a \<Rightarrow> 'a list \<Rightarrow> 'a list" where
  "set_insert lt x [] = [x]"
| "set_insert lt x (y # ys) =
     (if lt x y then x # y # ys else if lt y x then y # set_insert lt x ys else y # ys)"

fun map_each_scope ::
  "'e mapping_env_scheme \<Rightarrow> ExchangeProfileConfig \<Rightarrow> (PrivilegeRule \<times> regex) list \<Rightarrow> string list
   \<Rightarrow> Invariant list \<Rightarrow> ExchangeError + Invariant list" where
  "map_each_scope env profile rules [] invariants = Inr invariants"
| "map_each_scope env profile rules (scope # scopes) invariants =
     (case first_match rules scope of
        Some (rule, caps) \<Rightarrow>
          and_then (emit_invariant rule scope caps) (\<lambda>inv.
          map_each_scope env profile rules scopes (set_insert (invariant_less env) inv invariants))
      | None \<Rightarrow>
          if on_unmatched_scope profile = EXCHANGE_ON_UNMATCHED_SCOPE_REJECT
          then Inl (invalid_grant (InMapping (ScopeNotAccepted scope (profile_id profile))))
          else map_each_scope env profile rules scopes invariants)"

definition map_invariants ::
  "'e mapping_env_scheme \<Rightarrow> ExchangeProfileConfig \<Rightarrow> string list \<Rightarrow> ExchangeError + Invariant list" where
  "map_invariants env profile scopes =
     and_then (compile_rules env profile) (\<lambda>rules.
     and_then (map_each_scope env profile rules scopes []) (\<lambda>invariants.
     and_then (guard_that (invariants \<noteq> []) (invalid_grant (InMapping NoInvariants))) (\<lambda>_.
     Inr invariants)))"

record MappedAuthority =
  mapped_identity_context :: "(string, AuthorityValue) btree option"
  mapped_invariants :: "Invariant list"

definition map_authority ::
  "'e mapping_env_scheme \<Rightarrow> ExchangeProfileConfig \<Rightarrow> Value \<Rightarrow> ExchangeError + MappedAuthority" where
  "map_authority env profile payload =
     and_then (map_identity_context profile payload) (\<lambda>identity.
     and_then (map_scopes (scopes_mapping (profile_claims profile)) payload) (\<lambda>scopes.
     and_then (map_invariants env profile scopes) (\<lambda>invariants.
     Inr \<lparr> mapped_identity_context = identity, mapped_invariants = invariants \<rparr>)))"

section \<open>What the mapping means\<close>

text \<open>
  The rule that decides a scope: of the rules that match it, the first declared whose priority none
  of them exceeds.
\<close>

definition chosen_rule :: "(PrivilegeRule \<times> regex) list \<Rightarrow> string \<Rightarrow> (PrivilegeRule \<times> regex) option" where
  "chosen_rule rules scope =
     find (\<lambda>(rule, pattern). pattern scope \<noteq> None
             \<and> (\<forall>(rule', pattern') \<in> set rules.
                  pattern' scope \<noteq> None \<longrightarrow> rule_priority rule' \<le> rule_priority rule)) rules"

text \<open>The pieces of a template.\<close>

datatype piece = Literal string | Placeholder string

fun print_piece :: "piece \<Rightarrow> string" where
  "print_piece (Literal s) = s"
| "print_piece (Placeholder name) = ''${'' @ name @ ''}''"

fun piece_ok :: "piece \<Rightarrow> bool" where
  "piece_ok (Literal s) \<longleftrightarrow> CHR ''$'' \<notin> set s"
| "piece_ok (Placeholder name) \<longleftrightarrow> CHR ''}'' \<notin> set name"

fun piece_value :: "string \<Rightarrow> captures \<Rightarrow> piece \<Rightarrow> string option" where
  "piece_value raw caps (Literal s) = Some s"
| "piece_value raw caps (Placeholder name) = (if name = ''raw'' then Some raw else caps name)"

fun piece_name :: "piece \<Rightarrow> string" where
  "piece_name (Literal s) = s"
| "piece_name (Placeholder name) = name"

section \<open>Lemmas\<close>

subsection \<open>Rules\<close>

lemma find_filter: "find P xs = (case filter P xs of [] \<Rightarrow> None | x # _ \<Rightarrow> Some x)"
  by (induction xs) auto

lemma hd_sort_key:
  fixes f :: "'a \<Rightarrow> 'k::linorder"
  assumes "ys \<noteq> []"
  shows "Some (hd (sort_key f ys)) = find (\<lambda>x. \<forall>y \<in> set ys. f x \<le> f y) ys"
proof -
  obtain z zs where zs: "sort_key f ys = z # zs"
    using assms by (metis list.exhaust set_empty set_sort)
  have "sorted (map f (z # zs))" using sorted_sort_key [of f ys] by (simp only: zs)
  then have "\<forall>y \<in> set (z # zs). f z \<le> f y" by auto
  then have min: "\<forall>y \<in> set ys. f z \<le> f y" and mem: "z \<in> set ys"
    by (metis set_sort zs, metis list.set_intros(1) set_sort zs)
  have "filter (\<lambda>y. f y = f z) (sort_key f ys) = filter (\<lambda>y. f y = f z) ys"
    by (rule sort_key_stable)
  then obtain ws where "filter (\<lambda>y. f y = f z) ys = z # ws" unfolding zs by (auto dest: sym)
  moreover have "filter (\<lambda>x. \<forall>y \<in> set ys. f x \<le> f y) ys = filter (\<lambda>y. f y = f z) ys"
    using min mem by (intro filter_cong) (auto intro: antisym)
  ultimately show ?thesis by (simp add: find_filter zs)
qed

lemma find_sort_key:
  fixes f :: "'a \<Rightarrow> 'k::linorder"
  shows "find P (sort_key f xs) = find (\<lambda>x. P x \<and> (\<forall>y \<in> set xs. P y \<longrightarrow> f x \<le> f y)) xs"
proof (cases "filter P xs")
  case Nil
  then have "find P (sort_key f xs) = None"
    "find (\<lambda>x. P x \<and> (\<forall>y \<in> set xs. P y \<longrightarrow> f x \<le> f y)) xs = None"
    by (auto simp: find_None_iff filter_empty_conv)
  then show ?thesis by simp
next
  case (Cons z zs)
  then have "length (sort_key f (filter P xs)) \<noteq> 0" by simp
  then obtain w ws where w: "sort_key f (filter P xs) = w # ws" by (metis length_0_conv list.exhaust)
  then have "find P (sort_key f xs) = Some (hd (sort_key f (filter P xs)))"
    by (simp add: find_filter [of P "sort_key f xs"] filter_sort)
  also have "\<dots> = find (\<lambda>x. \<forall>y \<in> set (filter P xs). f x \<le> f y) (filter P xs)"
    using Cons by (intro hd_sort_key) simp
  also have "\<dots> = find (\<lambda>x. P x \<and> (\<forall>y \<in> set xs. P y \<longrightarrow> f x \<le> f y)) xs"
  proof -
    have "filter (\<lambda>x. P x \<and> (\<forall>y \<in> set xs. P y \<longrightarrow> f x \<le> f y)) xs
        = filter (\<lambda>x. \<forall>y \<in> set (filter P xs). f x \<le> f y) (filter P xs)"
      unfolding filter_filter by (rule filter_cong) auto
    then show ?thesis by (simp only: find_filter)
  qed
  finally show ?thesis .
qed

lemma first_match_find:
  "first_match rules scope =
     map_option (\<lambda>(rule, pattern). (rule, the (pattern scope)))
       (find (\<lambda>(rule, pattern). pattern scope \<noteq> None) rules)"
  by (induction rules scope rule: first_match.induct) (auto split: option.splits)

lemma first_match_chosen:
  "first_match (sort_key (\<lambda>(rule, _). - rule_priority rule) rules) scope =
     map_option (\<lambda>(rule, pattern). (rule, the (pattern scope))) (chosen_rule rules scope)"
proof -
  have eq: "(\<lambda>x. (case x of (rule, pattern) \<Rightarrow> pattern scope \<noteq> None)
          \<and> (\<forall>y \<in> set rules. (case y of (rule, pattern) \<Rightarrow> pattern scope \<noteq> None) \<longrightarrow>
               (case x of (rule, _) \<Rightarrow> - rule_priority rule) \<le> (case y of (rule, _) \<Rightarrow> - rule_priority rule)))
      = (\<lambda>(rule, pattern). pattern scope \<noteq> None
             \<and> (\<forall>(rule', pattern') \<in> set rules.
                  pattern' scope \<noteq> None \<longrightarrow> rule_priority rule' \<le> rule_priority rule))"
    by (rule ext) (auto split: prod.splits)
  show ?thesis unfolding first_match_find find_sort_key chosen_rule_def eq ..
qed

lemma compile_rules_Inr:
  assumes "compile_rules env profile = Inr sorted_rules"
  shows "\<exists>rules. sorted_rules = sort_key (\<lambda>(rule, _). - rule_priority rule) rules
    \<and> list_all2 (\<lambda>rule (rule', pattern). rule' = rule \<and> regex_new env (rule_pattern rule) = Inr pattern)
        (privileges_rules (profile_privileges profile)) rules"
proof -
  from assms obtain rules where sorted_rules: "sorted_rules = sort_key (\<lambda>(rule, _). - rule_priority rule) rules"
    and "list_all2 (\<lambda>rule y. and_then (map_err (\<lambda>e. invalid_request (InMapping
           (InvalidRulePattern (profile_id profile) (rule_name rule) e)))
         (regex_new env (rule_pattern rule))) (\<lambda>pattern. Inr (rule, pattern)) = Inr y)
       (privileges_rules (profile_privileges profile)) rules"
    unfolding compile_rules_def by (auto simp: and_then_Inr_iff collect_results_Inr_iff)
  from this(2) show ?thesis
    by (intro exI [of _ rules] conjI sorted_rules) (erule list_all2_mono, auto simp: result_iffs)
qed

subsection \<open>Scopes\<close>

lemma set_insert_subset: "set (set_insert lt x xs) \<subseteq> insert x (set xs)"
  by (induction xs) auto

lemma set_set_insert:
  "(\<And>y. \<not> lt x y \<Longrightarrow> \<not> lt y x \<Longrightarrow> x = y) \<Longrightarrow> set (set_insert lt x xs) = insert x (set xs)"
  by (induction xs) auto

lemma map_each_scope_Inr:
  assumes "map_each_scope env profile rules scopes invs = Inr invs'"
    and "\<And>x y. \<not> invariant_less env x y \<Longrightarrow> \<not> invariant_less env y x \<Longrightarrow> x = y"
  shows "set invs' = set invs \<union> {inv. \<exists>scope \<in> set scopes. \<exists>rule caps.
            first_match rules scope = Some (rule, caps) \<and> emit_invariant rule scope caps = Inr inv}
    \<and> (on_unmatched_scope profile = EXCHANGE_ON_UNMATCHED_SCOPE_REJECT \<longrightarrow>
         (\<forall>scope \<in> set scopes. first_match rules scope \<noteq> None))"
  using assms(1)
proof (induction scopes arbitrary: invs)
  case (Cons scope scopes)
  show ?case
  proof (cases "first_match rules scope")
    case None
    with Cons show ?thesis by (auto split: if_splits)
  next
    case (Some m)
    obtain rule caps where m: "m = (rule, caps)" by (cases m)
    from Cons.prems Some obtain inv where inv: "emit_invariant rule scope caps = Inr inv"
      "map_each_scope env profile rules scopes (set_insert (invariant_less env) inv invs) = Inr invs'"
      by (auto simp: m result_iffs)
    from Cons.IH [OF inv(2)] have "set invs' = set (set_insert (invariant_less env) inv invs) \<union>
        {inv. \<exists>scope \<in> set scopes. \<exists>rule caps.
            first_match rules scope = Some (rule, caps) \<and> emit_invariant rule scope caps = Inr inv}"
      "on_unmatched_scope profile = EXCHANGE_ON_UNMATCHED_SCOPE_REJECT \<longrightarrow>
         (\<forall>scope \<in> set scopes. first_match rules scope \<noteq> None)" by auto
    then show ?thesis using Some inv(1) set_set_insert [of "invariant_less env" inv invs, OF assms(2)] by (auto simp: m)
  qed
qed simp

subsection \<open>Templates\<close>

lemma find_marker_append:
  "CHR ''$'' \<notin> set s \<Longrightarrow>
   find_marker (s @ t) = map_option (\<lambda>(before, after). (s @ before, after)) (find_marker t)"
proof (induction s)
  case Nil
  then show ?case by (cases "find_marker t") auto
next
  case (Cons c s)
  show ?case
  proof (cases "s @ t")
    case (Cons d ds)
    with Cons.IH Cons.prems show ?thesis
      by (cases "find_marker t") (auto simp: Cons split: list.splits)
  qed (use Cons in \<open>auto\<close>)
qed

lemma find_marker_placeholder: "find_marker (''${'' @ t) = Some ([], t)"
  by simp

lemma render_loop_done:
  "find_marker rest = None \<Longrightarrow> render_loop template raw caps rendered rest = Inr (rendered @ rest)"
  by (subst render_loop.simps) simp

lemma render_loop_placeholder:
  assumes "CHR ''$'' \<notin> set s" "CHR ''}'' \<notin> set name"
  shows "render_loop template raw caps rendered (s @ ''${'' @ name @ ''}'' @ t)
    = (case piece_value raw caps (Placeholder name) of
         Some v \<Rightarrow> render_loop template raw caps (rendered @ s @ v) t
       | None \<Rightarrow> Inl (invalid_request (InMapping (MissingCapture template name))))"
proof -
  have "find_marker (s @ ''${'' @ name @ ''}'' @ t) = Some (s, name @ ''}'' @ t)"
    using find_marker_append [OF assms(1)] by simp
  moreover have "split_once CHR ''}'' (name @ ''}'' @ t) = Some (name, t)"
    using assms(2) by (simp add: split_once_Some)
  ultimately show ?thesis
    by (subst render_loop.simps) (simp split: option.splits)
qed

lemma find_marker_no_dollar: "CHR ''$'' \<notin> set s \<Longrightarrow> find_marker s = None"
  using find_marker_append [of s "[]"] by simp

text \<open>A template read piece by piece, with the literal text already passed in front of the rest.\<close>

lemma render_loop_pieces:
  assumes "list_all piece_ok ps" "CHR ''$'' \<notin> set s"
  shows "render_loop template raw caps rendered (s @ concat (map print_piece ps))
    = (case find (\<lambda>p. piece_value raw caps p = None) ps of
         Some p \<Rightarrow> Inl (invalid_request (InMapping (MissingCapture template (piece_name p))))
       | None \<Rightarrow> Inr (rendered @ s @ concat (map (\<lambda>p. the (piece_value raw caps p)) ps)))"
  using assms
proof (induction ps arbitrary: s rendered)
  case Nil
  then show ?case by (simp add: render_loop_done find_marker_no_dollar)
next
  case (Cons p ps)
  show ?case
  proof (cases p)
    case (Literal l)
    with Cons.IH [of "s @ l" rendered] Cons.prems show ?thesis by (simp split: option.splits)
  next
    case (Placeholder name)
    have "render_loop template raw caps rendered (s @ ''${'' @ name @ ''}'' @ concat (map print_piece ps))
      = (case piece_value raw caps p of
           Some v \<Rightarrow> render_loop template raw caps (rendered @ s @ v) (concat (map print_piece ps))
         | None \<Rightarrow> Inl (invalid_request (InMapping (MissingCapture template name))))"
      using render_loop_placeholder [OF Cons.prems(2), of name] Cons.prems(1) by (simp add: Placeholder)
    also have "\<dots> = (case find (\<lambda>p. piece_value raw caps p = None) (p # ps) of
         Some p \<Rightarrow> Inl (invalid_request (InMapping (MissingCapture template (piece_name p))))
       | None \<Rightarrow> Inr (rendered @ s @ concat (map (\<lambda>p. the (piece_value raw caps p)) (p # ps))))"
      using Cons.IH [of "[]"] Cons.prems(1) Placeholder by (cases "piece_value raw caps p") (simp_all split: option.splits)
    finally show ?thesis by (simp add: Placeholder)
  qed
qed

section \<open>Properties\<close>

text \<open>
  Rendering a template made of literal text and placeholders puts the scope for every \<open>${raw}\<close> and
  the named capture for every other placeholder, the literal text staying as it is; it fails, naming
  the placeholder, exactly when one names a capture the pattern does not have.
\<close>

theorem template_renders_pieces:
  assumes "list_all piece_ok ps"
  shows "render_template (concat (map print_piece ps)) raw caps
    = (case find (\<lambda>p. piece_value raw caps p = None) ps of
         Some p \<Rightarrow> Inl (invalid_request (InMapping
                     (MissingCapture (concat (map print_piece ps)) (piece_name p))))
       | None \<Rightarrow> Inr (concat (map (\<lambda>p. the (piece_value raw caps p)) ps)))"
  using render_loop_pieces [OF assms, of "[]"] by (simp add: render_template_def split: option.splits)

theorem template_renders_pieces_witness:
  "render_template ''doc:${id}/${raw}'' ''read'' [''id'' \<mapsto> ''42''] = Inr ''doc:42/read''
   \<and> render_template ''${who}'' ''read'' [''id'' \<mapsto> ''42'']
       = Inl (invalid_request (InMapping (MissingCapture ''${who}'' ''who'')))"
  using template_renders_pieces [of "[Literal ''doc:'', Placeholder ''id'', Literal ''/'', Placeholder ''raw'']"
      "''read''" "[''id'' \<mapsto> ''42'']"]
    template_renders_pieces [of "[Placeholder ''who'']" "''read''" "[''id'' \<mapsto> ''42'']"]
  by simp

text \<open>
  C8: The invariants an exchange derives are exactly those the deciding rules emit for the scopes of the
  token: for each scope, of the rules of the profile that match it, the one of highest priority, the
  first declared among equals. There is at least one, and under the \<open>reject\<close> policy no scope is left
  without a rule. The order of invariants need only tell different ones apart.
\<close>

theorem authority_comes_from_scopes:
  assumes "map_invariants env profile scopes = Inr invariants"
    and "\<And>x y. \<not> invariant_less env x y \<Longrightarrow> \<not> invariant_less env y x \<Longrightarrow> x = y"
  shows "\<exists>rules. list_all2 (\<lambda>rule (rule', pattern). rule' = rule \<and> regex_new env (rule_pattern rule) = Inr pattern)
             (privileges_rules (profile_privileges profile)) rules
    \<and> invariants \<noteq> []
    \<and> set invariants = {inv. \<exists>scope \<in> set scopes. \<exists>rule pattern caps.
          chosen_rule rules scope = Some (rule, pattern) \<and> pattern scope = Some caps
          \<and> emit_invariant rule scope caps = Inr inv}
    \<and> (on_unmatched_scope profile = ''reject'' \<longrightarrow> (\<forall>scope \<in> set scopes. chosen_rule rules scope \<noteq> None))"
proof -
  from assms(1) obtain rules where
    compiled: "list_all2 (\<lambda>rule (rule', pattern). rule' = rule \<and> regex_new env (rule_pattern rule) = Inr pattern)
        (privileges_rules (profile_privileges profile)) rules"
    and mapped: "map_each_scope env profile (sort_key (\<lambda>(rule, _). - rule_priority rule) rules) scopes []
        = Inr invariants" and "invariants \<noteq> []"
    unfolding map_invariants_def by (auto simp: result_iffs dest!: compile_rules_Inr)
  have chosen: "first_match (sort_key (\<lambda>(rule, _). - rule_priority rule) rules) scope = Some (rule, caps)
      \<longleftrightarrow> (\<exists>pattern. chosen_rule rules scope = Some (rule, pattern) \<and> pattern scope = Some caps)" for scope rule caps
  proof -
    have "chosen_rule rules scope = Some (rule', pattern) \<Longrightarrow> pattern scope \<noteq> None" for rule' pattern
      by (auto simp: chosen_rule_def find_Some_iff)
    then show ?thesis by (auto simp: first_match_chosen)
  qed
  have unmatched: "first_match (sort_key (\<lambda>(rule, _). - rule_priority rule) rules) scope \<noteq> None
      \<longleftrightarrow> chosen_rule rules scope \<noteq> None" for scope
    by (simp add: first_match_chosen)
  note mapped_set = map_each_scope_Inr [OF mapped assms(2), unfolded chosen unmatched
      EXCHANGE_ON_UNMATCHED_SCOPE_REJECT_def]
  show ?thesis
  proof (intro exI [of _ rules] conjI compiled)
    show "set invariants = {inv. \<exists>scope \<in> set scopes. \<exists>rule pattern caps.
          chosen_rule rules scope = Some (rule, pattern) \<and> pattern scope = Some caps
          \<and> emit_invariant rule scope caps = Inr inv}"
      using mapped_set by auto
    show "on_unmatched_scope profile = ''reject'' \<longrightarrow> (\<forall>scope \<in> set scopes. chosen_rule rules scope \<noteq> None)"
      using mapped_set by blast
  qed fact
qed


lemma source_key_verifies_iff:
  "source_key_verifies env algorithm jwt jwk \<longleftrightarrow>
   get_str ''alg'' jwk \<in> {None, Some algorithm}
   \<and> (\<exists>key. verification_key_from_jwk env jwk = Inr key
        \<and> key (as_bytes (jwt_signing_input jwt)) (jwt_signature jwt))"
  by (auto simp: source_key_verifies_def split: sum.splits option.splits)

lemma verify_source_signature_Inr_iff:
  "verify_source_signature env idp_keys jwt profile = Inr u \<longleftrightarrow>
   (\<exists>published algorithm. idp_keys (profile_id profile) = Inr published
      \<and> header_string jwt ''alg'' = Some algorithm
      \<and> (\<exists>jwk \<in> set published. kid_selects (header_string jwt ''kid'') jwk
           \<and> source_key_verifies env algorithm jwt jwk))"
  by (force simp: verify_source_signature_def Let_def result_iffs list_ex_iff filter_empty_conv)


subsection \<open>An access token\<close>

text \<open>
  Two rules, the second of higher priority: a pattern is the text it matches, with one capture. The
  access token is \<open>h.t.s\<close> under the codec of the presentation, extended with its payload \<open>t\<close>.
\<close>

definition demo_emit :: "string \<Rightarrow> PrivilegeEmit" where
  "demo_emit op = \<lparr> emit_scope = ''${raw}'', emit_operation = op, emit_resource_type = ''doc'',
     emit_resource_id = ''${id}'' \<rparr>"

definition corporate_profile :: ExchangeProfileConfig where
  "corporate_profile = demo_profile\<lparr> profile_privileges :=
     \<lparr> privileges_source = ''scopes'', privileges_rules =
        [\<lparr> rule_name = ''any'', rule_priority = 1, rule_pattern = ''read'', rule_emit = demo_emit ''use'' \<rparr>,
         \<lparr> rule_name = ''read'', rule_priority = 2, rule_pattern = ''read'', rule_emit = demo_emit ''read'' \<rparr>] \<rparr> \<rparr>"

definition demo_token_payload :: Value where
  "demo_token_payload = JObject [(''aud'', JString ''pic-x''), (''exp'', Integer 2000),
     (''iss'', JString ''https://idp''), (''scope'', JString ''read''), (''sub'', JString ''alice'')]"

definition invariant_fields :: "Invariant \<Rightarrow> string list" where
  "invariant_fields i = [inv_scope i, inv_operation i, inv_resource_type i, inv_resource_id i]"

definition demo_mapping_env :: mapping_env where
  "demo_mapping_env = \<lparr>
     json_from_slice = (\<lambda>b. if b = as_bytes ''t'' then Inr demo_token_payload else demo_json b),
     json_to_string = (\<lambda>_. ''json''), url_safe_encode = of_bytes,
     url_safe_decode = (\<lambda>s. Inr (as_bytes s)), web_sha256 = id,
     public_key_from_jwk = (\<lambda>_. Inr demo_verifier),
     expected_algorithms_for_jwk = (\<lambda>_. Inr \<lparr> expected_jose = ''EdDSA'', expected_cose = Some EdDSA \<rparr>),
     rsa_pkcs1_sha256_verify = (\<lambda>_ _ _. False),
     regex_new = (\<lambda>p. Inr (\<lambda>s. if s = p then Some [''id'' \<mapsto> ''42''] else None)),
     invariant_less = (\<lambda>x y. invariant_fields x < invariant_fields y) \<rparr>"

definition demo_jwt :: DecodedJwt where
  "demo_jwt = \<lparr> jwt_header = JObject [(''alg'', JString ''EdDSA''), (''kid'', JString ''k1'')],
     jwt_payload = demo_token_payload, jwt_signing_input = ''h.t'', jwt_signature = as_bytes ''s'' \<rparr>"

definition demo_invariant :: Invariant where
  "demo_invariant = \<lparr> inv_scope = ''read'', inv_operation = ''read'', inv_resource_type = ''doc'',
     inv_resource_id = ''42'' \<rparr>"

lemma demo_jwt_decodes: "jwt_decode demo_mapping_env ''h.t.s'' = Inr demo_jwt"
  by (simp add: jwt_decode_def decode_json_segment_def demo_mapping_env_def demo_json_def demo_jwt_def)

lemmas demo_jwt_simps = demo_jwt_def demo_token_payload_def header_string_def claim_string_def claim_i64_def
  audience_contains_def claim_at_path_def bt_get_def as_str_def as_i64_def in_i64_def i64_min_def i64_max_def

lemma demo_profile_selected: "select_initial_profile [corporate_profile] demo_jwt = Inr corporate_profile"
  by (simp add: select_initial_profile_def profile_accepts_def corporate_profile_def demo_profile_def
      demo_source_def demo_jwt_simps EXCHANGE_SOURCE_OAUTH_ACCESS_TOKEN_def)

lemma demo_source_signature:
  "verify_source_signature demo_mapping_env (\<lambda>_. Inr [demo_key]) demo_jwt corporate_profile = Inr ()"
  by (simp add: verify_source_signature_def source_key_verifies_def kid_selects_def demo_key_def get_str_def
      demo_jwt_simps verification_key_from_jwk_def demo_mapping_env_def demo_verifier_def Let_def)

lemma demo_source_validated:
  "validate_source_jwt demo_mapping_env (\<lambda>_. Inr [demo_key]) (Some 1500) demo_jwt corporate_profile = Inr ()"
  unfolding validate_source_jwt_def Let_def demo_source_signature
  by (simp add: corporate_profile_def demo_profile_def demo_source_def demo_jwt_simps unix_now_def)


lemma demo_emits:
  "emit_invariant \<lparr> rule_name = ''read'', rule_priority = 2, rule_pattern = ''read'', rule_emit = demo_emit ''read'' \<rparr>
     ''read'' [''id'' \<mapsto> ''42''] = Inr demo_invariant"
  by (simp add: emit_invariant_def demo_emit_def demo_invariant_def render_template_def render_loop.simps)

lemma demo_maps: "map_invariants demo_mapping_env corporate_profile [''read''] = Inr [demo_invariant]"
  by (simp add: map_invariants_def compile_rules_def corporate_profile_def demo_mapping_env_def demo_emits)

theorem authority_comes_from_scopes_witness:
  "map_invariants demo_mapping_env corporate_profile [''read''] = Inr [demo_invariant]
   \<and> (\<exists>rules :: (PrivilegeRule \<times> regex) list. \<exists>scope \<in> set [''read'']. chosen_rule rules scope \<noteq> None)"
proof -
  have "x = y" if "\<not> invariant_less demo_mapping_env x y" "\<not> invariant_less demo_mapping_env y x" for x y
  proof -
    have "invariant_fields x = invariant_fields y"
      using that by (simp add: demo_mapping_env_def)
    then show ?thesis by (simp add: invariant_fields_def)
  qed
  from authority_comes_from_scopes [OF demo_maps this] demo_maps show ?thesis
    by (fastforce simp: corporate_profile_def demo_profile_def)
qed

end
