(* ===== verification/Settlement.thy ===== *)
theory Settlement
  imports SourceToken KeyLifecycle
begin

text \<open>
  The boundary a realm offers the settlement procedure of the \<open>pic\<close> crate:
  \<open>crates/pic-x-realm/src/conformance.rs\<close> (does the workload satisfy the execution contract),
  \<open>checkpoints.rs\<close> (did this realm sign the checkpoint) and \<open>RealmTokenSigner\<close> of \<open>exchange.rs\<close>. A
  \<open>KeyManager\<close> is what it answers during one request; \<open>directory_keys\<close> is the one the key ring gives.
  An \<open>IndexedAuthorityMap\<close> and a COSE object of the crate are type parameters, read through the
  fields of \<open>pic_env\<close>.

  The lemmas show that conformance holds exactly when every entry of the contract is disclosed and
  agrees, that a checkpoint is accepted exactly when a key the ring publishes verifies it, and that a
  signature leaves the signer only under the key and the algorithm it announced.
\<close>

section \<open>Definitions\<close>

subsection \<open>What the crate hands over\<close>

datatype TupleValue = Text string | Membership bool

record 'auth PicPcaPayload =
  pca_position :: u64
  context_of_authority :: 'auth
  pca_challenge :: bytes
  pca_lineage_id :: "string option"
  pca_expires_at :: "int option"

record LogicalAuthority =
  la_identity_context :: "(string, AuthorityValue) btree option"
  la_invariants :: "Invariant list"
  la_execution_contract :: "(string, AuthorityValue) btree"

record DecodedToken =
  tok_alg :: string
  tok_root_bytes :: "string + bytes"
  tok_jti :: "string option"
  tok_exp :: "int option"

record ContinuityPayload =
  cont_candidate_transition :: "string + bytes"
  cont_root_pca :: bytes

record TransitionPayload =
  trans_position :: u64
  trans_previous_challenge :: bytes
  trans_next_challenge :: bytes
  trans_por :: ProofOfRelationship

record SettlementContext =
  ctx_iss :: string
  ctx_sub :: "string option"
  ctx_aud :: "string option"
  ctx_iat :: "int option"
  ctx_exp :: "int option"
  ctx_jti :: "string option"

record 'auth Issued =
  issued_token :: string
  issued_checkpoint :: "'auth PicPcaPayload"

datatype CoseError = InvalidKey key_error | ActiveKeyChanged | AlgorithmMismatch string string

record ArtifactSigner =
  signer_kid :: string
  signer_cose_algorithm :: SigningAlgorithm
  signer_jws_algorithm :: string
  signer_sign :: "bytes \<Rightarrow> CoseError + bytes"

text \<open>
  What a realm gives the settlement procedure. The evidence validator carries state; the policy reads it.
\<close>

record 'auth SettlementAuthority =
  sa_trusted :: "bytes \<Rightarrow> bool"
  sa_por :: "ProofOfRelationship \<Rightarrow> Accepted option \<Rightarrow> (RejectReason + ArtifactVerifier) \<times> Accepted option"
  sa_is_revoked :: "'auth PicPcaPayload \<Rightarrow> bytes \<Rightarrow> bool"
  sa_conformance :: "Accepted option \<Rightarrow> 'auth PicPcaPayload \<Rightarrow> bool"
  sa_request_binding :: "TransitionPayload \<Rightarrow> bool"
  sa_realm :: ArtifactSigner

record ('auth, 'cose) pic_env = mapping_env +
  contract_values :: "'auth \<Rightarrow> (string \<times> TupleValue) list"
  cose_from_bytes :: "bytes \<Rightarrow> string + 'cose"
  cose_kid :: "'cose \<Rightarrow> string option"
  cose_algorithm :: "'cose \<Rightarrow> SigningAlgorithm option"
  cose_verify_with :: "'cose \<Rightarrow> ArtifactVerifier \<Rightarrow> bool"
  pca_payload :: "'cose \<Rightarrow> string + 'auth PicPcaPayload"
  continuity_payload :: "'cose \<Rightarrow> string + ContinuityPayload"
  transition_payload :: "'cose \<Rightarrow> string + TransitionPayload"
  decode_token :: "string \<Rightarrow> string + DecodedToken"
  parse_proposal :: "string \<Rightarrow> string + (string, AuthorityValue) btree"
  from_logical :: "LogicalAuthority \<Rightarrow> string + 'auth"
  issue_settled :: "'auth PicPcaPayload \<Rightarrow> ArtifactSigner \<Rightarrow> SettlementContext \<Rightarrow> string + 'auth Issued"
  settle :: "'auth SettlementAuthority \<Rightarrow> string \<Rightarrow> SettlementContext \<Rightarrow> Accepted option
             \<Rightarrow> (string + 'auth Issued) \<times> Accepted option"
  accepted_type :: string
  TOKEN_TYPE_PIC :: string
  PROPOSAL_TYPE_CONTINUITY_INITIAL :: string

subsection \<open>Conformance\<close>

datatype Mismatch =
    Missing string string
  | Contradicts string string string
  | SaysNothing

definition matches_text :: "Value \<Rightarrow> string \<Rightarrow> bool" where
  "matches_text disclosed required =
     (case disclosed of
        JString v \<Rightarrow> v = required
      | JArray vs \<Rightarrow> list_ex (\<lambda>item. as_str item = Some required) vs
      | _ \<Rightarrow> False)"

definition contains_member :: "Value \<Rightarrow> string \<Rightarrow> bool" where
  "contains_member disclosed member =
     (case disclosed of
        JString v \<Rightarrow> v = member
      | JArray vs \<Rightarrow> list_ex (\<lambda>item. as_str item = Some member) vs
      | _ \<Rightarrow> False)"

definition render_value :: "'e web_env_scheme \<Rightarrow> Value \<Rightarrow> string" where
  "render_value env v = (case v of JString text \<Rightarrow> text | other \<Rightarrow> json_to_string env other)"

definition check_entry ::
  "'e web_env_scheme \<Rightarrow> (string, Value) btree \<Rightarrow> string \<times> TupleValue \<Rightarrow> Mismatch + unit" where
  "check_entry env claims entry =
     (case entry of
        (key, Text required) \<Rightarrow>
          and_then (ok_or (Missing key required) (bt_get key claims)) (\<lambda>disclosed.
          guard_that (matches_text disclosed required)
            (Contradicts key required (render_value env disclosed)))
      | (key, Membership _) \<Rightarrow>
          (case split_once CHR '':'' key of
             None \<Rightarrow> Inl (Missing key ''membership'')
           | Some (name, member) \<Rightarrow>
               and_then (ok_or (Missing name member) (bt_get name claims)) (\<lambda>disclosed.
               guard_that (contains_member disclosed member)
                 (Contradicts name member (render_value env disclosed)))))"

fun check_entries ::
  "'e web_env_scheme \<Rightarrow> (string, Value) btree \<Rightarrow> (string \<times> TupleValue) list \<Rightarrow> Mismatch + unit" where
  "check_entries env claims [] = Inr ()"
| "check_entries env claims (entry # entries) =
     and_then (check_entry env claims entry) (\<lambda>_. check_entries env claims entries)"

definition check ::
  "('auth, 'cose) pic_env \<Rightarrow> (string, Value) btree \<Rightarrow> 'auth \<Rightarrow> Mismatch + unit" where
  "check env claims contract = check_entries env claims (contract_values env contract)"

definition conformance_reason ::
  "('auth, 'cose) pic_env \<Rightarrow> Accepted option \<Rightarrow> 'auth PicPcaPayload \<Rightarrow> Mismatch + unit" where
  "conformance_reason env accepted checkpoint =
     (case accepted_claims accepted of
        None \<Rightarrow> Inl SaysNothing
      | Some processed \<Rightarrow> check env (pe_claims processed) (context_of_authority checkpoint))"

definition conformance ::
  "('auth, 'cose) pic_env \<Rightarrow> Accepted option \<Rightarrow> 'auth PicPcaPayload \<Rightarrow> bool" where
  "conformance env accepted checkpoint = is_ok (conformance_reason env accepted checkpoint)"

definition request_binding :: "TransitionPayload \<Rightarrow> bool" where
  "request_binding transition = True"

subsection \<open>Checkpoints\<close>

record KeyManager =
  km_public_keys :: "key_error + Jwk list"
  km_active_key_id :: "key_error + string"
  km_sign :: "bytes \<Rightarrow> key_error + Signature"

definition directory_keys :: "key_env \<Rightarrow> DirectoryKeyManager \<Rightarrow> KeyStore \<Rightarrow> KeyManager" where
  "directory_keys kenv m st =
     \<lparr> km_public_keys = public_keys st, km_active_key_id = active_key_id st,
       km_sign = (\<lambda>data. fst (sign kenv m data st)) \<rparr>"

text \<open>An absent coordinate is serialized as \<open>null\<close>.\<close>

definition optional_string :: "string option \<Rightarrow> Value" where
  "optional_string v = (case v of Some s \<Rightarrow> JString s | None \<Rightarrow> Null)"

definition jwk_value :: "Jwk \<Rightarrow> Value" where
  "jwk_value jwk =
     JObject [(''crv'', optional_string (jwk_crv jwk)), (''kty'', JString (jwk_kty jwk)),
              (''x'', JString (jwk_x jwk)), (''y'', optional_string (jwk_y jwk))]"

definition verifies :: "('auth, 'cose) pic_env \<Rightarrow> 'cose \<Rightarrow> Jwk \<Rightarrow> bool" where
  "verifies env cose jwk =
     (case public_key_from_jwk env (jwk_value jwk) of
        Inl _ \<Rightarrow> False
      | Inr key \<Rightarrow> cose_verify_with env cose key)"

definition is_current_checkpoint :: "('auth, 'cose) pic_env \<Rightarrow> KeyManager \<Rightarrow> bytes \<Rightarrow> bool" where
  "is_current_checkpoint env keys exact_pca_bytes =
     (case cose_from_bytes env exact_pca_bytes of
        Inl _ \<Rightarrow> False
      | Inr cose \<Rightarrow>
          (case km_public_keys keys of
             Inl _ \<Rightarrow> False
           | Inr published \<Rightarrow>
               (let named = cose_kid env cose in
                list_ex (verifies env cose)
                  (filter (\<lambda>jwk. case named of None \<Rightarrow> True | Some k \<Rightarrow> jwk_kid jwk = k) published))))"

definition is_revoked :: "'auth PicPcaPayload \<Rightarrow> bytes \<Rightarrow> bool" where
  "is_revoked checkpoint exact_pca_bytes = False"

subsection \<open>The realm's signer\<close>

record RealmTokenSigner =
  rs_keys :: KeyManager
  rs_kid :: string
  rs_algorithm :: SigningAlgorithm
  rs_jose :: string

definition new_signer :: "KeyManager \<Rightarrow> string \<Rightarrow> ExchangeError + RealmTokenSigner" where
  "new_signer keys alg_name =
     and_then (if alg_name = ''EdDSA'' then Inr EdDSA
               else if alg_name = ''ES256'' then Inr ES256
               else Inl (server_error (InRequest (CannotSignWith alg_name)))) (\<lambda>algorithm.
     and_then (map_err (\<lambda>_. temporarily_unavailable (InRequest RingNotReady)) (km_active_key_id keys)) (\<lambda>k.
     Inr \<lparr> rs_keys = keys, rs_kid = k, rs_algorithm = algorithm, rs_jose = alg_name \<rparr>))"

definition realm_sign :: "RealmTokenSigner \<Rightarrow> bytes \<Rightarrow> CoseError + bytes" where
  "realm_sign s data =
     and_then (map_err InvalidKey (km_sign (rs_keys s) data)) (\<lambda>signature.
     and_then (guard_that (sig_algorithm signature = rs_jose s)
                (AlgorithmMismatch (rs_jose s) (sig_algorithm signature))) (\<lambda>_.
     and_then (guard_that (sig_key_id signature = rs_kid s) ActiveKeyChanged) (\<lambda>_.
     Inr (sig_bytes signature))))"

definition artifact_signer :: "RealmTokenSigner \<Rightarrow> ArtifactSigner" where
  "artifact_signer s =
     \<lparr> signer_kid = rs_kid s, signer_cose_algorithm = rs_algorithm s, signer_jws_algorithm = rs_jose s,
       signer_sign = realm_sign s \<rparr>"

section \<open>What conformance means\<close>

text \<open>A disclosed value agrees with a text when it is that text, or a collection that holds it.\<close>

definition agrees :: "Value \<Rightarrow> string \<Rightarrow> bool" where
  "agrees v text \<longleftrightarrow> v = JString text \<or> (\<exists>vs. v = JArray vs \<and> JString text \<in> set vs)"

fun satisfies :: "(string, Value) btree \<Rightarrow> string \<times> TupleValue \<Rightarrow> bool" where
  "satisfies claims (key, Text required) \<longleftrightarrow> (\<exists>v. bt_get key claims = Some v \<and> agrees v required)"
| "satisfies claims (key, Membership m) \<longleftrightarrow>
     (\<exists>name member v. split_once CHR '':'' key = Some (name, member)
        \<and> bt_get name claims = Some v \<and> agrees v member)"

section \<open>Lemmas\<close>

lemma matches_text_iff: "matches_text v t \<longleftrightarrow> agrees v t"
  by (auto simp: matches_text_def agrees_def list_ex_iff split: Value.splits)

lemma contains_member_iff: "contains_member v t \<longleftrightarrow> agrees v t"
  by (auto simp: contains_member_def agrees_def list_ex_iff split: Value.splits)

lemma check_entry_Inr_iff: "check_entry env claims entry = Inr u \<longleftrightarrow> satisfies claims entry"
  by (cases "(claims, entry)" rule: satisfies.cases)
    (auto simp: check_entry_def result_iffs matches_text_iff contains_member_iff split: option.splits)

lemma check_entries_Inr_iff:
  "check_entries env claims entries = Inr u \<longleftrightarrow> (\<forall>entry \<in> set entries. satisfies claims entry)"
  by (induction entries) (auto simp: result_iffs check_entry_Inr_iff)

lemma verifies_iff:
  "verifies env cose jwk \<longleftrightarrow>
   (\<exists>key. public_key_from_jwk env (jwk_value jwk) = Inr key \<and> cose_verify_with env cose key)"
  by (auto simp: verifies_def split: sum.splits)

lemma is_current_checkpoint_iff:
  "is_current_checkpoint env keys bytes \<longleftrightarrow>
   (\<exists>cose published jwk. cose_from_bytes env bytes = Inr cose \<and> km_public_keys keys = Inr published
      \<and> jwk \<in> set published \<and> cose_kid env cose \<in> {None, Some (jwk_kid jwk)} \<and> verifies env cose jwk)"
  by (cases "cose_from_bytes env bytes"; cases "km_public_keys keys";
      cases "cose_kid env (projr (cose_from_bytes env bytes))")
    (auto simp: is_current_checkpoint_def Let_def list_ex_iff)

lemma realm_sign_Inr:
  "realm_sign s data = Inr signature \<Longrightarrow>
   \<exists>made. km_sign (rs_keys s) data = Inr made \<and> sig_algorithm made = rs_jose s
     \<and> sig_key_id made = rs_kid s \<and> sig_bytes made = signature"
  by (auto simp: realm_sign_def result_iffs)

lemma conformance_iff:
  "conformance env accepted checkpoint \<longleftrightarrow>
   (\<exists>processed. accepted_claims accepted = Some processed
      \<and> (\<forall>entry \<in> set (contract_values env (context_of_authority checkpoint)).
           satisfies (pe_claims processed) entry))"
proof (cases "accepted_claims accepted")
  case (Some processed)
  have "is_ok r \<longleftrightarrow> (\<exists>u. r = Inr u)" for r :: "Mismatch + unit" by (cases r) auto
  with Some show ?thesis
    by (simp add: conformance_def conformance_reason_def check_def check_entries_Inr_iff)
qed (simp add: conformance_def conformance_reason_def)

section \<open>Properties\<close>

text \<open>
  C19: A workload conforms exactly when its evidence was accepted and the claims it disclosed cover the
  whole execution contract of the checkpoint: a text entry is disclosed with that value, or as a
  collection that holds it; a membership entry \<open>name:member\<close> is disclosed as \<open>name\<close>, being or holding
  the member. Partial disclosure never conforms.
\<close>

theorem conformance_exact:
  "conformance env accepted checkpoint \<longleftrightarrow>
   (\<exists>processed. accepted_claims accepted = Some processed
      \<and> (\<forall>entry \<in> set (contract_values env (context_of_authority checkpoint)).
           satisfies (pe_claims processed) entry))"
  by (rule conformance_iff)

text \<open>
  C20: Rotating the ring does not orphan a lineage. A checkpoint the realm accepts is still accepted
  after a maintenance pass, unless the key that verifies it stopped signing longer ago than the
  verification retention.
\<close>

theorem checkpoints_survive_rotation:
  assumes "ring_wf kenv st" "fresh_names kenv m st (ring_of st)"
    and "maintain kenv m now st = Some (Inr rep, st')"
    and "cose_from_bytes env bytes = Inr cose" "e \<in> set (ring_of st)"
    and "cose_kid env cose \<in> {None, Some (kid e)}" "verifies env cose (to_jwk e)"
    and "0 < seconds_verify_retained m" "now \<noteq> - 1"
    and "\<forall>t. retired_at e = Some t \<longrightarrow> now < saturating_add t (seconds_verify_retained m)"
  shows "is_current_checkpoint env (directory_keys kenv m st) bytes
    \<and> is_current_checkpoint env (directory_keys kenv m st') bytes"
proof -
  have jwk: "jwk_kid (to_jwk e) = kid e" for e
    by (auto simp: to_jwk_def okp_def ec_def split: RingAlgorithm.splits prod.splits)
  obtain e' where e': "e' \<in> set (ring_of st')" "kid e' = kid e" "to_jwk e' = to_jwk e"
    using pass_keeps_key [OF assms(1-3,5,8-10)] by blast
  have wf': "ring_wf kenv st'" using maintain_done [OF assms(1-3)] by metis
  have "is_current_checkpoint env (directory_keys kenv m s) bytes"
    if "ring_wf kenv s" "d \<in> set (ring_of s)" "to_jwk d = to_jwk e" for s d
  proof -
    have "to_jwk e \<in> to_jwk ` set (ring_of s)" using that(2,3) by (metis imageI)
    then show ?thesis
      unfolding is_current_checkpoint_iff directory_keys_def
      using wf_public_keys [OF that(1)] assms(4,6,7)
      by (intro exI [of _ cose] exI [of _ "map to_jwk (ring_of s)"] exI [of _ "to_jwk e"]) (simp add: jwk)
  qed
  from this [OF assms(1,5)] this [OF wf' e'(1,3)] show ?thesis by simp
qed

section \<open>A settlement procedure\<close>

text \<open>
  What the realm relies on: a settlement succeeds only when the realm, asked about the artifacts the
  candidate carries, said that the predecessor is its checkpoint and is not revoked, accepted the
  evidence of the transition, and found that the contract of the predecessor is met by what the
  validator then holds.
\<close>

definition settles_when_told :: "('auth, 'cose) pic_env \<Rightarrow> bool" where
  "settles_when_told env \<longleftrightarrow>
     (\<forall>authority token ctx acc issued acc'.
        settle env authority token ctx acc = (Inr issued, acc') \<longrightarrow>
        (\<exists>decoded root continuity_cose continuity transition_bytes transition_cose transition pca_cose pca.
           decode_token env token = Inr decoded \<and> tok_root_bytes decoded = Inr root
           \<and> cose_from_bytes env root = Inr continuity_cose
           \<and> continuity_payload env continuity_cose = Inr continuity
           \<and> cont_candidate_transition continuity = Inr transition_bytes
           \<and> cose_from_bytes env transition_bytes = Inr transition_cose
           \<and> transition_payload env transition_cose = Inr transition
           \<and> cose_from_bytes env (cont_root_pca continuity) = Inr pca_cose
           \<and> pca_payload env pca_cose = Inr pca
           \<and> sa_trusted authority (cont_root_pca continuity)
           \<and> \<not> sa_is_revoked authority pca (cont_root_pca continuity)
           \<and> is_ok (fst (sa_por authority (trans_por transition) acc))
           \<and> acc' = snd (sa_por authority (trans_por transition) acc)
           \<and> sa_conformance authority acc' pca))"

text \<open>A COSE object is its bytes here; the predecessor constrains the department.\<close>

type_synonym demo_authority = "(string \<times> TupleValue) list"

definition demo_pca :: "demo_authority PicPcaPayload" where
  "demo_pca = \<lparr> pca_position = 0, context_of_authority = [(''department'', Text ''docs'')],
     pca_challenge = [0], pca_lineage_id = Some ''L'', pca_expires_at = Some 2000 \<rparr>"

definition demo_next_pca :: "demo_authority PicPcaPayload" where
  "demo_next_pca = demo_pca\<lparr> pca_position := 1, pca_challenge := [1] \<rparr>"

definition demo_transition :: TransitionPayload where
  "demo_transition = \<lparr> trans_position = 1, trans_previous_challenge = [0], trans_next_challenge = [1],
     trans_por = demo_por \<rparr>"

definition demo_settle ::
  "demo_authority SettlementAuthority \<Rightarrow> string \<Rightarrow> SettlementContext \<Rightarrow> Accepted option
   \<Rightarrow> (string + demo_authority Issued) \<times> Accepted option" where
  "demo_settle authority token ctx acc =
     (case sa_por authority demo_por acc of
        (Inl _, acc) \<Rightarrow> (Inl ''evidence'', acc)
      | (Inr _, acc) \<Rightarrow>
          if sa_trusted authority [2] \<and> \<not> sa_is_revoked authority demo_pca [2]
             \<and> sa_conformance authority acc demo_pca
          then (case signer_sign (sa_realm authority) [9] of
                  Inl _ \<Rightarrow> (Inl ''signing'', acc)
                | Inr _ \<Rightarrow> (Inr \<lparr> issued_token = ''next'', issued_checkpoint = demo_next_pca \<rparr>, acc))
          else (Inl ''refused'', acc))"

definition demo_pic_env :: "(demo_authority, bytes) pic_env" where
  "demo_pic_env = \<lparr>
     json_from_slice = (\<lambda>b. if b = as_bytes ''t'' then Inr demo_token_payload else demo_json b),
     json_to_string = (\<lambda>_. ''json''), url_safe_encode = of_bytes,
     url_safe_decode = (\<lambda>s. Inr (as_bytes s)), web_sha256 = id,
     public_key_from_jwk = (\<lambda>_. Inr demo_verifier),
     expected_algorithms_for_jwk = (\<lambda>_. Inr \<lparr> expected_jose = ''EdDSA'', expected_cose = Some EdDSA \<rparr>),
     rsa_pkcs1_sha256_verify = (\<lambda>_ _ _. False),
     regex_new = (\<lambda>p. Inr (\<lambda>s. if s = p then Some [''id'' \<mapsto> ''42''] else None)),
     invariant_less = (\<lambda>x y. invariant_fields x < invariant_fields y),
     contract_values = id, cose_from_bytes = Inr, cose_kid = (\<lambda>_. Some ''b''),
     cose_algorithm = (\<lambda>_. Some EdDSA), cose_verify_with = (\<lambda>c key. key c (as_bytes ''s'')),
     pca_payload = (\<lambda>_. Inr demo_pca),
     continuity_payload = (\<lambda>_. Inr \<lparr> cont_candidate_transition = Inr [1], cont_root_pca = [2] \<rparr>),
     transition_payload = (\<lambda>_. Inr demo_transition),
     decode_token = (\<lambda>_. Inr \<lparr> tok_alg = ''EdDSA'', tok_root_bytes = Inr [3], tok_jti = Some ''L'',
                               tok_exp = Some 2000 \<rparr>),
     parse_proposal = (\<lambda>_. Inr [(''department'', One ''docs'')]),
     from_logical = (\<lambda>l. Inr [(''department'', Text ''docs'')]),
     issue_settled = (\<lambda>checkpoint s ctx.
        case signer_sign s [9] of
          Inl _ \<Rightarrow> Inl ''signing''
        | Inr _ \<Rightarrow> Inr \<lparr> issued_token = ''first'', issued_checkpoint = checkpoint \<rparr>),
     settle = demo_settle, accepted_type = ''sd-jwt'', TOKEN_TYPE_PIC = ''pic'',
     PROPOSAL_TYPE_CONTINUITY_INITIAL = ''initial'' \<rparr>"

lemma demo_settles_when_told: "settles_when_told demo_pic_env"
  by (auto simp: settles_when_told_def demo_pic_env_def demo_settle_def demo_transition_def
      split: prod.splits sum.splits if_splits)

lemma demo_verifies: "verifies demo_pic_env cose jwk"
  by (simp add: verifies_def demo_pic_env_def demo_verifier_def)

definition demo_accepted :: Accepted where
  "demo_accepted = \<lparr> accepted_evidence = por_evidence demo_por, accepted_jwk = demo_workload_jwk,
     accepted_processed = demo_processed \<rparr>"

lemma demo_conforms: "conformance demo_pic_env (Some demo_accepted) demo_pca"
  by (simp add: conformance_iff accepted_claims_def demo_accepted_def demo_processed_def demo_claims_def
      demo_pca_def demo_pic_env_def bt_get_def agrees_def)

theorem conformance_exact_witness:
  "conformance demo_pic_env (Some demo_accepted) demo_pca
   \<and> \<not> conformance demo_pic_env None demo_pca
   \<and> (\<exists>processed. accepted_claims (Some demo_accepted) = Some processed
        \<and> satisfies (pe_claims processed) (''department'', Text ''docs''))"
  using conformance_exact [of demo_pic_env "Some demo_accepted" demo_pca]
    conformance_exact [of demo_pic_env None demo_pca] demo_conforms
  by (simp add: accepted_claims_def demo_pic_env_def demo_pca_def)

theorem checkpoints_survive_rotation_witness:
  "\<exists>st'. maintain demo_env demo_manager 200 demo_store = Some (Inr demo_report, st')
     \<and> is_current_checkpoint demo_pic_env (directory_keys demo_env demo_manager st') [2]"
proof -
  let ?e = "demo_entry ''b'' Active 90 (Some 100) None"
  obtain st' where st': "maintain demo_env demo_manager 200 demo_store = Some (Inr demo_report, st')"
    by (rule demo_pass)
  have "cose_from_bytes demo_pic_env [2] = Inr [2]" "cose_kid demo_pic_env [2] \<in> {None, Some (kid ?e)}"
    by (simp_all add: demo_pic_env_def demo_entry_def)
  moreover have "?e \<in> set (ring_of demo_store)" by (simp add: demo_ring_of demo_keys_def)
  moreover have "0 < seconds_verify_retained demo_manager" by code_simp
  moreover have "(200 :: u64) \<noteq> - 1" by simp
  moreover have "\<forall>t. retired_at ?e = Some t \<longrightarrow> 200 < saturating_add t (seconds_verify_retained demo_manager)"
    by (simp add: demo_entry_def)
  ultimately show ?thesis
    using checkpoints_survive_rotation [OF demo_run st' _ _ _ demo_verifies] st' by blast
qed

end
