(* ===== verification/Exchange.thy ===== *)
theory Exchange
  imports Settlement AuditGuarantees
begin

text \<open>
  The token endpoint of \<open>crates/pic-x-realm/src/exchange.rs\<close>: the dispatch of a request, the initial
  exchange of an access token for a PIC Token, and the advancement of a PIC Token. The audit sink is a
  function of an event, a policy and the sink's state, and that state is threaded through every
  handler; what a request reads from its surroundings (the clocks, the random bytes) is the record
  \<open>surroundings\<close>, with a field per reading. Times are \<open>i64\<close> in the code: integers here, with the
  checked additions and the cast of the lifetime written out. The \<open>tracing\<close> lines are left out.

  The lemmas show that no token leaves without an audit record of it, on either path, that a rejected
  advancement is recorded too, that an advanced token rests on a checkpoint of this realm, accepted
  evidence and a satisfied contract, and what the expiry of a first token can be.
\<close>

section \<open>Definitions\<close>

definition GRANT_TOKEN_EXCHANGE :: string where
  "GRANT_TOKEN_EXCHANGE = ''urn:ietf:params:oauth:grant-type:token-exchange''"
definition TOKEN_TYPE_N_A :: string where "TOKEN_TYPE_N_A = ''N_A''"
definition MAX_REQUESTED_LIFETIME :: int where "MAX_REQUESTED_LIFETIME = 365 * 24 * 3600"

type_synonym 's realm = "(KeyManager, 's audit_sink, policy) Realm"

record 's TokenEndpoint =
  ep_realm :: "'s realm"
  ep_attester_keys :: AttesterKeyCache
  ep_idp_keys :: IdpKeyCache

record TokenExchangeResponse =
  access_token :: string
  issued_token_type :: string
  token_type :: string

record surroundings =
  monotonic_now :: instant
  clock_at_validation :: "int option"
  clock_at_issue :: "int option"
  random_challenge :: "bytes option"
  random_lineage :: "bytes option"

subsection \<open>Expiry\<close>

definition checked_add :: "int \<Rightarrow> int \<Rightarrow> int option" where
  "checked_add a b = (if in_i64 (a + b) then Some (a + b) else None)"

definition proposal_expiry ::
  "'e web_env_scheme \<Rightarrow> string \<Rightarrow> int \<Rightarrow> ExchangeError + int option" where
  "proposal_expiry env encoded now =
     and_then (map_err (\<lambda>e. invalid_request (InExpiry (ProposalNotBase64url e))) (url_safe_decode env encoded)) (\<lambda>bytes.
     and_then (map_err (\<lambda>e. invalid_request (InExpiry (ProposalNotJson e))) (json_from_slice env bytes)) (\<lambda>document.
     case value_get ''tokenExpiresAt'' document of
       Some v \<Rightarrow>
         (case as_i64 v of
            None \<Rightarrow> Inl (invalid_request (InExpiry BadTokenExpiresAt))
          | Some expires_at \<Rightarrow>
              and_then (guard_that (expires_at > now) (invalid_request (InExpiry BadTokenExpiresAt))) (\<lambda>_.
              and_then (guard_that (\<not> expires_at - now > MAX_REQUESTED_LIFETIME)
                         (invalid_request (InExpiry TokenExpiresTooFar))) (\<lambda>_.
              Inr (Some expires_at))))
     | None \<Rightarrow>
         (case value_get ''tokenLifetimeSeconds'' document of
            None \<Rightarrow> Inr None
          | Some v \<Rightarrow>
              (case as_i64 v of
                 None \<Rightarrow> Inl (invalid_request (InExpiry BadTokenLifetime))
               | Some seconds \<Rightarrow>
                   and_then (guard_that (seconds > 0) (invalid_request (InExpiry BadTokenLifetime))) (\<lambda>_.
                   and_then (guard_that (\<not> seconds > MAX_REQUESTED_LIFETIME)
                              (invalid_request (InExpiry TokenLifetimeTooLong))) (\<lambda>_.
                   and_then (ok_or (invalid_request (InExpiry TokenLifetimeOverflows)) (checked_add now seconds)) (\<lambda>e.
                   Inr (Some e))))))))"

definition initial_expiry ::
  "'e web_env_scheme \<Rightarrow> string \<Rightarrow> int option \<Rightarrow> int \<Rightarrow> u64 \<Rightarrow> TokenInitialExpiryPolicy
   \<Rightarrow> ExchangeError + int" where
  "initial_expiry env encoded source_expiry now default_lifetime policy =
     and_then (proposal_expiry env encoded now) (\<lambda>proposed.
     case proposed of
       Some e \<Rightarrow> Inr e
     | None \<Rightarrow>
         and_then (ok_or (invalid_request (InExpiry RealmLifetimeOverflows))
                    (checked_add now (sint default_lifetime))) (\<lambda>default_expiry.
         let expiry =
           (case source_expiry of
              Some source_expiry \<Rightarrow>
                (case policy of
                   Later \<Rightarrow> max source_expiry default_expiry
                 | Pic \<Rightarrow> default_expiry
                 | OAuth \<Rightarrow> source_expiry)
            | None \<Rightarrow> default_expiry)
         in and_then (guard_that (\<not> expiry \<le> now) (invalid_grant (InExpiry InitialExpiryPast))) (\<lambda>_.
            Inr expiry)))"

definition new_lineage_id :: "'e web_env_scheme \<Rightarrow> bytes option \<Rightarrow> ExchangeError + string" where
  "new_lineage_id env drawn =
     and_then (ok_or (server_error (InRequest NoLineageIdentifier)) drawn) (\<lambda>bytes.
     Inr (url_safe_encode env bytes))"

subsection \<open>The candidate\<close>

record CandidateMetadata =
  cand_lineage_id :: "string option"
  cand_expires_at :: int
  cand_proposed_position :: u64

definition require_cose_algorithm ::
  "string \<Rightarrow> SigningAlgorithm option \<Rightarrow> SigningAlgorithm \<Rightarrow> ExchangeError + unit" where
  "require_cose_algorithm label actual expected =
     (case actual of
        Some a \<Rightarrow> if a = expected then Inr () else Inl (invalid_grant (InCandidate (CoseAlgMismatch label)))
      | None \<Rightarrow> Inl (invalid_grant (InCandidate (CoseNoAlgorithm label))))"

definition require_matching_cose_kid :: "string option \<Rightarrow> string option \<Rightarrow> ExchangeError + unit" where
  "require_matching_cose_kid continuity_kid transition_kid =
     (case (continuity_kid, transition_kid) of
        (Some c, Some t) \<Rightarrow>
          if c = t then Inr () else Inl (invalid_grant (InCandidate (CoseKidMismatch c t)))
      | (None, _) \<Rightarrow> Inl (invalid_grant (InCandidate ContinuityNoKid))
      | (_, None) \<Rightarrow> Inl (invalid_grant (InCandidate TransitionNoKid)))"

text \<open>The artifacts of a candidate, decoded one after the other.\<close>

record ('auth, 'cose) candidate =
  cd_token :: DecodedToken
  cd_continuity_cose :: 'cose
  cd_continuity :: ContinuityPayload
  cd_transition_cose :: 'cose
  cd_transition :: TransitionPayload
  cd_predecessor :: "'auth PicPcaPayload"

definition undecodable :: "string \<Rightarrow> string + 'a \<Rightarrow> ExchangeError + 'a" where
  "undecodable what r = map_err (\<lambda>e. invalid_grant (InCandidate (CandidateUndecodable what e))) r"

definition decode_candidate ::
  "('auth, 'cose) pic_env \<Rightarrow> string \<Rightarrow> ExchangeError + ('auth, 'cose) candidate" where
  "decode_candidate env candidate_token =
     and_then (undecodable ''PIC Token JWT'' (decode_token env candidate_token)) (\<lambda>decoded.
     and_then (undecodable ''PIC Token JWT root'' (tok_root_bytes decoded)) (\<lambda>continuity_bytes.
     and_then (undecodable ''Continuity COSE'' (cose_from_bytes env continuity_bytes)) (\<lambda>continuity_cose.
     and_then (undecodable ''Continuity COSE payload'' (continuity_payload env continuity_cose)) (\<lambda>continuity.
     and_then (undecodable ''transition'' (cont_candidate_transition continuity)) (\<lambda>transition_bytes.
     and_then (undecodable ''Transition COSE'' (cose_from_bytes env transition_bytes)) (\<lambda>transition_cose.
     and_then (undecodable ''Transition COSE payload'' (transition_payload env transition_cose)) (\<lambda>transition.
     and_then (undecodable ''predecessor PCA COSE'' (cose_from_bytes env (cont_root_pca continuity))) (\<lambda>pca.
     and_then (undecodable ''predecessor PCA payload'' (pca_payload env pca)) (\<lambda>predecessor.
     Inr \<lparr> cd_token = decoded, cd_continuity_cose = continuity_cose, cd_continuity = continuity,
           cd_transition_cose = transition_cose, cd_transition = transition,
           cd_predecessor = predecessor \<rparr>)))))))))"

text \<open>The checks that follow once the evidence has been accepted.\<close>

definition check_candidate ::
  "('auth, 'cose) pic_env \<Rightarrow> ('auth, 'cose) candidate \<Rightarrow> ProcessedProfileEvidence
   \<Rightarrow> ExchangeError + CandidateMetadata" where
  "check_candidate env c processed =
     (let decoded = cd_token c; transition = cd_transition c; predecessor = cd_predecessor c in
      and_then (ok_or (invalid_grant (InCandidate NoCnfJwk))
                 (Option.bind (bt_get ''cnf'' (pe_claims processed)) (value_get ''jwk''))) (\<lambda>jwk.
      and_then (map_err (\<lambda>e. invalid_grant (InCandidate (CnfJwkUnusable e)))
                 (expected_algorithms_for_jwk env jwk)) (\<lambda>expected.
      and_then (guard_that (tok_alg decoded = expected_jose expected)
                 (invalid_grant (InCandidate (CandidateAlgMismatch (tok_alg decoded) (expected_jose expected))))) (\<lambda>_.
      and_then (ok_or (invalid_grant (InCandidate NoCoseAlgorithm)) (expected_cose expected)) (\<lambda>cose_alg.
      and_then (require_cose_algorithm ''candidate Continuity''
                 (cose_algorithm env (cd_continuity_cose c)) cose_alg) (\<lambda>_.
      and_then (require_cose_algorithm ''candidate Transition''
                 (cose_algorithm env (cd_transition_cose c)) cose_alg) (\<lambda>_.
      and_then (require_matching_cose_kid (cose_kid env (cd_continuity_cose c))
                 (cose_kid env (cd_transition_cose c))) (\<lambda>_.
      and_then (guard_that (trans_next_challenge transition \<noteq> trans_previous_challenge transition)
                 (invalid_grant (InCandidate ChallengeRepeats))) (\<lambda>_.
      and_then (case pca_lineage_id predecessor of
                  None \<Rightarrow> Inr ()
                | Some expected \<Rightarrow>
                    (case tok_jti decoded of
                       Some actual \<Rightarrow>
                         guard_that (actual = expected) (invalid_grant (InCandidate JtiMismatch))
                     | None \<Rightarrow> Inl (invalid_grant (InCandidate JtiMissing)))) (\<lambda>_.
      and_then (ok_or (invalid_grant (InCandidate PredecessorNoExpiry)) (pca_expires_at predecessor)) (\<lambda>expires_at.
      and_then (case tok_exp decoded of
                  Some exp \<Rightarrow> guard_that (exp = expires_at) (invalid_grant (InCandidate ExpMismatch))
                | None \<Rightarrow> Inl (invalid_grant (InCandidate ExpMissing))) (\<lambda>_.
      Inr \<lparr> cand_lineage_id = pca_lineage_id predecessor, cand_expires_at = expires_at,
            cand_proposed_position = trans_position transition \<rparr>))))))))))))"

definition preflight_candidate_key_metadata ::
  "('auth, 'cose) pic_env \<Rightarrow> string \<Rightarrow> SdJwtProfileValidator \<Rightarrow> Accepted option
   \<Rightarrow> (ExchangeError + CandidateMetadata) \<times> Accepted option" where
  "preflight_candidate_key_metadata env candidate_token profile_evidence accepted =
     (case decode_candidate env candidate_token of
        Inl e \<Rightarrow> (Inl e, accepted)
      | Inr c \<Rightarrow>
          if por_type (trans_por (cd_transition c)) \<noteq> accepted_type env
          then (Inl (invalid_grant (InCandidate (WrongProofType (accepted_type env)))), accepted)
          else (case validate_and_remember env profile_evidence (trans_por (cd_transition c)) accepted of
                  (Inl _, accepted) \<Rightarrow> (Inl (invalid_grant (InCandidate EvidenceRejected)), accepted)
                | (Inr processed, accepted) \<Rightarrow> (check_candidate env c processed, accepted)))"

subsection \<open>Audit\<close>

definition record_exchange :: "'s TokenEndpoint \<Rightarrow> AuditEvent \<Rightarrow> 's \<Rightarrow> (ExchangeError + unit) \<times> 's" where
  "record_exchange ep event s =
     (case audit (ep_realm ep) event (pseudonymizer (ep_realm ep)) s of
        (r, s) \<Rightarrow> (map_err (\<lambda>_. server_error (InRequest NotRecorded)) r, s))"

definition continuity_event :: "string \<Rightarrow> string \<Rightarrow> AuditEvent" where
  "continuity_event action subject = new_event action (Continuity subject)"

definition anonymous_event :: "string \<Rightarrow> AuditEvent" where
  "anonymous_event action = new_event action Anonymous"

definition rejected_event :: "string \<Rightarrow> string option \<Rightarrow> u64 option \<Rightarrow> AuditEvent" where
  "rejected_event realm lineage_id pos =
     (let event = on_target realm
            (case lineage_id of
               Some i \<Rightarrow> with_continuity_id i (continuity_event ''pic.exchange.rejected'' i)
             | None \<Rightarrow> anonymous_event ''pic.exchange.rejected'')
      in case pos of Some p \<Rightarrow> at_continuity_position p event | None \<Rightarrow> event)"

definition record_advancement_rejected ::
  "'s TokenEndpoint \<Rightarrow> string option \<Rightarrow> u64 option \<Rightarrow> 's \<Rightarrow> (ExchangeError + unit) \<times> 's" where
  "record_advancement_rejected ep lineage_id pos =
     record_exchange ep (rejected_event (realm_name (ep_realm ep)) lineage_id pos)"

text \<open>\<open>record_advancement_rejected(..).await?; return Err(error)\<close>.\<close>

definition reject_advancement ::
  "'s TokenEndpoint \<Rightarrow> string option \<Rightarrow> u64 option \<Rightarrow> ExchangeError \<Rightarrow> 's
   \<Rightarrow> (ExchangeError + 'a) \<times> 's" where
  "reject_advancement ep lineage_id pos e s =
     (case record_advancement_rejected ep lineage_id pos s of
        (Inl e', s) \<Rightarrow> (Inl e', s)
      | (Inr _, s) \<Rightarrow> (Inl e, s))"

definition token_response :: "('auth, 'cose) pic_env \<Rightarrow> 'auth Issued \<Rightarrow> TokenExchangeResponse" where
  "token_response env issued =
     \<lparr> access_token = issued_token issued, issued_token_type = TOKEN_TYPE_PIC env,
       token_type = TOKEN_TYPE_N_A \<rparr>"

definition realm_iss :: "'s realm \<Rightarrow> string" where
  "realm_iss r = (case realm_issuer r of Some iss \<Rightarrow> iss | None \<Rightarrow> mount_path r)"

subsection \<open>The initial exchange\<close>

text \<open>Everything up to the audit record: the profile, the lineage, the subject and what was issued.\<close>

definition issue_initial ::
  "('auth, 'cose) pic_env \<Rightarrow> 's TokenEndpoint \<Rightarrow> surroundings \<Rightarrow> string \<Rightarrow> (string, string) btree
   \<Rightarrow> ExchangeError + (ExchangeProfileConfig \<times> string \<times> string option \<times> 'auth Issued)" where
  "issue_initial env ep amb token form =
     (let r = ep_realm ep in
      and_then (require form ''continuity_proposal'') (\<lambda>proposal_value.
      and_then (guard_that (bt_get ''continuity_proposal_type'' form
                              \<in> {None, Some (PROPOSAL_TYPE_CONTINUITY_INITIAL env)})
                 (invalid_request (InRequest WrongProposalType))) (\<lambda>_.
      and_then (jwt_decode env token) (\<lambda>jwt.
      and_then (select_initial_profile (exchange_profiles r) jwt) (\<lambda>profile.
      and_then (validate_source_jwt env (idp_keys_for (ep_idp_keys ep) (monotonic_now amb))
                 (clock_at_validation amb) jwt profile) (\<lambda>_.
      and_then (map_authority env profile (jwt_payload jwt)) (\<lambda>mapped.
      and_then (map_err (\<lambda>e. invalid_request (InRequest (InvalidProposal e)))
                 (parse_proposal env proposal_value)) (\<lambda>contract.
      and_then (map_err (\<lambda>e. invalid_grant (InRequest (InvalidAuthority e)))
                 (from_logical env \<lparr> la_identity_context = mapped_identity_context mapped,
                                     la_invariants = mapped_invariants mapped,
                                     la_execution_contract = contract \<rparr>)) (\<lambda>authority.
      and_then (ok_or (server_error (InRequest NoChallenge)) (random_challenge amb)) (\<lambda>challenge.
      and_then (new_lineage_id env (random_lineage amb)) (\<lambda>lineage_id.
      and_then (unix_now (clock_at_issue amb)) (\<lambda>now.
      and_then (initial_expiry env proposal_value (claim_i64 jwt ''exp'') now
                 (token_lifetime r) (token_initial_expiry_policy r)) (\<lambda>expiry.
      let checkpoint = \<lparr> pca_position = 0, context_of_authority = authority, pca_challenge = challenge,
                         pca_lineage_id = Some lineage_id, pca_expires_at = Some expiry \<rparr> in
      and_then (ok_or (temporarily_unavailable (InRequest NoTokenRing)) (token_keys r)) (\<lambda>keys.
      and_then (new_signer keys (token_signing_algorithm r)) (\<lambda>s.
      and_then (map_err (\<lambda>e. server_error (InRequest (CannotIssue e)))
                 (issue_settled env checkpoint (artifact_signer s)
                   \<lparr> ctx_iss = realm_iss r, ctx_sub = claim_string jwt ''sub'', ctx_aud = None,
                     ctx_iat = Some now, ctx_exp = Some expiry, ctx_jti = Some lineage_id \<rparr>)) (\<lambda>issued.
      Inr (profile, lineage_id, claim_string jwt ''sub'', issued)))))))))))))))))"

definition initialized_event ::
  "ExchangeProfileConfig \<Rightarrow> string \<Rightarrow> string option \<Rightarrow> u64 \<Rightarrow> AuditEvent" where
  "initialized_event profile lineage_id sub pos =
     at_continuity_position pos (with_continuity_id lineage_id (on_target (profile_id profile)
       (new_event ''pic.exchange.initialized''
         (case sub of Some p \<Rightarrow> Principal p | None \<Rightarrow> Anonymous))))"

definition exchange_initial ::
  "('auth, 'cose) pic_env \<Rightarrow> 's TokenEndpoint \<Rightarrow> surroundings \<Rightarrow> string \<Rightarrow> (string, string) btree \<Rightarrow> 's
   \<Rightarrow> (ExchangeError + TokenExchangeResponse) \<times> 's" where
  "exchange_initial env ep amb token form s =
     (case issue_initial env ep amb token form of
        Inl e \<Rightarrow> (Inl e, s)
      | Inr (profile, lineage_id, sub, issued) \<Rightarrow>
          (case record_exchange ep
                  (initialized_event profile lineage_id sub (pca_position (issued_checkpoint issued))) s of
             (Inl e, s) \<Rightarrow> (Inl e, s)
           | (Inr _, s) \<Rightarrow> (Inr (token_response env issued), s)))"

subsection \<open>Advancement\<close>

definition profile_validator :: "'s TokenEndpoint \<Rightarrow> surroundings \<Rightarrow> int \<Rightarrow> SdJwtProfileValidator" where
  "profile_validator ep amb now =
     \<lparr> sv_attesters = trusted_attesters (ep_realm ep),
       sv_keys = attester_keys_for (ep_attester_keys ep) (monotonic_now amb), sv_now = now \<rparr>"

definition settlement_authority ::
  "('auth, 'cose) pic_env \<Rightarrow> SdJwtProfileValidator \<Rightarrow> KeyManager \<Rightarrow> RealmTokenSigner
   \<Rightarrow> 'auth SettlementAuthority" where
  "settlement_authority env v keys s =
     \<lparr> sa_trusted = is_current_checkpoint env keys, sa_por = validate env v,
       sa_is_revoked = is_revoked, sa_conformance = conformance env,
       sa_request_binding = request_binding, sa_realm = artifact_signer s \<rparr>"

definition advanced_event :: "string \<Rightarrow> string \<Rightarrow> u64 \<Rightarrow> AuditEvent" where
  "advanced_event realm lineage_id pos =
     at_continuity_position pos (with_continuity_id lineage_id (on_target realm
       (continuity_event ''pic.exchange.advanced'' lineage_id)))"

text \<open>What follows a settlement that succeeded: the audit record, then the answer.\<close>

definition release_advanced ::
  "('auth, 'cose) pic_env \<Rightarrow> 's TokenEndpoint \<Rightarrow> 'auth Issued \<Rightarrow> 's
   \<Rightarrow> (ExchangeError + TokenExchangeResponse) \<times> 's" where
  "release_advanced env ep issued s =
     (case pca_lineage_id (issued_checkpoint issued) of
        None \<Rightarrow> (Inl (server_error (InCandidate SettledNoLineage)), s)
      | Some lineage_id \<Rightarrow>
          (case record_exchange ep (advanced_event (realm_name (ep_realm ep)) lineage_id
                  (pca_position (issued_checkpoint issued))) s of
             (Inl e, s) \<Rightarrow> (Inl e, s)
           | (Inr _, s) \<Rightarrow> (Inr (token_response env issued), s)))"

definition advance ::
  "('auth, 'cose) pic_env \<Rightarrow> 's TokenEndpoint \<Rightarrow> surroundings \<Rightarrow> string \<Rightarrow> 's
   \<Rightarrow> (ExchangeError + TokenExchangeResponse) \<times> 's" where
  "advance env ep amb candidate_token s =
     (let r = ep_realm ep in
      case and_then (unix_now (clock_at_issue amb)) (\<lambda>now.
           and_then (ok_or (temporarily_unavailable (InRequest NoTokenRing)) (token_keys r)) (\<lambda>keys.
           and_then (new_signer keys (token_signing_algorithm r)) (\<lambda>sg. Inr (now, keys, sg)))) of
        Inl e \<Rightarrow> (Inl e, s)
      | Inr (now, keys, sg) \<Rightarrow>
          (let v = profile_validator ep amb now in
           case preflight_candidate_key_metadata env candidate_token v None of
             (Inl e, _) \<Rightarrow> reject_advancement ep None None e s
           | (Inr metadata, accepted) \<Rightarrow>
               (case cand_lineage_id metadata of
                  None \<Rightarrow>
                    reject_advancement ep None (Some (cand_proposed_position metadata))
                      (invalid_grant (InCandidate PredecessorNoLineage)) s
                | Some lineage_id \<Rightarrow>
                    if cand_expires_at metadata \<le> now
                    then reject_advancement ep (Some lineage_id) (Some (cand_proposed_position metadata))
                           (invalid_grant (InCandidate PredecessorExpired)) s
                    else
                      (case settle env (settlement_authority env v keys sg) candidate_token
                              \<lparr> ctx_iss = realm_iss r, ctx_sub = None, ctx_aud = None, ctx_iat = Some now,
                                ctx_exp = Some (cand_expires_at metadata), ctx_jti = Some lineage_id \<rparr> accepted of
                         (Inl e, _) \<Rightarrow>
                           reject_advancement ep (Some lineage_id) (Some (cand_proposed_position metadata))
                             (invalid_grant (InCandidate (CandidateRejected e))) s
                       | (Inr issued, _) \<Rightarrow> release_advanced env ep issued s))))"

subsection \<open>The endpoint\<close>

definition exchange ::
  "('auth, 'cose) pic_env \<Rightarrow> 's TokenEndpoint \<Rightarrow> surroundings \<Rightarrow> bytes \<Rightarrow> 's
   \<Rightarrow> (ExchangeError + TokenExchangeResponse) \<times> 's" where
  "exchange env ep amb body s =
     (case and_then (parse_form body) (\<lambda>form.
           and_then (require form ''grant_type'') (\<lambda>grant.
           and_then (guard_that (grant = GRANT_TOKEN_EXCHANGE)
                      (invalid_request (InRequest (UnsupportedGrantType grant)))) (\<lambda>_.
           and_then (guard_that (bt_get ''requested_token_type'' form \<in> {None, Some (TOKEN_TYPE_PIC env)})
                      (invalid_target (InRequest RequestedTokenType))) (\<lambda>_.
           and_then (require form ''subject_token_type'') (\<lambda>kind.
           and_then (require form ''subject_token'') (\<lambda>token.
           Inr (form, kind, token))))))) of
        Inl e \<Rightarrow> (Inl e, s)
      | Inr (form, kind, token) \<Rightarrow>
          if kind = OAUTH_ACCESS_TOKEN_TYPE then exchange_initial env ep amb token form s
          else if kind = TOKEN_TYPE_PIC env then
            if bt_contains ''continuity_proposal'' form \<or> bt_contains ''continuity_proposal_type'' form
            then (Inl (invalid_request (InRequest ProposalOnAdvancement)), s)
            else advance env ep amb token s
          else (Inl (unsupported_token_type (InRequest (UnsupportedSubjectTokenType kind))), s))"

section \<open>Lemmas\<close>

lemmas event_simps = initialized_event_def advanced_event_def rejected_event_def continuity_event_def
  anonymous_event_def new_event_def on_target_def with_continuity_id_def at_continuity_position_def

lemma record_exchange_Inr_iff:
  "record_exchange ep event s = (Inr u, s') \<longleftrightarrow>
   audit (ep_realm ep) event (pseudonymizer (ep_realm ep)) s = (Inr u, s')"
  by (auto simp: record_exchange_def result_iffs split: prod.splits)

lemma record_exchange_Inl:
  "record_exchange ep event s = (Inl e, s') \<Longrightarrow>
   e = server_error (InRequest NotRecorded)
   \<and> (\<exists>err. audit (ep_realm ep) event (pseudonymizer (ep_realm ep)) s = (Inl err, s'))"
  by (cases "audit (ep_realm ep) event (pseudonymizer (ep_realm ep)) s";
      cases "fst (audit (ep_realm ep) event (pseudonymizer (ep_realm ep)) s)")
    (auto simp: record_exchange_def)

lemma reject_advancement_not_Inr: "reject_advancement ep lineage_id pos e s \<noteq> (Inr r, s')"
  by (auto simp: reject_advancement_def split: prod.splits sum.splits)

lemma exchange_initial_Inr:
  assumes "exchange_initial env ep amb token form s = (Inr response, s')"
  obtains profile lineage_id sub issued where
    "issue_initial env ep amb token form = Inr (profile, lineage_id, sub, issued)"
    "audit (ep_realm ep) (initialized_event profile lineage_id sub (pca_position (issued_checkpoint issued)))
       (pseudonymizer (ep_realm ep)) s = (Inr (), s')"
    "response = token_response env issued"
  using assms
  by (auto simp: exchange_initial_def record_exchange_Inr_iff split: sum.splits prod.splits)

lemma release_advanced_Inr:
  assumes "release_advanced env ep issued s = (Inr response, s')"
  obtains lineage_id where "pca_lineage_id (issued_checkpoint issued) = Some lineage_id"
    "audit (ep_realm ep) (advanced_event (realm_name (ep_realm ep)) lineage_id
       (pca_position (issued_checkpoint issued))) (pseudonymizer (ep_realm ep)) s = (Inr (), s')"
    "response = token_response env issued"
  using assms
  by (auto simp: release_advanced_def record_exchange_Inr_iff split: sum.splits prod.splits option.splits)

lemma advance_Inr:
  assumes "advance env ep amb token s = (Inr response, s')"
  obtains now keys sg metadata accepted lineage_id issued accepted' where
    "clock_at_issue amb = Some now" "token_keys (ep_realm ep) = Some keys"
    "new_signer keys (token_signing_algorithm (ep_realm ep)) = Inr sg"
    "preflight_candidate_key_metadata env token (profile_validator ep amb now) None = (Inr metadata, accepted)"
    "cand_lineage_id metadata = Some lineage_id" "now < cand_expires_at metadata"
    "settle env (settlement_authority env (profile_validator ep amb now) keys sg) token
       \<lparr> ctx_iss = realm_iss (ep_realm ep), ctx_sub = None, ctx_aud = None, ctx_iat = Some now,
         ctx_exp = Some (cand_expires_at metadata), ctx_jti = Some lineage_id \<rparr> accepted
     = (Inr issued, accepted')"
    "release_advanced env ep issued s = (Inr response, s')"
  using assms unfolding advance_def Let_def
  by (auto simp: reject_advancement_not_Inr unix_now_def result_iffs
      split: sum.splits prod.splits option.splits if_splits intro!: that)

text \<open>The event a released token is recorded with.\<close>

definition released :: "('auth, 'cose) pic_env \<Rightarrow> TokenExchangeResponse \<Rightarrow> AuditEvent \<Rightarrow> bool" where
  "released env response event \<longleftrightarrow>
     (\<exists>issued. response = token_response env issued
        \<and> ev_continuity_position event = Some (pca_position (issued_checkpoint issued))
        \<and> ev_continuity_id event \<noteq> None
        \<and> (ev_action event = ''pic.exchange.initialized''
           \<or> ev_action event = ''pic.exchange.advanced''
             \<and> ev_continuity_id event = pca_lineage_id (issued_checkpoint issued)))"

lemma exchange_dispatch:
  assumes "exchange env ep amb body s = (Inr response, s')"
  obtains token form where "exchange_initial env ep amb token form s = (Inr response, s')"
  | token where "advance env ep amb token s = (Inr response, s')"
  using assms by (auto simp: exchange_def split: sum.splits if_splits)

lemma exchange_records:
  assumes "exchange env ep amb body s = (Inr response, s')"
  obtains event where "audit (ep_realm ep) event (pseudonymizer (ep_realm ep)) s = (Inr (), s')"
    "released env response event"
  using assms
proof (cases rule: exchange_dispatch)
  case (1 token form)
  then show thesis
    by (rule exchange_initial_Inr) (rule that, assumption, auto simp: released_def event_simps)
next
  case (2 token)
  then obtain issued where "release_advanced env ep issued s = (Inr response, s')" by (rule advance_Inr)
  then show thesis
    by (rule release_advanced_Inr) (rule that, assumption, auto simp: released_def event_simps)
qed

subsection \<open>The sink behind an exchange\<close>

context kept_sink
begin

lemma released_is_recorded:
  assumes "audit (ep_realm ep) = rec" "before s" "exchange env ep amb body s = (Inr response, s')"
  shows "\<exists>event. released env response event \<and> after event (pseudonymizer (ep_realm ep)) s'"
  using assms recorded_kept by (metis exchange_records)

end

subsection \<open>What preflight and settlement establish\<close>

lemma preflight_Inr:
  assumes "preflight_candidate_key_metadata env token v None = (Inr metadata, accepted)"
  obtains c key processed jwk where "decode_candidate env token = Inr c"
    "validate_evidence_with_key env v (trans_por (cd_transition c)) = Inr (key, processed, jwk)"
    "accepted = Some \<lparr> accepted_evidence = por_evidence (trans_por (cd_transition c)), accepted_jwk = jwk,
                       accepted_processed = processed \<rparr>"
    "check_candidate env c processed = Inr metadata"
  using assms unfolding preflight_candidate_key_metadata_def
  by (auto simp: validate_and_remember_def cached_for_def split: sum.splits if_splits prod.splits)

lemma check_candidate_Inr:
  assumes "check_candidate env c processed = Inr metadata"
  shows "cand_lineage_id metadata = pca_lineage_id (cd_predecessor c)"
    "pca_expires_at (cd_predecessor c) = Some (cand_expires_at metadata)"
    "tok_exp (cd_token c) = Some (cand_expires_at metadata)"
    "pca_lineage_id (cd_predecessor c) = Some l \<Longrightarrow> tok_jti (cd_token c) = Some l"
    "trans_next_challenge (cd_transition c) \<noteq> trans_previous_challenge (cd_transition c)"
    "\<exists>k. cose_kid env (cd_continuity_cose c) = Some k \<and> cose_kid env (cd_transition_cose c) = Some k"
  using assms unfolding check_candidate_def Let_def
  by (auto simp: result_iffs require_matching_cose_kid_def split: option.splits if_splits)

lemma decode_candidate_Inr:
  assumes "decode_candidate env token = Inr c"
  obtains root transition_bytes pca where "decode_token env token = Inr (cd_token c)"
    "tok_root_bytes (cd_token c) = Inr root" "cose_from_bytes env root = Inr (cd_continuity_cose c)"
    "continuity_payload env (cd_continuity_cose c) = Inr (cd_continuity c)"
    "cont_candidate_transition (cd_continuity c) = Inr transition_bytes"
    "cose_from_bytes env transition_bytes = Inr (cd_transition_cose c)"
    "transition_payload env (cd_transition_cose c) = Inr (cd_transition c)"
    "cose_from_bytes env (cont_root_pca (cd_continuity c)) = Inr pca"
    "pca_payload env pca = Inr (cd_predecessor c)"
  using assms unfolding decode_candidate_def undecodable_def by (auto simp: result_iffs)

text \<open>A settlement of a candidate that was decoded before asks about the same artifacts.\<close>

lemma settle_told:
  assumes "settles_when_told env" "decode_candidate env token = Inr c"
    and "settle env authority token ctx acc = (Inr issued, acc')"
  shows "sa_trusted authority (cont_root_pca (cd_continuity c))"
    "is_ok (fst (sa_por authority (trans_por (cd_transition c)) acc))"
    "sa_conformance authority (snd (sa_por authority (trans_por (cd_transition c)) acc)) (cd_predecessor c)"
proof -
  obtain decoded root continuity_cose continuity transition_bytes transition_cose transition
      pca_cose pca where
    told: "decode_token env token = Inr decoded" "tok_root_bytes decoded = Inr root"
      "cose_from_bytes env root = Inr continuity_cose" "continuity_payload env continuity_cose = Inr continuity"
      "cont_candidate_transition continuity = Inr transition_bytes"
      "cose_from_bytes env transition_bytes = Inr transition_cose"
      "transition_payload env transition_cose = Inr transition"
      "cose_from_bytes env (cont_root_pca continuity) = Inr pca_cose" "pca_payload env pca_cose = Inr pca"
      "sa_trusted authority (cont_root_pca continuity)"
      "is_ok (fst (sa_por authority (trans_por transition) acc))"
      "acc' = snd (sa_por authority (trans_por transition) acc)" "sa_conformance authority acc' pca"
    using assms(1) [unfolded settles_when_told_def, rule_format, OF assms(3)]
    by (elim exE conjE) (rule that; assumption)
  from assms(2) obtain root' transition_bytes' pca' where c: "decode_token env token = Inr (cd_token c)"
    "tok_root_bytes (cd_token c) = Inr root'" "cose_from_bytes env root' = Inr (cd_continuity_cose c)"
    "continuity_payload env (cd_continuity_cose c) = Inr (cd_continuity c)"
    "cont_candidate_transition (cd_continuity c) = Inr transition_bytes'"
    "cose_from_bytes env transition_bytes' = Inr (cd_transition_cose c)"
    "transition_payload env (cd_transition_cose c) = Inr (cd_transition c)"
    "cose_from_bytes env (cont_root_pca (cd_continuity c)) = Inr pca'"
    "pca_payload env pca' = Inr (cd_predecessor c)"
    by (rule decode_candidate_Inr)
  have "continuity = cd_continuity c" "transition = cd_transition c" "pca = cd_predecessor c"
    using told c by simp_all
  with told show "sa_trusted authority (cont_root_pca (cd_continuity c))"
    "is_ok (fst (sa_por authority (trans_por (cd_transition c)) acc))"
    "sa_conformance authority (snd (sa_por authority (trans_por (cd_transition c)) acc)) (cd_predecessor c)"
    by simp_all
qed

subsection \<open>Refusals\<close>

lemma release_advanced_Inl:
  assumes "release_advanced env ep issued s = (Inl e, s')"
  shows "e = server_error (InCandidate SettledNoLineage) \<and> s' = s
    \<or> (\<exists>event err. audit (ep_realm ep) event (pseudonymizer (ep_realm ep)) s = (Inl err, s')
         \<and> ev_action event = ''pic.exchange.advanced'' \<and> e = server_error (InRequest NotRecorded))"
proof (cases "pca_lineage_id (issued_checkpoint issued)")
  case (Some lineage_id)
  let ?event = "advanced_event (realm_name (ep_realm ep)) lineage_id (pca_position (issued_checkpoint issued))"
  have "record_exchange ep ?event s = (Inl e, s')"
    using assms Some by (auto simp: release_advanced_def split: prod.splits sum.splits)
  moreover have "ev_action ?event = ''pic.exchange.advanced''" by (simp add: event_simps)
  ultimately show ?thesis by (metis record_exchange_Inl)
qed (use assms in \<open>simp add: release_advanced_def\<close>)

lemma refusal_recorded:
  assumes "reject_advancement ep l p e0 s = (Inl e, s')"
  shows "\<exists>event r. audit (ep_realm ep) event (pseudonymizer (ep_realm ep)) s = (r, s')
         \<and> ev_action event = ''pic.exchange.rejected''
         \<and> (if is_ok r then e = e0 else e = server_error (InRequest NotRecorded))"
proof -
  let ?event = "rejected_event (realm_name (ep_realm ep)) l p"
  obtain r t where r: "audit (ep_realm ep) ?event (pseudonymizer (ep_realm ep)) s = (r, t)" by fastforce
  have "ev_action ?event = ''pic.exchange.rejected''"
    by (auto simp: event_simps Let_def split: option.splits)
  moreover have "t = s' \<and> (if is_ok r then e = e0 else e = server_error (InRequest NotRecorded))"
    using assms r by (cases r) (auto simp: reject_advancement_def record_advancement_rejected_def record_exchange_def)
  ultimately show ?thesis using r by blast
qed

text \<open>Every refusal of the preflight is an \<open>invalid_grant\<close>.\<close>

definition refuses_grant :: "ExchangeError + 'a \<Rightarrow> bool" where
  "refuses_grant r \<longleftrightarrow> (\<forall>e. r = Inl e \<longrightarrow> err_code e = ''invalid_grant'')"

lemma refuses_grant_intros:
  "refuses_grant (Inr x)"
  "refuses_grant (Inl (invalid_grant d))"
  "refuses_grant (guard_that c (invalid_grant d))"
  "refuses_grant (ok_or (invalid_grant d) v)"
  "refuses_grant (map_err (\<lambda>e. invalid_grant (f e)) t)"
  "refuses_grant r \<Longrightarrow> (\<And>x. refuses_grant (g x)) \<Longrightarrow> refuses_grant (and_then r g)"
  by (auto simp: refuses_grant_def invalid_grant_def guard_that_def ok_or_def map_err_def and_then_def
      split: option.splits sum.splits)

lemma err_code_invalid_grant [simp]: "err_code (invalid_grant d) = ''invalid_grant''"
  by (simp add: invalid_grant_def)

lemma decode_candidate_refuses: "refuses_grant (decode_candidate env token)"
  unfolding decode_candidate_def undecodable_def by (intro refuses_grant_intros)

lemma refuses_grant_cases:
  "refuses_grant (require_cose_algorithm label actual expected)"
  "refuses_grant (require_matching_cose_kid k l)"
  "(\<And>x. refuses_grant (f x)) \<Longrightarrow> refuses_grant (case v of None \<Rightarrow> Inr () | Some x \<Rightarrow> f x)"
  "refuses_grant (case w of Some x \<Rightarrow> guard_that (P x) (invalid_grant d) | None \<Rightarrow> Inl (invalid_grant d'))"
  by (auto simp: require_cose_algorithm_def require_matching_cose_kid_def
      intro: refuses_grant_intros split: option.splits)

lemma check_candidate_refuses: "refuses_grant (check_candidate env c processed)"
  unfolding check_candidate_def Let_def by (intro refuses_grant_intros refuses_grant_cases)

lemma preflight_invalid_grant:
  assumes "preflight_candidate_key_metadata env token v acc = (Inl e, acc')"
  shows "err_code e = ''invalid_grant''"
proof -
  have "refuses_grant (fst (preflight_candidate_key_metadata env token v acc))"
    using decode_candidate_refuses [of env token] check_candidate_refuses [of env]
    unfolding preflight_candidate_key_metadata_def
    by (auto intro: refuses_grant_intros simp: refuses_grant_def invalid_grant_def split: sum.splits prod.splits)
  with assms show ?thesis by (simp add: refuses_grant_def)
qed

text \<open>Once the realm can sign, an advancement ends in a refusal or in the release of what was settled.\<close>

lemma advance_outcome:
  assumes "clock_at_issue amb = Some now" "token_keys (ep_realm ep) = Some keys"
    and "new_signer keys (token_signing_algorithm (ep_realm ep)) = Inr sg"
  obtains (refused) l p e0 where "advance env ep amb token s = reject_advancement ep l p e0 s"
      "err_code e0 = ''invalid_grant''"
    | (settled) issued where "advance env ep amb token s = release_advanced env ep issued s"
proof -
  let ?v = "profile_validator ep amb now"
  obtain r acc where pre: "preflight_candidate_key_metadata env token ?v None = (r, acc)" by fastforce
  note adv = advance_def [of env ep amb token s, unfolded Let_def assms unix_now_def ok_or_simps
      and_then_simps sum.case prod.case pre]
  show thesis
  proof (cases r)
    case (Inl e0)
    with pre adv show thesis by (intro refused) (auto dest: preflight_invalid_grant)
  next
    case (Inr metadata)
    note adv = adv [unfolded Inr sum.case prod.case]
    show thesis
    proof (cases "\<exists>lineage_id. cand_lineage_id metadata = Some lineage_id \<and> now < cand_expires_at metadata")
      case False
      then show thesis using adv refused by (cases "cand_lineage_id metadata") (auto simp: not_less)
    next
      case True
      then obtain lineage_id where live: "cand_lineage_id metadata = Some lineage_id" "\<not> cand_expires_at metadata \<le> now"
        by auto
      obtain r' acc' where "settle env (settlement_authority env ?v keys sg) token
          \<lparr> ctx_iss = realm_iss (ep_realm ep), ctx_sub = None, ctx_aud = None, ctx_iat = Some now,
            ctx_exp = Some (cand_expires_at metadata), ctx_jti = Some lineage_id \<rparr> acc = (r', acc')" by fastforce
      note adv = adv [unfolded live(1) option.case if_not_P [OF live(2)] this prod.case]
      show thesis using adv by (cases r') (auto intro: refused settled)
    qed
  qed
qed

section \<open>Properties\<close>


text \<open>
  The endpoint fails closed. When the sink refuses what it is given, no request is answered with a
  token, whatever it carries.
\<close>

theorem exchange_fails_closed:
  assumes "\<And>event policy s. \<not> is_ok (fst (audit (ep_realm ep) event policy s))"
  shows "\<not> is_ok (fst (exchange env ep amb body s))"
proof
  assume "is_ok (fst (exchange env ep amb body s))"
  then obtain response s' where "exchange env ep amb body s = (Inr response, s')"
    by (cases "exchange env ep amb body s"; cases "fst (exchange env ep amb body s)") auto
  then obtain event where "audit (ep_realm ep) event (pseudonymizer (ep_realm ep)) s = (Inr (), s')"
    by (rule exchange_records)
  with assms [of event "pseudonymizer (ep_realm ep)" s] show False by simp
qed


text \<open>
  C2: An advanced token is grounded. When an advancement is answered with a token, the candidate's
  predecessor verifies under a key the realm publishes; it has not expired, and the candidate carries
  its expiry and its lineage; the transition moves the challenge on and both artifacts name one key;
  the evidence of the transition passes the whole validation; and the claims it disclosed cover the
  execution contract of the predecessor.
\<close>

theorem advanced_token_is_grounded:
  assumes "settles_when_told env" "advance env ep amb token s = (Inr response, s')"
  shows "\<exists>now keys c expiry lineage_id key processed jwk.
    clock_at_issue amb = Some now \<and> token_keys (ep_realm ep) = Some keys
    \<and> decode_candidate env token = Inr c
    \<and> is_current_checkpoint env keys (cont_root_pca (cd_continuity c))
    \<and> pca_expires_at (cd_predecessor c) = Some expiry \<and> now < expiry \<and> tok_exp (cd_token c) = Some expiry
    \<and> pca_lineage_id (cd_predecessor c) = Some lineage_id \<and> tok_jti (cd_token c) = Some lineage_id
    \<and> trans_next_challenge (cd_transition c) \<noteq> trans_previous_challenge (cd_transition c)
    \<and> cose_kid env (cd_continuity_cose c) = cose_kid env (cd_transition_cose c)
    \<and> validate_evidence_with_key env (profile_validator ep amb now) (trans_por (cd_transition c))
        = Inr (key, processed, jwk)
    \<and> (\<forall>entry \<in> set (contract_values env (context_of_authority (cd_predecessor c))).
         satisfies (pe_claims processed) entry)"
proof -
  from assms(2) obtain now keys sg metadata accepted lineage_id issued accepted' ctx where
    now: "clock_at_issue amb = Some now" "token_keys (ep_realm ep) = Some keys"
    and pre: "preflight_candidate_key_metadata env token (profile_validator ep amb now) None = (Inr metadata, accepted)"
    and live: "cand_lineage_id metadata = Some lineage_id" "now < cand_expires_at metadata"
    and settled: "settle env (settlement_authority env (profile_validator ep amb now) keys sg) token ctx accepted
      = (Inr issued, accepted')"
    by (rule advance_Inr) blast
  from pre obtain c key processed jwk where
    c: "decode_candidate env token = Inr c"
    and valid: "validate_evidence_with_key env (profile_validator ep amb now) (trans_por (cd_transition c))
      = Inr (key, processed, jwk)"
    and accepted: "accepted = Some \<lparr> accepted_evidence = por_evidence (trans_por (cd_transition c)),
      accepted_jwk = jwk, accepted_processed = processed \<rparr>"
    and checked: "check_candidate env c processed = Inr metadata"
    by (rule preflight_Inr)
  note told = settle_told [OF assms(1) c settled]
  note facts = check_candidate_Inr [OF checked]
  have "snd (validate env (profile_validator ep amb now) (trans_por (cd_transition c)) accepted) = accepted"
    by (simp add: validate_def cached_for_def accepted)
  then have "conformance env accepted (cd_predecessor c)"
    using told(3) by (simp add: settlement_authority_def)
  then have "\<forall>entry \<in> set (contract_values env (context_of_authority (cd_predecessor c))).
      satisfies (pe_claims processed) entry"
    by (simp add: conformance_iff accepted accepted_claims_def)
  moreover have "is_current_checkpoint env keys (cont_root_pca (cd_continuity c))"
    using told(1) by (simp add: settlement_authority_def)
  moreover have "cose_kid env (cd_continuity_cose c) = cose_kid env (cd_transition_cose c)"
    using facts(6) by auto
  ultimately show ?thesis
    using now c valid live facts by (metis option.inject)
qed

text \<open>
  C21: The expiry of a first token is always in the future. An expiry the client asked for is at most a
  year away and is used as it is; otherwise it is the realm's lifetime from now, the expiry of the
  source token, or the later of the two, as the realm's policy says, and the realm's lifetime when the
  source token has none.
\<close>

theorem initial_expiry_bounds:
  assumes "initial_expiry env encoded source_expiry now lifetime policy = Inr e"
  shows "now < e \<and>
    (proposal_expiry env encoded now = Inr (Some e) \<and> e \<le> now + 31536000
     \<or> proposal_expiry env encoded now = Inr None
       \<and> e = (case source_expiry of
                None \<Rightarrow> now + sint lifetime
              | Some source \<Rightarrow>
                  (case policy of
                     Later \<Rightarrow> max source (now + sint lifetime)
                   | Pic \<Rightarrow> now + sint lifetime
                   | OAuth \<Rightarrow> source)))"
proof -
  have proposed: "now < e' \<and> e' \<le> now + 31536000" if "proposal_expiry env encoded now = Inr (Some e')" for e'
    using that unfolding proposal_expiry_def
    by (auto simp: result_iffs checked_add_def MAX_REQUESTED_LIFETIME_def split: option.splits if_splits)
  from assms obtain proposed' where p: "proposal_expiry env encoded now = Inr proposed'"
    by (auto simp: initial_expiry_def result_iffs)
  show ?thesis
  proof (cases proposed')
    case (Some e')
    with assms p have "e' = e" by (simp add: initial_expiry_def)
    with proposed p Some show ?thesis by blast
  next
    case None
    from assms have "now < e \<and> e = (case source_expiry of
                None \<Rightarrow> now + sint lifetime
              | Some source \<Rightarrow>
                  (case policy of
                     Later \<Rightarrow> max source (now + sint lifetime)
                   | Pic \<Rightarrow> now + sint lifetime
                   | OAuth \<Rightarrow> source))"
      unfolding initial_expiry_def p None
      by (cases source_expiry; cases policy) (auto simp: result_iffs checked_add_def Let_def split: if_splits)
    with p None show ?thesis by simp
  qed
qed

text \<open>
  The realm's configured lifetime does not cap what a client asks for: whatever that lifetime and
  that policy are, an expiry the proposal names is the expiry of the token.
\<close>

theorem requested_expiry_is_not_capped:
  assumes "proposal_expiry env encoded now = Inr (Some e)"
  shows "\<forall>lifetime policy source_expiry. initial_expiry env encoded source_expiry now lifetime policy = Inr e"
  using assms by (simp add: initial_expiry_def)


subsection \<open>A realm at work\<close>

text \<open>The ring of the key lifecycle, with its private halves already read.\<close>

definition demo_ring :: KeyStore where
  "demo_ring = demo_store\<lparr> ks_signers := (\<lambda>_. Some (PairEd25519 [1])) \<rparr>"

definition demo_realm :: "'s audit_sink \<Rightarrow> 's realm" where
  "demo_realm sink =
     with_exchange_profiles [corporate_profile] (with_trusted_attesters [demo_attester]
       (new_realm ''acme'' ''/realms/acme'' None True None
         (Some (directory_keys demo_env demo_manager demo_ring)) sink None))"

definition demo_entry_of :: "Value list \<Rightarrow> CacheEntry" where
  "demo_entry_of keys = \<lparr> entry_keys = keys, fetched_at = 0, failed_since = None \<rparr>"

definition demo_endpoint :: "'s audit_sink \<Rightarrow> 's TokenEndpoint" where
  "demo_endpoint sink = \<lparr> ep_realm = demo_realm sink,
     ep_attester_keys = \<lparr> ak_attesters = [demo_attester], ak_serve_stale_for = 9,
                          ak_entries = [(''lab'', demo_entry_of [demo_key])] \<rparr>,
     ep_idp_keys = \<lparr> ik_profiles = [corporate_profile], ik_serve_stale_for = 9,
                     ik_entries = [(''corporate'', demo_entry_of [demo_key])] \<rparr> \<rparr>"

definition demo_surroundings :: surroundings where
  "demo_surroundings = \<lparr> monotonic_now = 5, clock_at_validation = Some 900, clock_at_issue = Some 900,
     random_challenge = Some [7], random_lineage = Some [76] \<rparr>"

definition demo_signer :: RealmTokenSigner where
  "demo_signer = \<lparr> rs_keys = directory_keys demo_env demo_manager demo_ring, rs_kid = ''b'',
     rs_algorithm = EdDSA, rs_jose = ''EdDSA'' \<rparr>"

lemma demo_new_signer: "new_signer (directory_keys demo_env demo_manager demo_ring) ''EdDSA'' = Inr demo_signer"
proof -
  have "active_key_id demo_ring = Inr ''b''" by code_simp
  then show ?thesis by (simp add: new_signer_def demo_signer_def directory_keys_def)
qed

lemma demo_signs: "\<exists>b. realm_sign demo_signer [9] = Inr b"
proof -
  have "active_key_id demo_ring = Inr ''b''" by code_simp
  then show ?thesis
    by (simp add: realm_sign_def demo_signer_def directory_keys_def sign_def signer_def demo_ring_def
        pair_sign_def demo_env_def ALGORITHM_def)
qed

lemma demo_codec_pic: "demo_codec demo_pic_env"
  by (simp add: demo_codec_def demo_pic_env_def)

lemmas demo_endpoint_defs = demo_endpoint_def demo_realm_def with_exchange_profiles_def
  with_trusted_attesters_def new_realm_def demo_surroundings_def DEFAULT_SIGNING_ALGORITHM_def

lemma demo_evidence_accepted:
  "validate_evidence_with_key demo_pic_env (profile_validator (demo_endpoint sink) demo_surroundings 900) demo_por
   = Inr (demo_verifier, demo_processed, demo_workload_jwk)"
  by (rule demo_validates [OF demo_codec_pic])
    (simp_all add: profile_validator_def demo_endpoint_defs attester_keys_for_def serve_entry_def
      demo_entry_of_def bt_get_def demo_attester_def)

definition demo_candidate :: "(demo_authority, bytes) candidate" where
  "demo_candidate = \<lparr>
     cd_token = \<lparr> tok_alg = ''EdDSA'', tok_root_bytes = Inr [3], tok_jti = Some ''L'', tok_exp = Some 2000 \<rparr>,
     cd_continuity_cose = [3],
     cd_continuity = \<lparr> cont_candidate_transition = Inr [1], cont_root_pca = [2] \<rparr>,
     cd_transition_cose = [1], cd_transition = demo_transition, cd_predecessor = demo_pca \<rparr>"

lemma demo_preflight:
  "preflight_candidate_key_metadata demo_pic_env token
     (profile_validator (demo_endpoint sink) demo_surroundings 900) None
   = (Inr \<lparr> cand_lineage_id = Some ''L'', cand_expires_at = 2000, cand_proposed_position = 1 \<rparr>,
      Some demo_accepted)"
proof -
  have "decode_candidate demo_pic_env token = Inr demo_candidate"
    by (simp add: decode_candidate_def undecodable_def demo_pic_env_def demo_candidate_def)
  moreover have "check_candidate demo_pic_env demo_candidate demo_processed
      = Inr \<lparr> cand_lineage_id = Some ''L'', cand_expires_at = 2000, cand_proposed_position = 1 \<rparr>"
    by (simp add: check_candidate_def demo_candidate_def demo_processed_def demo_claims_def bt_get_def
        demo_pic_env_def require_cose_algorithm_def require_matching_cose_kid_def demo_transition_def
        demo_pca_def Let_def)
  moreover have "trans_por (cd_transition demo_candidate) = demo_por" "por_type demo_por = accepted_type demo_pic_env"
    by (simp_all add: demo_candidate_def demo_transition_def demo_por_def demo_pic_env_def)
  ultimately show ?thesis
    by (simp add: preflight_candidate_key_metadata_def validate_and_remember_def cached_for_def
        demo_evidence_accepted demo_accepted_def)
qed

definition demo_response :: TokenExchangeResponse where
  "demo_response = \<lparr> access_token = ''next'', issued_token_type = ''pic'', token_type = ''N_A'' \<rparr>"

lemma demo_advances:
  assumes "sink (advanced_event ''acme'' ''L'' 1) None s = (Inr (), s')"
  shows "advance demo_pic_env (demo_endpoint sink) demo_surroundings ''c'' s = (Inr demo_response, s')"
proof -
  let ?ep = "demo_endpoint sink"
  let ?v = "profile_validator ?ep demo_surroundings 900"
  let ?keys = "directory_keys demo_env demo_manager demo_ring"
  have "snd (validate demo_pic_env ?v demo_por (Some demo_accepted)) = Some demo_accepted"
    "\<exists>k. fst (validate demo_pic_env ?v demo_por (Some demo_accepted)) = Inr k"
    by (simp_all add: validate_def cached_for_def demo_accepted_def rebuild_workload_key_def demo_pic_env_def)
  then obtain k where por: "validate demo_pic_env ?v demo_por (Some demo_accepted) = (Inr k, Some demo_accepted)"
    by (metis prod.collapse)
  have current: "is_current_checkpoint demo_pic_env ?keys [2]"
  proof -
    have "public_keys demo_ring = Inr (map to_jwk demo_keys)" by code_simp
    moreover have "jwk_kid (to_jwk (demo_entry ''b'' Active 90 (Some 100) None)) = ''b''"
      by (simp add: to_jwk_def demo_entry_def okp_def)
    ultimately show ?thesis
      unfolding is_current_checkpoint_iff
      by (intro exI [of _ "[2]"] exI [of _ "map to_jwk demo_keys"]
          exI [of _ "to_jwk (demo_entry ''b'' Active 90 (Some 100) None)"])
        (simp add: demo_verifies directory_keys_def demo_keys_def, simp add: demo_pic_env_def)
  qed
  have settled: "settle demo_pic_env (settlement_authority demo_pic_env ?v ?keys demo_signer) ''c'' ctx (Some demo_accepted)
      = (Inr \<lparr> issued_token = ''next'', issued_checkpoint = demo_next_pca \<rparr>, Some demo_accepted)" for ctx
  proof -
    obtain b where "realm_sign demo_signer [9] = Inr b" using demo_signs by blast
    then have "demo_settle (settlement_authority demo_pic_env ?v ?keys demo_signer) ''c'' ctx (Some demo_accepted)
      = (Inr \<lparr> issued_token = ''next'', issued_checkpoint = demo_next_pca \<rparr>, Some demo_accepted)"
      using por demo_conforms current
      by (simp add: demo_settle_def settlement_authority_def is_revoked_def artifact_signer_def)
    then show ?thesis by (simp add: demo_pic_env_def)
  qed
  have start: "clock_at_issue demo_surroundings = Some 900" "token_keys (ep_realm ?ep) = Some ?keys"
    "token_signing_algorithm (ep_realm ?ep) = ''EdDSA''" "audit (ep_realm ?ep) = sink"
    "pseudonymizer (ep_realm ?ep) = None" "realm_name (ep_realm ?ep) = ''acme''"
    by (simp_all add: demo_endpoint_defs)
  have "TOKEN_TYPE_PIC demo_pic_env = ''pic''" by (simp add: demo_pic_env_def)
  then have "release_advanced demo_pic_env ?ep \<lparr> issued_token = ''next'', issued_checkpoint = demo_next_pca \<rparr> s
      = (Inr demo_response, s')"
    using assms by (simp add: release_advanced_def record_exchange_def start demo_next_pca_def
        demo_pca_def token_response_def TOKEN_TYPE_N_A_def demo_response_def)
  then show ?thesis
    by (simp add: advance_def Let_def unix_now_def start demo_new_signer demo_preflight settled)
qed


lemma demo_advances_recording:
  "advance demo_pic_env (demo_endpoint recording_sink_record) demo_surroundings ''c'' []
   = (Inr demo_response, [(''pic.exchange.advanced'', ''L'')])"
  by (rule demo_advances) (simp add: recording_sink_record_def event_simps)

subsection \<open>Requests\<close>

definition demo_form :: "(string \<times> string) list" where
  "demo_form = [(''grant_type'', GRANT_TOKEN_EXCHANGE), (''subject_token'', ''c''), (''subject_token_type'', ''pic'')]"

definition demo_body :: bytes where
  "demo_body = as_bytes (render_form demo_form)"

lemma demo_parses: "parse_form demo_body = Inr demo_form"
proof -
  have "list_all2 sends demo_form demo_form"
    by (simp add: demo_form_def GRANT_TOKEN_EXCHANGE_def sends_plain plain_char_def)
  then have "parse_form demo_body = Inr (fold (\<lambda>(k, v). bt_insert k v) demo_form [])"
    unfolding demo_body_def by (rule parse_form_distinct) (simp add: demo_form_def)
  also have "fold (\<lambda>(k, v). bt_insert k v) demo_form [] = demo_form"
    by (simp add: demo_form_def)
  finally show ?thesis .
qed

lemma demo_exchange: "exchange demo_pic_env ep amb demo_body s = advance demo_pic_env ep amb ''c'' s"
  by (simp add: exchange_def demo_parses require_def demo_form_def bt_get_def bt_contains_def
      GRANT_TOKEN_EXCHANGE_def demo_pic_env_def OAUTH_ACCESS_TOKEN_TYPE_def)


theorem advanced_token_is_grounded_witness:
  "settles_when_told demo_pic_env
   \<and> (\<exists>c. decode_candidate demo_pic_env ''c'' = Inr c
        \<and> is_current_checkpoint demo_pic_env (directory_keys demo_env demo_manager demo_ring)
            (cont_root_pca (cd_continuity c)))"
proof -
  have "token_keys (ep_realm (demo_endpoint recording_sink_record)) = Some (directory_keys demo_env demo_manager demo_ring)"
    by (simp add: demo_endpoint_defs)
  with advanced_token_is_grounded [OF demo_settles_when_told demo_advances_recording] demo_settles_when_told
  show ?thesis by auto
qed

definition refusing_sink :: "nat audit_sink" where
  "refusing_sink event policy s = (Inl (AuditUnavailable ''full''), Suc s)"

theorem exchange_fails_closed_witness:
  "\<not> is_ok (fst (exchange demo_pic_env (demo_endpoint refusing_sink) demo_surroundings demo_body 0))"
  by (rule exchange_fails_closed) (simp add: demo_endpoint_defs refusing_sink_def)


definition late_surroundings :: surroundings where
  "late_surroundings = demo_surroundings\<lparr> clock_at_issue := Some 3000 \<rparr>"

lemma late_refused:
  obtains e s' where "advance demo_pic_env (demo_endpoint sink) late_surroundings ''c'' s = (Inl e, s')"
proof (cases "advance demo_pic_env (demo_endpoint sink) late_surroundings ''c'' s")
  case (Pair r s')
  show thesis
  proof (cases r)
    case (Inr response)
    with Pair obtain metadata accepted where
      pre: "preflight_candidate_key_metadata demo_pic_env ''c''
        (profile_validator (demo_endpoint sink) late_surroundings 3000) None = (Inr metadata, accepted)"
      and late: "3000 < cand_expires_at metadata"
      by (auto simp: late_surroundings_def elim!: advance_Inr)
    from pre obtain c processed where "decode_candidate demo_pic_env ''c'' = Inr c"
      "check_candidate demo_pic_env c processed = Inr metadata" by (rule preflight_Inr)
    moreover from this(1) have "cd_predecessor c = demo_pca"
      by (rule decode_candidate_Inr) (simp add: demo_pic_env_def)
    ultimately have "cand_expires_at metadata = 2000"
      using check_candidate_Inr(2) [of demo_pic_env c processed metadata] by (simp add: demo_pca_def)
    with late show thesis by simp
  qed (use Pair that in blast)
qed


definition asking :: "(string \<times> Value) list \<Rightarrow> (demo_authority, bytes) pic_env" where
  "asking members = demo_pic_env\<lparr> json_from_slice := (\<lambda>_. Inr (JObject members)) \<rparr>"

lemma asking_a_year: "proposal_expiry (asking [(''tokenLifetimeSeconds'', Integer 31536000)]) ''p'' 100 = Inr (Some 31536100)"
  by (simp add: proposal_expiry_def asking_def demo_pic_env_def bt_get_def as_i64_def in_i64_def i64_min_def
      i64_max_def MAX_REQUESTED_LIFETIME_def checked_add_def)

lemma asking_nothing:
  "initial_expiry (asking []) ''p'' (Some 5000) 100 3600 Later = Inr 5000"
  by (simp add: initial_expiry_def proposal_expiry_def asking_def demo_pic_env_def bt_get_def checked_add_def
      in_i64_def i64_min_def i64_max_def)

theorem initial_expiry_bounds_witness:
  "initial_expiry (asking []) ''p'' (Some 5000) 100 3600 Later = Inr 5000 \<and> (100 :: int) < 5000"
  using initial_expiry_bounds [OF asking_nothing] asking_nothing by blast

theorem requested_expiry_is_not_capped_witness:
  "initial_expiry (asking [(''tokenLifetimeSeconds'', Integer 31536000)]) ''p'' None 100 3600 Pic = Inr 31536100"
  using requested_expiry_is_not_capped [OF asking_a_year] by blast

end
