(* ===== verification/Limits.thy ===== *)
theory Limits
  imports Decimal Strings
begin

text \<open>
  \<open>crates/pic-x-core/src/limits.rs\<close>: what a surface refuses to spend on one client, and the address
  blocks that are exempt from the bound per address. Counts are \<open>u32\<close> and sizes \<open>usize\<close> (64 bits);
  durations are \<open>u64\<close> seconds, as every duration of the configuration is. The parser of \<open>IpAddr\<close> in the
  standard library is the argument \<open>parse_ip\<close>.

  The lemmas show that a block that was parsed contains exactly the addresses of its family that
  agree with it on the first \<open>prefix\<close> bits.
\<close>

unbundle bit_operations_syntax

section \<open>Definitions\<close>

definition DEFAULT_CONNECTIONS :: u32 where "DEFAULT_CONNECTIONS = 1024"
definition DEFAULT_CONNECTIONS_PER_PEER :: u32 where "DEFAULT_CONNECTIONS_PER_PEER = 256"
definition DEFAULT_WRITE_STALL_TIMEOUT :: u64 where "DEFAULT_WRITE_STALL_TIMEOUT = 30"
definition DEFAULT_CONCURRENT_REQUESTS :: u32 where "DEFAULT_CONCURRENT_REQUESTS = 256"
definition DEFAULT_REQUEST_TIMEOUT :: u64 where "DEFAULT_REQUEST_TIMEOUT = 30"
definition DEFAULT_HANDSHAKE_TIMEOUT :: u64 where "DEFAULT_HANDSHAKE_TIMEOUT = 10"
definition DEFAULT_HEADER_TIMEOUT :: u64 where "DEFAULT_HEADER_TIMEOUT = 10"
definition DEFAULT_BODY_BYTES :: u64 where "DEFAULT_BODY_BYTES = 1024 * 1024"
definition DEFAULT_HEADER_BYTES :: u64 where "DEFAULT_HEADER_BYTES = 64 * 1024"

datatype IpAddr = V4 u32 | V6 "128 word"

record PeerBlock =
  block_address :: IpAddr
  block_prefix :: "8 word"

record Limits =
  limit_connections :: u32
  limit_connections_per_peer :: u32
  limit_peer_exempt :: "PeerBlock list"
  limit_concurrent_requests :: u32
  limit_request_timeout :: u64
  limit_handshake_timeout :: u64
  limit_header_timeout :: u64
  limit_body_bytes :: u64
  limit_header_bytes :: u64
  limit_connection_lifetime :: "u64 option"
  limit_write_stall_timeout :: u64

definition default_limits :: Limits where
  "default_limits = \<lparr>
     limit_connections = DEFAULT_CONNECTIONS,
     limit_connections_per_peer = DEFAULT_CONNECTIONS_PER_PEER,
     limit_peer_exempt = [],
     limit_concurrent_requests = DEFAULT_CONCURRENT_REQUESTS,
     limit_request_timeout = DEFAULT_REQUEST_TIMEOUT,
     limit_handshake_timeout = DEFAULT_HANDSHAKE_TIMEOUT,
     limit_header_timeout = DEFAULT_HEADER_TIMEOUT,
     limit_body_bytes = DEFAULT_BODY_BYTES,
     limit_header_bytes = DEFAULT_HEADER_BYTES,
     limit_connection_lifetime = None,
     limit_write_stall_timeout = DEFAULT_WRITE_STALL_TIMEOUT \<rparr>"

definition with_connections :: "u32 \<Rightarrow> Limits \<Rightarrow> Limits" where
  "with_connections n l = l\<lparr> limit_connections := n \<rparr>"
definition with_connections_per_peer :: "u32 \<Rightarrow> Limits \<Rightarrow> Limits" where
  "with_connections_per_peer n l = l\<lparr> limit_connections_per_peer := n \<rparr>"
definition with_peer_exempt :: "PeerBlock list \<Rightarrow> Limits \<Rightarrow> Limits" where
  "with_peer_exempt bs l = l\<lparr> limit_peer_exempt := bs \<rparr>"
definition with_connection_lifetime :: "u64 option \<Rightarrow> Limits \<Rightarrow> Limits" where
  "with_connection_lifetime d l = l\<lparr> limit_connection_lifetime := d \<rparr>"
definition with_write_stall_timeout :: "u64 \<Rightarrow> Limits \<Rightarrow> Limits" where
  "with_write_stall_timeout d l = l\<lparr> limit_write_stall_timeout := d \<rparr>"
definition with_concurrent_requests :: "u32 \<Rightarrow> Limits \<Rightarrow> Limits" where
  "with_concurrent_requests n l = l\<lparr> limit_concurrent_requests := n \<rparr>"
definition with_request_timeout :: "u64 \<Rightarrow> Limits \<Rightarrow> Limits" where
  "with_request_timeout d l = l\<lparr> limit_request_timeout := d \<rparr>"
definition with_handshake_timeout :: "u64 \<Rightarrow> Limits \<Rightarrow> Limits" where
  "with_handshake_timeout d l = l\<lparr> limit_handshake_timeout := d \<rparr>"
definition with_header_timeout :: "u64 \<Rightarrow> Limits \<Rightarrow> Limits" where
  "with_header_timeout d l = l\<lparr> limit_header_timeout := d \<rparr>"
definition with_body_bytes :: "u64 \<Rightarrow> Limits \<Rightarrow> Limits" where
  "with_body_bytes n l = l\<lparr> limit_body_bytes := n \<rparr>"
definition with_header_bytes :: "u64 \<Rightarrow> Limits \<Rightarrow> Limits" where
  "with_header_bytes n l = l\<lparr> limit_header_bytes := n \<rparr>"

subsection \<open>Address blocks\<close>

text \<open>\<open>MAX << (size - width)\<close>, or nothing for a width of zero, which the shift cannot express.\<close>

definition block_mask :: "nat \<Rightarrow> 'l::len word" where
  "block_mask width = (if width = 0 then 0 else push_bit (LENGTH('l) - width) (- 1))"

definition block_contains :: "PeerBlock \<Rightarrow> IpAddr \<Rightarrow> bool" where
  "block_contains b address =
     (let width = unat (block_prefix b) in
      case (block_address b, address) of
        (V4 block, V4 candidate) \<Rightarrow> block AND block_mask width = candidate AND block_mask width
      | (V6 block, V6 candidate) \<Rightarrow> block AND block_mask width = candidate AND block_mask width
      | _ \<Rightarrow> False)"

datatype block_problem = NotAnAddress | PrefixNotANumber | PrefixTooWide

record InvalidPeerBlock =
  invalid_written :: string
  invalid_detail :: block_problem

fun ip_width :: "IpAddr \<Rightarrow> nat" where
  "ip_width (V4 _) = 32"
| "ip_width (V6 _) = 128"

definition parse_peer_block :: "(string \<Rightarrow> IpAddr option) \<Rightarrow> string \<Rightarrow> InvalidPeerBlock + PeerBlock" where
  "parse_peer_block parse_ip written =
     (let written = trim written;
          (address, prefix) =
            (case split_once CHR ''/'' written of
               Some (address, prefix) \<Rightarrow> (address, Some prefix)
             | None \<Rightarrow> (written, None));
          invalid = (\<lambda>detail. \<lparr> invalid_written = written, invalid_detail = detail \<rparr>) in
      and_then (ok_or (invalid NotAnAddress) (parse_ip address)) (\<lambda>address.
      let width = ip_width address in
      and_then
        (case prefix of
           None \<Rightarrow> Inr width
         | Some prefix \<Rightarrow>
             and_then (ok_or (invalid PrefixNotANumber) (parse_unsigned 8 prefix)) (\<lambda>prefix.
             and_then (guard_that (\<not> prefix > width) (invalid PrefixTooWide)) (\<lambda>_. Inr prefix))) (\<lambda>prefix.
      Inr \<lparr> block_address = address, block_prefix = of_nat prefix \<rparr>)))"

definition is_peer_exempt :: "Limits \<Rightarrow> IpAddr \<Rightarrow> bool" where
  "is_peer_exempt l address \<longleftrightarrow> list_ex (\<lambda>block. block_contains block address) (limit_peer_exempt l)"

section \<open>What a block means\<close>

text \<open>The bits of an address, the most significant first, and the addresses a block stands for.\<close>

fun ip_bits :: "IpAddr \<Rightarrow> bool list" where
  "ip_bits (V4 w) = map (\<lambda>i. bit w (31 - i)) [0..<32]"
| "ip_bits (V6 w) = map (\<lambda>i. bit w (127 - i)) [0..<128]"

definition in_block :: "PeerBlock \<Rightarrow> IpAddr \<Rightarrow> bool" where
  "in_block b address \<longleftrightarrow>
     ip_width (block_address b) = ip_width address
     \<and> take (unat (block_prefix b)) (ip_bits (block_address b)) = take (unat (block_prefix b)) (ip_bits address)"

section \<open>Lemmas\<close>

lemma bit_block_mask:
  fixes n :: nat
  assumes "width \<le> LENGTH('l::len)"
  shows "bit (block_mask width :: 'l word) n \<longleftrightarrow> LENGTH('l) - width \<le> n \<and> n < LENGTH('l)"
  using assms by (auto simp: block_mask_def bit_simps)

lemma masked_eq_iff:
  fixes a b :: "'l::len word"
  assumes "width \<le> LENGTH('l)"
  shows "a AND block_mask width = b AND block_mask width
    \<longleftrightarrow> (\<forall>i < width. bit a (LENGTH('l) - 1 - i) = bit b (LENGTH('l) - 1 - i))"
proof
  assume eq: "a AND block_mask width = b AND block_mask width"
  show "\<forall>i < width. bit a (LENGTH('l) - 1 - i) = bit b (LENGTH('l) - 1 - i)"
  proof (intro allI impI)
    fix i assume i: "i < width"
    have "bit (block_mask width :: 'l word) (LENGTH('l) - 1 - i)"
      using assms i by (simp add: bit_block_mask)
    with arg_cong [where f = "\<lambda>w. bit w (LENGTH('l) - 1 - i)", OF eq]
    show "bit a (LENGTH('l) - 1 - i) = bit b (LENGTH('l) - 1 - i)" by (simp add: bit_and_iff)
  qed
next
  assume agree: "\<forall>i < width. bit a (LENGTH('l) - 1 - i) = bit b (LENGTH('l) - 1 - i)"
  show "a AND block_mask width = b AND block_mask width"
  proof (rule bit_eqI)
    fix n assume "possible_bit TYPE('l word) n"
    then have n: "n < LENGTH('l)" by simp
    show "bit (a AND block_mask width) n = bit (b AND block_mask width) n"
    proof (cases "LENGTH('l) - width \<le> n")
      case True
      with n have "LENGTH('l) - 1 - n < width" "LENGTH('l) - 1 - (LENGTH('l) - 1 - n) = n" by auto
      with agree have "bit a n = bit b n" by metis
      then show ?thesis by (simp add: bit_and_iff)
    qed (use assms in \<open>simp add: bit_and_iff bit_block_mask\<close>)
  qed
qed

lemma take_map_upt_eq_iff:
  "n \<le> m \<Longrightarrow> take n (map f [0..<m]) = take n (map g [0..<m]) \<longleftrightarrow> (\<forall>i < n. f i = g i)"
  by (auto simp: take_map take_upt map_eq_conv)

lemma block_contains_iff:
  assumes "unat (block_prefix b) \<le> ip_width (block_address b)"
  shows "block_contains b address \<longleftrightarrow> in_block b address"
  using assms
  by (cases "block_address b"; cases address)
    (simp_all add: block_contains_def in_block_def masked_eq_iff take_map_upt_eq_iff)

lemma parse_peer_block_prefix:
  assumes "parse_peer_block parse_ip written = Inr b"
  shows "unat (block_prefix b) \<le> ip_width (block_address b)"
proof -
  have fits: "unat (of_nat n :: 8 word) \<le> w" if "n \<le> w" for n w
    using that by (simp add: unat_of_nat order.trans [OF mod_less_eq_dividend])
  show ?thesis using assms unfolding parse_peer_block_def
    by (auto simp: result_iffs Let_def not_less intro: fits split: prod.splits option.splits)
qed

section \<open>Properties\<close>

text \<open>
  A block a deployment wrote contains exactly what it says: the addresses of its own family that
  agree with it on the first \<open>prefix\<close> bits, for every prefix from the whole family to one address.
\<close>

theorem peer_block_exact:
  assumes "parse_peer_block parse_ip written = Inr b"
  shows "block_contains b address \<longleftrightarrow> in_block b address"
  using block_contains_iff [OF parse_peer_block_prefix [OF assms]] .

definition demo_ip :: "string \<Rightarrow> IpAddr option" where
  "demo_ip s = (if s = ''10.0.0.0'' then Some (V4 0x0A000000) else None)"

lemma demo_block: "parse_peer_block demo_ip '' 10.0.0.0/8'' = Inr \<lparr> block_address = V4 0x0A000000, block_prefix = 8 \<rparr>"
  by code_simp

theorem peer_block_exact_witness:
  "block_contains \<lparr> block_address = V4 0x0A000000, block_prefix = 8 \<rparr> (V4 0x0AFF0102)
   \<and> \<not> block_contains \<lparr> block_address = V4 0x0A000000, block_prefix = 8 \<rparr> (V4 0x0B000001)"
  unfolding peer_block_exact [OF demo_block] by code_simp

end
