(* ===== verification/Admission.thy ===== *)
theory Admission
  imports Limits
begin

text \<open>
  \<open>crates/pic-x-transport/src/guard.rs\<close>: admission of connections to one surface. The semaphore is the
  number of permits left, the map of addresses and the atomic counters are fields of the acceptor, and a
  guard that is dropped is an operation on it. Metrics and log lines are left out; the mutex is never
  poisoned; instants and durations of the timers are natural numbers of one unit.

  \<open>accept\<close> is the whole synchronous part of the method. Connections are accepted and dropped on many
  threads, so \<open>step\<close> cuts it at its atomic operations (the semaphore, the map under its lock, the
  counter) and lets the connections interleave, a drop returning its three guards in any order. The
  invariant of \<open>step\<close> gives the bounds at every moment, and \<open>accept\<close> is shown to be one of its runs.
\<close>

section \<open>Definitions\<close>

record PeerHeld =
  peer_held :: u32
  peer_warned :: bool

record LimitedAcceptor =
  acc_permits :: nat
  acc_peers :: "IpAddr \<Rightarrow> PeerHeld option"
  acc_limits :: Limits
  acc_saturated :: bool
  acc_capacity :: u32
  acc_held :: int

definition new_acceptor :: "Limits \<Rightarrow> LimitedAcceptor" where
  "new_acceptor limits =
     \<lparr> acc_permits = unat (limit_connections limits), acc_peers = Map.empty, acc_limits = limits,
       acc_saturated = False, acc_capacity = limit_connections limits, acc_held = 0 \<rparr>"

definition admit_peer :: "LimitedAcceptor \<Rightarrow> IpAddr option \<Rightarrow> (unit + IpAddr option) \<times> LimitedAcceptor" where
  "admit_peer acc address =
     (let bound = limit_connections_per_peer (acc_limits acc) in
      case address of
        None \<Rightarrow> (Inr None, acc)
      | Some a \<Rightarrow>
          if bound = 0 \<or> is_peer_exempt (acc_limits acc) a then (Inr None, acc)
          else
            (let entry = (case acc_peers acc a of
                            Some entry \<Rightarrow> entry
                          | None \<Rightarrow> \<lparr> peer_held = 0, peer_warned = False \<rparr>) in
             if peer_held entry \<ge> bound
             then (Inl (), acc\<lparr> acc_peers := (acc_peers acc)(a \<mapsto> entry\<lparr> peer_warned := True \<rparr>) \<rparr>)
             else (Inr (Some a),
                   acc\<lparr> acc_peers := (acc_peers acc)(a \<mapsto> entry\<lparr> peer_held := peer_held entry + 1 \<rparr>) \<rparr>)))"

subsection \<open>The guards of a connection\<close>

definition drop_permit :: "LimitedAcceptor \<Rightarrow> LimitedAcceptor" where
  "drop_permit acc = acc\<lparr> acc_permits := acc_permits acc + 1 \<rparr>"

definition drop_released :: "LimitedAcceptor \<Rightarrow> LimitedAcceptor" where
  "drop_released acc = acc\<lparr> acc_held := acc_held acc - 1 \<rparr>"

definition drop_peer_released :: "IpAddr \<Rightarrow> LimitedAcceptor \<Rightarrow> LimitedAcceptor" where
  "drop_peer_released a acc =
     (case acc_peers acc a of
        None \<Rightarrow> acc
      | Some entry \<Rightarrow>
          (let held = saturating_sub (peer_held entry) 1 in
           acc\<lparr> acc_peers := (acc_peers acc)
                  (a := if held = 0 then None else Some (entry\<lparr> peer_held := held \<rparr>)) \<rparr>))"

datatype accept_error = PoolFull | AddressFull

definition accept :: "LimitedAcceptor \<Rightarrow> IpAddr option \<Rightarrow> (accept_error + IpAddr option) \<times> LimitedAcceptor" where
  "accept acc address =
     (if acc_permits acc = 0 then (Inl PoolFull, acc\<lparr> acc_saturated := True \<rparr>)
      else
        (let acc = acc\<lparr> acc_permits := acc_permits acc - 1 \<rparr> in
         case admit_peer acc address of
           (Inl _, acc) \<Rightarrow> (Inl AddressFull, drop_permit acc)
         | (Inr peer, acc) \<Rightarrow>
             (Inr peer, acc\<lparr> acc_saturated := False, acc_held := acc_held acc + 1 \<rparr>)))"

definition drop_guarded :: "IpAddr option \<Rightarrow> LimitedAcceptor \<Rightarrow> LimitedAcceptor" where
  "drop_guarded peer acc =
     (let acc = drop_released (drop_permit acc) in
      case peer of Some a \<Rightarrow> drop_peer_released a acc | None \<Rightarrow> acc)"

subsection \<open>Interleaved connections\<close>

text \<open>
  A connection waits between its permit and its address being admitted, enters before it is counted,
  is open, and drops its guards one by one. \<open>conn_from\<close> is the address it comes from.
\<close>

datatype stage = Waiting | Entering | Serving | Dropping

record conn =
  conn_from :: "IpAddr option"
  conn_stage :: stage
  conn_permit :: bool
  conn_peer :: "IpAddr option"
  conn_counted :: bool

inductive step :: "LimitedAcceptor \<times> conn list \<Rightarrow> LimitedAcceptor \<times> conn list \<Rightarrow> bool" where
  pool_full: "acc_permits acc = 0 \<Longrightarrow> step (acc, cs) (acc\<lparr> acc_saturated := True \<rparr>, cs)"
| permitted: "acc_permits acc \<noteq> 0 \<Longrightarrow>
    step (acc, cs) (acc\<lparr> acc_permits := acc_permits acc - 1 \<rparr>,
      \<lparr> conn_from = address, conn_stage = Waiting, conn_permit = True, conn_peer = None, conn_counted = False \<rparr> # cs)"
| address_full: "conn_stage c = Waiting \<Longrightarrow> admit_peer acc (conn_from c) = (Inl (), acc') \<Longrightarrow>
    step (acc, xs @ c # ys) (acc', xs @ c\<lparr> conn_stage := Dropping \<rparr> # ys)"
| admitted: "conn_stage c = Waiting \<Longrightarrow> admit_peer acc (conn_from c) = (Inr peer, acc') \<Longrightarrow>
    step (acc, xs @ c # ys) (acc', xs @ c\<lparr> conn_stage := Entering, conn_peer := peer \<rparr> # ys)"
| entered: "conn_stage c = Entering \<Longrightarrow>
    step (acc, xs @ c # ys) (acc\<lparr> acc_saturated := False, acc_held := acc_held acc + 1 \<rparr>,
      xs @ c\<lparr> conn_stage := Serving, conn_counted := True \<rparr> # ys)"
| ended: "conn_stage c = Serving \<Longrightarrow>
    step (acc, xs @ c # ys) (acc, xs @ c\<lparr> conn_stage := Dropping \<rparr> # ys)"
| permit_back: "conn_stage c = Dropping \<Longrightarrow> conn_permit c \<Longrightarrow>
    step (acc, xs @ c # ys) (drop_permit acc, xs @ c\<lparr> conn_permit := False \<rparr> # ys)"
| uncounted: "conn_stage c = Dropping \<Longrightarrow> conn_counted c \<Longrightarrow>
    step (acc, xs @ c # ys) (drop_released acc, xs @ c\<lparr> conn_counted := False \<rparr> # ys)"
| peer_back: "conn_stage c = Dropping \<Longrightarrow> conn_peer c = Some a \<Longrightarrow>
    step (acc, xs @ c # ys) (drop_peer_released a acc, xs @ c\<lparr> conn_peer := None \<rparr> # ys)"
| gone: "conn_stage c = Dropping \<Longrightarrow> \<not> conn_permit c \<Longrightarrow> \<not> conn_counted c \<Longrightarrow> conn_peer c = None \<Longrightarrow>
    step (acc, xs @ c # ys) (acc, xs @ ys)"

inductive_simps step_from: "step (acc, cs) s"

definition reaches :: "Limits \<Rightarrow> LimitedAcceptor \<Rightarrow> conn list \<Rightarrow> bool" where
  "reaches limits acc cs \<longleftrightarrow> step\<^sup>*\<^sup>* (new_acceptor limits, []) (acc, cs)"

subsection \<open>A guarded stream\<close>

datatype 'a poll = Pending | Ready 'a
datatype io_error = LifetimeReached | PeerStoppedReading | InnerError string

record Guarded =
  guard_deadline :: "nat option"
  guard_stall :: nat
  guard_stalled :: "nat option"

definition stream_expired :: "Guarded \<Rightarrow> nat \<Rightarrow> io_error option" where
  "stream_expired g now =
     (case guard_deadline g of
        None \<Rightarrow> None
      | Some deadline \<Rightarrow> if now < deadline then None else Some LifetimeReached)"

definition poll_read :: "Guarded \<Rightarrow> nat \<Rightarrow> (io_error + unit) poll \<Rightarrow> (io_error + unit) poll" where
  "poll_read g now inner =
     (case stream_expired g now of Some e \<Rightarrow> Ready (Inl e) | None \<Rightarrow> inner)"

text \<open>\<open>guard_stalled\<close> is when the armed timer fires.\<close>

definition poll_write :: "Guarded \<Rightarrow> nat \<Rightarrow> (io_error + nat) poll \<Rightarrow> (io_error + nat) poll \<times> Guarded" where
  "poll_write g now inner =
     (case stream_expired g now of
        Some e \<Rightarrow> (Ready (Inl e), g)
      | None \<Rightarrow>
          (case inner of
             Ready r \<Rightarrow> (Ready r, g\<lparr> guard_stalled := None \<rparr>)
           | Pending \<Rightarrow>
               (let fires = (case guard_stalled g of Some t \<Rightarrow> t | None \<Rightarrow> now + guard_stall g);
                    g = g\<lparr> guard_stalled := Some fires \<rparr> in
                if fires \<le> now then (Ready (Inl PeerStoppedReading), g) else (Pending, g))))"

definition poll_write_vectored :: "Guarded \<Rightarrow> nat \<Rightarrow> (io_error + nat) poll \<Rightarrow> (io_error + nat) poll \<times> Guarded" where
  "poll_write_vectored g now inner = (inner, g)"

text \<open>A response being written: one poll after the other, each with the time and what the socket says.\<close>

fun write_polls :: "Guarded \<Rightarrow> (nat \<times> (io_error + nat) poll) list \<Rightarrow> (io_error + nat) poll list" where
  "write_polls g [] = []"
| "write_polls g ((now, inner) # ps) =
     (case poll_write g now inner of (r, g) \<Rightarrow> r # write_polls g ps)"

section \<open>Lemmas\<close>

definition held_by :: "LimitedAcceptor \<Rightarrow> IpAddr \<Rightarrow> nat" where
  "held_by acc a = (case acc_peers acc a of None \<Rightarrow> 0 | Some entry \<Rightarrow> unat (peer_held entry))"

definition bounded_peer :: "Limits \<Rightarrow> IpAddr \<Rightarrow> bool" where
  "bounded_peer l a \<longleftrightarrow> limit_connections_per_peer l \<noteq> 0 \<and> \<not> is_peer_exempt l a"

definition conn_ok :: "Limits \<Rightarrow> conn \<Rightarrow> bool" where
  "conn_ok l c \<longleftrightarrow>
     (conn_stage c \<noteq> Dropping \<longrightarrow> conn_permit c)
     \<and> (conn_stage c = Waiting \<longrightarrow> conn_peer c = None \<and> \<not> conn_counted c)
     \<and> (conn_stage c = Entering \<longrightarrow> \<not> conn_counted c)
     \<and> (conn_stage c \<in> {Entering, Serving} \<longrightarrow>
          (\<forall>a. conn_from c = Some a \<longrightarrow> bounded_peer l a \<longrightarrow> conn_peer c = Some a))"

definition on_peer :: "IpAddr \<Rightarrow> conn list \<Rightarrow> nat" where
  "on_peer a cs = length (filter (\<lambda>c. conn_peer c = Some a) cs)"

definition peers_inv :: "LimitedAcceptor \<Rightarrow> conn list \<Rightarrow> bool" where
  "peers_inv acc cs \<longleftrightarrow>
     (\<forall>a. held_by acc a = on_peer a cs)
     \<and> (\<forall>a. on_peer a cs \<le> unat (limit_connections_per_peer (acc_limits acc)))
     \<and> (\<forall>a entry. acc_peers acc a = Some entry \<longrightarrow> peer_held entry \<noteq> 0)"

definition admission_inv :: "Limits \<Rightarrow> LimitedAcceptor \<times> conn list \<Rightarrow> bool" where
  "admission_inv l s \<longleftrightarrow>
     (case s of (acc, cs) \<Rightarrow>
        acc_limits acc = l
        \<and> acc_permits acc + length (filter conn_permit cs) = unat (limit_connections l)
        \<and> acc_held acc = int (length (filter conn_counted cs))
        \<and> peers_inv acc cs
        \<and> (\<forall>c \<in> set cs. conn_ok l c))"

lemma unat_add_1_u32:
  assumes "w < (b :: u32)"
  shows "unat (w + 1) = Suc (unat w)"
proof -
  have "unat w < unat b" "unat b < 2 ^ 32"
    using assms unsigned_less [of b] by (simp_all add: word_less_nat_alt)
  then show ?thesis by (simp add: unat_word_ariths)
qed

lemma unat_saturating_sub_1: "w \<noteq> 0 \<Longrightarrow> unat (saturating_sub w 1) = unat w - 1"
  by (simp add: unat_saturating_sub)

lemma admit_peer_other:
  assumes "admit_peer acc address = (r, acc')"
  shows "acc_limits acc' = acc_limits acc" "acc_permits acc' = acc_permits acc" "acc_held acc' = acc_held acc"
  using assms by (auto simp: admit_peer_def Let_def split: option.splits if_splits)

lemma admit_peer_None:
  assumes "admit_peer acc address = (Inr None, acc')"
  shows "acc' = acc" "address = Some a \<Longrightarrow> \<not> bounded_peer (acc_limits acc) a"
  using assms by (auto simp: admit_peer_def Let_def bounded_peer_def split: option.splits if_splits)

lemma admit_peer_Some:
  assumes "admit_peer acc address = (Inr (Some a), acc')"
  shows "address = Some a" "bounded_peer (acc_limits acc) a"
    "held_by acc a < unat (limit_connections_per_peer (acc_limits acc))"
    "held_by acc' b = (if b = a then Suc (held_by acc a) else held_by acc b)"
    "acc_peers acc' b = Some entry \<Longrightarrow> b \<noteq> a \<Longrightarrow> acc_peers acc b = Some entry"
    "acc_peers acc' a = Some entry \<Longrightarrow> peer_held entry \<noteq> 0"
proof -
  have nz: "w + 1 \<noteq> 0" if "w < v" for w v :: u32
    using unat_add_1_u32 [OF that] by (metis unat_0 nat.distinct(1))
  show "address = Some a" "bounded_peer (acc_limits acc) a"
    "held_by acc a < unat (limit_connections_per_peer (acc_limits acc))"
    "held_by acc' b = (if b = a then Suc (held_by acc a) else held_by acc b)"
    "acc_peers acc' b = Some entry \<Longrightarrow> b \<noteq> a \<Longrightarrow> acc_peers acc b = Some entry"
    "acc_peers acc' a = Some entry \<Longrightarrow> peer_held entry \<noteq> 0"
    using assms unfolding admit_peer_def Let_def
    by (auto simp: bounded_peer_def held_by_def not_le unat_add_1_u32 nz unat_gt_0
        simp flip: word_less_nat_alt split: option.splits if_splits)
qed

lemma admit_peer_Inl:
  assumes "admit_peer acc address = (Inl u, acc')"
  shows "held_by acc' = held_by acc
    \<and> (\<forall>a entry. acc_peers acc' a = Some entry \<longrightarrow> (\<exists>e. acc_peers acc a = Some e \<and> peer_held e = peer_held entry))"
  using assms unfolding admit_peer_def Let_def
  by (auto simp: held_by_def fun_eq_iff split: option.splits if_splits)

lemma drop_peer_released_held:
  assumes "\<forall>entry. acc_peers acc a = Some entry \<longrightarrow> peer_held entry \<noteq> 0"
  shows "held_by (drop_peer_released a acc) b = (if b = a then held_by acc a - 1 else held_by acc b)"
    "\<forall>entry. acc_peers (drop_peer_released a acc) a = Some entry \<longrightarrow> peer_held entry \<noteq> 0"
    "b \<noteq> a \<Longrightarrow> acc_peers (drop_peer_released a acc) b = acc_peers acc b"
  using assms
  by (auto simp: drop_peer_released_def held_by_def Let_def unat_saturating_sub_1 unat_eq_zero
      simp flip: unat_eq_0 split: option.splits)

lemma drop_peer_released_other:
  "acc_limits (drop_peer_released a acc) = acc_limits acc"
  "acc_permits (drop_peer_released a acc) = acc_permits acc"
  "acc_held (drop_peer_released a acc) = acc_held acc"
  by (simp_all add: drop_peer_released_def Let_def split: option.splits)

lemma held_by_cong: "acc_peers acc' = acc_peers acc \<Longrightarrow> held_by acc' = held_by acc"
  by (simp add: held_by_def fun_eq_iff)

subsection \<open>The invariant\<close>

lemma on_peer_simps [simp]:
  "on_peer a [] = 0"
  "on_peer a (c # cs) = (if conn_peer c = Some a then Suc (on_peer a cs) else on_peer a cs)"
  "on_peer a (xs @ ys) = on_peer a xs + on_peer a ys"
  by (simp_all add: on_peer_def)

lemma peers_inv_cong:
  "peers_inv acc cs \<Longrightarrow> acc_peers acc' = acc_peers acc \<Longrightarrow> acc_limits acc' = acc_limits acc
   \<Longrightarrow> (\<And>a. on_peer a cs' = on_peer a cs) \<Longrightarrow> peers_inv acc' cs'"
  unfolding peers_inv_def by (simp add: held_by_cong [of acc' acc])

lemma peers_inv_refused:
  assumes "peers_inv acc cs" "admit_peer acc address = (Inl u, acc')" "\<And>a. on_peer a cs' = on_peer a cs"
  shows "peers_inv acc' cs'"
proof -
  note refused = admit_peer_Inl [OF assms(2)]
  have "peer_held entry \<noteq> 0" if entry: "acc_peers acc' a = Some entry" for a entry
  proof -
    obtain e where "acc_peers acc a = Some e" "peer_held e = peer_held entry" using refused entry by blast
    with assms(1) show ?thesis unfolding peers_inv_def by metis
  qed
  with assms(1,3) refused admit_peer_other(1) [OF assms(2)] show ?thesis by (simp add: peers_inv_def)
qed

lemma peers_inv_admitted:
  assumes "peers_inv acc cs" "admit_peer acc address = (Inr peer, acc')"
    and "\<And>a. on_peer a cs' = (if peer = Some a then Suc (on_peer a cs) else on_peer a cs)"
  shows "peers_inv acc' cs'"
proof (cases peer)
  case None
  with assms(2) have "acc' = acc" using admit_peer_None(1) by blast
  with assms(1,3) None show ?thesis by (auto intro: peers_inv_cong)
next
  case (Some a)
  note some = admit_peer_Some [OF assms(2) [unfolded Some]]
  have "held_by acc' b = on_peer b cs'" for b
    using assms(1,3) some(4) Some by (simp add: peers_inv_def)
  moreover have "on_peer b cs' \<le> unat (limit_connections_per_peer (acc_limits acc'))" for b
    using assms(1,3) some(3) Some admit_peer_other(1) [OF assms(2)] by (auto simp: peers_inv_def Suc_le_eq)
  moreover have "peer_held entry \<noteq> 0" if "acc_peers acc' b = Some entry" for b entry
    using assms(1) some(5,6) that unfolding peers_inv_def by metis
  ultimately show ?thesis by (simp add: peers_inv_def)
qed

lemma peers_inv_released:
  assumes "peers_inv acc cs" "\<And>b. on_peer b cs' = (if b = a then on_peer a cs - 1 else on_peer b cs)"
  shows "peers_inv (drop_peer_released a acc) cs'"
proof -
  have nz: "\<forall>entry. acc_peers acc a = Some entry \<longrightarrow> peer_held entry \<noteq> 0"
    using assms(1) by (simp add: peers_inv_def)
  note dropped = drop_peer_released_held [OF nz]
  have "held_by (drop_peer_released a acc) b = on_peer b cs'" for b
    using assms dropped(1) by (simp add: peers_inv_def)
  moreover have "on_peer b cs' \<le> unat (limit_connections_per_peer (acc_limits acc))" for b
    using assms unfolding peers_inv_def by (auto simp: le_diff_conv intro: le_SucI)
  moreover have "peer_held entry \<noteq> 0" if "acc_peers (drop_peer_released a acc) b = Some entry" for b entry
    using assms(1) dropped(2,3) that unfolding peers_inv_def by metis
  ultimately show ?thesis by (simp add: peers_inv_def drop_peer_released_other)
qed

lemma new_acceptor_inv: "admission_inv l (new_acceptor l, [])"
  by (simp add: admission_inv_def peers_inv_def new_acceptor_def held_by_def fun_eq_iff)

lemma step_inv:
  assumes "step s s'" "admission_inv l s"
  shows "admission_inv l s'"
  using assms
proof (induction rule: step.induct)
  case (address_full c acc acc' xs ys)
  have "peers_inv acc' (xs @ c\<lparr> conn_stage := Dropping \<rparr> # ys)"
    by (rule peers_inv_refused [OF _ address_full.hyps(2), of "xs @ c # ys"])
      (use address_full.prems in \<open>simp_all add: admission_inv_def\<close>)
  with address_full admit_peer_other [OF address_full.hyps(2)] show ?case
    by (auto simp: admission_inv_def conn_ok_def)
next
  case (admitted c acc peer acc' xs ys)
  have "peers_inv acc' (xs @ c\<lparr> conn_stage := Entering, conn_peer := peer \<rparr> # ys)"
    by (rule peers_inv_admitted [OF _ admitted.hyps(2), of "xs @ c # ys"])
      (use admitted in \<open>auto simp: admission_inv_def conn_ok_def\<close>)
  moreover have "conn_ok l (c\<lparr> conn_stage := Entering, conn_peer := peer \<rparr>)"
    using admitted admit_peer_None(2) [of acc "conn_from c" acc'] admit_peer_Some(1) [of acc "conn_from c" _ acc']
    by (cases peer) (auto simp: admission_inv_def conn_ok_def)
  ultimately show ?case using admitted admit_peer_other [OF admitted.hyps(2)]
    by (auto simp: admission_inv_def)
next
  case (peer_back c a acc xs ys)
  have "peers_inv (drop_peer_released a acc) (xs @ c\<lparr> conn_peer := None \<rparr> # ys)"
    by (rule peers_inv_released [of _ "xs @ c # ys"]) (use peer_back in \<open>auto simp: admission_inv_def\<close>)
  with peer_back show ?case
    by (auto simp: admission_inv_def conn_ok_def drop_peer_released_other)
qed (auto simp: admission_inv_def conn_ok_def drop_permit_def drop_released_def elim!: peers_inv_cong)

lemma reaches_inv:
  assumes "reaches l acc cs"
  shows "admission_inv l (acc, cs)"
  using assms unfolding reaches_def
  by (induction rule: rtranclp_induct) (auto intro: step_inv new_acceptor_inv)


lemma filter_length_mono:
  "(\<And>x. x \<in> set xs \<Longrightarrow> P x \<Longrightarrow> Q x) \<Longrightarrow> length (filter P xs) \<le> length (filter Q xs)"
  by (induction xs) (auto intro: le_SucI)

subsection \<open>The synchronous methods are runs of the steps\<close>

lemma accept_refused_pool: "acc_permits acc = 0 \<Longrightarrow> accept acc address = (Inl PoolFull, acc\<lparr> acc_saturated := True \<rparr>)"
  by (simp add: accept_def)

lemma accept_refused_address:
  assumes "acc_permits acc \<noteq> 0" "admit_peer (acc\<lparr> acc_permits := acc_permits acc - 1 \<rparr>) address = (Inl u, acc')"
  shows "accept acc address = (Inl AddressFull, drop_permit acc')"
    "step\<^sup>*\<^sup>* (acc, cs) (drop_permit acc', cs)"
proof -
  let ?c = "\<lparr> conn_from = address, conn_stage = Waiting, conn_permit = True, conn_peer = None, conn_counted = False \<rparr>"
  have "step (acc, cs) (acc\<lparr> acc_permits := acc_permits acc - 1 \<rparr>, ?c # cs)"
    by (rule permitted [OF assms(1)])
  moreover have "step (acc\<lparr> acc_permits := acc_permits acc - 1 \<rparr>, ?c # cs) (acc', ?c\<lparr> conn_stage := Dropping \<rparr> # cs)"
    using address_full [of ?c _ _ "[]" cs] assms(2) by simp
  moreover have "step (acc', ?c\<lparr> conn_stage := Dropping \<rparr> # cs)
    (drop_permit acc', ?c\<lparr> conn_stage := Dropping, conn_permit := False \<rparr> # cs)"
    using permit_back [of "?c\<lparr> conn_stage := Dropping \<rparr>" _ "[]" cs] by simp
  moreover have "step (drop_permit acc', ?c\<lparr> conn_stage := Dropping, conn_permit := False \<rparr> # cs) (drop_permit acc', cs)"
    using gone [of "?c\<lparr> conn_stage := Dropping, conn_permit := False \<rparr>" _ "[]" cs] by simp
  ultimately show "step\<^sup>*\<^sup>* (acc, cs) (drop_permit acc', cs)"
    by (meson converse_rtranclp_into_rtranclp r_into_rtranclp)
qed (use assms in \<open>simp add: accept_def\<close>)

lemma accept_admitted:
  assumes "acc_permits acc \<noteq> 0" "admit_peer (acc\<lparr> acc_permits := acc_permits acc - 1 \<rparr>) address = (Inr peer, acc')"
  defines "acc2 \<equiv> acc'\<lparr> acc_saturated := False, acc_held := acc_held acc' + 1 \<rparr>"
    and "c2 \<equiv> \<lparr> conn_from = address, conn_stage = Serving, conn_permit = True, conn_peer = peer, conn_counted = True \<rparr>"
  shows "accept acc address = (Inr peer, acc2)" "step\<^sup>*\<^sup>* (acc, cs) (acc2, c2 # cs)"
proof -
  let ?c = "\<lparr> conn_from = address, conn_stage = Waiting, conn_permit = True, conn_peer = None, conn_counted = False \<rparr>"
  let ?d = "?c\<lparr> conn_stage := Entering, conn_peer := peer \<rparr>"
  have "step (acc, cs) (acc\<lparr> acc_permits := acc_permits acc - 1 \<rparr>, ?c # cs)"
    by (rule permitted [OF assms(1)])
  moreover have "step (acc\<lparr> acc_permits := acc_permits acc - 1 \<rparr>, ?c # cs) (acc', ?d # cs)"
    using admitted [of ?c _ _ _ "[]" cs] assms(2) by simp
  moreover have "step (acc', ?d # cs) (acc2, c2 # cs)"
    using entered [of ?d _ "[]" cs] by (simp add: acc2_def c2_def)
  ultimately show "step\<^sup>*\<^sup>* (acc, cs) (acc2, c2 # cs)"
    by (meson converse_rtranclp_into_rtranclp r_into_rtranclp)
qed (use assms in \<open>simp add: accept_def\<close>)

lemma drop_guarded_run:
  assumes "conn_stage c = Serving" "conn_permit c" "conn_counted c"
  shows "step\<^sup>*\<^sup>* (acc, xs @ c # ys) (drop_guarded (conn_peer c) acc, xs @ ys)"
proof -
  let ?d = "c\<lparr> conn_stage := Dropping \<rparr>" and ?acc = "drop_released (drop_permit acc)"
  let ?e = "?d\<lparr> conn_permit := False, conn_counted := False \<rparr>"
  have "step (acc, xs @ c # ys) (acc, xs @ ?d # ys)" by (rule ended [OF assms(1)])
  moreover have "step (acc, xs @ ?d # ys) (drop_permit acc, xs @ ?d\<lparr> conn_permit := False \<rparr> # ys)"
    using assms by (intro permit_back) simp_all
  moreover have "step (drop_permit acc, xs @ ?d\<lparr> conn_permit := False \<rparr> # ys) (?acc, xs @ ?e # ys)"
    using uncounted [of "?d\<lparr> conn_permit := False \<rparr>"] assms by simp
  moreover have "step\<^sup>*\<^sup>* (?acc, xs @ ?e # ys) (drop_guarded (conn_peer c) acc, xs @ ys)"
  proof (cases "conn_peer c")
    case None
    then have "step (?acc, xs @ ?e # ys) (?acc, xs @ ys)" by (intro gone) simp_all
    with None show ?thesis by (simp add: drop_guarded_def r_into_rtranclp)
  next
    case (Some a)
    have "step (?acc, xs @ ?e # ys) (drop_peer_released a ?acc, xs @ ?e\<lparr> conn_peer := None \<rparr> # ys)"
      using Some by (intro peer_back) simp_all
    moreover have "step (drop_peer_released a ?acc, xs @ ?e\<lparr> conn_peer := None \<rparr> # ys) (drop_peer_released a ?acc, xs @ ys)"
      by (intro gone) simp_all
    ultimately show ?thesis using Some
      by (simp add: drop_guarded_def)
  qed
  ultimately show ?thesis by (meson converse_rtranclp_into_rtranclp)
qed

lemma admit_peer_decision:
  "fst (admit_peer acc (Some a)) = Inl () \<longleftrightarrow>
     bounded_peer (acc_limits acc) a \<and> held_by acc a \<ge> unat (limit_connections_per_peer (acc_limits acc))"
  by (auto simp: admit_peer_def Let_def bounded_peer_def held_by_def word_le_nat_alt unat_eq_zero
      split: option.splits)

subsection \<open>Guarded writes\<close>

lemma poll_write_armed:
  "guard_stalled g = Some fires \<Longrightarrow>
   poll_write g now Pending =
     (case stream_expired g now of
        Some e \<Rightarrow> Ready (Inl e)
      | None \<Rightarrow> if fires \<le> now then Ready (Inl PeerStoppedReading) else Pending, g)"
  by (simp add: poll_write_def Let_def split: option.splits)

lemma write_polls_armed:
  "guard_stalled g = Some fires \<Longrightarrow>
   write_polls g (map (\<lambda>now. (now, Pending)) nows) =
     map (\<lambda>now. case stream_expired g now of
        Some e \<Rightarrow> Ready (Inl e)
      | None \<Rightarrow> if fires \<le> now then Ready (Inl PeerStoppedReading) else Pending) nows"
  by (induction nows) (simp_all add: poll_write_armed)

text \<open>
  A vectored write is passed on unguarded: a connection past its lifetime, or one whose peer has not read
  a byte since before the stall bound, still has its vectored writes polled as if nothing were wrong.
\<close>

lemma vectored_writes_are_not_guarded:
  assumes "guard_deadline g = Some deadline" "deadline \<le> now"
  shows "fst (poll_write g now inner) = Ready (Inl LifetimeReached)"
    "fst (poll_write_vectored g now inner) = inner"
    "guard_stalled (snd (poll_write_vectored g now Pending)) = guard_stalled g"
  using assms by (simp_all add: poll_write_def poll_write_vectored_def stream_expired_def)

section \<open>Properties\<close>

text \<open>
  C33: however accepts, closes and handshakes interleave, the surface never has more than its limit of
  connections that have been given a permit, an address that is bounded never has more than its share of
  connections past admission, and the count it reports is the number of connections that are counted.
\<close>

theorem admission_bounds:
  assumes "reaches limits acc cs"
  shows "length (filter conn_permit cs) \<le> unat (limit_connections limits)
    \<and> acc_held acc = int (length (filter conn_counted cs))
    \<and> (bounded_peer limits a \<longrightarrow>
         length (filter (\<lambda>c. conn_from c = Some a \<and> conn_stage c \<in> {Entering, Serving}) cs)
           \<le> unat (limit_connections_per_peer limits))"
proof -
  note inv = reaches_inv [OF assms, unfolded admission_inv_def prod.case]
  have "length (filter (\<lambda>c. conn_from c = Some a \<and> conn_stage c \<in> {Entering, Serving}) cs) \<le> on_peer a cs"
    if "bounded_peer limits a"
    unfolding on_peer_def using inv that by (intro filter_length_mono) (auto simp: conn_ok_def)
  moreover have "on_peer a cs \<le> unat (limit_connections_per_peer limits)"
    using inv by (auto simp: peers_inv_def)
  ultimately show ?thesis using inv by (auto intro: order.trans)
qed

text \<open>
  Nothing leaks. Whatever happened before, once no connection is left the pool has every permit, the
  count is zero and no address is remembered; and at any time the addresses remembered are exactly
  those with a guard that is still held.
\<close>

theorem nothing_leaks:
  assumes "reaches limits acc cs"
  shows "dom (acc_peers acc) = {a. \<exists>c \<in> set cs. conn_peer c = Some a}
    \<and> (cs = [] \<longrightarrow> acc_permits acc = unat (limit_connections limits) \<and> acc_held acc = 0 \<and> acc_peers acc = Map.empty)"
proof -
  note inv = reaches_inv [OF assms, unfolded admission_inv_def prod.case]
  have "a \<in> dom (acc_peers acc) \<longleftrightarrow> held_by acc a \<noteq> 0" for a
    using inv by (cases "acc_peers acc a") (auto simp: held_by_def peers_inv_def unat_eq_zero)
  moreover have "held_by acc a = length (filter (\<lambda>c. conn_peer c = Some a) cs)" for a
    using inv by (simp add: peers_inv_def on_peer_def)
  ultimately have dom: "dom (acc_peers acc) = {a. \<exists>c \<in> set cs. conn_peer c = Some a}"
    by (auto simp: filter_empty_conv)
  show ?thesis
  proof (intro conjI impI)
    assume "cs = []"
    with dom have "dom (acc_peers acc) = {}" by simp
    then show "acc_peers acc = Map.empty" by (simp only: dom_eq_empty_conv)
  qed (use inv dom in auto)
qed

text \<open>
  The synchronous \<open>accept\<close> and the drop of a stream are runs of the interleaved steps, so the
  bounds above are about them: in a reachable state an \<open>accept\<close> that is refused leaves the same
  connections, one that succeeds adds exactly one, and dropping an open stream takes exactly it away.
\<close>

theorem accept_and_drop_refine_steps:
  assumes "reaches limits acc cs"
  shows "(\<forall>address e acc'. accept acc address = (Inl e, acc') \<longrightarrow> reaches limits acc' cs)
    \<and> (\<forall>address peer acc'. accept acc address = (Inr peer, acc') \<longrightarrow>
         reaches limits acc' (\<lparr> conn_from = address, conn_stage = Serving, conn_permit = True,
                                conn_peer = peer, conn_counted = True \<rparr> # cs))
    \<and> (\<forall>xs c ys. cs = xs @ c # ys \<and> conn_stage c = Serving \<and> conn_counted c \<longrightarrow>
         reaches limits (drop_guarded (conn_peer c) acc) (xs @ ys))"
proof (intro conjI allI impI)
  fix address e acc'
  assume refused: "accept acc address = (Inl e, acc')"
  show "reaches limits acc' cs"
  proof (cases "acc_permits acc = 0")
    case True
    with refused pool_full [OF True, of cs] assms show ?thesis
      unfolding reaches_def by (auto simp: accept_def intro: rtranclp.rtrancl_into_rtrancl)
  next
    case False
    obtain r acc1 where admit: "admit_peer (acc\<lparr> acc_permits := acc_permits acc - 1 \<rparr>) address = (r, acc1)"
      by fastforce
    with refused False obtain u where "r = Inl u" by (cases r) (auto simp: accept_def)
    with accept_refused_address(1) [OF False, of address u acc1] accept_refused_address(2) [OF False, of address u acc1 cs] admit refused assms show ?thesis
      unfolding reaches_def by (auto intro: rtranclp_trans)
  qed
next
  fix address peer acc'
  assume ok: "accept acc address = (Inr peer, acc')"
  then have free: "acc_permits acc \<noteq> 0" by (auto simp: accept_def split: if_splits)
  obtain r acc1 where admit: "admit_peer (acc\<lparr> acc_permits := acc_permits acc - 1 \<rparr>) address = (r, acc1)"
    by fastforce
  with ok free have "r = Inr peer" by (cases r) (auto simp: accept_def)
  with accept_admitted(1) [OF free, of address peer acc1] accept_admitted(2) [OF free, of address peer acc1 cs] admit ok assms
  show "reaches limits acc' (\<lparr> conn_from = address, conn_stage = Serving, conn_permit = True,
    conn_peer = peer, conn_counted = True \<rparr> # cs)"
    unfolding reaches_def by (auto intro: rtranclp_trans)
next
  fix xs c ys
  assume c: "cs = xs @ c # ys \<and> conn_stage c = Serving \<and> conn_counted c"
  then have "conn_permit c" using reaches_inv [OF assms] by (auto simp: admission_inv_def conn_ok_def)
  with drop_guarded_run [of c acc xs ys] c assms show "reaches limits (drop_guarded (conn_peer c) acc) (xs @ ys)"
    unfolding reaches_def by (auto intro: rtranclp_trans)
qed

text \<open>
  \<open>accept\<close> refuses exactly when it has to. With every permit given out the pool is full; otherwise
  only an address that is bounded and holds its whole share is refused, and everybody else is let in,
  an exempt address whatever it holds.
\<close>

theorem accept_decides_exactly:
  assumes "reaches limits acc cs"
  shows "fst (accept acc (Some a)) =
    (if length (filter conn_permit cs) = unat (limit_connections limits) then Inl PoolFull
     else if bounded_peer limits a
          then if length (filter (\<lambda>c. conn_peer c = Some a) cs) = unat (limit_connections_per_peer limits)
               then Inl AddressFull else Inr (Some a)
     else Inr None)"
proof -
  note inv = reaches_inv [OF assms, unfolded admission_inv_def prod.case]
  let ?acc = "acc\<lparr> acc_permits := acc_permits acc - 1 \<rparr>"
  obtain r acc1 where admit: "admit_peer ?acc (Some a) = (r, acc1)" by fastforce
  have pool: "acc_permits acc = 0 \<longleftrightarrow> length (filter conn_permit cs) = unat (limit_connections limits)"
    using inv by linarith
  have held: "held_by ?acc a = length (filter (\<lambda>c. conn_peer c = Some a) cs)"
    and le: "held_by ?acc a \<le> unat (limit_connections_per_peer limits)"
    using inv held_by_cong [of ?acc acc] by (auto simp: peers_inv_def on_peer_def)
  have "r = (if bounded_peer limits a \<and> held_by ?acc a = unat (limit_connections_per_peer limits) then Inl ()
             else if bounded_peer limits a then Inr (Some a) else Inr None)"
    using admit_peer_decision [of ?acc a] admit le inv admit_peer_None(2) [of ?acc "Some a" acc1 a]
      admit_peer_Some(1,2) [of ?acc "Some a" _ acc1]
    by (cases r; cases "projr r") (auto split: if_splits)
  with pool held admit show ?thesis by (auto simp: accept_def)
qed

text \<open>
  A response whose peer stopped reading ends. From the first poll of a write that makes no progress,
  every later poll that still makes none waits while the stall bound has not passed since that first
  one, and fails as soon as it has; a lifetime that runs out meanwhile fails it too, with its own error.
\<close>

theorem stalled_write_ends:
  assumes "guard_stalled g = None" "stream_expired g now = None"
  shows "write_polls g ((now, Pending) # map (\<lambda>t. (t, Pending)) later) =
    map (\<lambda>t. case stream_expired g t of
           Some e \<Rightarrow> Ready (Inl e)
         | None \<Rightarrow> if now + guard_stall g \<le> t then Ready (Inl PeerStoppedReading) else Pending) (now # later)"
proof -
  let ?g = "g\<lparr> guard_stalled := Some (now + guard_stall g) \<rparr>"
  have first: "poll_write g now Pending =
      (if now + guard_stall g \<le> now then Ready (Inl PeerStoppedReading) else Pending, ?g)"
    using assms by (simp add: poll_write_def)
  have expired: "stream_expired ?g = stream_expired g" by (simp add: stream_expired_def fun_eq_iff)
  show ?thesis using assms(2) write_polls_armed [of ?g "now + guard_stall g" later] first expired by simp
qed

subsection \<open>Witnesses\<close>

text \<open>Two permits, one connection per address, one address that is exempt from it; one connection is open.\<close>

definition small_limits :: Limits where
  "small_limits = with_peer_exempt [\<lparr> block_address = V4 7, block_prefix = 32 \<rparr>]
     (with_connections_per_peer 1 (with_connections 2 default_limits))"

definition one_open :: conn where
  "one_open = \<lparr> conn_from = Some (V4 5), conn_stage = Serving, conn_permit = True, conn_peer = Some (V4 5), conn_counted = True \<rparr>"

definition after_one :: LimitedAcceptor where
  "after_one = (new_acceptor small_limits)
     \<lparr> acc_permits := 1, acc_held := 1, acc_peers := [V4 5 \<mapsto> \<lparr> peer_held = 1, peer_warned = False \<rparr>] \<rparr>"

lemmas small_simps = small_limits_def with_peer_exempt_def with_connections_per_peer_def with_connections_def
  bounded_peer_def is_peer_exempt_def block_contains_def new_acceptor_def

lemma small_bounded: "bounded_peer small_limits (V4 5)"
  by (simp add: small_simps block_mask_def)

lemma reaches_one: "reaches small_limits after_one [one_open]"
proof -
  let ?start = "new_acceptor small_limits"
  let ?taken = "?start\<lparr> acc_permits := acc_permits ?start - 1 \<rparr>"
  have "admit_peer ?taken (Some (V4 5)) = (Inr (Some (V4 5)),
      ?taken\<lparr> acc_peers := [V4 5 \<mapsto> \<lparr> peer_held = 1, peer_warned = False \<rparr>] \<rparr>)"
    using small_bounded by (simp add: admit_peer_def Let_def small_simps)
  from accept_admitted(2) [OF _ this, of "[]"] show ?thesis
    by (simp add: reaches_def after_one_def one_open_def small_simps)
qed

theorem admission_bounds_witness:
  "length (filter conn_permit [one_open]) \<le> unat (limit_connections small_limits)
   \<and> length (filter (\<lambda>c. conn_from c = Some (V4 5) \<and> conn_stage c \<in> {Entering, Serving}) [one_open])
       \<le> unat (limit_connections_per_peer small_limits)"
  using admission_bounds [OF reaches_one, of "V4 5"] small_bounded by blast

theorem nothing_leaks_witness:
  "dom (acc_peers after_one) = {a. \<exists>c \<in> set [one_open]. conn_peer c = Some a}"
  using nothing_leaks [OF reaches_one] by blast

theorem accept_and_drop_refine_steps_witness:
  "reaches small_limits (drop_guarded (Some (V4 5)) after_one) []"
proof -
  have "reaches small_limits (drop_guarded (conn_peer one_open) after_one) ([] @ [])"
    using accept_and_drop_refine_steps [OF reaches_one] by (force simp: one_open_def)
  then show ?thesis by (simp add: one_open_def)
qed

theorem accept_decides_exactly_witness:
  "fst (accept after_one (Some (V4 5))) = Inl AddressFull \<and> fst (accept after_one (Some (V4 7))) = Inr None"
  using accept_decides_exactly [OF reaches_one, of "V4 5"] accept_decides_exactly [OF reaches_one, of "V4 7"] small_bounded
  by (simp add: one_open_def small_simps block_mask_def)

theorem stalled_write_ends_witness:
  "write_polls \<lparr> guard_deadline = None, guard_stall = 30, guard_stalled = None \<rparr> [(100, Pending), (129, Pending), (130, Pending)]
   = [Pending, Pending, Ready (Inl PeerStoppedReading)]"
  using stalled_write_ends [of "\<lparr> guard_deadline = None, guard_stall = 30, guard_stalled = None \<rparr>" 100 "[129, 130]"]
  by (simp add: stream_expired_def)

end
