(* ===== verification/Peers.thy ===== *)
theory Peers
  imports Strings
begin

text \<open>
  \<open>crates/pic-x-core/src/peer.rs\<close>: what a client certificate says about its holder, and the entries of the
  list of peers a surface answers, as they are written, read and matched.
\<close>

section \<open>Definitions\<close>

record PeerIdentity =
  peer_subject :: string
  peer_common_name :: "string option"
  peer_fingerprint :: string
  peer_serial :: string

definition peer_label :: "PeerIdentity \<Rightarrow> string" where
  "peer_label peer =
     (let shown = (case peer_common_name peer of
                     Some name \<Rightarrow> if name \<noteq> [] then name else peer_subject peer
                   | None \<Rightarrow> peer_subject peer) in
      if shown \<noteq> [] then shown else peer_fingerprint peer)"

datatype AllowedPeer = CommonName string | PeerSubject string | Fingerprint string

fun peer_matches :: "AllowedPeer \<Rightarrow> PeerIdentity \<Rightarrow> bool" where
  "peer_matches (CommonName name) peer \<longleftrightarrow> peer_common_name peer = Some name"
| "peer_matches (PeerSubject subject) peer \<longleftrightarrow> peer_subject peer = subject"
| "peer_matches (Fingerprint fingerprint) peer \<longleftrightarrow> eq_ignore_ascii_case (peer_fingerprint peer) fingerprint"

definition is_allowed_by :: "PeerIdentity \<Rightarrow> AllowedPeer list \<Rightarrow> bool" where
  "is_allowed_by peer allowed \<longleftrightarrow> (\<exists>entry \<in> set allowed. peer_matches entry peer)"

fun allowed_kind :: "AllowedPeer \<Rightarrow> string" where
  "allowed_kind (CommonName _) = ''cn''"
| "allowed_kind (PeerSubject _) = ''dn''"
| "allowed_kind (Fingerprint _) = ''sha256''"

fun allowed_display :: "AllowedPeer \<Rightarrow> string" where
  "allowed_display (CommonName name) = ''cn:'' @ name"
| "allowed_display (PeerSubject subject) = ''dn:'' @ subject"
| "allowed_display (Fingerprint fingerprint) = ''sha256:'' @ fingerprint"

datatype peer_error = NamesNoPeer | NotAFingerprint string

definition non_empty :: "string \<Rightarrow> peer_error + string" where
  "non_empty v = (let v = trim v in if v = [] then Inl NamesNoPeer else Inr v)"

definition parse_fingerprint :: "string \<Rightarrow> peer_error + AllowedPeer" where
  "parse_fingerprint v =
     (let fingerprint = filter (\<lambda>c. c \<noteq> CHR '':'') (trim v) in
      if length fingerprint \<noteq> 64 \<or> \<not> list_all is_ascii_hexdigit fingerprint
      then Inl (NotAFingerprint fingerprint)
      else Inr (Fingerprint (to_ascii_lowercase fingerprint)))"

definition allowed_parse :: "string \<Rightarrow> peer_error + AllowedPeer" where
  "allowed_parse v =
     (let v = trim v in
      if v = [] then Inl NamesNoPeer
      else case strip_prefix ''cn:'' v of
        Some name \<Rightarrow> and_then (non_empty name) (\<lambda>name. Inr (CommonName name))
      | None \<Rightarrow>
          (case strip_prefix ''dn:'' v of
             Some subject \<Rightarrow> and_then (non_empty subject) (\<lambda>subject. Inr (PeerSubject subject))
           | None \<Rightarrow>
               (case strip_prefix ''sha256:'' v of
                  Some fingerprint \<Rightarrow> parse_fingerprint fingerprint
                | None \<Rightarrow> Inr (CommonName v))))"

section \<open>Lemmas\<close>

lemma ascii_lower_idem [simp]: "ascii_lower (ascii_lower c) = ascii_lower c"
  by (simp add: ascii_lower_def)

lemma to_ascii_lowercase_idem [simp]: "to_ascii_lowercase (to_ascii_lowercase s) = to_ascii_lowercase s"
  by (simp add: to_ascii_lowercase_def)

lemma hexdigit_graphic: "is_ascii_hexdigit c \<Longrightarrow> 32 < (of_char c :: nat) \<and> of_char c < (128 :: nat) \<and> c \<noteq> CHR '':''"
  by (auto simp: is_ascii_hexdigit_def Let_def)

lemma ascii_lower_hexdigit: "is_ascii_hexdigit c \<Longrightarrow> is_ascii_hexdigit (ascii_lower c)"
  by (auto simp: is_ascii_hexdigit_def ascii_lower_def Let_def)

lemma trim_graphic: "\<forall>c \<in> set s. 32 < (of_char c :: nat) \<and> of_char c < (128 :: nat) \<Longrightarrow> trim s = s"
proof (rule trim_keeps, goal_cases)
  case 1
  then have chars: "utf8_chars s = map (\<lambda>c. [c]) s" by (simp add: utf8_chars_ascii is_ascii_def)
  have "\<not> whitespace_char [c]" if "c \<in> set s" for c
    using 1 that by (auto simp: whitespace_char_def is_whitespace_def)
  then show ?case by (cases "s = []") (simp_all add: chars hd_map last_map)
qed

lemma allowed_parse_written:
  assumes "trim x = x" "x \<noteq> []"
  shows "allowed_parse (''cn:'' @ x) = Inr (CommonName x)" "allowed_parse (''dn:'' @ x) = Inr (PeerSubject x)"
    "allowed_parse (''sha256:'' @ x) = parse_fingerprint x"
proof -
  have "trim (''cn:'' @ x) = ''cn:'' @ x" "trim (''dn:'' @ x) = ''dn:'' @ x" "trim (''sha256:'' @ x) = ''sha256:'' @ x"
    by (rule trim_prefixed; use assms in simp)+
  then show "allowed_parse (''cn:'' @ x) = Inr (CommonName x)" "allowed_parse (''dn:'' @ x) = Inr (PeerSubject x)"
    "allowed_parse (''sha256:'' @ x) = parse_fingerprint x"
    using assms by (simp_all add: allowed_parse_def non_empty_def Let_def)
qed

lemma parse_fingerprint_Inr:
  assumes "parse_fingerprint v = Inr p"
  obtains f where "p = Fingerprint f" "f = to_ascii_lowercase (filter (\<lambda>c. c \<noteq> CHR '':'') (trim v))" "length f = 64"
    "trim f = f" "parse_fingerprint f = Inr p"
proof -
  let ?g = "filter (\<lambda>c. c \<noteq> CHR '':'') (trim v)"
  let ?f = "to_ascii_lowercase ?g"
  from assms have p: "p = Fingerprint ?f" "length ?f = 64" and hex: "list_all is_ascii_hexdigit ?g"
    by (auto simp: parse_fingerprint_def Let_def to_ascii_lowercase_def split: if_splits)
  have f: "is_ascii_hexdigit c" if "c \<in> set ?f" for c
    using hex that ascii_lower_hexdigit by (auto simp: to_ascii_lowercase_def list_all_iff simp del: set_filter)
  then have trim: "trim ?f = ?f" by (intro trim_graphic) (auto dest!: hexdigit_graphic)
  have "\<forall>c \<in> set ?f. c \<noteq> CHR '':''" using f hexdigit_graphic by blast
  then have "filter (\<lambda>c. c \<noteq> CHR '':'') ?f = ?f" by (rule filter_True)
  moreover have "list_all is_ascii_hexdigit ?f" using f by (simp only: list_all_iff) blast
  ultimately have "parse_fingerprint ?f = Inr p"
    using p by (simp only: parse_fingerprint_def trim Let_def to_ascii_lowercase_idem) simp
  with p trim that show thesis by blast
qed

lemma allowed_parse_Inr:
  assumes "allowed_parse v = Inr p"
  shows "(\<exists>x. (p = CommonName x \<or> p = PeerSubject x) \<and> trim x = x \<and> x \<noteq> [])
    \<or> (\<exists>w. parse_fingerprint w = Inr p)"
  using assms by (auto simp: allowed_parse_def non_empty_def Let_def result_iffs split: if_splits option.splits)

section \<open>Properties\<close>

text \<open>
  An entry of the allow list is written the way it is read. Printing an entry that was parsed and
  parsing it again gives the same entry, however it was first written, and a fingerprint matches a
  certificate whether it was pasted in capitals, with colons or with neither.
\<close>

theorem allowed_peer_roundtrip:
  assumes "allowed_parse v = Inr p"
  shows "allowed_parse (allowed_display p) = Inr p
    \<and> (\<forall>w. strip_prefix ''sha256:'' (trim v) = Some w \<longrightarrow>
         (\<forall>peer. peer_matches p peer
            \<longleftrightarrow> eq_ignore_ascii_case (peer_fingerprint peer) (filter (\<lambda>c. c \<noteq> CHR '':'') (trim w))))"
proof (intro conjI allI impI)
  from allowed_parse_Inr [OF assms] show "allowed_parse (allowed_display p) = Inr p"
  proof (elim disjE exE conjE)
    fix w
    assume "parse_fingerprint w = Inr p"
    then obtain f where "p = Fingerprint f" "length f = 64" "trim f = f" "parse_fingerprint f = Inr p"
      by (rule parse_fingerprint_Inr)
    then show ?thesis using allowed_parse_written(3) [of f] by fastforce
  qed (simp_all only: allowed_display.simps allowed_parse_written not_False_eq_True)
next
  fix w peer
  assume "strip_prefix ''sha256:'' (trim v) = Some w"
  then have "trim v = ''sha256:'' @ w" by (simp add: strip_prefix_Some_iff)
  with assms have "parse_fingerprint w = Inr p" by (simp add: allowed_parse_def)
  then show "peer_matches p peer
      \<longleftrightarrow> eq_ignore_ascii_case (peer_fingerprint peer) (filter (\<lambda>c. c \<noteq> CHR '':'') (trim w))"
    by (rule parse_fingerprint_Inr) (simp add: eq_ignore_ascii_case_def)
qed

theorem allowed_peer_roundtrip_witness:
  "allowed_parse (allowed_display (CommonName ''ops'')) = Inr (CommonName ''ops'')"
proof -
  have "trim ''ops'' = ''ops''" by (rule trim_graphic) simp
  from allowed_parse_written(1) [OF this] have "allowed_parse ''cn:ops'' = Inr (CommonName ''ops'')" by simp
  from allowed_peer_roundtrip [OF this] show ?thesis by blast
qed

end
