(* ===== verification/Administration.thy ===== *)
theory Administration
  imports Peers AuditGuarantees
begin

text \<open>
  Who may administer a deployment: the recorder of
  \<open>crates/pic-x-core/src/server.rs\<close> and the policy of \<open>crates/pic-x-admin/src/authorization.rs\<close>. The request
  handler behind the policy is a parameter that acts on the state of the sink and on the rest of the
  world; a response is its HTTP status and its headers. The peer is what the TLS layer left in the
  request, if anything.
\<close>

section \<open>Definitions\<close>

subsection \<open>Recording\<close>

record 's AuditRecorder =
  recorder_sink :: "'s audit_sink"
  recorder_policy :: "policy option"

definition new_recorder :: "'s audit_sink \<Rightarrow> 's AuditRecorder" where
  "new_recorder sink = \<lparr> recorder_sink = sink, recorder_policy = None \<rparr>"

definition with_policy :: "policy \<Rightarrow> 's AuditRecorder \<Rightarrow> 's AuditRecorder" where
  "with_policy p r = r\<lparr> recorder_policy := Some p \<rparr>"

definition recorder_record :: "'s AuditRecorder \<Rightarrow> string \<Rightarrow> Subject \<Rightarrow> 's \<Rightarrow> (audit_error + unit) \<times> 's" where
  "recorder_record r action subject = recorder_sink r (new_event action subject) (recorder_policy r)"

definition record_on :: "'s AuditRecorder \<Rightarrow> string \<Rightarrow> Subject \<Rightarrow> string \<Rightarrow> 's \<Rightarrow> (audit_error + unit) \<times> 's" where
  "record_on r action subject target =
     recorder_sink r (on_target target (new_event action subject)) (recorder_policy r)"

subsection \<open>The policy\<close>

definition PERMISSION_DENIED :: string where "PERMISSION_DENIED = ''7''"
definition UNAVAILABLE :: string where "UNAVAILABLE = ''14''"

record 's Authorization =
  auth_allowed :: "AllowedPeer list"
  auth_development :: bool
  auth_recorder :: "'s AuditRecorder option"

definition new_authorization :: "AllowedPeer list \<Rightarrow> bool \<Rightarrow> 's Authorization" where
  "new_authorization allowed development =
     \<lparr> auth_allowed = allowed, auth_development = development, auth_recorder = None \<rparr>"

definition recording :: "'s AuditRecorder \<Rightarrow> 's Authorization \<Rightarrow> 's Authorization" where
  "recording r policy = policy\<lparr> auth_recorder := Some r \<rparr>"

definition permits :: "'s Authorization \<Rightarrow> PeerIdentity option \<Rightarrow> bool" where
  "permits policy peer =
     (case peer of
        None \<Rightarrow> False
      | Some peer \<Rightarrow>
          if auth_allowed policy = [] then auth_development policy
          else is_allowed_by peer (auth_allowed policy))"

record Response =
  http_status :: nat
  headers :: "(string \<times> string) list"

definition grpc_status :: "string \<Rightarrow> string \<Rightarrow> Response" where
  "grpc_status code message =
     \<lparr> http_status = 200,
       headers = [(''content-type'', ''application/grpc''), (''grpc-status'', code), (''grpc-message'', message)] \<rparr>"

definition refuse :: Response where
  "refuse = grpc_status PERMISSION_DENIED ''this client may not administer this deployment''"

definition unrecordable :: Response where
  "unrecordable = grpc_status UNAVAILABLE
     ''this deployment cannot record what you asked it to do, so it did not do it''"

definition record_decision :: "'s Authorization \<Rightarrow> string \<Rightarrow> string \<Rightarrow> string \<Rightarrow> 's \<Rightarrow> bool \<times> 's" where
  "record_decision policy action who target s =
     (case auth_recorder policy of
        None \<Rightarrow> (True, s)
      | Some r \<Rightarrow> (case record_on r action (Principal who) target s of (result, s) \<Rightarrow> (is_ok result, s)))"

definition authorize ::
    "'s Authorization \<Rightarrow> PeerIdentity option \<Rightarrow> string \<Rightarrow> ('s \<times> 'w \<Rightarrow> Response \<times> 's \<times> 'w)
     \<Rightarrow> 's \<times> 'w \<Rightarrow> Response \<times> 's \<times> 'w" where
  "authorize policy peer target next sw =
     (case sw of (s, w) \<Rightarrow>
        let label = (case peer of Some peer \<Rightarrow> peer_label peer | None \<Rightarrow> ''-'') in
        if permits policy peer
        then (case record_decision policy ''admin.request'' label target s of
                (recorded, s) \<Rightarrow> if \<not> recorded then (unrecordable, s, w) else next (s, w))
        else (case record_decision policy ''admin.refused'' label target s of (_, s) \<Rightarrow> (refuse, s, w)))"

section \<open>Lemmas\<close>

lemma permits_iff:
  "permits policy peer \<longleftrightarrow>
     (\<exists>p. peer = Some p \<and> (if auth_allowed policy = [] then auth_development policy
                          else \<exists>entry \<in> set (auth_allowed policy). peer_matches entry p))"
  by (auto simp: permits_def is_allowed_by_def split: option.splits)

context kept_sink
begin

lemma authorized_is_recorded:
  assumes "auth_recorder policy = Some r" "recorder_sink r = rec" "before s"
    and "authorize policy peer target next (s, w) = (response, s', w')" "w' \<noteq> w"
  shows "\<exists>p s1. peer = Some p \<and> permits policy (Some p) \<and> next (s1, w) = (response, s', w')
    \<and> after (on_target target (new_event ''admin.request'' (Principal (peer_label p)))) (recorder_policy r) s1"
proof -
  have "permits policy peer" using assms(4,5) by (auto simp: authorize_def Let_def split: if_splits prod.splits)
  then obtain p where p: "peer = Some p" "permits policy (Some p)" by (auto simp: permits_iff)
  with assms obtain s1 where "next (s1, w) = (response, s', w')"
    "rec (on_target target (new_event ''admin.request'' (Principal (peer_label p)))) (recorder_policy r) s = (Inr (), s1)"
    by (auto simp: authorize_def record_decision_def record_on_def is_ok_def split: prod.splits if_splits sum.splits)
  with p assms(3) recorded_kept show ?thesis by blast
qed

end

section \<open>Properties\<close>


subsection \<open>Witnesses\<close>

definition operator :: PeerIdentity where
  "operator = \<lparr> peer_subject = ''CN=operator'', peer_common_name = Some ''operator'', peer_fingerprint = replicate 64 (CHR ''a''),
     peer_serial = ''01'' \<rparr>"

definition file_policy :: "trail Authorization" where
  "file_policy = recording (new_recorder (record_event demo_audit_env demo_sink 5 5)) (new_authorization [CommonName ''operator''] False)"

definition counted_work :: "trail \<times> nat \<Rightarrow> Response \<times> trail \<times> nat" where
  "counted_work = (\<lambda>(t, n). (grpc_status ''0'' [], t, Suc n))"


end
