(* ===== verification/Lifecycle.thy ===== *)
theory Lifecycle
  imports AuditEvents
begin

text \<open>
  The life of the server process: \<open>Health\<close> and \<open>ServerContext\<close> of \<open>crates/pic-x-core/src/server.rs\<close> and the
  host of \<open>crates/pic-x-server/src/host.rs\<close>. What the host reaches (services, storage, sinks) are functions
  on the world, an argument of the model: work that is awaited takes some time and ends, work that is
  bounded by a deadline may never end and leaves the world in some state when it is cancelled.
  Instants are natural numbers of one unit.

  \<open>host_trace\<close> is auxiliary: no definition reads it. It lists what the host did with the outcome of each
  call, so that properties can speak about order. Log lines are left out.
\<close>

section \<open>Definitions\<close>

subsection \<open>Health\<close>

record Health =
  health_live :: bool
  health_ready :: bool

definition new_health :: Health where
  "new_health = \<lparr> health_live = True, health_ready = False \<rparr>"

definition set_ready :: "bool \<Rightarrow> Health \<Rightarrow> Health" where
  "set_ready r health = health\<lparr> health_ready := r \<rparr>"

definition set_live :: "bool \<Rightarrow> Health \<Rightarrow> Health" where
  "set_live l health = health\<lparr> health_live := l \<rparr>"

subsection \<open>What a host reaches\<close>

text \<open>Awaited work: how long it takes, what it returns and the world after it.\<close>

type_synonym 'w call = "'w \<Rightarrow> nat \<times> (string + unit) \<times> 'w"

text \<open>Work under a deadline: how it ends, if it ever does, and the world when it is cancelled instead.\<close>

type_synonym 'w job = "'w \<Rightarrow> (nat \<times> (string + unit) \<times> 'w) option \<times> 'w"

record 'w Service =
  service_name :: string
  service_start :: "'w call"
  service_stop :: "'w job"

record 'w ServerContext =
  ctx_services :: "'w Service list"
  ctx_storage_name :: string
  ctx_storage_put :: "string \<Rightarrow> bytes \<Rightarrow> 'w call"
  ctx_storage_shutdown :: "'w job"
  ctx_audit_name :: string
  ctx_audit_record :: "AuditEvent \<Rightarrow> policy option \<Rightarrow> 'w call"
  ctx_audit_shutdown :: "'w job"
  ctx_pseudonymizer :: "policy option"
  ctx_realms :: "(string \<times> 'w job) list"
  ctx_shutdown_timeout :: nat

datatype deed =
    is_Recorded: Recorded string string "string + unit"
  | StoredStart "string + unit"
  | ServiceStarted string "string + unit"
  | SetReady bool
  | Served
  | ServiceStopped string "(string + unit) option"
  | StorageReleased string "(string + unit) option"
  | RealmReleased string "(string + unit) option"
  | SinkReleased string "(string + unit) option"

record 'w host =
  host_world :: 'w
  host_clock :: nat
  host_health :: Health
  host_trace :: "deed list"

definition noted :: "deed \<Rightarrow> 'w host \<Rightarrow> 'w host" where
  "noted d h = h\<lparr> host_trace := host_trace h @ [d] \<rparr>"

definition await_call :: "'w call \<Rightarrow> 'w host \<Rightarrow> (string + unit) \<times> 'w host" where
  "await_call work h =
     (case work (host_world h) of
        (time, result, w) \<Rightarrow> (result, h\<lparr> host_world := w, host_clock := host_clock h + time \<rparr>))"

text \<open>\<open>timeout_at\<close> polls the work first, so work that is ready at once finishes whatever the deadline.\<close>

definition within :: "nat \<Rightarrow> 'w job \<Rightarrow> 'w host \<Rightarrow> (string + unit) option \<times> 'w host" where
  "within deadline work h =
     (case work (host_world h) of
        (outcome, cancelled) \<Rightarrow>
          let expired = (None, h\<lparr> host_world := cancelled, host_clock := max (host_clock h) deadline \<rparr>) in
          (case outcome of
             Some (time, result, w) \<Rightarrow>
               if time = 0 \<or> host_clock h + time \<le> deadline
               then (Some result, h\<lparr> host_world := w, host_clock := host_clock h + time \<rparr>)
               else expired
           | None \<Rightarrow> expired))"

definition record_audit :: "'w ServerContext \<Rightarrow> string \<Rightarrow> string \<Rightarrow> 'w host \<Rightarrow> (string + unit) \<times> 'w host" where
  "record_audit ctx action system h =
     (case await_call (ctx_audit_record ctx (new_event action (System system)) (ctx_pseudonymizer ctx)) h of
        (result, h) \<Rightarrow> (result, noted (Recorded action system result) h))"

subsection \<open>The default host\<close>

definition LAST_START_KEY :: string where "LAST_START_KEY = ''server/last-start''"
definition host_name :: string where "host_name = ''default''"

datatype host_error =
    StartUnrecorded string
  | StartNotStored string
  | ServiceNotStarted string string
  | ServiceStartUnrecorded string string
  | StopUnrecorded string
  | BudgetRanOut nat "string list"

fun start_services :: "'w ServerContext \<Rightarrow> 'w Service list \<Rightarrow> 'w host \<Rightarrow> (host_error + unit) \<times> 'w host" where
  "start_services ctx [] h = (Inr (), h)"
| "start_services ctx (service # rest) h =
     (case await_call (service_start service) h of
        (result, h) \<Rightarrow>
          let h = noted (ServiceStarted (service_name service) result) h in
          (case result of
             Inl e \<Rightarrow> (Inl (ServiceNotStarted (service_name service) e), h)
           | Inr _ \<Rightarrow>
               (case record_audit ctx ''service.start'' (service_name service) h of
                  (Inl e, h) \<Rightarrow> (Inl (ServiceStartUnrecorded (service_name service) e), h)
                | (Inr _, h) \<Rightarrow> start_services ctx rest h)))"

definition finished :: "(string + unit) option \<Rightarrow> bool" where
  "finished outcome \<longleftrightarrow> (case outcome of Some (Inr _) \<Rightarrow> True | _ \<Rightarrow> False)"

fun stop_services ::
    "'w ServerContext \<Rightarrow> nat \<Rightarrow> 'w Service list \<Rightarrow> string list \<Rightarrow> 'w host \<Rightarrow> string list \<times> 'w host" where
  "stop_services ctx deadline [] unfinished h = (unfinished, h)"
| "stop_services ctx deadline (service # rest) unfinished h =
     (case within deadline (service_stop service) h of
        (outcome, h) \<Rightarrow>
          let h = noted (ServiceStopped (service_name service) outcome) h in
          if finished outcome
          then (case record_audit ctx ''service.stop'' (service_name service) h of
                  (_, h) \<Rightarrow> stop_services ctx deadline rest unfinished h)
          else stop_services ctx deadline rest (unfinished @ [service_name service]) h)"

definition release :: "nat \<Rightarrow> ((string + unit) option \<Rightarrow> deed) \<Rightarrow> string \<Rightarrow> 'w job \<Rightarrow> string list \<Rightarrow> 'w host
    \<Rightarrow> string list \<times> 'w host" where
  "release deadline deed shown work unfinished h =
     (case within deadline work h of
        (outcome, h) \<Rightarrow> (if finished outcome then unfinished else unfinished @ [shown], noted (deed outcome) h))"

fun release_realms :: "nat \<Rightarrow> (string \<times> 'w job) list \<Rightarrow> string list \<Rightarrow> 'w host \<Rightarrow> string list \<times> 'w host" where
  "release_realms deadline [] unfinished h = (unfinished, h)"
| "release_realms deadline ((name, work) # rest) unfinished h =
     (case release deadline (RealmReleased name) (''realm '' @ name) work unfinished h of
        (unfinished, h) \<Rightarrow> release_realms deadline rest unfinished h)"

text \<open>The trails, after the last record: each realm's, then the server's own.\<close>

definition release_trails ::
    "'w ServerContext \<Rightarrow> nat \<Rightarrow> string list \<Rightarrow> 'w host \<Rightarrow> (host_error + unit) \<times> 'w host" where
  "release_trails ctx deadline unfinished h =
     (case release_realms deadline (ctx_realms ctx) unfinished h of
        (unfinished, h) \<Rightarrow>
     (case release deadline (SinkReleased (ctx_audit_name ctx)) (ctx_audit_name ctx) (ctx_audit_shutdown ctx) unfinished h of
        (unfinished, h) \<Rightarrow>
          (if unfinished = [] then Inr () else Inl (BudgetRanOut (ctx_shutdown_timeout ctx) unfinished), h)))"

definition shut_down :: "'w ServerContext \<Rightarrow> 'w host \<Rightarrow> (host_error + unit) \<times> 'w host" where
  "shut_down ctx h =
     (let h = noted (SetReady False) (h\<lparr> host_health := set_ready False (host_health h) \<rparr>);
          deadline = host_clock h + ctx_shutdown_timeout ctx in
      case stop_services ctx deadline (rev (ctx_services ctx)) [] h of
        (unfinished, h) \<Rightarrow>
      (case release deadline (StorageReleased (ctx_storage_name ctx)) (ctx_storage_name ctx)
              (ctx_storage_shutdown ctx) unfinished h of
         (unfinished, h) \<Rightarrow>
      (case record_audit ctx ''server.stop'' host_name h of
         (Inl e, h) \<Rightarrow> (Inl (StopUnrecorded e), h)
       | (Inr _, h) \<Rightarrow> release_trails ctx deadline unfinished h)))"

definition start_up :: "'w ServerContext \<Rightarrow> 'w host \<Rightarrow> (host_error + unit) \<times> 'w host" where
  "start_up ctx h =
     (case record_audit ctx ''server.start'' host_name h of
        (Inl e, h) \<Rightarrow> (Inl (StartUnrecorded e), h)
      | (Inr _, h) \<Rightarrow>
     (case await_call (ctx_storage_put ctx LAST_START_KEY (as_bytes host_name)) h of
        (Inl e, h) \<Rightarrow> (Inl (StartNotStored e), noted (StoredStart (Inl e)) h)
      | (Inr u, h) \<Rightarrow>
     (case start_services ctx (ctx_services ctx) (noted (StoredStart (Inr u)) h) of
        (Inl e, h) \<Rightarrow> (Inl e, h)
      | (Inr _, h) \<Rightarrow>
          (Inr (), noted (SetReady True) (h\<lparr> host_health := set_ready True (host_health h) \<rparr>)))))"

text \<open>\<open>signal\<close> is the shutdown future; while the host waits for it the world moves on.\<close>

definition run_host :: "'w ServerContext \<Rightarrow> 'w call \<Rightarrow> 'w host \<Rightarrow> (host_error + unit) \<times> 'w host" where
  "run_host ctx signal h =
     (case start_up ctx h of
        (Inl e, h) \<Rightarrow> (Inl e, h)
      | (Inr _, h) \<Rightarrow> (case await_call signal h of (_, h) \<Rightarrow> shut_down ctx (noted Served h)))"

section \<open>Lemmas\<close>

text \<open>The names a release reports when it did not finish.\<close>

fun unfinished_in :: "deed \<Rightarrow> string list" where
  "unfinished_in (ServiceStopped name outcome) = (if finished outcome then [] else [name])"
| "unfinished_in (StorageReleased name outcome) = (if finished outcome then [] else [name])"
| "unfinished_in (RealmReleased name outcome) = (if finished outcome then [] else [''realm '' @ name])"
| "unfinished_in (SinkReleased name outcome) = (if finished outcome then [] else [name])"
| "unfinished_in _ = []"

text \<open>What was released, and the change of readiness, without the outcomes.\<close>

fun released_part :: "deed \<Rightarrow> string list" where
  "released_part (SetReady False) = [''readiness'']"
| "released_part (ServiceStopped name _) = [''service '' @ name]"
| "released_part (StorageReleased _ _) = [''storage'']"
| "released_part (RealmReleased name _) = [''realm '' @ name]"
| "released_part (SinkReleased _ _) = [''audit'']"
| "released_part _ = []"

abbreviation "unfinished_of ds \<equiv> concat (map unfinished_in ds)"
abbreviation "released_of ds \<equiv> concat (map released_part ds)"

text \<open>\<open>did h h' ds\<close>: the host went from \<open>h\<close> to \<open>h'\<close> doing \<open>ds\<close>, its readiness untouched.\<close>

definition did :: "'w host \<Rightarrow> 'w host \<Rightarrow> deed list \<Rightarrow> bool" where
  "did h h' ds \<longleftrightarrow> host_trace h' = host_trace h @ ds \<and> host_health h' = host_health h"

lemma did_trans [trans]: "did h h1 ds \<Longrightarrow> did h1 h2 es \<Longrightarrow> did h h2 (ds @ es)"
  by (simp add: did_def)

lemma did_noted: "did h h' ds \<Longrightarrow> did h (noted d h') (ds @ [d])"
  by (simp add: did_def noted_def)

lemma await_call_did: "await_call work h = (r, h') \<Longrightarrow> did h h' []"
  by (auto simp: await_call_def did_def split: prod.splits)

lemma within_did: "within deadline work h = (r, h') \<Longrightarrow> did h h' []"
  by (auto simp: within_def did_def Let_def split: prod.splits option.splits if_splits)

lemma record_audit_did: "record_audit ctx action system h = (r, h') \<Longrightarrow> did h h' [Recorded action system r]"
  using did_noted [OF await_call_did] by (fastforce simp: record_audit_def split: prod.splits)

lemma release_did:
  assumes "release deadline deed shown work unfinished h = (unfinished', h')"
  obtains outcome where "did h h' [deed outcome]"
    "unfinished' = (if finished outcome then unfinished else unfinished @ [shown])"
proof -
  obtain outcome h1 where ran: "within deadline work h = (outcome, h1)" by fastforce
  from did_noted [OF within_did [OF this], of "deed outcome"] assms show thesis
    by (intro that [of outcome]) (auto simp: release_def ran)
qed

lemma start_services_did:
  "start_services ctx ss h = (r, h') \<Longrightarrow>
   \<exists>ds. did h h' ds \<and> SetReady True \<notin> set ds \<and> released_of ds = []
     \<and> (r = Inr () \<longrightarrow> ds = concat (map (\<lambda>s. [ServiceStarted (service_name s) (Inr ()),
                                            Recorded ''service.start'' (service_name s) (Inr ())]) ss))"
proof (induction ss arbitrary: h)
  case Nil
  then show ?case by (simp add: did_def)
next
  case (Cons s ss)
  obtain r1 h1 where started: "await_call (service_start s) h = (r1, h1)" by fastforce
  let ?h1 = "noted (ServiceStarted (service_name s) r1) h1"
  have did1: "did h ?h1 [ServiceStarted (service_name s) r1]" using did_noted [OF await_call_did [OF started]] by simp
  obtain r2 h2 where recorded: "record_audit ctx ''service.start'' (service_name s) ?h1 = (r2, h2)" by fastforce
  note did2 = did_trans [OF did1 record_audit_did [OF recorded]]
  show ?case
  proof (cases r1)
    case (Inl e)
    with Cons.prems started did1 show ?thesis by (intro exI [of _ "[ServiceStarted (service_name s) r1]"]) auto
  next
    case Inr1: (Inr u)
    show ?thesis
    proof (cases r2)
      case (Inl e)
      with Inr1 Cons.prems started recorded did2 show ?thesis
        by (intro exI [of _ "[ServiceStarted (service_name s) r1, Recorded ''service.start'' (service_name s) r2]"]) auto
    next
      case (Inr u)
      with Inr1 Cons.prems started recorded have "start_services ctx ss h2 = (r, h')" by simp
      from Cons.IH [OF this] did2 Inr Inr1 show ?thesis by (fastforce dest: did_trans)
    qed
  qed
qed

lemma stop_services_did:
  "stop_services ctx deadline ss unfinished h = (unfinished', h') \<Longrightarrow>
   \<exists>ds. did h h' ds \<and> SetReady True \<notin> set ds \<and> released_of ds = map (\<lambda>s. ''service '' @ service_name s) ss
     \<and> unfinished' = unfinished @ unfinished_of ds"
proof (induction ss arbitrary: unfinished h)
  case Nil
  then show ?case by (auto simp: did_def)
next
  case (Cons s ss)
  obtain outcome h1 where ran: "within deadline (service_stop s) h = (outcome, h1)" by fastforce
  let ?h1 = "noted (ServiceStopped (service_name s) outcome) h1"
  have did1: "did h ?h1 [ServiceStopped (service_name s) outcome]" using did_noted [OF within_did [OF ran]] by simp
  obtain r h2 where recorded: "record_audit ctx ''service.stop'' (service_name s) ?h1 = (r, h2)" by fastforce
  show ?case
  proof (cases "finished outcome")
    case True
    with Cons.prems ran recorded have "stop_services ctx deadline ss unfinished h2 = (unfinished', h')" by simp
    from Cons.IH [OF this] obtain ds where "did h2 h' ds" "SetReady True \<notin> set ds"
      "released_of ds = map (\<lambda>s. ''service '' @ service_name s) ss" "unfinished' = unfinished @ unfinished_of ds" by blast
    with True did_trans [OF did_trans [OF did1 record_audit_did [OF recorded]] this(1)] show ?thesis
      by (intro exI [of _ "[ServiceStopped (service_name s) outcome, Recorded ''service.stop'' (service_name s) r] @ ds"]) simp
  next
    case False
    with Cons.prems ran have "stop_services ctx deadline ss (unfinished @ [service_name s]) ?h1 = (unfinished', h')" by simp
    from Cons.IH [OF this] obtain ds where "did ?h1 h' ds" "SetReady True \<notin> set ds"
      "released_of ds = map (\<lambda>s. ''service '' @ service_name s) ss"
      "unfinished' = (unfinished @ [service_name s]) @ unfinished_of ds" by blast
    with False did_trans [OF did1 this(1)] show ?thesis
      by (intro exI [of _ "[ServiceStopped (service_name s) outcome] @ ds"]) simp
  qed
qed

lemma release_realms_did:
  "release_realms deadline rs unfinished h = (unfinished', h') \<Longrightarrow>
   \<exists>outcomes. length outcomes = length rs
     \<and> did h h' (map (\<lambda>(r, outcome). RealmReleased (fst r) outcome) (zip rs outcomes))
     \<and> unfinished' = unfinished @ unfinished_of (map (\<lambda>(r, outcome). RealmReleased (fst r) outcome) (zip rs outcomes))"
proof (induction rs arbitrary: unfinished h)
  case Nil
  then show ?case by (simp add: did_def)
next
  case (Cons r rs)
  obtain name work where r: "r = (name, work)" by fastforce
  obtain u1 h1 where one: "release deadline (RealmReleased name) (''realm '' @ name) work unfinished h = (u1, h1)" by fastforce
  then obtain outcome where did1: "did h h1 [RealmReleased name outcome]"
    and u1: "u1 = (if finished outcome then unfinished else unfinished @ [''realm '' @ name])" by (rule release_did)
  from Cons.prems r one have "release_realms deadline rs u1 h1 = (unfinished', h')" by simp
  from Cons.IH [OF this] obtain outcomes where "length outcomes = length rs"
    "did h1 h' (map (\<lambda>(r, outcome). RealmReleased (fst r) outcome) (zip rs outcomes))"
    "unfinished' = u1 @ unfinished_of (map (\<lambda>(r, outcome). RealmReleased (fst r) outcome) (zip rs outcomes))" by blast
  with did_trans [OF did1 this(2)] u1 r show ?case by (intro exI [of _ "outcome # outcomes"]) simp
qed

lemma released_of_realms:
  "length outcomes = length rs \<Longrightarrow>
   released_of (map (\<lambda>(r, outcome). RealmReleased (fst r) outcome) (zip rs outcomes)) = map (\<lambda>r. ''realm '' @ fst r) rs"
  by (induction rs outcomes rule: list_induct2') auto

text \<open>What a shutdown does: the releases up to the record of the stop, and the ones after it.\<close>

definition early_deeds :: "'w ServerContext \<Rightarrow> deed list \<Rightarrow> bool" where
  "early_deeds ctx ds \<longleftrightarrow> SetReady True \<notin> set ds
     \<and> released_of ds = map (\<lambda>s. ''service '' @ service_name s) (rev (ctx_services ctx)) @ [''storage'']"

definition late_deeds :: "'w ServerContext \<Rightarrow> deed list \<Rightarrow> bool" where
  "late_deeds ctx ds \<longleftrightarrow> (\<exists>outcomes sink. length outcomes = length (ctx_realms ctx)
     \<and> ds = map (\<lambda>(r, outcome). RealmReleased (fst r) outcome) (zip (ctx_realms ctx) outcomes)
          @ [SinkReleased (ctx_audit_name ctx) sink])"

lemma late_deeds_order:
  "late_deeds ctx ds \<Longrightarrow> SetReady True \<notin> set ds
     \<and> released_of ds = map (\<lambda>r. ''realm '' @ fst r) (ctx_realms ctx) @ [''audit'']"
  using released_of_realms by (fastforce simp: late_deeds_def simp del: map_map)

lemma release_trails_did:
  assumes "release_trails ctx deadline unfinished h = (r, h')"
  shows "\<exists>late. late_deeds ctx late \<and> did h h' late
    \<and> r = (if unfinished @ unfinished_of late = [] then Inr ()
           else Inl (BudgetRanOut (ctx_shutdown_timeout ctx) (unfinished @ unfinished_of late)))"
proof -
  obtain u4 h4 where realms: "release_realms deadline (ctx_realms ctx) unfinished h = (u4, h4)" by fastforce
  then obtain outcomes where outcomes: "length outcomes = length (ctx_realms ctx)"
    "did h h4 (map (\<lambda>(r, outcome). RealmReleased (fst r) outcome) (zip (ctx_realms ctx) outcomes))"
    "u4 = unfinished @ unfinished_of (map (\<lambda>(r, outcome). RealmReleased (fst r) outcome) (zip (ctx_realms ctx) outcomes))"
    using release_realms_did [OF realms] by auto
  obtain u5 h5 where sink: "release deadline (SinkReleased (ctx_audit_name ctx)) (ctx_audit_name ctx)
      (ctx_audit_shutdown ctx) u4 h4 = (u5, h5)" by fastforce
  then obtain o5 where o5: "did h4 h5 [SinkReleased (ctx_audit_name ctx) o5]"
    "u5 = (if finished o5 then u4 else u4 @ [ctx_audit_name ctx])" by (rule release_did)
  let ?late = "map (\<lambda>(r, outcome). RealmReleased (fst r) outcome) (zip (ctx_realms ctx) outcomes)
    @ [SinkReleased (ctx_audit_name ctx) o5]"
  have "late_deeds ctx ?late" using outcomes(1) by (auto simp: late_deeds_def)
  moreover have "u5 = unfinished @ unfinished_of ?late" using outcomes(3) o5(2) by simp
  moreover have "r = (if u5 = [] then Inr () else Inl (BudgetRanOut (ctx_shutdown_timeout ctx) u5))" "h' = h5"
    using assms realms sink by (simp_all add: release_trails_def)
  moreover have "did h h5 ?late" using did_trans [OF outcomes(2) o5(1)] .
  ultimately show ?thesis by blast
qed

definition shutdown_result ::
    "'w ServerContext \<Rightarrow> deed list \<Rightarrow> string + unit \<Rightarrow> deed list \<Rightarrow> host_error + unit \<Rightarrow> bool" where
  "shutdown_result ctx early recorded late r \<longleftrightarrow>
     (case recorded of
         Inl e \<Rightarrow> late = [] \<and> r = Inl (StopUnrecorded e)
       | Inr _ \<Rightarrow> late_deeds ctx late
           \<and> r = (if unfinished_of (early @ late) = [] then Inr ()
                  else Inl (BudgetRanOut (ctx_shutdown_timeout ctx) (unfinished_of (early @ late)))))"

lemma shut_down_did:
  assumes "shut_down ctx h = (r, h')"
  obtains early recorded late where "early_deeds ctx early" "host_health h' = set_ready False (host_health h)"
    "host_trace h' = host_trace h @ [SetReady False] @ early @ [Recorded ''server.stop'' host_name recorded] @ late"
    "shutdown_result ctx early recorded late r"
proof -
  let ?h0 = "noted (SetReady False) (h\<lparr> host_health := set_ready False (host_health h) \<rparr>)"
  let ?deadline = "host_clock h + ctx_shutdown_timeout ctx"
  obtain u1 h1 where stopped: "stop_services ctx ?deadline (rev (ctx_services ctx)) [] ?h0 = (u1, h1)" by fastforce
  obtain ds where ds: "did ?h0 h1 ds" "SetReady True \<notin> set ds"
      "released_of ds = map (\<lambda>s. ''service '' @ service_name s) (rev (ctx_services ctx))" "u1 = unfinished_of ds"
    using stop_services_did [OF stopped] by auto
  obtain u2 h2 where storage: "release ?deadline (StorageReleased (ctx_storage_name ctx)) (ctx_storage_name ctx)
      (ctx_storage_shutdown ctx) u1 h1 = (u2, h2)" by fastforce
  then obtain o2 where o2: "did h1 h2 [StorageReleased (ctx_storage_name ctx) o2]"
    "u2 = (if finished o2 then u1 else u1 @ [ctx_storage_name ctx])" by (rule release_did)
  obtain recorded h3 where recorded: "record_audit ctx ''server.stop'' host_name h2 = (recorded, h3)" by fastforce
  let ?early = "ds @ [StorageReleased (ctx_storage_name ctx) o2]"
  have early: "early_deeds ctx ?early" "u2 = unfinished_of ?early" using ds o2 by (simp_all add: early_deeds_def)
  have did3: "did ?h0 h3 (?early @ [Recorded ''server.stop'' host_name recorded])"
    using did_trans [OF did_trans [OF ds(1) o2(1)] record_audit_did [OF recorded]] .
  show thesis
  proof (cases recorded)
    case (Inl e)
    with assms stopped storage recorded have "r = Inl (StopUnrecorded e)" "h' = h3"
      by (simp_all add: shut_down_def noted_def)
    with Inl early did3 show ?thesis
      by (intro that [of ?early recorded "[]"]) (simp_all add: did_def noted_def shutdown_result_def)
  next
    case (Inr u)
    with assms stopped storage recorded have "release_trails ctx ?deadline u2 h3 = (r, h')"
      by (simp add: shut_down_def noted_def)
    from release_trails_did [OF this] obtain late where late: "late_deeds ctx late" "did h3 h' late"
      "r = (if u2 @ unfinished_of late = [] then Inr ()
            else Inl (BudgetRanOut (ctx_shutdown_timeout ctx) (u2 @ unfinished_of late)))" by blast
    with Inr early did_trans [OF did3 late(2)] show ?thesis
      by (intro that [of ?early recorded late]) (simp_all add: did_def noted_def shutdown_result_def)
  qed
qed

lemma start_up_did:
  assumes "start_up ctx h = (r, h')"
  obtains ds where "host_trace h' = host_trace h @ ds" "released_of ds = []"
    "r = Inr () \<Longrightarrow> host_health h' = set_ready True (host_health h)
       \<and> ds = [Recorded ''server.start'' host_name (Inr ()), StoredStart (Inr ())]
           @ concat (map (\<lambda>s. [ServiceStarted (service_name s) (Inr ()),
                              Recorded ''service.start'' (service_name s) (Inr ())]) (ctx_services ctx))
           @ [SetReady True]"
    "r \<noteq> Inr () \<Longrightarrow> host_health h' = host_health h \<and> SetReady True \<notin> set ds"
proof -
  obtain r1 h1 where recorded: "record_audit ctx ''server.start'' host_name h = (r1, h1)" by fastforce
  note did1 = record_audit_did [OF recorded]
  obtain r2 h2 where stored: "await_call (ctx_storage_put ctx LAST_START_KEY (as_bytes host_name)) h1 = (r2, h2)" by fastforce
  have did2: "did h (noted (StoredStart r2) h2) [Recorded ''server.start'' host_name r1, StoredStart r2]"
    using did_noted [OF did_trans [OF did1 await_call_did [OF stored]]] by simp
  obtain r3 h3 where started: "start_services ctx (ctx_services ctx) (noted (StoredStart r2) h2) = (r3, h3)" by fastforce
  from start_services_did [OF this] obtain ds where ds: "did (noted (StoredStart r2) h2) h3 ds"
    "SetReady True \<notin> set ds" "released_of ds = []"
    "r3 = Inr () \<longrightarrow> ds = concat (map (\<lambda>s. [ServiceStarted (service_name s) (Inr ()),
                                            Recorded ''service.start'' (service_name s) (Inr ())]) (ctx_services ctx))"
    by blast
  note did3 = did_trans [OF did2 ds(1)]
  consider (unrecorded) e where "r1 = Inl e" | (unstored) e where "r1 = Inr ()" "r2 = Inl e"
    | (failed) e where "r1 = Inr ()" "r2 = Inr ()" "r3 = Inl e" | (up) "r1 = Inr ()" "r2 = Inr ()" "r3 = Inr ()"
    by (metis old.sum.exhaust old.unit.exhaust)
  then show thesis
  proof cases
    case unrecorded
    with assms recorded did1 show ?thesis by (intro that [of "[Recorded ''server.start'' host_name r1]"]) (auto simp: start_up_def did_def)
  next
    case unstored
    with assms recorded stored did2 show ?thesis
      by (intro that [of "[Recorded ''server.start'' host_name r1, StoredStart r2]"]) (auto simp: start_up_def did_def)
  next
    case failed
    with assms recorded stored started did3 ds show ?thesis
      by (intro that [of "[Recorded ''server.start'' host_name r1, StoredStart r2] @ ds"]) (auto simp: start_up_def did_def)
  next
    case up
    with assms recorded stored started did3 ds show ?thesis
      by (intro that [of "[Recorded ''server.start'' host_name r1, StoredStart r2] @ ds @ [SetReady True]"])
        (auto simp: start_up_def did_def noted_def)
  qed
qed

lemma start_services_error:
  "start_services ctx ss h = (Inl e, h') \<Longrightarrow>
   \<exists>name m. e = ServiceNotStarted name m \<or> e = ServiceStartUnrecorded name m"
  by (induction ss arbitrary: h) (auto simp: Let_def split: prod.splits sum.splits)

lemma start_up_error:
  "start_up ctx h = (Inl e, h') \<Longrightarrow>
   \<exists>name m. e \<in> {StartUnrecorded m, StartNotStored m, ServiceNotStarted name m, ServiceStartUnrecorded name m}"
  by (auto simp: start_up_def split: prod.splits sum.splits dest: start_services_error)

lemma early_no_sink: "early_deeds ctx early \<Longrightarrow> SinkReleased n outcome \<notin> set early"
proof
  assume early: "early_deeds ctx early" and "SinkReleased n outcome \<in> set early"
  then have "''audit'' \<in> set (released_of early)" by force
  with early show False by (auto simp: early_deeds_def)
qed

lemma early_no_trail:
  assumes "early_deeds ctx early"
  shows "RealmReleased n outcome \<notin> set early \<and> SinkReleased n outcome \<notin> set early"
proof -
  have "''realm '' @ n \<notin> set (released_of early)" using assms by (auto simp: early_deeds_def)
  then have "RealmReleased n outcome \<notin> set early" by force
  with early_no_sink [OF assms] show ?thesis by blast
qed

lemma no_sink_before: "released_of ds = [] \<Longrightarrow> SinkReleased n outcome \<notin> set ds"
  by auto

lemma run_host_cases:
  assumes "run_host ctx signal h = (r, h')" "host_trace h = []"
  obtains (down) ds where "host_trace h' = ds" "released_of ds = []" "SetReady True \<notin> set ds" "host_health h' = host_health h"
    "r \<noteq> Inr ()" "\<And>t names. r \<noteq> Inl (BudgetRanOut t names)" "\<And>e. r \<noteq> Inl (StopUnrecorded e)"
  | (up) h1 h2 where "start_up ctx h = (Inr (), h1)" "did h1 h2 [Served]" "shut_down ctx h2 = (r, h')"
proof -
  obtain r1 h1 where start: "start_up ctx h = (r1, h1)" by fastforce
  show thesis
  proof (cases r1)
    case (Inl e)
    with assms(1) start have "r = Inl e" "h' = h1" by (simp_all add: run_host_def)
    moreover from start_up_error [OF start [unfolded Inl]]
    have "e \<noteq> BudgetRanOut t names" "e \<noteq> StopUnrecorded m" for t names m by auto
    ultimately show thesis using start Inl assms(2) by (auto elim!: start_up_did intro!: down)
  next
    case (Inr u)
    obtain r2 h2 where signal: "await_call signal h1 = (r2, h2)" by fastforce
    with assms(1) start Inr have "shut_down ctx (noted Served h2) = (r, h')" by (simp add: run_host_def)
    with did_noted [OF await_call_did [OF signal], of Served] start Inr show thesis by (intro up) simp_all
  qed
qed

subsection \<open>The clock\<close>

lemma within_clock: "within deadline work h = (r, h') \<Longrightarrow> host_clock h \<le> deadline \<Longrightarrow> host_clock h' \<le> deadline"
  by (auto simp: within_def Let_def split: prod.splits option.splits if_splits)

lemma release_clock:
  "release deadline deed shown work u h = (u', h') \<Longrightarrow> host_clock h \<le> deadline \<Longrightarrow> host_clock h' \<le> deadline"
  by (auto simp: release_def noted_def split: prod.splits dest: within_clock)

lemma release_realms_clock:
  "release_realms deadline rs u h = (u', h') \<Longrightarrow> host_clock h \<le> deadline \<Longrightarrow> host_clock h' \<le> deadline"
  by (induction deadline rs u h rule: release_realms.induct) (auto split: prod.splits dest: release_clock)

definition records_at_once :: "'w ServerContext \<Rightarrow> bool" where
  "records_at_once ctx \<longleftrightarrow> (\<forall>event policy w. fst (ctx_audit_record ctx event policy w) = 0)"

lemma record_audit_clock:
  assumes "records_at_once ctx" "record_audit ctx action system h = (r, h')"
  shows "host_clock h' = host_clock h"
proof -
  have "fst (ctx_audit_record ctx (new_event action (System system)) (ctx_pseudonymizer ctx) (host_world h)) = 0"
    using assms(1) by (simp add: records_at_once_def)
  with assms(2) show ?thesis by (auto simp: record_audit_def await_call_def noted_def split: prod.splits)
qed

lemma stop_services_clock:
  assumes "records_at_once ctx"
  shows "stop_services ctx deadline ss u h = (u', h') \<Longrightarrow> host_clock h \<le> deadline \<Longrightarrow> host_clock h' \<le> deadline"
proof (induction ss arbitrary: u h)
  case (Cons s ss)
  obtain outcome h1 where ran: "within deadline (service_stop s) h = (outcome, h1)" by fastforce
  let ?h1 = "noted (ServiceStopped (service_name s) outcome) h1"
  obtain r h2 where recorded: "record_audit ctx ''service.stop'' (service_name s) ?h1 = (r, h2)" by fastforce
  have "host_clock ?h1 \<le> deadline" using within_clock [OF ran Cons.prems(2)] by (simp add: noted_def)
  moreover from this record_audit_clock [OF assms recorded] have "host_clock h2 \<le> deadline" by simp
  ultimately show ?case using Cons ran recorded by (auto simp: Let_def split: if_splits)
qed simp

lemma release_trails_clock:
  "release_trails ctx deadline u h = (r, h') \<Longrightarrow> host_clock h \<le> deadline \<Longrightarrow> host_clock h' \<le> deadline"
  by (auto simp: release_trails_def split: prod.splits dest!: release_realms_clock release_clock)

section \<open>Properties\<close>


text \<open>
  A shutdown says what it could not release. When the trails were reached, the run succeeds exactly
  when everything was released, and otherwise its error names exactly what failed or ran out of time,
  in the order it was tried.
\<close>

theorem shutdown_names_the_unfinished:
  assumes "run_host ctx signal h = (r, h')" "host_trace h = []" "SinkReleased n outcome \<in> set (host_trace h')"
  shows "r = (if unfinished_of (host_trace h') = [] then Inr ()
              else Inl (BudgetRanOut (ctx_shutdown_timeout ctx) (unfinished_of (host_trace h'))))"
  using assms(1,2)
proof (cases rule: run_host_cases)
  case (down ds)
  then have "released_part (SinkReleased n outcome) = []" using assms(3) by (auto simp: concat_eq_Nil_conv)
  then show ?thesis by simp
next
  case (up h1 h2)
  obtain ds where ds: "host_trace h1 = ds" "unfinished_of ds = []" "released_of ds = []"
  proof (rule start_up_did [OF up(1)])
    fix ds
    assume "host_trace h1 = host_trace h @ ds" "released_of ds = []"
      "Inr () = Inr () \<Longrightarrow> host_health h1 = set_ready True (host_health h)
         \<and> ds = [Recorded ''server.start'' host_name (Inr ()), StoredStart (Inr ())]
           @ concat (map (\<lambda>s. [ServiceStarted (service_name s) (Inr ()),
                              Recorded ''service.start'' (service_name s) (Inr ())]) (ctx_services ctx))
           @ [SetReady True]"
    moreover have "unfinished_of (concat (map (\<lambda>s. [ServiceStarted (service_name s) (Inr ()),
        Recorded ''service.start'' (service_name s) (Inr ())]) ss)) = []" for ss by (induction ss) simp_all
    ultimately show thesis using assms(2) by (intro that [of ds]) simp_all
  qed
  from up(3) obtain early recorded late where
    early: "early_deeds ctx early"
    and trace: "host_trace h' = host_trace h2 @ [SetReady False] @ early @ [Recorded ''server.stop'' host_name recorded] @ late"
    and late: "shutdown_result ctx early recorded late r" by (rule shut_down_did)
  have same: "unfinished_of (host_trace h') = unfinished_of (early @ late)"
    using trace ds up(2) by (simp add: did_def)
  have "late \<noteq> []" using early_no_sink [OF early] assms(3) trace up(2) no_sink_before [OF ds(3)] ds(1)
    by (auto simp: did_def)
  with late same show ?thesis by (cases recorded) (simp_all add: shutdown_result_def)
qed

text \<open>
  The host is ready only when everything is up. When it ever was, the start was recorded and stored and
  every service had started, in order, each with its record, before; and it was ready once. When it never
  was, the run failed while starting, and nothing is released.
\<close>

theorem ready_only_when_up:
  assumes "run_host ctx signal h = (r, h')" "host_trace h = []"
  shows "(SetReady True \<in> set (host_trace h') \<longrightarrow> (\<exists>rest. SetReady True \<notin> set rest \<and> host_trace h' =
       [Recorded ''server.start'' host_name (Inr ()), StoredStart (Inr ())]
       @ concat (map (\<lambda>s. [ServiceStarted (service_name s) (Inr ()),
                          Recorded ''service.start'' (service_name s) (Inr ())]) (ctx_services ctx))
       @ [SetReady True, Served] @ rest))
    \<and> (SetReady True \<notin> set (host_trace h') \<longrightarrow> \<not> is_ok r \<and> released_of (host_trace h') = [] \<and> host_health h' = host_health h)"
  using assms
proof (cases rule: run_host_cases)
  case (down ds)
  then show ?thesis by (cases r) auto
next
  case (up h1 h2)
  have h1: "host_trace h1 = [Recorded ''server.start'' host_name (Inr ()), StoredStart (Inr ())]
       @ concat (map (\<lambda>s. [ServiceStarted (service_name s) (Inr ()),
                          Recorded ''service.start'' (service_name s) (Inr ())]) (ctx_services ctx)) @ [SetReady True]"
    by (rule start_up_did [OF up(1)]) (simp add: assms(2))
  from up(3) obtain early recorded late where
    early: "early_deeds ctx early"
    and trace: "host_trace h' = host_trace h2 @ [SetReady False] @ early @ [Recorded ''server.stop'' host_name recorded] @ late"
    and late: "shutdown_result ctx early recorded late r" by (rule shut_down_did)
  have "SetReady True \<notin> set ([SetReady False] @ early @ [Recorded ''server.stop'' host_name recorded] @ late)"
    using early late late_deeds_order [of ctx late] by (cases recorded) (auto simp: early_deeds_def shutdown_result_def)
  moreover have "host_trace h' = host_trace h1 @ [Served] @ ([SetReady False] @ early @ [Recorded ''server.stop'' host_name recorded] @ late)"
    using trace up(2) by (simp add: did_def)
  ultimately show ?thesis unfolding h1 by auto
qed

text \<open>
  The shutdown keeps its budget as long as the audit sink does. When writing a record takes no time, the
  host returns at most the configured timeout after the signal, whatever the services, the storage and
  the sinks do when they are told to stop, even if they never return.
\<close>

theorem shutdown_within_budget:
  assumes "records_at_once ctx" "shut_down ctx h = (r, h')"
  shows "host_clock h' \<le> host_clock h + ctx_shutdown_timeout ctx"
proof -
  let ?h0 = "noted (SetReady False) (h\<lparr> host_health := set_ready False (host_health h) \<rparr>)"
  let ?deadline = "host_clock h + ctx_shutdown_timeout ctx"
  obtain u1 h1 where stopped: "stop_services ctx ?deadline (rev (ctx_services ctx)) [] ?h0 = (u1, h1)" by fastforce
  obtain u2 h2 where storage: "release ?deadline (StorageReleased (ctx_storage_name ctx)) (ctx_storage_name ctx)
      (ctx_storage_shutdown ctx) u1 h1 = (u2, h2)" by fastforce
  obtain recorded h3 where recorded: "record_audit ctx ''server.stop'' host_name h2 = (recorded, h3)" by fastforce
  have "host_clock ?h0 \<le> ?deadline" by (simp add: noted_def)
  from release_clock [OF storage stop_services_clock [OF assms(1) stopped this]] record_audit_clock [OF assms(1) recorded]
  have h3: "host_clock h3 \<le> ?deadline" by simp
  then show ?thesis
    using assms(2) stopped storage recorded
    by (cases recorded) (auto simp: shut_down_def noted_def dest: release_trails_clock)
qed

text \<open>
  When the record of the stop cannot be written the run ends there: the trails of the realms and the
  server's own are never told to shut down, so they are not sealed.
\<close>

theorem unrecorded_stop_leaves_trails_open:
  assumes "run_host ctx signal h = (Inl (StopUnrecorded e), h')" "host_trace h = []"
  shows "last (host_trace h') = Recorded ''server.stop'' host_name (Inl e)"
    "\<forall>name outcome. RealmReleased name outcome \<notin> set (host_trace h') \<and> SinkReleased name outcome \<notin> set (host_trace h')"
proof -
  obtain h1 h2 where up: "start_up ctx h = (Inr (), h1)" "did h1 h2 [Served]" "shut_down ctx h2 = (Inl (StopUnrecorded e), h')"
    using assms by (cases rule: run_host_cases) auto
  obtain ds where ds: "host_trace h1 = ds" "released_of ds = []"
    using start_up_did [OF up(1)] assms(2) by (metis append_Nil)
  from up(3) obtain early recorded late where early: "early_deeds ctx early"
    and trace: "host_trace h' = host_trace h2 @ [SetReady False] @ early @ [Recorded ''server.stop'' host_name recorded] @ late"
    and late: "shutdown_result ctx early recorded late (Inl (StopUnrecorded e))" by (rule shut_down_did)
  from late have "recorded = Inl e \<and> late = []"
    by (cases recorded) (auto simp: shutdown_result_def split: if_splits)
  with trace show "last (host_trace h') = Recorded ''server.stop'' host_name (Inl e)"
    "\<forall>name outcome. RealmReleased name outcome \<notin> set (host_trace h') \<and> SinkReleased name outcome \<notin> set (host_trace h')"
    using early_no_trail [OF early] ds up(2) by (auto simp: did_def)
qed

subsection \<open>Witnesses\<close>

text \<open>Two services, the second of which never stops, on a world that counts calls.\<close>

definition counted :: "nat \<Rightarrow> nat call" where "counted t w = (t, Inr (), Suc w)"

definition demo_ctx :: "nat ServerContext" where
  "demo_ctx =
     \<lparr> ctx_services = [\<lparr> service_name = ''admin'', service_start = counted 1, service_stop = (\<lambda>w. (Some (counted 2 w), w)) \<rparr>,
                       \<lparr> service_name = ''realm'', service_start = counted 1, service_stop = (\<lambda>w. (None, w)) \<rparr>],
       ctx_storage_name = ''memory'', ctx_storage_put = (\<lambda>_ _. counted 0), ctx_storage_shutdown = (\<lambda>w. (Some (counted 0 w), w)),
       ctx_audit_name = ''file'', ctx_audit_record = (\<lambda>_ _. counted 0), ctx_audit_shutdown = (\<lambda>w. (Some (counted 0 w), w)),
       ctx_pseudonymizer = None, ctx_realms = [(''acme'', \<lambda>w. (Some (counted 0 w), w))], ctx_shutdown_timeout = 10 \<rparr>"

definition demo_host :: "nat host" where
  "demo_host = \<lparr> host_world = 0, host_clock = 100, host_health = new_health, host_trace = [] \<rparr>"

lemmas demo_host_simps = demo_ctx_def demo_host_def counted_def run_host_def start_up_def record_audit_def await_call_def
  noted_def shut_down_def within_def release_def release_trails_def finished_def set_ready_def new_health_def Let_def

lemma demo_results:
  "fst (run_host demo_ctx (counted 50) demo_host) = Inl (BudgetRanOut 10 [''realm'', ''admin''])"
  "SetReady True \<in> set (host_trace (snd (run_host demo_ctx (counted 50) demo_host)))"
  "SinkReleased ''file'' (Some (Inr ())) \<in> set (host_trace (snd (run_host demo_ctx (counted 50) demo_host)))"
  by (simp_all add: demo_host_simps)

lemma demo_run:
  obtains h' where "run_host demo_ctx (counted 50) demo_host = (Inl (BudgetRanOut 10 [''realm'', ''admin'']), h')"
    "SetReady True \<in> set (host_trace h')" "SinkReleased ''file'' (Some (Inr ())) \<in> set (host_trace h')"
  using demo_results that [of "snd (run_host demo_ctx (counted 50) demo_host)"] by (metis prod.collapse)

lemma demo_host_trace: "host_trace demo_host = []" by (simp add: demo_host_def)


theorem shutdown_names_the_unfinished_witness:
  "\<exists>h'. run_host demo_ctx (counted 50) demo_host = (Inl (BudgetRanOut 10 [''realm'', ''admin'']), h')
     \<and> unfinished_of (host_trace h') = [''realm'', ''admin'']"
proof -
  obtain h' where run: "run_host demo_ctx (counted 50) demo_host = (Inl (BudgetRanOut 10 [''realm'', ''admin'']), h')"
    "SinkReleased ''file'' (Some (Inr ())) \<in> set (host_trace h')" by (rule demo_run)
  from shutdown_names_the_unfinished [OF run(1) demo_host_trace run(2)] run(1) show ?thesis
    by (auto split: if_splits)
qed

theorem ready_only_when_up_witness:
  "\<exists>r h'. run_host demo_ctx (counted 50) demo_host = (r, h')
     \<and> take 2 (host_trace h') = [Recorded ''server.start'' host_name (Inr ()), StoredStart (Inr ())]"
proof -
  obtain h' where run: "run_host demo_ctx (counted 50) demo_host = (Inl (BudgetRanOut 10 [''realm'', ''admin'']), h')"
    "SetReady True \<in> set (host_trace h')" by (rule demo_run)
  from ready_only_when_up [OF run(1) demo_host_trace] run show ?thesis by auto
qed

theorem shutdown_within_budget_witness:
  "host_clock (snd (shut_down demo_ctx demo_host)) \<le> 110"
proof -
  have "records_at_once demo_ctx" by (simp add: records_at_once_def demo_ctx_def counted_def)
  moreover obtain r h' where run: "shut_down demo_ctx demo_host = (r, h')" by fastforce
  ultimately have "host_clock h' \<le> host_clock demo_host + ctx_shutdown_timeout demo_ctx"
    by (rule shutdown_within_budget)
  then show ?thesis by (simp add: run) (simp add: demo_ctx_def demo_host_def)
qed

end
