(* ===== verification/Settings.thy ===== *)
theory Settings
  imports Decimal Limits Peers AuditEvents Realms
begin

text \<open>
  How single settings are read: the parsers at the end of \<open>crates/pic-x-core/src/config.rs\<close>, the enumerations
  of \<open>logging.rs\<close>, \<open>secrets.rs\<close> and \<open>audit.rs\<close>, and the TLS material of one surface, \<open>tls.rs\<close> with \<open>tls_of\<close>.
  Durations are \<open>u64\<close> seconds, paths are strings of a Unix system. Whether a file exists is the argument
  \<open>is_file\<close>.
\<close>

section \<open>Definitions\<close>

datatype setting_problem =
    NotABoolean string
  | NotADuration string
  | ZeroDuration
  | DurationTooLong string
  | NotACount string
  | ZeroCount
  | NotASize string
  | ZeroSize
  | SizeTooLarge string
  | NotAnExpiryPolicy string
  | NotATlsVersion string
  | NotALogLevel string
  | NotALogFormat string
  | NotASecretProvider string
  | NotAnAuditDestination string
  | NotAPeer peer_error
  | NotABlock InvalidPeerBlock

subsection \<open>Numbers\<close>

definition duration_unit :: "string \<Rightarrow> string \<times> nat" where
  "duration_unit v =
     (case strip_last {CHR ''s'', CHR ''S''} v of
        Some ds \<Rightarrow> (ds, 1)
      | None \<Rightarrow>
     (case strip_last {CHR ''m'', CHR ''M''} v of
        Some ds \<Rightarrow> (ds, 60)
      | None \<Rightarrow>
     (case strip_last {CHR ''h'', CHR ''H''} v of
        Some ds \<Rightarrow> (ds, 60 * 60)
      | None \<Rightarrow>
     (case strip_last {CHR ''d'', CHR ''D''} v of
        Some ds \<Rightarrow> (ds, 24 * (60 * 60))
      | None \<Rightarrow> (v, 1)))))"

definition parse_duration :: "string \<Rightarrow> setting_problem + u64" where
  "parse_duration v =
     (let v = trim v; (ds, multiplier) = duration_unit v in
      case parse_unsigned 64 (trim ds) of
        None \<Rightarrow> Inl (NotADuration v)
      | Some amount \<Rightarrow>
          if amount = 0 then Inl ZeroDuration
          else if amount * multiplier < 2 ^ 64 then Inr (of_nat (amount * multiplier))
          else Inl (DurationTooLong v))"

definition parse_duration_allow_zero :: "string \<Rightarrow> setting_problem + u64" where
  "parse_duration_allow_zero v =
     (let trimmed = trim v in
      if trimmed \<in> {''0'', ''0s'', ''0S'', ''0m'', ''0M'', ''0h'', ''0H'', ''0d'', ''0D''} then Inr 0
      else parse_duration trimmed)"

definition parse_u32 :: "string \<Rightarrow> setting_problem + u32" where
  "parse_u32 v = (case parse_unsigned 32 (trim v) of None \<Rightarrow> Inl (NotACount v) | Some n \<Rightarrow> Inr (of_nat n))"

definition parse_count :: "string \<Rightarrow> setting_problem + u32" where
  "parse_count v = and_then (parse_u32 v) (\<lambda>count. if count = 0 then Inl ZeroCount else Inr count)"

definition size_unit :: "string \<Rightarrow> string \<times> nat" where
  "size_unit v =
     (case strip_last {CHR ''k'', CHR ''K''} v of
        Some ds \<Rightarrow> (ds, 1024)
      | None \<Rightarrow>
     (case strip_last {CHR ''m'', CHR ''M''} v of
        Some ds \<Rightarrow> (ds, 1024 * 1024)
      | None \<Rightarrow>
     (case strip_last {CHR ''g'', CHR ''G''} v of
        Some ds \<Rightarrow> (ds, 1024 * 1024 * 1024)
      | None \<Rightarrow> (v, 1))))"

definition parse_bytes :: "string \<Rightarrow> setting_problem + u64" where
  "parse_bytes v =
     (let v = trim v; (ds, multiplier) = size_unit v in
      case parse_unsigned 64 (trim (drop_end_while (\<lambda>c. c \<in> {CHR ''b'', CHR ''B''}) (trim ds))) of
        None \<Rightarrow> Inl (NotASize v)
      | Some amount \<Rightarrow>
          if amount = 0 then Inl ZeroSize
          else if amount * multiplier < 2 ^ 64 then Inr (of_nat (amount * multiplier))
          else Inl (SizeTooLarge v))"

subsection \<open>Words\<close>

definition parse_bool :: "string \<Rightarrow> setting_problem + bool" where
  "parse_bool v =
     (let other = to_ascii_lowercase (trim v) in
      if other \<in> {''true'', ''yes'', ''on'', ''1''} then Inr True
      else if other \<in> {''false'', ''no'', ''off'', ''0''} then Inr False
      else Inl (NotABoolean other))"

definition parse_token_initial_expiry_policy :: "string \<Rightarrow> setting_problem + TokenInitialExpiryPolicy" where
  "parse_token_initial_expiry_policy v =
     (let other = trim v in
      if other = ''later'' then Inr Later
      else if other = ''pic'' then Inr Pic
      else if other = ''oauth'' then Inr OAuth
      else Inl (NotAnExpiryPolicy other))"

datatype LogLevel = LevelError | LevelWarn | LevelInfo | LevelDebug | LevelTrace

fun log_level_as_str :: "LogLevel \<Rightarrow> string" where
  "log_level_as_str LevelError = ''error''"
| "log_level_as_str LevelWarn = ''warn''"
| "log_level_as_str LevelInfo = ''info''"
| "log_level_as_str LevelDebug = ''debug''"
| "log_level_as_str LevelTrace = ''trace''"

definition parse_log_level :: "string \<Rightarrow> setting_problem + LogLevel" where
  "parse_log_level v =
     (let other = to_ascii_lowercase (trim v) in
      if other = ''error'' then Inr LevelError
      else if other \<in> {''warn'', ''warning''} then Inr LevelWarn
      else if other = ''info'' then Inr LevelInfo
      else if other = ''debug'' then Inr LevelDebug
      else if other = ''trace'' then Inr LevelTrace
      else Inl (NotALogLevel other))"

datatype LogFormat = JsonRecords | TerminalLines

fun log_format_as_str :: "LogFormat \<Rightarrow> string" where
  "log_format_as_str JsonRecords = ''json''"
| "log_format_as_str TerminalLines = ''terminal''"

definition parse_log_format :: "string \<Rightarrow> setting_problem + LogFormat" where
  "parse_log_format v =
     (let other = to_ascii_lowercase (trim v) in
      if other = ''json'' then Inr JsonRecords
      else if other \<in> {''terminal'', ''text'', ''pretty''} then Inr TerminalLines
      else Inl (NotALogFormat other))"

datatype SecretProvider = NoProvider | DirectoryProvider | EnvironmentProvider

fun secret_provider_as_str :: "SecretProvider \<Rightarrow> string" where
  "secret_provider_as_str NoProvider = ''none''"
| "secret_provider_as_str DirectoryProvider = ''directory''"
| "secret_provider_as_str EnvironmentProvider = ''environment''"

definition parse_secret_provider :: "string \<Rightarrow> setting_problem + SecretProvider" where
  "parse_secret_provider v =
     (let other = to_ascii_lowercase (trim v) in
      if other \<in> {''none'', ''''} then Inr NoProvider
      else if other \<in> {''directory'', ''dir'', ''file''} then Inr DirectoryProvider
      else if other \<in> {''environment'', ''env''} then Inr EnvironmentProvider
      else Inl (NotASecretProvider other))"

fun audit_destination_as_str :: "AuditDestination \<Rightarrow> string" where
  "audit_destination_as_str ToTracing = ''tracing''"
| "audit_destination_as_str ToFile = ''file''"

definition parse_audit_destination :: "string \<Rightarrow> setting_problem + AuditDestination" where
  "parse_audit_destination v =
     (let other = to_ascii_lowercase (trim v) in
      if other \<in> {''tracing'', ''log'', ''''} then Inr ToTracing
      else if other \<in> {''file'', ''directory''} then Inr ToFile
      else Inl (NotAnAuditDestination other))"

definition parse_allowed :: "string \<Rightarrow> setting_problem + AllowedPeer list" where
  "parse_allowed v =
     map_err NotAPeer (collect_results allowed_parse (filter (\<lambda>line. line \<noteq> []) (map trim (str_lines v))))"

definition parse_exempt :: "(string \<Rightarrow> IpAddr option) \<Rightarrow> string \<Rightarrow> setting_problem + PeerBlock list" where
  "parse_exempt parse_ip v =
     map_err NotABlock (collect_results (parse_peer_block parse_ip)
       (filter (\<lambda>entry. entry \<noteq> []) (map trim (split_on (CHR '','') v))))"

definition rsplit_once :: "'a \<Rightarrow> 'a list \<Rightarrow> ('a list \<times> 'a list) option" where
  "rsplit_once d s = map_option (\<lambda>(l, r). (rev r, rev l)) (split_once d (rev s))"

definition is_loopback :: "string \<Rightarrow> bool" where
  "is_loopback address =
     (let host = (case rsplit_once (CHR '':'') address of Some (host, _) \<Rightarrow> host | None \<Rightarrow> address);
          host = drop_end_while (\<lambda>c. c = CHR '']'') (dropWhile (\<lambda>c. c = CHR ''['') (trim host)) in
      host = ''localhost'' \<or> host = ''::1'' \<or> starts_with ''127.'' host)"

subsection \<open>TLS material\<close>

datatype TlsVersion = V1_2 | V1_3

fun tls_version_as_str :: "TlsVersion \<Rightarrow> string" where
  "tls_version_as_str V1_2 = ''1.2''"
| "tls_version_as_str V1_3 = ''1.3''"

definition parse_tls_version :: "string \<Rightarrow> setting_problem + TlsVersion" where
  "parse_tls_version v =
     (let other = dropWhile (\<lambda>c. c \<in> {CHR ''v'', CHR ''V''}) (trim v) in
      if other \<in> {''1.2'', ''1_2'', ''12''} then Inr V1_2
      else if other \<in> {''1.3'', ''1_3'', ''13''} then Inr V1_3
      else Inl (NotATlsVersion other))"

record TlsSettings =
  tls_certificate :: string
  tls_key :: string
  tls_client_ca :: "string option"
  tls_crl :: "string option"
  tls_allow :: "AllowedPeer list"
  tls_min_version :: TlsVersion
  tls_reload_every :: "u64 option"

definition new_tls_settings :: "string \<Rightarrow> string \<Rightarrow> TlsSettings" where
  "new_tls_settings certificate key =
     \<lparr> tls_certificate = certificate, tls_key = key, tls_client_ca = None, tls_crl = None, tls_allow = [],
       tls_min_version = V1_3, tls_reload_every = None \<rparr>"

definition with_client_ca :: "string \<Rightarrow> TlsSettings \<Rightarrow> TlsSettings" where
  "with_client_ca ca tls = tls\<lparr> tls_client_ca := Some ca \<rparr>"
definition with_crl :: "string \<Rightarrow> TlsSettings \<Rightarrow> TlsSettings" where
  "with_crl crl tls = tls\<lparr> tls_crl := Some crl \<rparr>"
definition with_allow :: "AllowedPeer list \<Rightarrow> TlsSettings \<Rightarrow> TlsSettings" where
  "with_allow allow tls = tls\<lparr> tls_allow := allow \<rparr>"
definition with_min_version :: "TlsVersion \<Rightarrow> TlsSettings \<Rightarrow> TlsSettings" where
  "with_min_version v tls = tls\<lparr> tls_min_version := v \<rparr>"
definition with_reload :: "u64 \<Rightarrow> TlsSettings \<Rightarrow> TlsSettings" where
  "with_reload interval tls = tls\<lparr> tls_reload_every := Some interval \<rparr>"
definition without_reload :: "TlsSettings \<Rightarrow> TlsSettings" where
  "without_reload tls = tls\<lparr> tls_reload_every := None \<rparr>"

definition is_mutual :: "TlsSettings \<Rightarrow> bool" where
  "is_mutual tls \<longleftrightarrow> tls_client_ca tls \<noteq> None"

text \<open>\<open>Path::is_absolute\<close> and \<open>Path::join\<close>, as \<open>resolved_in\<close> and \<open>Config::resolve\<close> use them.\<close>

definition resolve_path :: "string \<Rightarrow> string \<Rightarrow> string" where
  "resolve_path dir path =
     (if starts_with ''/'' path then path
      else if dir \<noteq> [] \<and> last dir \<noteq> CHR ''/'' then dir @ ''/'' @ path else dir @ path)"

definition resolved_in :: "string \<Rightarrow> TlsSettings \<Rightarrow> TlsSettings" where
  "resolved_in dir tls =
     tls\<lparr> tls_certificate := resolve_path dir (tls_certificate tls), tls_key := resolve_path dir (tls_key tls),
          tls_client_ca := map_option (resolve_path dir) (tls_client_ca tls),
          tls_crl := map_option (resolve_path dir) (tls_crl tls) \<rparr>"

definition tls_files :: "TlsSettings \<Rightarrow> string list" where
  "tls_files tls = [tls_certificate tls, tls_key tls]
     @ (case tls_client_ca tls of Some p \<Rightarrow> [p] | None \<Rightarrow> []) @ (case tls_crl tls of Some p \<Rightarrow> [p] | None \<Rightarrow> [])"

datatype tls_problem = RevocationWithoutAuthority | NotReadable string

definition validate_in :: "(string \<Rightarrow> bool) \<Rightarrow> string \<Rightarrow> TlsSettings \<Rightarrow> tls_problem + unit" where
  "validate_in is_file dir tls =
     (if tls_crl tls \<noteq> None \<and> tls_client_ca tls = None then Inl RevocationWithoutAuthority
      else case filter (\<lambda>path. \<not> is_file (resolve_path dir path)) (tls_files tls) of
             [] \<Rightarrow> Inr ()
           | path # _ \<Rightarrow> Inl (NotReadable (resolve_path dir path)))"

subsection \<open>The material of one surface, out of flat settings\<close>

datatype config_error =
    Reading string setting_problem
  | SetWithoutOther string string

record TlsKeys =
  keys_client_ca :: "string option"
  keys_crl :: "string option"
  keys_allow :: "string option"
  keys_min_version :: string

definition tls_of ::
    "(string \<rightharpoonup> string) \<Rightarrow> string \<Rightarrow> string \<Rightarrow> TlsKeys \<Rightarrow> TlsSettings option \<Rightarrow> config_error + TlsSettings option" where
  "tls_of settings cert_key key_key keys previous =
     (case (settings cert_key, settings key_key) of
        (None, None) \<Rightarrow> Inr previous
      | (Some _, None) \<Rightarrow> Inl (SetWithoutOther cert_key key_key)
      | (None, Some _) \<Rightarrow> Inl (SetWithoutOther key_key cert_key)
      | (Some certificate, Some key) \<Rightarrow>
          (let tls = new_tls_settings certificate key;
               tls = (case Option.bind (keys_client_ca keys) settings of Some ca \<Rightarrow> with_client_ca ca tls | None \<Rightarrow> tls);
               tls = (case Option.bind (keys_crl keys) settings of Some crl \<Rightarrow> with_crl crl tls | None \<Rightarrow> tls) in
           and_then
             (case keys_allow keys of
                None \<Rightarrow> Inr tls
              | Some allow_key \<Rightarrow>
                  (case settings allow_key of
                     None \<Rightarrow> Inr tls
                   | Some v \<Rightarrow> and_then (map_err (Reading allow_key) (parse_allowed v)) (\<lambda>allow. Inr (with_allow allow tls))))
             (\<lambda>tls.
                case settings (keys_min_version keys) of
                  None \<Rightarrow> Inr (Some tls)
                | Some v \<Rightarrow>
                    and_then (map_err (Reading (keys_min_version keys)) (parse_tls_version v))
                      (\<lambda>version. Inr (Some (with_min_version version tls))))))"

section \<open>Lemmas\<close>

lemma pad_zeroes_0 [simp]: "pad_zeroes 0 s = s"
  by (simp add: pad_zeroes_def)

lemma parse_unsigned_digits: "n < 2 ^ w \<Longrightarrow> parse_unsigned w (digits_of n) = Some n"
  using parse_unsigned_padded [of n w 0] by simp

lemma digits_graphic: "\<forall>c \<in> set (digits_of n). 32 < (of_char c :: nat) \<and> of_char c < (128 :: nat)"
  using digits_of_digits by fastforce

lemma trim_digits [simp]: "trim (digits_of n) = digits_of n"
  by (rule trim_graphic [OF digits_graphic])

lemma trim_digits_unit:
  "32 < (of_char u :: nat) \<Longrightarrow> of_char u < (128 :: nat) \<Longrightarrow> trim (digits_of n @ [u]) = digits_of n @ [u]"
  using digits_graphic by (intro trim_graphic) auto

lemma digits_no_unit: "\<forall>u \<in> us. 57 < (of_char u :: nat) \<Longrightarrow> strip_last us (digits_of n) = None"
  using digits_of_digits [of "last (digits_of n)" n] by (force simp: strip_last_def)

lemma strip_last_snoc [simp]: "strip_last us (s @ [u]) = (if u \<in> us then Some s else None)"
  by (simp add: strip_last_def)

lemma duration_unit_written:
  "duration_unit (digits_of n) = (digits_of n, 1)"
  "duration_unit (digits_of n @ ''s'') = (digits_of n, 1)"
  "duration_unit (digits_of n @ ''m'') = (digits_of n, 60)"
  "duration_unit (digits_of n @ ''h'') = (digits_of n, 3600)"
  "duration_unit (digits_of n @ ''d'') = (digits_of n, 86400)"
  by (simp_all add: duration_unit_def digits_no_unit)

text \<open>The seconds of a unit a duration is written in.\<close>

fun unit_seconds :: "string \<Rightarrow> nat option" where
  "unit_seconds u =
     (if u \<in> {'''', ''s''} then Some 1 else if u = ''m'' then Some 60
      else if u = ''h'' then Some 3600 else if u = ''d'' then Some 86400 else None)"

lemma duration_unit_seconds:
  assumes "unit_seconds u = Some k"
  shows "duration_unit (digits_of n @ u) = (digits_of n, k)" "trim (digits_of n @ u) = digits_of n @ u"
proof -
  have "u \<in> {'''', ''s'', ''m'', ''h'', ''d''}" using assms by (auto split: if_splits)
  then show "duration_unit (digits_of n @ u) = (digits_of n, k)" "trim (digits_of n @ u) = digits_of n @ u"
    using assms duration_unit_written [of n] by (auto simp: trim_digits_unit)
qed

lemma parse_duration_nonzero:
  assumes "parse_duration v = Inr d"
  shows "d \<noteq> 0"
proof -
  obtain ds k where unit: "duration_unit (trim v) = (ds, k)" by fastforce
  have "k \<noteq> 0" using unit by (auto simp: duration_unit_def split: option.splits)
  moreover obtain amount where "amount \<noteq> 0" "amount * k < 2 ^ 64" "d = of_nat (amount * k)"
    using assms unit by (auto simp: parse_duration_def Let_def split: option.splits if_splits)
  moreover from this(2) have "unat (of_nat (amount * k) :: u64) = amount * k" by (rule unat_of_nat_u64)
  ultimately show ?thesis by (metis mult_eq_0_iff unat_0)
qed

section \<open>Properties\<close>

text \<open>
  A duration means what it says. A number followed by a unit, or by none, is read as that many
  seconds, minutes, hours or days as long as the seconds fit 64 bits, and is refused as too long
  otherwise, without wrapping around; zero is refused; and nothing that is accepted is zero.
\<close>

theorem parse_duration_exact:
  assumes "unit_seconds u = Some k" "n < 2 ^ 64"
  shows "parse_duration (digits_of n @ u) =
    (if n = 0 then Inl ZeroDuration
     else if n * k < 2 ^ 64 then Inr (of_nat (n * k)) else Inl (DurationTooLong (digits_of n @ u)))
    \<and> (parse_duration v = Inr d \<longrightarrow> unat d \<noteq> 0)"
  using duration_unit_seconds [OF assms(1), of n] parse_unsigned_digits [OF assms(2)] parse_duration_nonzero [of v d]
  by (auto simp: parse_duration_def unat_eq_zero)

theorem parse_duration_exact_witness:
  "parse_duration (digits_of 90 @ ''d'') = Inr (of_nat (90 * 86400))"
proof -
  have "unit_seconds ''d'' = Some 86400" "(90 :: nat) < 2 ^ 64" by simp_all
  from parse_duration_exact [OF this] show ?thesis by simp
qed

text \<open>A host that only starts like a loopback address is taken for one.\<close>

theorem loopback_by_name:
  "is_loopback ''127.example.com:443''"
  by (simp add: is_loopback_def rsplit_once_def starts_with_def drop_end_while_def trim_graphic)

text \<open>
  A layer that names a certificate and its key starts the material of the surface anew: the authority, the
  revocation list and the peers of an earlier layer are gone. And a layer that names anything but the
  certificate and its key is not read.
\<close>

theorem later_certificate_drops_client_authority:
  assumes "settings cert_key = Some certificate" "settings key_key = Some key"
    and "Option.bind (keys_client_ca keys) settings = None" "tls_of settings cert_key key_key keys previous = Inr (Some tls)"
  shows "\<not> is_mutual tls"
  using assms by (auto simp: tls_of_def Let_def result_iffs is_mutual_def new_tls_settings_def with_crl_def with_allow_def
      with_min_version_def split: option.splits)

theorem authority_alone_is_not_read:
  assumes "settings cert_key = None" "settings key_key = None"
  shows "tls_of settings cert_key key_key keys previous = Inr previous"
  using assms by (simp add: tls_of_def)

end
