(* ===== verification/Configuration.thy ===== *)
theory Configuration
  imports Settings
begin

text \<open>
  \<open>crates/pic-x-core/src/config.rs\<close>: the layers a configuration is read from, the configuration itself and
  \<open>from_layers\<close>, with the paths and TLS material it hands out. The sections a build adds are opaque to the
  crate and left out. Each \<open>if let Some(value) = settings.get(KEY)\<close> is a \<open>read_into\<close> of one setting, and
  \<open>apply_pairs\<close> is the list of them in the order of the code.

  A layer is a map: of the pairs that name a setting the last one counts, and an empty value is none.
\<close>

section \<open>Definitions\<close>

subsection \<open>Names\<close>

definition SETTING_VERSION :: string where "SETTING_VERSION = ''PIC_X_VERSION''"
definition SETTING_COPYRIGHT_YEAR :: string where "SETTING_COPYRIGHT_YEAR = ''PIC_X_COPYRIGHT_YEAR''"
definition SETTING_COPYRIGHT_HOLDER :: string where "SETTING_COPYRIGHT_HOLDER = ''PIC_X_COPYRIGHT_HOLDER''"
definition SETTING_WORKING_DIR :: string where "SETTING_WORKING_DIR = ''PIC_X_WORKING_DIR''"
definition SETTING_AUTOGENERATE :: string where "SETTING_AUTOGENERATE = ''PIC_X_AUTOGENERATE''"
definition SETTING_DEVELOPMENT_MODE :: string where "SETTING_DEVELOPMENT_MODE = ''PIC_X_DEVELOPMENT_MODE''"
definition SETTING_ISSUER :: string where "SETTING_ISSUER = ''PIC_X_ISSUER''"
definition SETTING_PUBLIC_PATH_PREFIX :: string where "SETTING_PUBLIC_PATH_PREFIX = ''PIC_X_PUBLIC_PATH_PREFIX''"
definition SETTING_PUBLIC_HTTP_ADDR :: string where "SETTING_PUBLIC_HTTP_ADDR = ''PIC_X_PUBLIC_HTTP_ADDR''"
definition SETTING_TELEMETRY_ADDR :: string where "SETTING_TELEMETRY_ADDR = ''PIC_X_TELEMETRY_ADDR''"
definition SETTING_ADMIN_ADDR :: string where "SETTING_ADMIN_ADDR = ''PIC_X_ADMIN_ADDR''"
definition SETTING_PUBLIC_TLS_CERT :: string where "SETTING_PUBLIC_TLS_CERT = ''PIC_X_PUBLIC_TLS_CERT''"
definition SETTING_PUBLIC_TLS_KEY :: string where "SETTING_PUBLIC_TLS_KEY = ''PIC_X_PUBLIC_TLS_KEY''"
definition SETTING_PUBLIC_TLS_CLIENT_CA :: string where "SETTING_PUBLIC_TLS_CLIENT_CA = ''PIC_X_PUBLIC_TLS_CLIENT_CA''"
definition SETTING_PUBLIC_TLS_CRL :: string where "SETTING_PUBLIC_TLS_CRL = ''PIC_X_PUBLIC_TLS_CRL''"
definition SETTING_PUBLIC_TLS_MIN_VERSION :: string where "SETTING_PUBLIC_TLS_MIN_VERSION = ''PIC_X_PUBLIC_TLS_MIN_VERSION''"
definition SETTING_PUBLIC_TLS_ALLOW :: string where "SETTING_PUBLIC_TLS_ALLOW = ''PIC_X_PUBLIC_TLS_ALLOW''"
definition SETTING_PUBLIC_DISCLOSE_BUILD :: string where "SETTING_PUBLIC_DISCLOSE_BUILD = ''PIC_X_PUBLIC_DISCLOSE_BUILD''"
definition SETTING_ADMIN_TLS_CERT :: string where "SETTING_ADMIN_TLS_CERT = ''PIC_X_ADMIN_TLS_CERT''"
definition SETTING_ADMIN_TLS_KEY :: string where "SETTING_ADMIN_TLS_KEY = ''PIC_X_ADMIN_TLS_KEY''"
definition SETTING_ADMIN_TLS_CLIENT_CA :: string where "SETTING_ADMIN_TLS_CLIENT_CA = ''PIC_X_ADMIN_TLS_CLIENT_CA''"
definition SETTING_ADMIN_TLS_CRL :: string where "SETTING_ADMIN_TLS_CRL = ''PIC_X_ADMIN_TLS_CRL''"
definition SETTING_ADMIN_TLS_MIN_VERSION :: string where "SETTING_ADMIN_TLS_MIN_VERSION = ''PIC_X_ADMIN_TLS_MIN_VERSION''"
definition SETTING_ADMIN_ALLOW :: string where "SETTING_ADMIN_ALLOW = ''PIC_X_ADMIN_ALLOW''"
definition SETTING_TELEMETRY_TLS_CERT :: string where "SETTING_TELEMETRY_TLS_CERT = ''PIC_X_TELEMETRY_TLS_CERT''"
definition SETTING_TELEMETRY_TLS_KEY :: string where "SETTING_TELEMETRY_TLS_KEY = ''PIC_X_TELEMETRY_TLS_KEY''"
definition SETTING_TELEMETRY_TLS_MIN_VERSION :: string where
  "SETTING_TELEMETRY_TLS_MIN_VERSION = ''PIC_X_TELEMETRY_TLS_MIN_VERSION''"
definition SETTING_TLS_RELOAD :: string where "SETTING_TLS_RELOAD = ''PIC_X_TLS_RELOAD''"
definition SETTING_TLS_RELOAD_INTERVAL :: string where "SETTING_TLS_RELOAD_INTERVAL = ''PIC_X_TLS_RELOAD_INTERVAL''"
definition SETTING_LIMITS_CONNECTIONS :: string where "SETTING_LIMITS_CONNECTIONS = ''PIC_X_LIMITS_CONNECTIONS''"
definition SETTING_LIMITS_CONNECTIONS_PER_PEER :: string where
  "SETTING_LIMITS_CONNECTIONS_PER_PEER = ''PIC_X_LIMITS_CONNECTIONS_PER_PEER''"
definition SETTING_LIMITS_PEER_EXEMPT :: string where "SETTING_LIMITS_PEER_EXEMPT = ''PIC_X_LIMITS_PEER_EXEMPT''"
definition SETTING_LIMITS_CONNECTION_LIFETIME :: string where
  "SETTING_LIMITS_CONNECTION_LIFETIME = ''PIC_X_LIMITS_CONNECTION_LIFETIME''"
definition SETTING_LIMITS_WRITE_STALL_TIMEOUT :: string where
  "SETTING_LIMITS_WRITE_STALL_TIMEOUT = ''PIC_X_LIMITS_WRITE_STALL_TIMEOUT''"
definition SETTING_LIMITS_CONCURRENT_REQUESTS :: string where
  "SETTING_LIMITS_CONCURRENT_REQUESTS = ''PIC_X_LIMITS_CONCURRENT_REQUESTS''"
definition SETTING_LIMITS_REQUEST_TIMEOUT :: string where
  "SETTING_LIMITS_REQUEST_TIMEOUT = ''PIC_X_LIMITS_REQUEST_TIMEOUT''"
definition SETTING_LIMITS_HANDSHAKE_TIMEOUT :: string where
  "SETTING_LIMITS_HANDSHAKE_TIMEOUT = ''PIC_X_LIMITS_HANDSHAKE_TIMEOUT''"
definition SETTING_LIMITS_HEADER_TIMEOUT :: string where
  "SETTING_LIMITS_HEADER_TIMEOUT = ''PIC_X_LIMITS_HEADER_TIMEOUT''"
definition SETTING_LIMITS_BODY_BYTES :: string where "SETTING_LIMITS_BODY_BYTES = ''PIC_X_LIMITS_BODY_BYTES''"
definition SETTING_LIMITS_HEADER_BYTES :: string where "SETTING_LIMITS_HEADER_BYTES = ''PIC_X_LIMITS_HEADER_BYTES''"
definition SETTING_LOG_LEVEL :: string where "SETTING_LOG_LEVEL = ''PIC_X_LOG_LEVEL''"
definition SETTING_LOG_FORMAT :: string where "SETTING_LOG_FORMAT = ''PIC_X_LOG_FORMAT''"
definition SETTING_SHUTDOWN_TIMEOUT :: string where "SETTING_SHUTDOWN_TIMEOUT = ''PIC_X_SHUTDOWN_TIMEOUT''"
definition SETTING_SECRETS_PROVIDER :: string where "SETTING_SECRETS_PROVIDER = ''PIC_X_SECRETS_PROVIDER''"
definition SETTING_SECRETS_DIRECTORY :: string where "SETTING_SECRETS_DIRECTORY = ''PIC_X_SECRETS_DIRECTORY''"
definition SETTING_SECRETS_ENV_PREFIX :: string where "SETTING_SECRETS_ENV_PREFIX = ''PIC_X_SECRETS_ENV_PREFIX''"
definition SETTING_AUDIT_PSEUDONYM_ENABLED :: string where
  "SETTING_AUDIT_PSEUDONYM_ENABLED = ''PIC_X_AUDIT_PSEUDONYM_ENABLED''"
definition SETTING_AUDIT_PSEUDONYM_KEY_REF :: string where
  "SETTING_AUDIT_PSEUDONYM_KEY_REF = ''PIC_X_AUDIT_PSEUDONYM_KEY_REF''"
definition SETTING_AUDIT_PSEUDONYM_KEY_VERSION :: string where
  "SETTING_AUDIT_PSEUDONYM_KEY_VERSION = ''PIC_X_AUDIT_PSEUDONYM_KEY_VERSION''"
definition SETTING_AUDIT_SINK :: string where "SETTING_AUDIT_SINK = ''PIC_X_AUDIT_SINK''"
definition SETTING_AUDIT_DIRECTORY :: string where "SETTING_AUDIT_DIRECTORY = ''PIC_X_AUDIT_DIRECTORY''"
definition SETTING_AUDIT_RETENTION :: string where "SETTING_AUDIT_RETENTION = ''PIC_X_AUDIT_RETENTION''"
definition SETTING_KEYS_ENABLED :: string where "SETTING_KEYS_ENABLED = ''PIC_X_KEYS_ENABLED''"
definition SETTING_KEYS_DIRECTORY :: string where "SETTING_KEYS_DIRECTORY = ''PIC_X_KEYS_DIRECTORY''"
definition SETTING_KEYS_PUBLISH_AHEAD :: string where "SETTING_KEYS_PUBLISH_AHEAD = ''PIC_X_KEYS_PUBLISH_AHEAD''"
definition SETTING_KEYS_ROTATE_EVERY :: string where "SETTING_KEYS_ROTATE_EVERY = ''PIC_X_KEYS_ROTATE_EVERY''"
definition SETTING_KEYS_RETAIN :: string where "SETTING_KEYS_RETAIN = ''PIC_X_KEYS_RETAIN''"
definition SETTING_KEYS_MAINTENANCE_INTERVAL :: string where
  "SETTING_KEYS_MAINTENANCE_INTERVAL = ''PIC_X_KEYS_MAINTENANCE_INTERVAL''"

subsection \<open>Defaults\<close>

definition DEFAULT_KEY_VERSION :: string where "DEFAULT_KEY_VERSION = ''v1''"
definition DEFAULT_TLS_RELOAD_INTERVAL :: u64 where "DEFAULT_TLS_RELOAD_INTERVAL = 30"
definition DEFAULT_KEYS_PUBLISH_AHEAD :: u64 where "DEFAULT_KEYS_PUBLISH_AHEAD = 60 * 60"
definition DEFAULT_KEYS_ROTATE_EVERY :: u64 where "DEFAULT_KEYS_ROTATE_EVERY = 30 * 24 * 60 * 60"
definition DEFAULT_KEYS_MAINTENANCE_INTERVAL :: u64 where "DEFAULT_KEYS_MAINTENANCE_INTERVAL = 60"
definition DEFAULT_KEYS_RETAIN :: u64 where "DEFAULT_KEYS_RETAIN = 365 * 24 * 60 * 60"
definition DEFAULT_AUDIT_RETENTION :: u64 where "DEFAULT_AUDIT_RETENTION = 90 * 24 * 60 * 60"
definition DEFAULT_KEYS_SUBDIRECTORY :: string where "DEFAULT_KEYS_SUBDIRECTORY = ''operations/keys''"
definition DEFAULT_AUDIT_SUBDIRECTORY :: string where "DEFAULT_AUDIT_SUBDIRECTORY = ''operations/audit''"
definition DEFAULT_SHUTDOWN_TIMEOUT :: u64 where "DEFAULT_SHUTDOWN_TIMEOUT = 30"
definition DEFAULT_WORKING_DIR :: string where "DEFAULT_WORKING_DIR = ''.volume''"
definition DEFAULT_SECRETS_SUBDIRECTORY :: string where "DEFAULT_SECRETS_SUBDIRECTORY = ''operations/secrets''"
definition DEFAULT_VERSION :: string where "DEFAULT_VERSION = ''0.0.0''"
definition DEFAULT_COPYRIGHT_YEAR :: string where "DEFAULT_COPYRIGHT_YEAR = ''0000''"
definition DEFAULT_COPYRIGHT_HOLDER :: string where "DEFAULT_COPYRIGHT_HOLDER = ''PIC-X''"

subsection \<open>Layers and the configuration\<close>

type_synonym pairs = "(string \<times> string) list"

record Layers =
  layer_file :: pairs
  layer_environment :: pairs
  layer_command_line :: pairs

record BuildSettings =
  build_version :: string
  build_commit :: string
  build_copyright_year :: string
  build_copyright_holder :: string

definition new_build_settings :: "string \<Rightarrow> string \<Rightarrow> string \<Rightarrow> BuildSettings" where
  "new_build_settings version year holder =
     \<lparr> build_version = version, build_commit = ''unknown'', build_copyright_year = year, build_copyright_holder = holder \<rparr>"

definition with_commit :: "string \<Rightarrow> BuildSettings \<Rightarrow> BuildSettings" where
  "with_commit commit b = b\<lparr> build_commit := commit \<rparr>"

record RealmConfig =
  rc_name :: string
  rc_mount_path :: string
  rc_issuer :: "string option"
  rc_listed :: bool
  rc_token_keys_enabled :: bool
  rc_token_keys_publish_ahead :: u64
  rc_token_keys_rotate_every :: u64
  rc_token_keys_retain :: u64
  rc_token_lifetime :: u64
  rc_token_initial_expiry_policy :: TokenInitialExpiryPolicy
  rc_key_cache_stale_for :: u64
  rc_token_signing_algorithm :: string
  rc_operations_keys_enabled :: bool
  rc_operations_keys_publish_ahead :: u64
  rc_operations_keys_rotate_every :: u64
  rc_operations_keys_retain :: u64
  rc_audit_destination :: AuditDestination
  rc_audit_retention :: u64
  rc_audit_pseudonym_enabled :: bool
  rc_audit_pseudonym_key_ref :: "string option"
  rc_audit_pseudonym_key_version :: string
  rc_secrets_provider :: SecretProvider
  rc_secrets_env_prefix :: string
  rc_exchange_profiles :: "ExchangeProfileConfig list"
  rc_trusted_attesters :: "TrustedAttesterConfig list"

record Config =
  version :: string
  commit :: string
  copyright_year :: string
  copyright_holder :: string
  working_dir_setting :: "string option"
  autogenerate :: bool
  development_mode :: bool
  disclose_build :: bool
  issuer :: "string option"
  public_path_prefix :: string
  public_http_addr :: "string option"
  telemetry_addr :: "string option"
  admin_addr :: "string option"
  admin_allow :: "AllowedPeer list"
  log_level :: LogLevel
  log_format :: LogFormat
  public_tls_setting :: "TlsSettings option"
  admin_tls_setting :: "TlsSettings option"
  telemetry_tls_setting :: "TlsSettings option"
  tls_reload :: bool
  tls_reload_interval :: u64
  config_limits :: Limits
  shutdown_timeout :: u64
  secrets_provider :: SecretProvider
  secrets_directory_setting :: "string option"
  secrets_env_prefix :: string
  audit_destination :: AuditDestination
  audit_directory_setting :: "string option"
  audit_retention :: u64
  audit_pseudonym_enabled :: bool
  audit_pseudonym_key_ref :: "string option"
  audit_pseudonym_key_version :: string
  keys_enabled :: bool
  keys_directory_setting :: "string option"
  keys_publish_ahead :: u64
  keys_rotate_every :: u64
  keys_retain :: u64
  keys_maintenance_interval :: u64
  keys_lifecycle_declared :: "string set"
  config_realms :: "RealmConfig list"
  declared :: "string set"
  declared_values :: "string \<rightharpoonup> string"

definition default_config :: Config where
  "default_config = \<lparr>
     version = DEFAULT_VERSION,
     commit = ''unknown'',
     copyright_year = DEFAULT_COPYRIGHT_YEAR,
     copyright_holder = DEFAULT_COPYRIGHT_HOLDER,
     working_dir_setting = None,
     autogenerate = False,
     development_mode = False,
     disclose_build = True,
     issuer = None,
     public_path_prefix = [],
     public_http_addr = None,
     telemetry_addr = None,
     admin_addr = None,
     admin_allow = [],
     log_level = LevelInfo,
     log_format = JsonRecords,
     public_tls_setting = None,
     admin_tls_setting = None,
     telemetry_tls_setting = None,
     tls_reload = True,
     tls_reload_interval = DEFAULT_TLS_RELOAD_INTERVAL,
     config_limits = default_limits,
     shutdown_timeout = DEFAULT_SHUTDOWN_TIMEOUT,
     secrets_provider = NoProvider,
     secrets_directory_setting = None,
     secrets_env_prefix = ''PIC_X_SECRET'',
     audit_destination = ToTracing,
     audit_directory_setting = None,
     audit_retention = DEFAULT_AUDIT_RETENTION,
     audit_pseudonym_enabled = False,
     audit_pseudonym_key_ref = None,
     audit_pseudonym_key_version = DEFAULT_KEY_VERSION,
     keys_enabled = False,
     keys_directory_setting = None,
     keys_publish_ahead = DEFAULT_KEYS_PUBLISH_AHEAD,
     keys_rotate_every = DEFAULT_KEYS_ROTATE_EVERY,
     keys_retain = DEFAULT_KEYS_RETAIN,
     keys_maintenance_interval = DEFAULT_KEYS_MAINTENANCE_INTERVAL,
     keys_lifecycle_declared = {},
     config_realms = [],
     declared = {},
     declared_values = Map.empty \<rparr>"

subsection \<open>Reading a layer\<close>

definition settings_of :: "pairs \<Rightarrow> string \<rightharpoonup> string" where
  "settings_of inputs = map_of (rev (filter (\<lambda>(_, v). v \<noteq> []) inputs))"

definition read_into ::
    "(string \<rightharpoonup> string) \<Rightarrow> string \<Rightarrow> (string \<Rightarrow> setting_problem + 'a) \<Rightarrow> ('a \<Rightarrow> Config \<Rightarrow> Config)
     \<Rightarrow> Config \<Rightarrow> config_error + Config" where
  "read_into settings key parse store c =
     (case settings key of
        None \<Rightarrow> Inr c
      | Some v \<Rightarrow> and_then (map_err (Reading key) (parse v)) (\<lambda>x. Inr (store x c)))"

definition read_tls ::
    "(string \<rightharpoonup> string) \<Rightarrow> string \<Rightarrow> string \<Rightarrow> TlsKeys \<Rightarrow> (Config \<Rightarrow> TlsSettings option)
     \<Rightarrow> (TlsSettings option \<Rightarrow> Config \<Rightarrow> Config) \<Rightarrow> Config \<Rightarrow> config_error + Config" where
  "read_tls settings cert_key key_key keys stored store c =
     and_then (tls_of settings cert_key key_key keys (stored c)) (\<lambda>tls. Inr (store tls c))"

fun apply_steps :: "(Config \<Rightarrow> config_error + Config) list \<Rightarrow> Config \<Rightarrow> config_error + Config" where
  "apply_steps [] c = Inr c"
| "apply_steps (step # steps) c = and_then (step c) (apply_steps steps)"

definition product_steps :: "(string \<rightharpoonup> string) \<Rightarrow> (Config \<Rightarrow> config_error + Config) list" where
  "product_steps m =
     [read_into m SETTING_VERSION Inr (\<lambda>v c. c\<lparr> version := v \<rparr>),
      read_into m SETTING_COPYRIGHT_YEAR Inr (\<lambda>v c. c\<lparr> copyright_year := v \<rparr>),
      read_into m SETTING_COPYRIGHT_HOLDER Inr (\<lambda>v c. c\<lparr> copyright_holder := v \<rparr>),
      read_into m SETTING_WORKING_DIR Inr (\<lambda>v c. c\<lparr> working_dir_setting := Some v \<rparr>),
      read_into m SETTING_AUTOGENERATE parse_bool (\<lambda>b c. c\<lparr> autogenerate := b \<rparr>),
      read_into m SETTING_DEVELOPMENT_MODE parse_bool (\<lambda>b c. c\<lparr> development_mode := b \<rparr>),
      read_into m SETTING_ISSUER Inr (\<lambda>v c. c\<lparr> issuer := Some (trim_end_matches (CHR ''/'') v) \<rparr>),
      read_into m SETTING_PUBLIC_PATH_PREFIX Inr (\<lambda>v c. c\<lparr> public_path_prefix := trim_end_matches (CHR ''/'') v \<rparr>),
      read_into m SETTING_PUBLIC_HTTP_ADDR Inr (\<lambda>v c. c\<lparr> public_http_addr := Some v \<rparr>),
      read_into m SETTING_TELEMETRY_ADDR Inr (\<lambda>v c. c\<lparr> telemetry_addr := Some v \<rparr>),
      read_into m SETTING_ADMIN_ADDR Inr (\<lambda>v c. c\<lparr> admin_addr := Some v \<rparr>),
      read_into m SETTING_ADMIN_ALLOW parse_allowed (\<lambda>ps c. c\<lparr> admin_allow := ps \<rparr>),
      read_into m SETTING_LOG_LEVEL parse_log_level (\<lambda>l c. c\<lparr> log_level := l \<rparr>),
      read_into m SETTING_LOG_FORMAT parse_log_format (\<lambda>f c. c\<lparr> log_format := f \<rparr>),
      read_into m SETTING_PUBLIC_DISCLOSE_BUILD parse_bool (\<lambda>b c. c\<lparr> disclose_build := b \<rparr>)]"

definition tls_steps :: "(string \<rightharpoonup> string) \<Rightarrow> (Config \<Rightarrow> config_error + Config) list" where
  "tls_steps m =
     [read_tls m SETTING_PUBLIC_TLS_CERT SETTING_PUBLIC_TLS_KEY
        \<lparr> keys_client_ca = Some SETTING_PUBLIC_TLS_CLIENT_CA, keys_crl = Some SETTING_PUBLIC_TLS_CRL,
          keys_allow = Some SETTING_PUBLIC_TLS_ALLOW, keys_min_version = SETTING_PUBLIC_TLS_MIN_VERSION \<rparr>
        public_tls_setting (\<lambda>t c. c\<lparr> public_tls_setting := t \<rparr>),
      read_tls m SETTING_ADMIN_TLS_CERT SETTING_ADMIN_TLS_KEY
        \<lparr> keys_client_ca = Some SETTING_ADMIN_TLS_CLIENT_CA, keys_crl = Some SETTING_ADMIN_TLS_CRL,
          keys_allow = None, keys_min_version = SETTING_ADMIN_TLS_MIN_VERSION \<rparr>
        admin_tls_setting (\<lambda>t c. c\<lparr> admin_tls_setting := t \<rparr>),
      read_tls m SETTING_TELEMETRY_TLS_CERT SETTING_TELEMETRY_TLS_KEY
        \<lparr> keys_client_ca = None, keys_crl = None, keys_allow = None, keys_min_version = SETTING_TELEMETRY_TLS_MIN_VERSION \<rparr>
        telemetry_tls_setting (\<lambda>t c. c\<lparr> telemetry_tls_setting := t \<rparr>),
      read_into m SETTING_TLS_RELOAD parse_bool (\<lambda>b c. c\<lparr> tls_reload := b \<rparr>),
      read_into m SETTING_TLS_RELOAD_INTERVAL parse_duration (\<lambda>d c. c\<lparr> tls_reload_interval := d \<rparr>)]"

definition limits_steps ::
    "(string \<Rightarrow> IpAddr option) \<Rightarrow> (string \<rightharpoonup> string) \<Rightarrow> (Config \<Rightarrow> config_error + Config) list" where
  "limits_steps parse_ip m =
     [read_into m SETTING_LIMITS_CONNECTIONS parse_count (\<lambda>n c. c\<lparr> config_limits := with_connections n (config_limits c) \<rparr>),
      read_into m SETTING_LIMITS_CONNECTIONS_PER_PEER parse_u32
        (\<lambda>n c. c\<lparr> config_limits := with_connections_per_peer n (config_limits c) \<rparr>),
      read_into m SETTING_LIMITS_PEER_EXEMPT (parse_exempt parse_ip)
        (\<lambda>bs c. c\<lparr> config_limits := with_peer_exempt bs (config_limits c) \<rparr>),
      read_into m SETTING_LIMITS_CONNECTION_LIFETIME parse_duration_allow_zero
        (\<lambda>d c. c\<lparr> config_limits := with_connection_lifetime (if d = 0 then None else Some d) (config_limits c) \<rparr>),
      read_into m SETTING_LIMITS_WRITE_STALL_TIMEOUT parse_duration
        (\<lambda>d c. c\<lparr> config_limits := with_write_stall_timeout d (config_limits c) \<rparr>),
      read_into m SETTING_LIMITS_CONCURRENT_REQUESTS parse_count
        (\<lambda>n c. c\<lparr> config_limits := with_concurrent_requests n (config_limits c) \<rparr>),
      read_into m SETTING_LIMITS_REQUEST_TIMEOUT parse_duration
        (\<lambda>d c. c\<lparr> config_limits := with_request_timeout d (config_limits c) \<rparr>),
      read_into m SETTING_LIMITS_HANDSHAKE_TIMEOUT parse_duration
        (\<lambda>d c. c\<lparr> config_limits := with_handshake_timeout d (config_limits c) \<rparr>),
      read_into m SETTING_LIMITS_HEADER_TIMEOUT parse_duration
        (\<lambda>d c. c\<lparr> config_limits := with_header_timeout d (config_limits c) \<rparr>),
      read_into m SETTING_LIMITS_BODY_BYTES parse_bytes
        (\<lambda>n c. c\<lparr> config_limits := with_body_bytes n (config_limits c) \<rparr>),
      read_into m SETTING_LIMITS_HEADER_BYTES parse_bytes
        (\<lambda>n c. c\<lparr> config_limits := with_header_bytes n (config_limits c) \<rparr>)]"

definition operations_steps :: "(string \<rightharpoonup> string) \<Rightarrow> (Config \<Rightarrow> config_error + Config) list" where
  "operations_steps m =
     [read_into m SETTING_SHUTDOWN_TIMEOUT parse_duration (\<lambda>d c. c\<lparr> shutdown_timeout := d \<rparr>),
      read_into m SETTING_SECRETS_PROVIDER parse_secret_provider (\<lambda>p c. c\<lparr> secrets_provider := p \<rparr>),
      read_into m SETTING_SECRETS_DIRECTORY Inr (\<lambda>v c. c\<lparr> secrets_directory_setting := Some v \<rparr>),
      read_into m SETTING_SECRETS_ENV_PREFIX Inr (\<lambda>v c. c\<lparr> secrets_env_prefix := v \<rparr>),
      read_into m SETTING_AUDIT_PSEUDONYM_ENABLED parse_bool (\<lambda>b c. c\<lparr> audit_pseudonym_enabled := b \<rparr>),
      read_into m SETTING_AUDIT_PSEUDONYM_KEY_REF Inr (\<lambda>v c. c\<lparr> audit_pseudonym_key_ref := Some v \<rparr>),
      read_into m SETTING_AUDIT_PSEUDONYM_KEY_VERSION Inr (\<lambda>v c. c\<lparr> audit_pseudonym_key_version := v \<rparr>),
      read_into m SETTING_AUDIT_SINK parse_audit_destination (\<lambda>d c. c\<lparr> audit_destination := d \<rparr>),
      read_into m SETTING_AUDIT_DIRECTORY Inr (\<lambda>v c. c\<lparr> audit_directory_setting := Some v \<rparr>),
      read_into m SETTING_AUDIT_RETENTION parse_duration (\<lambda>d c. c\<lparr> audit_retention := d \<rparr>),
      read_into m SETTING_KEYS_ENABLED parse_bool (\<lambda>b c. c\<lparr> keys_enabled := b \<rparr>),
      read_into m SETTING_KEYS_DIRECTORY Inr (\<lambda>v c. c\<lparr> keys_directory_setting := Some v \<rparr>),
      read_into m SETTING_KEYS_PUBLISH_AHEAD parse_duration
        (\<lambda>d c. c\<lparr> keys_publish_ahead := d,
                  keys_lifecycle_declared := insert SETTING_KEYS_PUBLISH_AHEAD (keys_lifecycle_declared c) \<rparr>),
      read_into m SETTING_KEYS_ROTATE_EVERY parse_duration
        (\<lambda>d c. c\<lparr> keys_rotate_every := d,
                  keys_lifecycle_declared := insert SETTING_KEYS_ROTATE_EVERY (keys_lifecycle_declared c) \<rparr>),
      read_into m SETTING_KEYS_RETAIN parse_duration
        (\<lambda>d c. c\<lparr> keys_retain := d,
                  keys_lifecycle_declared := insert SETTING_KEYS_RETAIN (keys_lifecycle_declared c) \<rparr>),
      read_into m SETTING_KEYS_MAINTENANCE_INTERVAL parse_duration (\<lambda>d c. c\<lparr> keys_maintenance_interval := d \<rparr>)]"

definition keep_declared :: "(string \<rightharpoonup> string) \<Rightarrow> Config \<Rightarrow> config_error + Config" where
  "keep_declared m c =
     Inr (c\<lparr> declared_values := (\<lambda>key. if key \<in> declared c \<and> m key \<noteq> None then m key else declared_values c key) \<rparr>)"

definition apply_pairs :: "(string \<Rightarrow> IpAddr option) \<Rightarrow> pairs \<Rightarrow> Config \<Rightarrow> config_error + Config" where
  "apply_pairs parse_ip inputs =
     (let m = settings_of inputs in
      apply_steps (product_steps m @ tls_steps m @ limits_steps parse_ip m @ operations_steps m @ [keep_declared m]))"

definition apply_build_settings :: "BuildSettings \<Rightarrow> Config \<Rightarrow> Config" where
  "apply_build_settings b c =
     c\<lparr> version := build_version b, commit := build_commit b, copyright_year := build_copyright_year b,
        copyright_holder := build_copyright_holder b \<rparr>"

definition from_layers ::
    "(string \<Rightarrow> IpAddr option) \<Rightarrow> BuildSettings \<Rightarrow> string list \<Rightarrow> Layers \<Rightarrow> config_error + Config" where
  "from_layers parse_ip b declared_settings layers =
     and_then (apply_pairs parse_ip (layer_file layers)
         (apply_build_settings b (default_config\<lparr> declared := set declared_settings \<rparr>)))
       (\<lambda>c. and_then (apply_pairs parse_ip (layer_environment layers) c)
       (\<lambda>c. apply_pairs parse_ip (layer_command_line layers) c))"

subsection \<open>What the configuration hands out\<close>

definition working_dir :: "Config \<Rightarrow> string" where
  "working_dir c = (case working_dir_setting c of Some d \<Rightarrow> d | None \<Rightarrow> DEFAULT_WORKING_DIR)"

definition resolve :: "Config \<Rightarrow> string \<Rightarrow> string" where
  "resolve c path = resolve_path (working_dir c) path"

definition resolved_tls :: "Config \<Rightarrow> TlsSettings option \<Rightarrow> TlsSettings option" where
  "resolved_tls c settings =
     map_option (\<lambda>tls. let resolved = resolved_in (working_dir c) tls in
                       if tls_reload c then with_reload (tls_reload_interval c) resolved else without_reload resolved) settings"

definition public_tls :: "Config \<Rightarrow> TlsSettings option" where
  "public_tls c = resolved_tls c (public_tls_setting c)"
definition admin_tls :: "Config \<Rightarrow> TlsSettings option" where
  "admin_tls c = resolved_tls c (admin_tls_setting c)"
definition telemetry_tls :: "Config \<Rightarrow> TlsSettings option" where
  "telemetry_tls c = resolved_tls c (telemetry_tls_setting c)"

definition public_url :: "Config \<Rightarrow> string \<Rightarrow> string" where
  "public_url c path =
     (case issuer c of Some base \<Rightarrow> trim_end_matches (CHR ''/'') base @ path | None \<Rightarrow> path)"

definition secrets_directory :: "Config \<Rightarrow> string" where
  "secrets_directory c = resolve c (case secrets_directory_setting c of Some d \<Rightarrow> d | None \<Rightarrow> DEFAULT_SECRETS_SUBDIRECTORY)"
definition audit_directory :: "Config \<Rightarrow> string" where
  "audit_directory c = resolve c (case audit_directory_setting c of Some d \<Rightarrow> d | None \<Rightarrow> DEFAULT_AUDIT_SUBDIRECTORY)"
definition keys_directory :: "Config \<Rightarrow> string" where
  "keys_directory c = resolve c (case keys_directory_setting c of Some d \<Rightarrow> d | None \<Rightarrow> DEFAULT_KEYS_SUBDIRECTORY)"

definition realm_keys_directory :: "Config \<Rightarrow> string \<Rightarrow> string" where
  "realm_keys_directory c realm = resolve c (''realms/'' @ realm @ ''/operations/keys'')"
definition realm_token_keys_directory :: "Config \<Rightarrow> string \<Rightarrow> string" where
  "realm_token_keys_directory c realm = resolve c (''realms/'' @ realm @ ''/keys'')"
definition realm_audit_directory :: "Config \<Rightarrow> string \<Rightarrow> string" where
  "realm_audit_directory c realm = resolve c (''realms/'' @ realm @ ''/operations/audit'')"
definition realm_secrets_directory :: "Config \<Rightarrow> string \<Rightarrow> string" where
  "realm_secrets_directory c realm = resolve c (''realms/'' @ realm @ ''/operations/secrets'')"

definition setting :: "Config \<Rightarrow> string \<Rightarrow> string option" where
  "setting c key = declared_values c key"

definition declared_addresses :: "Config \<Rightarrow> (string \<times> string) list" where
  "declared_addresses c =
     [(label, addr). (label, Some addr) \<leftarrow> [(''public'', public_http_addr c), (''telemetry'', telemetry_addr c), (''admin'', admin_addr c)]]"

section \<open>Lemmas\<close>

text \<open>\<open>reads m key parse shown field default c\<close>: the field holds what \<open>m\<close> says under the key, or the default.\<close>

definition reads ::
    "(string \<rightharpoonup> string) \<Rightarrow> string \<Rightarrow> (string \<Rightarrow> setting_problem + 'a) \<Rightarrow> ('a \<Rightarrow> 'b) \<Rightarrow> (Config \<Rightarrow> 'b) \<Rightarrow> 'b \<Rightarrow> Config \<Rightarrow> bool" where
  "reads m key parse shown field d c \<longleftrightarrow>
     (case m key of None \<Rightarrow> field c = d | Some v \<Rightarrow> (\<exists>x. parse v = Inr x \<and> field c = shown x))"

definition keeps :: "(Config \<Rightarrow> 'b) \<Rightarrow> (Config \<Rightarrow> config_error + Config) \<Rightarrow> bool" where
  "keeps field step \<longleftrightarrow> (\<forall>c c'. step c = Inr c' \<longrightarrow> field c' = field c)"

definition decides ::
    "(string \<rightharpoonup> string) \<Rightarrow> string \<Rightarrow> (string \<Rightarrow> setting_problem + 'a) \<Rightarrow> ('a \<Rightarrow> 'b) \<Rightarrow> (Config \<Rightarrow> 'b)
     \<Rightarrow> (Config \<Rightarrow> config_error + Config) list \<Rightarrow> bool" where
  "decides m key parse shown field steps \<longleftrightarrow>
     (\<forall>c c'. apply_steps steps c = Inr c' \<longrightarrow> reads m key parse shown field (field c) c')"

lemma keeps_read_into: "(\<And>x c. field (store x c) = field c) \<Longrightarrow> keeps field (read_into m key parse store)"
  by (auto simp: keeps_def read_into_def result_iffs split: option.splits)

lemma keeps_read_tls: "(\<And>x c. field (store x c) = field c) \<Longrightarrow> keeps field (read_tls m k1 k2 keys stored store)"
  by (auto simp: keeps_def read_tls_def result_iffs)

lemma keeps_declared: "(\<And>f c. field (c\<lparr> declared_values := f \<rparr>) = field c) \<Longrightarrow> keeps field (keep_declared m)"
  by (auto simp: keeps_def keep_declared_def)

lemma list_all_ConsI: "P x \<Longrightarrow> list_all P xs \<Longrightarrow> list_all P (x # xs)" by simp
lemma list_all_NilI: "list_all P []" by simp

lemma keeps_apply_steps: "list_all (keeps field) steps \<Longrightarrow> apply_steps steps c = Inr c' \<Longrightarrow> field c' = field c"
  by (induction steps arbitrary: c) (auto simp: keeps_def result_iffs)

lemma decides_here:
  assumes "\<And>x c. field (store x c) = shown x" "list_all (keeps field) steps"
  shows "decides m key parse shown field (read_into m key parse store # steps)"
  unfolding decides_def
proof (intro allI impI)
  fix c c'
  assume run: "apply_steps (read_into m key parse store # steps) c = Inr c'"
  then obtain c1 where c1: "read_into m key parse store c = Inr c1" "field c' = field c1"
    using keeps_apply_steps [OF assms(2)] by (auto simp: result_iffs)
  then show "reads m key parse shown field (field c) c'"
    using assms(1) by (auto simp: reads_def read_into_def result_iffs split: option.splits)
qed

lemma decides_later: "keeps field step \<Longrightarrow> decides m key parse shown field steps \<Longrightarrow> decides m key parse shown field (step # steps)"
  by (fastforce simp: decides_def keeps_def result_iffs)

lemmas decides_intros = decides_here decides_later keeps_read_into keeps_read_tls keeps_declared list_all_ConsI list_all_NilI

lemmas config_steps = product_steps_def tls_steps_def limits_steps_def operations_steps_def append.simps

lemmas limits_withs = with_connections_def with_connections_per_peer_def with_peer_exempt_def with_connection_lifetime_def
  with_write_stall_timeout_def with_concurrent_requests_def with_request_timeout_def with_handshake_timeout_def
  with_header_timeout_def with_body_bytes_def with_header_bytes_def

abbreviation all_steps where
  "all_steps parse_ip m \<equiv> product_steps m @ tls_steps m @ limits_steps parse_ip m @ operations_steps m @ [keep_declared m]"

lemma setting_decides:
  "decides m SETTING_VERSION Inr id version (all_steps parse_ip m)"
  "decides m SETTING_COPYRIGHT_YEAR Inr id copyright_year (all_steps parse_ip m)"
  "decides m SETTING_COPYRIGHT_HOLDER Inr id copyright_holder (all_steps parse_ip m)"
  "decides m SETTING_WORKING_DIR Inr Some working_dir_setting (all_steps parse_ip m)"
  "decides m SETTING_AUTOGENERATE parse_bool id autogenerate (all_steps parse_ip m)"
  "decides m SETTING_DEVELOPMENT_MODE parse_bool id development_mode (all_steps parse_ip m)"
  "decides m SETTING_ISSUER Inr (\<lambda>v. Some (trim_end_matches (CHR ''/'') v)) issuer (all_steps parse_ip m)"
  "decides m SETTING_PUBLIC_PATH_PREFIX Inr (trim_end_matches (CHR ''/'')) public_path_prefix (all_steps parse_ip m)"
  "decides m SETTING_PUBLIC_HTTP_ADDR Inr Some public_http_addr (all_steps parse_ip m)"
  "decides m SETTING_TELEMETRY_ADDR Inr Some telemetry_addr (all_steps parse_ip m)"
  "decides m SETTING_ADMIN_ADDR Inr Some admin_addr (all_steps parse_ip m)"
  "decides m SETTING_ADMIN_ALLOW parse_allowed id admin_allow (all_steps parse_ip m)"
  "decides m SETTING_LOG_LEVEL parse_log_level id log_level (all_steps parse_ip m)"
  "decides m SETTING_LOG_FORMAT parse_log_format id log_format (all_steps parse_ip m)"
  "decides m SETTING_PUBLIC_DISCLOSE_BUILD parse_bool id disclose_build (all_steps parse_ip m)"
  "decides m SETTING_TLS_RELOAD parse_bool id tls_reload (all_steps parse_ip m)"
  "decides m SETTING_TLS_RELOAD_INTERVAL parse_duration id tls_reload_interval (all_steps parse_ip m)"
  "decides m SETTING_LIMITS_CONNECTIONS parse_count id (limit_connections \<circ> config_limits) (all_steps parse_ip m)"
  "decides m SETTING_LIMITS_CONNECTIONS_PER_PEER parse_u32 id (limit_connections_per_peer \<circ> config_limits) (all_steps parse_ip m)"
  "decides m SETTING_LIMITS_PEER_EXEMPT (parse_exempt parse_ip) id (limit_peer_exempt \<circ> config_limits) (all_steps parse_ip m)"
  "decides m SETTING_LIMITS_CONNECTION_LIFETIME parse_duration_allow_zero (\<lambda>d. if d = 0 then None else Some d) (limit_connection_lifetime \<circ> config_limits) (all_steps parse_ip m)"
  "decides m SETTING_LIMITS_WRITE_STALL_TIMEOUT parse_duration id (limit_write_stall_timeout \<circ> config_limits) (all_steps parse_ip m)"
  "decides m SETTING_LIMITS_CONCURRENT_REQUESTS parse_count id (limit_concurrent_requests \<circ> config_limits) (all_steps parse_ip m)"
  "decides m SETTING_LIMITS_REQUEST_TIMEOUT parse_duration id (limit_request_timeout \<circ> config_limits) (all_steps parse_ip m)"
  "decides m SETTING_LIMITS_HANDSHAKE_TIMEOUT parse_duration id (limit_handshake_timeout \<circ> config_limits) (all_steps parse_ip m)"
  "decides m SETTING_LIMITS_HEADER_TIMEOUT parse_duration id (limit_header_timeout \<circ> config_limits) (all_steps parse_ip m)"
  "decides m SETTING_LIMITS_BODY_BYTES parse_bytes id (limit_body_bytes \<circ> config_limits) (all_steps parse_ip m)"
  "decides m SETTING_LIMITS_HEADER_BYTES parse_bytes id (limit_header_bytes \<circ> config_limits) (all_steps parse_ip m)"
  "decides m SETTING_SHUTDOWN_TIMEOUT parse_duration id shutdown_timeout (all_steps parse_ip m)"
  "decides m SETTING_SECRETS_PROVIDER parse_secret_provider id secrets_provider (all_steps parse_ip m)"
  "decides m SETTING_SECRETS_DIRECTORY Inr Some secrets_directory_setting (all_steps parse_ip m)"
  "decides m SETTING_SECRETS_ENV_PREFIX Inr id secrets_env_prefix (all_steps parse_ip m)"
  "decides m SETTING_AUDIT_PSEUDONYM_ENABLED parse_bool id audit_pseudonym_enabled (all_steps parse_ip m)"
  "decides m SETTING_AUDIT_PSEUDONYM_KEY_REF Inr Some audit_pseudonym_key_ref (all_steps parse_ip m)"
  "decides m SETTING_AUDIT_PSEUDONYM_KEY_VERSION Inr id audit_pseudonym_key_version (all_steps parse_ip m)"
  "decides m SETTING_AUDIT_SINK parse_audit_destination id audit_destination (all_steps parse_ip m)"
  "decides m SETTING_AUDIT_DIRECTORY Inr Some audit_directory_setting (all_steps parse_ip m)"
  "decides m SETTING_AUDIT_RETENTION parse_duration id audit_retention (all_steps parse_ip m)"
  "decides m SETTING_KEYS_ENABLED parse_bool id keys_enabled (all_steps parse_ip m)"
  "decides m SETTING_KEYS_DIRECTORY Inr Some keys_directory_setting (all_steps parse_ip m)"
  "decides m SETTING_KEYS_PUBLISH_AHEAD parse_duration id keys_publish_ahead (all_steps parse_ip m)"
  "decides m SETTING_KEYS_ROTATE_EVERY parse_duration id keys_rotate_every (all_steps parse_ip m)"
  "decides m SETTING_KEYS_RETAIN parse_duration id keys_retain (all_steps parse_ip m)"
  "decides m SETTING_KEYS_MAINTENANCE_INTERVAL parse_duration id keys_maintenance_interval (all_steps parse_ip m)"
  unfolding config_steps by (intro decides_intros; simp add: limits_withs)+

lemma lifecycle_decides:
  "decides m SETTING_KEYS_PUBLISH_AHEAD parse_duration (\<lambda>_. True)
     (\<lambda>c. SETTING_KEYS_PUBLISH_AHEAD \<in> keys_lifecycle_declared c) (all_steps parse_ip m)"
  "decides m SETTING_KEYS_ROTATE_EVERY parse_duration (\<lambda>_. True)
     (\<lambda>c. SETTING_KEYS_ROTATE_EVERY \<in> keys_lifecycle_declared c) (all_steps parse_ip m)"
  "decides m SETTING_KEYS_RETAIN parse_duration (\<lambda>_. True)
     (\<lambda>c. SETTING_KEYS_RETAIN \<in> keys_lifecycle_declared c) (all_steps parse_ip m)"
  unfolding config_steps
  by (intro decides_intros; simp add: SETTING_KEYS_PUBLISH_AHEAD_def SETTING_KEYS_ROTATE_EVERY_def SETTING_KEYS_RETAIN_def)+

subsection \<open>Three layers\<close>

text \<open>What the layers say together: a later one overrides an earlier one, setting by setting.\<close>

definition effective :: "Layers \<Rightarrow> string \<rightharpoonup> string" where
  "effective layers = settings_of (layer_file layers) ++ settings_of (layer_environment layers)
     ++ settings_of (layer_command_line layers)"

lemma reads_then:
  "reads m1 key parse shown field d c1 \<Longrightarrow> reads m2 key parse shown field (field c1) c2
   \<Longrightarrow> reads (m1 ++ m2) key parse shown field d c2"
  by (auto simp: reads_def map_add_def split: option.splits)

definition base_config :: "BuildSettings \<Rightarrow> string list \<Rightarrow> Config" where
  "base_config b declared_settings = apply_build_settings b (default_config\<lparr> declared := set declared_settings \<rparr>)"

lemma from_layers_steps:
  assumes "from_layers parse_ip b declared_settings layers = Inr c"
  obtains c1 c2 where
    "apply_steps (all_steps parse_ip (settings_of (layer_file layers))) (base_config b declared_settings) = Inr c1"
    "apply_steps (all_steps parse_ip (settings_of (layer_environment layers))) c1 = Inr c2"
    "apply_steps (all_steps parse_ip (settings_of (layer_command_line layers))) c2 = Inr c"
  using assms by (auto simp: from_layers_def apply_pairs_def Let_def base_config_def result_iffs)

lemma from_layers_reads:
  assumes "from_layers parse_ip b declared_settings layers = Inr c"
    and "\<And>m. decides m key parse shown field (all_steps parse_ip m)"
    and "field (base_config b declared_settings) = d"
  shows "reads (effective layers) key parse shown field d c"
proof -
  from assms(1) obtain c1 c2 where
    run: "apply_steps (all_steps parse_ip (settings_of (layer_file layers))) (base_config b declared_settings) = Inr c1"
    "apply_steps (all_steps parse_ip (settings_of (layer_environment layers))) c1 = Inr c2"
    "apply_steps (all_steps parse_ip (settings_of (layer_command_line layers))) c2 = Inr c" by (rule from_layers_steps)
  then have "reads (settings_of (layer_file layers)) key parse shown field (field (base_config b declared_settings)) c1"
    "reads (settings_of (layer_environment layers)) key parse shown field (field c1) c2"
    "reads (settings_of (layer_command_line layers)) key parse shown field (field c2) c"
    using assms(2) by (simp_all add: decides_def)
  then show ?thesis unfolding effective_def using assms(3) by (metis reads_then)
qed

lemma keeps_from_layers:
  assumes "from_layers parse_ip b declared_settings layers = Inr c"
    and "\<And>m. list_all (keeps field) (all_steps parse_ip m)"
  shows "field c = field (base_config b declared_settings)"
proof -
  note keep = keeps_apply_steps [OF assms(2)]
  from assms(1) show ?thesis by (rule from_layers_steps) (simp add: keep)
qed

lemma declared_kept: "list_all (keeps declared) (all_steps parse_ip m)" "list_all (keeps commit) (all_steps parse_ip m)"
  unfolding config_steps by (intro decides_intros; simp)+

lemma declared_decides:
  assumes "apply_steps (all_steps parse_ip m) c = Inr c'"
  shows "declared_values c' key = (if key \<in> declared c \<and> m key \<noteq> None then m key else declared_values c key)"
proof -
  let ?before = "product_steps m @ tls_steps m @ limits_steps parse_ip m @ operations_steps m"
  have append: "apply_steps (xs @ ys) c = and_then (apply_steps xs c) (apply_steps ys)" for xs ys c
    by (induction xs arbitrary: c) (auto simp: and_then_def split: sum.splits)
  have "and_then (apply_steps ?before c) (apply_steps [keep_declared m]) = Inr c'"
    using assms append [of ?before "[keep_declared m]" c] by simp
  then obtain c1 where c1: "apply_steps ?before c = Inr c1" "keep_declared m c1 = Inr c'"
    by (auto simp: result_iffs)
  have "list_all (keeps declared) ?before" "list_all (keeps declared_values) ?before"
    unfolding config_steps by (intro decides_intros; simp)+
  from keeps_apply_steps [OF this(1) c1(1)] keeps_apply_steps [OF this(2) c1(1)] c1(2) show ?thesis
    by (auto simp: keep_declared_def)
qed

lemma from_layers_declared:
  assumes "from_layers parse_ip b declared_settings layers = Inr c"
  shows "declared_values c key = (if key \<in> set declared_settings then effective layers key else None)"
proof -
  from assms obtain c1 c2 where
    run: "apply_steps (all_steps parse_ip (settings_of (layer_file layers))) (base_config b declared_settings) = Inr c1"
    "apply_steps (all_steps parse_ip (settings_of (layer_environment layers))) c1 = Inr c2"
    "apply_steps (all_steps parse_ip (settings_of (layer_command_line layers))) c2 = Inr c" by (rule from_layers_steps)
  have "declared c1 = set declared_settings" "declared c2 = set declared_settings"
    using keeps_apply_steps [OF declared_kept(1) run(1)] keeps_apply_steps [OF declared_kept(1) run(2)]
    by (simp_all add: base_config_def apply_build_settings_def)
  with declared_decides [OF run(1)] declared_decides [OF run(2)] declared_decides [OF run(3)] show ?thesis
    by (auto simp: effective_def map_add_def base_config_def apply_build_settings_def default_config_def split: option.splits)
qed

section \<open>Properties\<close>

text \<open>
  The latest layer that says something wins, for every setting but the TLS material. After \<open>from_layers\<close>
  each field holds what the command line says, else the environment, else the file, else the build or
  the default; an empty value says nothing. A setting that the build declared is read the same way, and
  one it did not declare is never there.
\<close>

theorem latest_layer_wins:
  assumes "from_layers parse_ip b declared_settings layers = Inr c"
  shows "let m = effective layers in
    reads m SETTING_VERSION Inr id version (build_version b) c
    \<and> reads m SETTING_COPYRIGHT_YEAR Inr id copyright_year (build_copyright_year b) c
    \<and> reads m SETTING_COPYRIGHT_HOLDER Inr id copyright_holder (build_copyright_holder b) c
    \<and> reads m SETTING_WORKING_DIR Inr Some working_dir_setting None c
    \<and> reads m SETTING_AUTOGENERATE parse_bool id autogenerate False c
    \<and> reads m SETTING_DEVELOPMENT_MODE parse_bool id development_mode False c
    \<and> reads m SETTING_ISSUER Inr (\<lambda>v. Some (trim_end_matches (CHR ''/'') v)) issuer None c
    \<and> reads m SETTING_PUBLIC_PATH_PREFIX Inr (trim_end_matches (CHR ''/'')) public_path_prefix [] c
    \<and> reads m SETTING_PUBLIC_HTTP_ADDR Inr Some public_http_addr None c
    \<and> reads m SETTING_TELEMETRY_ADDR Inr Some telemetry_addr None c
    \<and> reads m SETTING_ADMIN_ADDR Inr Some admin_addr None c
    \<and> reads m SETTING_ADMIN_ALLOW parse_allowed id admin_allow [] c
    \<and> reads m SETTING_LOG_LEVEL parse_log_level id log_level LevelInfo c
    \<and> reads m SETTING_LOG_FORMAT parse_log_format id log_format JsonRecords c
    \<and> reads m SETTING_PUBLIC_DISCLOSE_BUILD parse_bool id disclose_build True c
    \<and> reads m SETTING_TLS_RELOAD parse_bool id tls_reload True c
    \<and> reads m SETTING_TLS_RELOAD_INTERVAL parse_duration id tls_reload_interval DEFAULT_TLS_RELOAD_INTERVAL c
    \<and> reads m SETTING_LIMITS_CONNECTIONS parse_count id (limit_connections \<circ> config_limits) DEFAULT_CONNECTIONS c
    \<and> reads m SETTING_LIMITS_CONNECTIONS_PER_PEER parse_u32 id (limit_connections_per_peer \<circ> config_limits) DEFAULT_CONNECTIONS_PER_PEER c
    \<and> reads m SETTING_LIMITS_PEER_EXEMPT (parse_exempt parse_ip) id (limit_peer_exempt \<circ> config_limits) [] c
    \<and> reads m SETTING_LIMITS_CONNECTION_LIFETIME parse_duration_allow_zero (\<lambda>d. if d = 0 then None else Some d) (limit_connection_lifetime \<circ> config_limits) None c
    \<and> reads m SETTING_LIMITS_WRITE_STALL_TIMEOUT parse_duration id (limit_write_stall_timeout \<circ> config_limits) DEFAULT_WRITE_STALL_TIMEOUT c
    \<and> reads m SETTING_LIMITS_CONCURRENT_REQUESTS parse_count id (limit_concurrent_requests \<circ> config_limits) DEFAULT_CONCURRENT_REQUESTS c
    \<and> reads m SETTING_LIMITS_REQUEST_TIMEOUT parse_duration id (limit_request_timeout \<circ> config_limits) DEFAULT_REQUEST_TIMEOUT c
    \<and> reads m SETTING_LIMITS_HANDSHAKE_TIMEOUT parse_duration id (limit_handshake_timeout \<circ> config_limits) DEFAULT_HANDSHAKE_TIMEOUT c
    \<and> reads m SETTING_LIMITS_HEADER_TIMEOUT parse_duration id (limit_header_timeout \<circ> config_limits) DEFAULT_HEADER_TIMEOUT c
    \<and> reads m SETTING_LIMITS_BODY_BYTES parse_bytes id (limit_body_bytes \<circ> config_limits) DEFAULT_BODY_BYTES c
    \<and> reads m SETTING_LIMITS_HEADER_BYTES parse_bytes id (limit_header_bytes \<circ> config_limits) DEFAULT_HEADER_BYTES c
    \<and> reads m SETTING_SHUTDOWN_TIMEOUT parse_duration id shutdown_timeout DEFAULT_SHUTDOWN_TIMEOUT c
    \<and> reads m SETTING_SECRETS_PROVIDER parse_secret_provider id secrets_provider NoProvider c
    \<and> reads m SETTING_SECRETS_DIRECTORY Inr Some secrets_directory_setting None c
    \<and> reads m SETTING_SECRETS_ENV_PREFIX Inr id secrets_env_prefix ''PIC_X_SECRET'' c
    \<and> reads m SETTING_AUDIT_PSEUDONYM_ENABLED parse_bool id audit_pseudonym_enabled False c
    \<and> reads m SETTING_AUDIT_PSEUDONYM_KEY_REF Inr Some audit_pseudonym_key_ref None c
    \<and> reads m SETTING_AUDIT_PSEUDONYM_KEY_VERSION Inr id audit_pseudonym_key_version DEFAULT_KEY_VERSION c
    \<and> reads m SETTING_AUDIT_SINK parse_audit_destination id audit_destination ToTracing c
    \<and> reads m SETTING_AUDIT_DIRECTORY Inr Some audit_directory_setting None c
    \<and> reads m SETTING_AUDIT_RETENTION parse_duration id audit_retention DEFAULT_AUDIT_RETENTION c
    \<and> reads m SETTING_KEYS_ENABLED parse_bool id keys_enabled False c
    \<and> reads m SETTING_KEYS_DIRECTORY Inr Some keys_directory_setting None c
    \<and> reads m SETTING_KEYS_PUBLISH_AHEAD parse_duration id keys_publish_ahead DEFAULT_KEYS_PUBLISH_AHEAD c
    \<and> reads m SETTING_KEYS_ROTATE_EVERY parse_duration id keys_rotate_every DEFAULT_KEYS_ROTATE_EVERY c
    \<and> reads m SETTING_KEYS_RETAIN parse_duration id keys_retain DEFAULT_KEYS_RETAIN c
    \<and> reads m SETTING_KEYS_MAINTENANCE_INTERVAL parse_duration id keys_maintenance_interval DEFAULT_KEYS_MAINTENANCE_INTERVAL c
    \<and> commit c = build_commit b
    \<and> (\<forall>key. setting c key = (if key \<in> set declared_settings then m key else None))"
  unfolding Let_def
proof (intro conjI)
  show "commit c = build_commit b"
    using keeps_from_layers [OF assms declared_kept(2)] by (simp add: base_config_def apply_build_settings_def)
  show "\<forall>key. setting c key = (if key \<in> set declared_settings then effective layers key else None)"
    by (simp add: setting_def from_layers_declared [OF assms])
qed (rule from_layers_reads [OF assms], rule setting_decides,
     simp add: base_config_def apply_build_settings_def default_config_def default_limits_def)+

subsection \<open>Witnesses\<close>

lemmas setting_names = SETTING_VERSION_def SETTING_COPYRIGHT_YEAR_def SETTING_COPYRIGHT_HOLDER_def
  SETTING_WORKING_DIR_def SETTING_AUTOGENERATE_def SETTING_DEVELOPMENT_MODE_def SETTING_ISSUER_def
  SETTING_PUBLIC_PATH_PREFIX_def SETTING_PUBLIC_HTTP_ADDR_def SETTING_TELEMETRY_ADDR_def SETTING_ADMIN_ADDR_def
  SETTING_PUBLIC_TLS_CERT_def SETTING_PUBLIC_TLS_KEY_def SETTING_PUBLIC_TLS_CLIENT_CA_def SETTING_PUBLIC_TLS_CRL_def
  SETTING_PUBLIC_TLS_MIN_VERSION_def SETTING_PUBLIC_TLS_ALLOW_def SETTING_PUBLIC_DISCLOSE_BUILD_def
  SETTING_ADMIN_TLS_CERT_def SETTING_ADMIN_TLS_KEY_def SETTING_ADMIN_TLS_CLIENT_CA_def SETTING_ADMIN_TLS_CRL_def
  SETTING_ADMIN_TLS_MIN_VERSION_def SETTING_ADMIN_ALLOW_def SETTING_TELEMETRY_TLS_CERT_def
  SETTING_TELEMETRY_TLS_KEY_def SETTING_TELEMETRY_TLS_MIN_VERSION_def SETTING_TLS_RELOAD_def
  SETTING_TLS_RELOAD_INTERVAL_def SETTING_LIMITS_CONNECTIONS_def SETTING_LIMITS_CONNECTIONS_PER_PEER_def
  SETTING_LIMITS_PEER_EXEMPT_def SETTING_LIMITS_CONNECTION_LIFETIME_def SETTING_LIMITS_WRITE_STALL_TIMEOUT_def
  SETTING_LIMITS_CONCURRENT_REQUESTS_def SETTING_LIMITS_REQUEST_TIMEOUT_def SETTING_LIMITS_HANDSHAKE_TIMEOUT_def
  SETTING_LIMITS_HEADER_TIMEOUT_def SETTING_LIMITS_BODY_BYTES_def SETTING_LIMITS_HEADER_BYTES_def
  SETTING_LOG_LEVEL_def SETTING_LOG_FORMAT_def SETTING_SHUTDOWN_TIMEOUT_def SETTING_SECRETS_PROVIDER_def
  SETTING_SECRETS_DIRECTORY_def SETTING_SECRETS_ENV_PREFIX_def SETTING_AUDIT_PSEUDONYM_ENABLED_def
  SETTING_AUDIT_PSEUDONYM_KEY_REF_def SETTING_AUDIT_PSEUDONYM_KEY_VERSION_def SETTING_AUDIT_SINK_def
  SETTING_AUDIT_DIRECTORY_def SETTING_AUDIT_RETENTION_def SETTING_KEYS_ENABLED_def SETTING_KEYS_DIRECTORY_def
  SETTING_KEYS_PUBLISH_AHEAD_def SETTING_KEYS_ROTATE_EVERY_def SETTING_KEYS_RETAIN_def
  SETTING_KEYS_MAINTENANCE_INTERVAL_def

definition demo_layers :: Layers where
  "demo_layers = \<lparr> layer_file = [(SETTING_ADMIN_ADDR, ''127.0.0.1:1''), (SETTING_LOG_LEVEL, ''debug'')],
     layer_environment = [(SETTING_ADMIN_ADDR, ''127.0.0.1:2''), (SETTING_LOG_LEVEL, [])],
     layer_command_line = [(SETTING_ADMIN_ADDR, ''127.0.0.1:3'')] \<rparr>"

lemma demo_debug: "parse_log_level ''debug'' = Inr LevelDebug"
proof -
  have "trim ''debug'' = ''debug''" by (rule trim_graphic) simp
  then show ?thesis by (simp add: parse_log_level_def to_ascii_lowercase_def ascii_lower_def)
qed

lemma demo_layers_read: "\<exists>c. from_layers (\<lambda>_. None) (new_build_settings ''1'' ''2022'' ''PIC'') [] demo_layers = Inr c"
  unfolding from_layers_def apply_pairs_def Let_def config_steps
  by (simp add: demo_layers_def settings_of_def read_into_def read_tls_def tls_of_def keep_declared_def demo_debug setting_names)

theorem latest_layer_wins_witness:
  "\<exists>c. from_layers (\<lambda>_. None) (new_build_settings ''1'' ''2022'' ''PIC'') [] demo_layers = Inr c
     \<and> admin_addr c = Some ''127.0.0.1:3'' \<and> log_level c = LevelDebug"
proof -
  obtain c where c: "from_layers (\<lambda>_. None) (new_build_settings ''1'' ''2022'' ''PIC'') [] demo_layers = Inr c"
    using demo_layers_read by blast
  have m: "effective demo_layers SETTING_ADMIN_ADDR = Some ''127.0.0.1:3''" "effective demo_layers SETTING_LOG_LEVEL = Some ''debug''"
    by (simp_all add: effective_def demo_layers_def settings_of_def map_add_def setting_names)
  from latest_layer_wins [OF c, unfolded Let_def] have
    "reads (effective demo_layers) SETTING_ADMIN_ADDR Inr Some admin_addr None c"
    "reads (effective demo_layers) SETTING_LOG_LEVEL parse_log_level id log_level LevelInfo c"
    by blast+
  with c m show ?thesis by (simp add: reads_def demo_debug)
qed

end
