(* ===== verification/Secrets.thy ===== *)
theory Secrets
  imports Prelude
begin

text \<open>
  \<open>crates/pic-x-std/src/secrets.rs\<close>: the stores secret material is resolved from. The file system is two
  arguments, the mode of a file and what reading it gives; the process environment is a map; a reference
  is its name. \<open>str::to_uppercase\<close> is an argument. Dropping material from memory and warnings are left out.
\<close>

unbundle bit_operations_syntax

section \<open>Definitions\<close>

datatype secret_error = SecretNotFound string | SecretDenied string | SecretUnavailable string

datatype read_error = FileNotFound | FileDenied | FileOther string

fun str_contains :: "string \<Rightarrow> string \<Rightarrow> bool" where
  "str_contains p [] \<longleftrightarrow> p = []"
| "str_contains p (c # cs) \<longleftrightarrow> starts_with p (c # cs) \<or> str_contains p cs"

record DirectorySecretStore =
  secret_directory :: string

definition secret_path_of :: "DirectorySecretStore \<Rightarrow> string \<Rightarrow> string option" where
  "secret_path_of store name =
     (if name = [] \<or> str_contains ''..'' name \<or> CHR ''/'' \<in> set name \<or> CHR 0x5C \<in> set name \<or> starts_with ''/'' name
      then None
      else
        (let dir = secret_directory store in
         Some (if dir \<noteq> [] \<and> last dir \<noteq> CHR ''/'' then dir @ ''/'' @ name else dir @ name)))"

text \<open>18 is the octal mask \<open>022\<close>: writable by the group or by others.\<close>

definition check_permissions :: "(string \<Rightarrow> u32 option) \<Rightarrow> string \<Rightarrow> string \<Rightarrow> secret_error + unit" where
  "check_permissions mode path name =
     (case mode path of
        None \<Rightarrow> Inr ()
      | Some m \<Rightarrow> if m AND 18 \<noteq> 0 then Inl (SecretDenied name) else Inr ())"

definition trim_trailing_newline :: "bytes \<Rightarrow> bytes" where
  "trim_trailing_newline material =
     (let material = (if material \<noteq> [] \<and> last material = 0x0A then butlast material else material) in
      if material \<noteq> [] \<and> last material = 0x0D then butlast material else material)"

definition directory_resolve ::
    "(string \<Rightarrow> u32 option) \<Rightarrow> (string \<Rightarrow> read_error + bytes) \<Rightarrow> DirectorySecretStore \<Rightarrow> string \<Rightarrow> secret_error + bytes" where
  "directory_resolve mode read store name =
     (case secret_path_of store name of
        None \<Rightarrow> Inl (SecretDenied name)
      | Some path \<Rightarrow>
          and_then (check_permissions mode path name) (\<lambda>_.
            case read path of
              Inr material \<Rightarrow> Inr (trim_trailing_newline material)
            | Inl FileNotFound \<Rightarrow> Inl (SecretNotFound name)
            | Inl FileDenied \<Rightarrow> Inl (SecretDenied name)
            | Inl (FileOther e) \<Rightarrow> Inl (SecretUnavailable e)))"

record EnvironmentSecretStore =
  env_prefix :: string

definition variable_of :: "(string \<Rightarrow> string) \<Rightarrow> EnvironmentSecretStore \<Rightarrow> string \<Rightarrow> string" where
  "variable_of to_uppercase store name =
     (let name = to_uppercase (map (\<lambda>c. if c = CHR ''-'' \<or> c = CHR ''.'' then CHR ''_'' else c) name) in
      if env_prefix store = [] then name else env_prefix store @ ''_'' @ name)"

definition environment_resolve ::
    "(string \<Rightarrow> string) \<Rightarrow> (string \<rightharpoonup> string) \<Rightarrow> EnvironmentSecretStore \<Rightarrow> string \<Rightarrow> secret_error + bytes" where
  "environment_resolve to_uppercase environment store name =
     (case environment (variable_of to_uppercase store name) of
        Some material \<Rightarrow> Inr (as_bytes material)
      | None \<Rightarrow> Inl (SecretNotFound name))"

type_synonym InMemorySecretStore = "string \<rightharpoonup> bytes"

definition in_memory_with :: "string \<Rightarrow> bytes \<Rightarrow> InMemorySecretStore \<Rightarrow> InMemorySecretStore" where
  "in_memory_with reference material store = store(reference \<mapsto> material)"

definition in_memory_resolve :: "InMemorySecretStore \<Rightarrow> string \<Rightarrow> secret_error + bytes" where
  "in_memory_resolve store name = ok_or (SecretNotFound name) (store name)"

section \<open>Lemmas\<close>

text \<open>
  What a client may rely on: material that was resolved is what the store keeps at one place for that
  reference, and a reference with no place is refused.
\<close>

locale secret_store =
  fixes resolve :: "string \<Rightarrow> secret_error + bytes"
    and place :: "string \<Rightarrow> string option"
    and kept :: "string \<Rightarrow> bytes option"
  assumes resolved_from: "resolve name = Inr material \<Longrightarrow> \<exists>p. place name = Some p \<and> kept p = Some material"
begin

lemma same_place_same_secret:
  "place a = place b \<Longrightarrow> resolve a = Inr x \<Longrightarrow> resolve b = Inr y \<Longrightarrow> x = y"
  using resolved_from by (metis option.inject)

lemma nowhere_refused: "place name = None \<Longrightarrow> \<not> is_ok (resolve name)"
  using resolved_from by (cases "resolve name") fastforce+

end

interpretation directory_store: secret_store "directory_resolve mode read store" "secret_path_of store"
    "\<lambda>p. case read p of Inr m \<Rightarrow> Some (trim_trailing_newline m) | Inl _ \<Rightarrow> None"
  for mode read store
  by unfold_locales (auto simp: directory_resolve_def result_iffs split: option.splits sum.splits read_error.splits)

interpretation environment_store: secret_store "environment_resolve to_uppercase environment store"
    "\<lambda>name. Some (variable_of to_uppercase store name)" "map_option as_bytes \<circ> environment"
  for to_uppercase environment store
  by unfold_locales (auto simp: environment_resolve_def split: option.splits)

interpretation in_memory_store: secret_store "in_memory_resolve store" Some store for store
  by unfold_locales (auto simp: in_memory_resolve_def result_iffs)

section \<open>Properties\<close>

text \<open>
  A reference cannot leave the directory. Material comes from the file of the directory that has the
  name of the reference, a plain name without separators or parent references, and only when neither
  the group nor others may write that file; anything else is refused, and a refusal is never mistaken for
  an absent secret.
\<close>

theorem directory_secret_is_confined:
  assumes "directory_resolve mode read store name = r"
  shows "(is_ok r \<longrightarrow> (\<exists>path material. secret_path_of store name = Some path \<and> read path = Inr material
            \<and> r = Inr (trim_trailing_newline material) \<and> (\<forall>m. mode path = Some m \<longrightarrow> m AND 18 = 0)
            \<and> (\<exists>dir. path = dir @ name \<and> starts_with (secret_directory store) dir)))
    \<and> ((name = [] \<or> CHR ''/'' \<in> set name \<or> CHR 0x5C \<in> set name \<or> str_contains ''..'' name) \<longrightarrow> r = Inl (SecretDenied name))"
proof (intro conjI impI)
  assume "is_ok r"
  then obtain secret where "directory_resolve mode read store name = Inr secret" using assms by (cases r) auto
  then obtain path material where path: "secret_path_of store name = Some path" "read path = Inr material"
    "check_permissions mode path name = Inr ()" "r = Inr (trim_trailing_newline material)"
    using assms by (auto simp: directory_resolve_def result_iffs split: option.splits sum.splits read_error.splits)
  moreover have "\<forall>m. mode path = Some m \<longrightarrow> m AND 18 = 0"
    using path(3) by (auto simp: check_permissions_def split: if_splits)
  moreover have "\<exists>dir. path = dir @ name \<and> starts_with (secret_directory store) dir"
    using path(1) by (auto simp: secret_path_of_def Let_def starts_with_iff split: if_splits)
  ultimately show "\<exists>path material. secret_path_of store name = Some path \<and> read path = Inr material
            \<and> r = Inr (trim_trailing_newline material) \<and> (\<forall>m. mode path = Some m \<longrightarrow> m AND 18 = 0)
            \<and> (\<exists>dir. path = dir @ name \<and> starts_with (secret_directory store) dir)" by blast
next
  assume "name = [] \<or> CHR ''/'' \<in> set name \<or> CHR 0x5C \<in> set name \<or> str_contains ''..'' name"
  then have "secret_path_of store name = None" by (auto simp: secret_path_of_def)
  with assms show "r = Inl (SecretDenied name)" by (simp add: directory_resolve_def)
qed

theorem directory_secret_is_confined_witness:
  "directory_resolve (\<lambda>_. Some 384) (\<lambda>p. if p = ''/s/key'' then Inr [7, 10] else Inl FileNotFound)
     \<lparr> secret_directory = ''/s'' \<rparr> ''key'' = Inr [7]
   \<and> directory_resolve (\<lambda>_. None) (\<lambda>_. Inr []) \<lparr> secret_directory = ''/s'' \<rparr> ''../x'' = Inl (SecretDenied ''../x'')"
proof
  show "directory_resolve (\<lambda>_. Some 384) (\<lambda>p. if p = ''/s/key'' then Inr [7, 10] else Inl FileNotFound)
     \<lparr> secret_directory = ''/s'' \<rparr> ''key'' = Inr [7]" by code_simp
  show "directory_resolve (\<lambda>_. None) (\<lambda>_. Inr []) \<lparr> secret_directory = ''/s'' \<rparr> ''../x'' = Inl (SecretDenied ''../x'')"
    using directory_secret_is_confined [of "\<lambda>_. None" "\<lambda>_. Inr []" "\<lparr> secret_directory = ''/s'' \<rparr>" "''../x''"] by simp
qed

text \<open>A secret that is not text and ends in a carriage return loses its last byte, newline or not.\<close>

theorem carriage_return_is_dropped:
  "trim_trailing_newline (key @ [0x0D]) = key"
  by (simp add: trim_trailing_newline_def)

end
