(* ===== verification/Validation.thy ===== *)
theory Validation
  imports Configuration Secrets
begin

text \<open>
  The realms of a configuration and the checks before a server starts: \<open>with_realms\<close> and \<open>validate\<close> of
  \<open>crates/pic-x-core/src/config.rs\<close>. Resolving a realm is in the order of the code, so the first problem is
  the one reported. \<open>str::to_uppercase\<close> is the argument \<open>to_uppercase\<close>; the proofs use it on ASCII only.
\<close>

section \<open>Definitions\<close>

definition KEY_SET_MAX_AGE :: u64 where "KEY_SET_MAX_AGE = 300"
definition EXCHANGE_SOURCE_FORMAT_JWT :: string where "EXCHANGE_SOURCE_FORMAT_JWT = ''jwt''"

subsection \<open>Realms\<close>

record RealmInput =
  in_name :: string
  in_issuer :: "string option"
  in_listed :: "string option"
  in_token_keys_enabled :: "string option"
  in_token_keys_publish_ahead :: "string option"
  in_token_keys_rotate_every :: "string option"
  in_token_keys_retain :: "string option"
  in_operations_keys_enabled :: "string option"
  in_operations_keys_publish_ahead :: "string option"
  in_operations_keys_rotate_every :: "string option"
  in_operations_keys_retain :: "string option"
  in_audit_sink :: "string option"
  in_audit_retention :: "string option"
  in_audit_pseudonym_enabled :: "string option"
  in_audit_pseudonym_key_ref :: "string option"
  in_audit_pseudonym_key_version :: "string option"
  in_secrets_provider :: "string option"
  in_secrets_env_prefix :: "string option"
  in_token_lifetime :: "string option"
  in_token_initial_expiry_policy :: "string option"
  in_key_cache_stale_for :: "string option"
  in_token_signing_algorithm :: "string option"
  in_exchange_profiles :: "ExchangeProfileConfig list"
  in_trusted_attesters :: "TrustedAttesterConfig list"

datatype realm_error =
    RealmReading string string setting_problem
  | RealmNotStated string string
  | RealmAlgorithm string string

text \<open>A value the realm states, read; or the one it inherits.\<close>

definition inherit ::
    "(string \<Rightarrow> setting_problem + 'a) \<Rightarrow> string \<Rightarrow> string \<Rightarrow> string option \<Rightarrow> 'a \<Rightarrow> realm_error + 'a" where
  "inherit parse name field stated server =
     (case stated of Some v \<Rightarrow> map_err (RealmReading name field) (parse v) | None \<Rightarrow> Inr server)"

text \<open>A value a realm that signs has to state.\<close>

definition require_token :: "string \<Rightarrow> bool \<Rightarrow> string \<Rightarrow> string option \<Rightarrow> realm_error + u64" where
  "require_token name signs field stated =
     (case stated of
        Some v \<Rightarrow> map_err (RealmReading name field) (parse_duration v)
      | None \<Rightarrow> if \<not> signs then Inr 0 else Inl (RealmNotStated name field))"

definition signing_algorithm :: "string \<Rightarrow> string option \<Rightarrow> realm_error + string" where
  "signing_algorithm name stated =
     (case stated of
        None \<Rightarrow> Inr ''EdDSA''
      | Some a \<Rightarrow> if a = ''EdDSA'' \<or> a = ''ES256'' then Inr a else Inl (RealmAlgorithm name a))"

definition realm_env_prefix :: "(string \<Rightarrow> string) \<Rightarrow> string \<Rightarrow> string \<Rightarrow> string" where
  "realm_env_prefix to_uppercase prefix name =
     prefix @ ''_'' @ map (\<lambda>c. if c = CHR ''-'' then CHR ''_'' else c) (to_uppercase name)"

definition resolve_realm :: "(string \<Rightarrow> string) \<Rightarrow> Config \<Rightarrow> RealmInput \<Rightarrow> realm_error + RealmConfig" where
  "resolve_realm to_uppercase c input =
     (let name = in_name input in
      and_then (inherit parse_bool name ''listed'' (in_listed input) False) (\<lambda>listed.
      and_then (inherit parse_secret_provider name ''secrets.provider'' (in_secrets_provider input) (secrets_provider c)) (\<lambda>provider.
      and_then (inherit parse_audit_destination name ''audit.sink'' (in_audit_sink input) (audit_destination c)) (\<lambda>destination.
      and_then (inherit parse_bool name ''keys.enabled'' (in_token_keys_enabled input) True) (\<lambda>signs.
      and_then (require_token name signs ''keys.publish_ahead'' (in_token_keys_publish_ahead input)) (\<lambda>publish_ahead.
      and_then (require_token name signs ''keys.rotate_every'' (in_token_keys_rotate_every input)) (\<lambda>rotate_every.
      and_then (require_token name signs ''keys.retain'' (in_token_keys_retain input)) (\<lambda>retain.
      and_then (require_token name signs ''token_lifetime'' (in_token_lifetime input)) (\<lambda>lifetime.
      and_then (inherit parse_token_initial_expiry_policy name ''token_initial_expiry_policy''
                  (in_token_initial_expiry_policy input) Later) (\<lambda>expiry_policy.
      and_then (inherit parse_duration_allow_zero name ''key_cache_stale_for'' (in_key_cache_stale_for input) 3600) (\<lambda>stale_for.
      and_then (signing_algorithm name (in_token_signing_algorithm input)) (\<lambda>algorithm.
      and_then (inherit parse_bool name ''operations.keys.enabled'' (in_operations_keys_enabled input) (keys_enabled c)) (\<lambda>ops.
      and_then (inherit parse_duration name ''operations.keys.publish_ahead'' (in_operations_keys_publish_ahead input)
                  (keys_publish_ahead c)) (\<lambda>ops_ahead.
      and_then (inherit parse_duration name ''operations.keys.rotate_every'' (in_operations_keys_rotate_every input)
                  (keys_rotate_every c)) (\<lambda>ops_rotate.
      and_then (inherit parse_duration name ''operations.keys.retain'' (in_operations_keys_retain input) (keys_retain c)) (\<lambda>ops_retain.
      and_then (inherit parse_duration name ''audit.retention'' (in_audit_retention input) (audit_retention c)) (\<lambda>retention.
      and_then (inherit parse_bool name ''audit.pseudonym.enabled'' (in_audit_pseudonym_enabled input)
                  (audit_pseudonym_enabled c)) (\<lambda>pseudonyms.
      Inr \<lparr>
        rc_name = name,
        rc_mount_path = ''/realms/'' @ name,
        rc_issuer = (case in_issuer input of
            Some i \<Rightarrow> Some i
          | None \<Rightarrow> map_option (\<lambda>base. trim_end_matches (CHR ''/'') base @ ''/realms/'' @ name) (issuer c)),
        rc_listed = listed,
        rc_token_keys_enabled = signs,
        rc_token_keys_publish_ahead = publish_ahead,
        rc_token_keys_rotate_every = rotate_every,
        rc_token_keys_retain = retain,
        rc_token_lifetime = lifetime,
        rc_token_initial_expiry_policy = expiry_policy,
        rc_key_cache_stale_for = stale_for,
        rc_token_signing_algorithm = algorithm,
        rc_operations_keys_enabled = ops,
        rc_operations_keys_publish_ahead = ops_ahead,
        rc_operations_keys_rotate_every = ops_rotate,
        rc_operations_keys_retain = ops_retain,
        rc_audit_destination = destination,
        rc_audit_retention = retention,
        rc_audit_pseudonym_enabled = pseudonyms,
        rc_audit_pseudonym_key_ref = (case in_audit_pseudonym_key_ref input of
            Some r \<Rightarrow> Some r | None \<Rightarrow> audit_pseudonym_key_ref c),
        rc_audit_pseudonym_key_version = (case in_audit_pseudonym_key_version input of
            Some v \<Rightarrow> v | None \<Rightarrow> audit_pseudonym_key_version c),
        rc_secrets_provider = provider,
        rc_secrets_env_prefix = (case in_secrets_env_prefix input of
            Some p \<Rightarrow> p | None \<Rightarrow> realm_env_prefix to_uppercase (secrets_env_prefix c) name),
        rc_exchange_profiles = in_exchange_profiles input,
        rc_trusted_attesters = in_trusted_attesters input \<rparr>))))))))))))))))))"

definition with_realms :: "(string \<Rightarrow> string) \<Rightarrow> RealmInput list \<Rightarrow> Config \<Rightarrow> realm_error + Config" where
  "with_realms to_uppercase inputs c =
     and_then (collect_results (resolve_realm to_uppercase c) inputs) (\<lambda>realms. Inr (c\<lparr> config_realms := realms \<rparr>))"

subsection \<open>Checks\<close>

datatype attester_problem =
  EmptyAttesterId | AttesterTwice | EmptyAttesterIssuer | EmptyJwksUri | NoProofTypes | NoSdJwtProof | NoFormats | NoSdJwtFormat

datatype profile_problem =
    EmptyProfileId | ProfileTwice | UnsupportedTokenType | UnsupportedFormat | EmptySourceIssuer | EmptySourceAudience
  | NoAlgorithms | ExpirationNotRequired | TokenTypeNotRequired | FromOrValue string | ScopesNotMapped | ScopesNotASet
  | UnsupportedPrivileges | NoRules | EmptyRuleName | RuleTwice string | PriorityTwice int | EmptyPattern string
  | EmptyEmit string string | UnsupportedUnmatched

datatype lifecycle_problem = NeverGetsATurn | RetiredTooSoon | PublishedTooLate

datatype validation_error =
    AllowWithoutAuthority
  | NoPublicAddress
  | EmptyAddress string
  | NotHttps string string
  | PrefixWithoutSlash string
  | TlsInvalid string tls_problem
  | AutogenerateOutsideDevelopment
  | AdminExposed string
  | AdminNamesNobody
  | LifecycleNotStated string
  | Lifecycle string lifecycle_problem
  | RealmTwice string
  | RealmNameUnusable string
  | PseudonymNoProvider string
  | PseudonymNoSecret string
  | PseudonymNoVersion
  | AttesterInvalid string string attester_problem
  | ProfileInvalid string string profile_problem

definition validate_development :: "Config \<Rightarrow> validation_error + unit" where
  "validate_development c = guard_that (\<not> (autogenerate c \<and> \<not> development_mode c)) AutogenerateOutsideDevelopment"

definition validate_admin_access :: "Config \<Rightarrow> validation_error + unit" where
  "validate_admin_access c =
     (case admin_addr c of
        None \<Rightarrow> Inr ()
      | Some address \<Rightarrow>
          (let mutual = (case admin_tls_setting c of Some tls \<Rightarrow> is_mutual tls | None \<Rightarrow> False) in
           if \<not> mutual then
             (if is_loopback address \<or> development_mode c then Inr () else Inl (AdminExposed address))
           else if admin_allow c = [] \<and> \<not> development_mode c then Inl AdminNamesNobody
           else Inr ()))"

definition require_public_https :: "Config \<Rightarrow> string \<Rightarrow> string \<Rightarrow> validation_error + unit" where
  "require_public_https c url field =
     guard_that (development_mode c \<or> starts_with ''https://'' url) (NotHttps field url)"

definition check_key_lifecycle :: "Config \<Rightarrow> u64 \<Rightarrow> u64 \<Rightarrow> u64 \<Rightarrow> string \<Rightarrow> validation_error + unit" where
  "check_key_lifecycle c publish_ahead rotate_every retain who =
     (if publish_ahead \<ge> rotate_every then Inl (Lifecycle who NeverGetsATurn)
      else if retain < rotate_every then Inl (Lifecycle who RetiredTooSoon)
      else if publish_ahead < KEY_SET_MAX_AGE \<and> \<not> development_mode c then Inl (Lifecycle who PublishedTooLate)
      else Inr ())"

definition validate_key_lifecycle :: "Config \<Rightarrow> validation_error + unit" where
  "validate_key_lifecycle c =
     (if \<not> keys_enabled c then Inr ()
      else case filter (\<lambda>(key, _). key \<notin> keys_lifecycle_declared c)
             [(SETTING_KEYS_PUBLISH_AHEAD, ''publish_ahead''), (SETTING_KEYS_ROTATE_EVERY, ''rotate_every''),
              (SETTING_KEYS_RETAIN, ''retain'')] of
             (_, field) # _ \<Rightarrow> Inl (LifecycleNotStated field)
           | [] \<Rightarrow> check_key_lifecycle c (keys_publish_ahead c) (keys_rotate_every c) (keys_retain c) ''the server'')"

definition is_blank_text :: "string \<Rightarrow> bool" where
  "is_blank_text s \<longleftrightarrow> trim s = []"

definition validate_attester :: "Config \<Rightarrow> string \<Rightarrow> string set \<Rightarrow> TrustedAttesterConfig \<Rightarrow> validation_error + unit" where
  "validate_attester c realm seen a =
     (let id = trim (ta_id a); invalid = (\<lambda>p. AttesterInvalid realm id p) in
      and_then (guard_that (id \<noteq> []) (invalid EmptyAttesterId)) (\<lambda>_.
      and_then (guard_that (id \<notin> seen) (invalid AttesterTwice)) (\<lambda>_.
      and_then (guard_that (\<not> is_blank_text (ta_issuer a)) (invalid EmptyAttesterIssuer)) (\<lambda>_.
      and_then (guard_that (\<not> is_blank_text (ta_jwks_uri a)) (invalid EmptyJwksUri)) (\<lambda>_.
      and_then (require_public_https c (ta_issuer a) ''attester issuer'') (\<lambda>_.
      and_then (require_public_https c (ta_jwks_uri a) ''attester jwks_uri'') (\<lambda>_.
      and_then (guard_that (ta_proof_types a \<noteq> []) (invalid NoProofTypes)) (\<lambda>_.
      and_then (guard_that (''sd-jwt'' \<in> set (ta_proof_types a)) (invalid NoSdJwtProof)) (\<lambda>_.
      and_then (guard_that (ta_formats a \<noteq> []) (invalid NoFormats)) (\<lambda>_.
      guard_that (''sd-jwt'' \<in> set (ta_formats a)) (invalid NoSdJwtFormat)))))))))))"

fun validate_attesters ::
    "Config \<Rightarrow> string \<Rightarrow> string set \<Rightarrow> TrustedAttesterConfig list \<Rightarrow> validation_error + unit" where
  "validate_attesters c realm seen [] = Inr ()"
| "validate_attesters c realm seen (a # as) =
     and_then (validate_attester c realm seen a) (\<lambda>_. validate_attesters c realm (insert (trim (ta_id a)) seen) as)"

definition validate_trusted_attesters :: "Config \<Rightarrow> TrustedAttesterConfig list \<Rightarrow> string \<Rightarrow> validation_error + unit" where
  "validate_trusted_attesters c attesters realm = validate_attesters c realm {} attesters"

definition blank_emit :: "PrivilegeEmit \<Rightarrow> string option" where
  "blank_emit e = map_option fst (List.find (\<lambda>(_, t). is_blank_text t)
     [(''scope'', emit_scope e), (''operation'', emit_operation e), (''resource_type'', emit_resource_type e),
      (''resource_id'', emit_resource_id e)])"

fun validate_rules :: "string set \<Rightarrow> int set \<Rightarrow> PrivilegeRule list \<Rightarrow> profile_problem + unit" where
  "validate_rules names priorities [] = Inr ()"
| "validate_rules names priorities (r # rs) =
     (if is_blank_text (rule_name r) then Inl EmptyRuleName
      else if rule_name r \<in> names then Inl (RuleTwice (rule_name r))
      else if rule_priority r \<in> priorities then Inl (PriorityTwice (rule_priority r))
      else if is_blank_text (rule_pattern r) then Inl (EmptyPattern (rule_name r))
      else case blank_emit (rule_emit r) of
        Some field \<Rightarrow> Inl (EmptyEmit field (rule_name r))
      | None \<Rightarrow> validate_rules (insert (rule_name r) names) (insert (rule_priority r) priorities) rs)"

definition one_of_from_value :: "ClaimMapping \<Rightarrow> bool" where
  "one_of_from_value mapping \<longleftrightarrow>
     (let present = (\<lambda>v. case v of Some t \<Rightarrow> \<not> is_blank_text t | None \<Rightarrow> False) in
      present (cm_from mapping) \<noteq> present (cm_value mapping))"

definition validate_source :: "ExchangeProfileSource \<Rightarrow> profile_problem + unit" where
  "validate_source s =
     (and_then (guard_that (source_token_type s = EXCHANGE_SOURCE_OAUTH_ACCESS_TOKEN) UnsupportedTokenType) (\<lambda>_.
      and_then (guard_that (source_format s = EXCHANGE_SOURCE_FORMAT_JWT) UnsupportedFormat) (\<lambda>_.
      and_then (guard_that (\<not> is_blank_text (source_issuer s)) EmptySourceIssuer) (\<lambda>_.
      and_then (guard_that (\<not> is_blank_text (source_audience s)) EmptySourceAudience) (\<lambda>_.
      and_then (guard_that (allowed_algorithms (source_validation s) \<noteq> []) NoAlgorithms) (\<lambda>_.
      and_then (guard_that (require_expiration (source_validation s)) ExpirationNotRequired) (\<lambda>_.
      guard_that (case require_token_type (source_validation s) of Some t \<Rightarrow> \<not> is_blank_text t | None \<Rightarrow> False)
        TokenTypeNotRequired)))))))"

definition validate_mapping :: "ExchangeProfileConfig \<Rightarrow> profile_problem + unit" where
  "validate_mapping p =
     (and_then (case List.find (\<lambda>(_, mapping). \<not> one_of_from_value mapping) (identity_context (profile_claims p)) of
                  Some (claim, _) \<Rightarrow> Inl (FromOrValue claim) | None \<Rightarrow> Inr ()) (\<lambda>_.
      and_then (guard_that (case cm_from (scopes_mapping (profile_claims p)) of Some v \<Rightarrow> v \<noteq> [] | None \<Rightarrow> False) ScopesNotMapped) (\<lambda>_.
      and_then (guard_that (cm_value_type (scopes_mapping (profile_claims p)) = Some ''set'') ScopesNotASet) (\<lambda>_.
      and_then (guard_that (privileges_source (profile_privileges p) = ''scopes'') UnsupportedPrivileges) (\<lambda>_.
      and_then (guard_that (privileges_rules (profile_privileges p) \<noteq> []) NoRules) (\<lambda>_.
      and_then (validate_rules {} {} (privileges_rules (profile_privileges p))) (\<lambda>_.
      guard_that (on_unmatched_scope p = EXCHANGE_ON_UNMATCHED_SCOPE_REJECT) UnsupportedUnmatched)))))))"

definition validate_profile :: "string \<Rightarrow> string set \<Rightarrow> ExchangeProfileConfig \<Rightarrow> validation_error + unit" where
  "validate_profile realm seen p =
     (let id = trim (profile_id p) in
      map_err (ProfileInvalid realm id)
        (and_then (guard_that (id \<noteq> []) EmptyProfileId) (\<lambda>_.
         and_then (guard_that (id \<notin> seen) ProfileTwice) (\<lambda>_.
         and_then (validate_source (profile_source p)) (\<lambda>_. validate_mapping p)))))"

fun validate_profiles :: "string \<Rightarrow> string set \<Rightarrow> ExchangeProfileConfig list \<Rightarrow> validation_error + unit" where
  "validate_profiles realm seen [] = Inr ()"
| "validate_profiles realm seen (p # ps) =
     and_then (validate_profile realm seen p) (\<lambda>_. validate_profiles realm (insert (trim (profile_id p)) seen) ps)"

definition validate_exchange_profiles :: "ExchangeProfileConfig list \<Rightarrow> string \<Rightarrow> validation_error + unit" where
  "validate_exchange_profiles profiles realm = validate_profiles realm {} profiles"

definition realm_name_shaped :: "string \<Rightarrow> bool" where
  "realm_name_shaped name \<longleftrightarrow>
     name \<noteq> [] \<and> length name \<le> 40
     \<and> list_all (\<lambda>c. 97 \<le> (of_char c :: nat) \<and> of_char c \<le> (122 :: nat) \<or> 48 \<le> (of_char c :: nat) \<and> of_char c \<le> (57 :: nat)
                     \<or> c = CHR ''-'') name
     \<and> hd name \<noteq> CHR ''-'' \<and> last name \<noteq> CHR ''-''"

definition validate_realm :: "Config \<Rightarrow> string set \<Rightarrow> RealmConfig \<Rightarrow> validation_error + unit" where
  "validate_realm c seen r =
     (let name = rc_name r in
      and_then (guard_that (name \<notin> seen) (RealmTwice name)) (\<lambda>_.
      and_then (guard_that (realm_name_shaped name) (RealmNameUnusable name)) (\<lambda>_.
      and_then (case rc_issuer r of Some i \<Rightarrow> require_public_https c i (''issuer of the realm '' @ name) | None \<Rightarrow> Inr ()) (\<lambda>_.
      and_then (if rc_operations_keys_enabled r
                then check_key_lifecycle c (rc_operations_keys_publish_ahead r) (rc_operations_keys_rotate_every r)
                       (rc_operations_keys_retain r) (''the operations ring of the realm '' @ name)
                else Inr ()) (\<lambda>_.
      and_then (if rc_token_keys_enabled r
                then check_key_lifecycle c (rc_token_keys_publish_ahead r) (rc_token_keys_rotate_every r)
                       (rc_token_keys_retain r) (''the token ring of the realm '' @ name)
                else Inr ()) (\<lambda>_.
      and_then (guard_that (rc_audit_pseudonym_enabled r \<longrightarrow> rc_secrets_provider r \<noteq> NoProvider) (PseudonymNoProvider name)) (\<lambda>_.
      and_then (guard_that (rc_audit_pseudonym_enabled r \<longrightarrow> rc_audit_pseudonym_key_ref r \<noteq> None) (PseudonymNoSecret name)) (\<lambda>_.
      and_then (validate_exchange_profiles (rc_exchange_profiles r) name) (\<lambda>_.
      validate_trusted_attesters c (rc_trusted_attesters r) name)))))))))"

fun validate_realm_list :: "Config \<Rightarrow> string set \<Rightarrow> RealmConfig list \<Rightarrow> validation_error + unit" where
  "validate_realm_list c seen [] = Inr ()"
| "validate_realm_list c seen (r # rs) =
     and_then (validate_realm c seen r) (\<lambda>_. validate_realm_list c (insert (rc_name r) seen) rs)"

definition validate_realms :: "Config \<Rightarrow> validation_error + unit" where
  "validate_realms c = validate_realm_list c {} (config_realms c)"

definition validate_tls :: "(string \<Rightarrow> bool) \<Rightarrow> Config \<Rightarrow> string \<Rightarrow> TlsSettings option \<Rightarrow> validation_error + unit" where
  "validate_tls is_file c surface tls =
     (case tls of None \<Rightarrow> Inr () | Some tls \<Rightarrow> map_err (TlsInvalid surface) (validate_in is_file (working_dir c) tls))"

definition validate_pseudonyms :: "Config \<Rightarrow> validation_error + unit" where
  "validate_pseudonyms c =
     (if audit_pseudonym_enabled c then
        and_then (guard_that (secrets_provider c \<noteq> NoProvider) (PseudonymNoProvider ''the server'')) (\<lambda>_.
        and_then (guard_that (audit_pseudonym_key_ref c \<noteq> None) (PseudonymNoSecret ''the server'')) (\<lambda>_.
        guard_that (\<not> is_blank_text (audit_pseudonym_key_version c)) PseudonymNoVersion))
      else Inr ())"

definition config_validate :: "(string \<Rightarrow> bool) \<Rightarrow> Config \<Rightarrow> validation_error + unit" where
  "config_validate is_file c =
     (and_then (guard_that (\<not> (case public_tls_setting c of Some tls \<Rightarrow> tls_allow tls \<noteq> [] \<and> tls_client_ca tls = None | None \<Rightarrow> False))
                  AllowWithoutAuthority) (\<lambda>_.
      and_then (guard_that (public_http_addr c \<noteq> None) NoPublicAddress) (\<lambda>_.
      and_then (case List.find (\<lambda>(_, addr). is_blank_text addr) (declared_addresses c) of
                  Some (label, _) \<Rightarrow> Inl (EmptyAddress label) | None \<Rightarrow> Inr ()) (\<lambda>_.
      and_then (case issuer c of Some i \<Rightarrow> require_public_https c i ''issuer'' | None \<Rightarrow> Inr ()) (\<lambda>_.
      and_then (guard_that (public_path_prefix c = [] \<or> starts_with ''/'' (public_path_prefix c))
                  (PrefixWithoutSlash (public_path_prefix c))) (\<lambda>_.
      and_then (validate_tls is_file c ''public'' (public_tls_setting c)) (\<lambda>_.
      and_then (validate_tls is_file c ''admin'' (admin_tls_setting c)) (\<lambda>_.
      and_then (validate_tls is_file c ''telemetry'' (telemetry_tls_setting c)) (\<lambda>_.
      and_then (validate_development c) (\<lambda>_.
      and_then (validate_admin_access c) (\<lambda>_.
      and_then (validate_key_lifecycle c) (\<lambda>_.
      and_then (validate_realms c) (\<lambda>_.
      validate_pseudonyms c)))))))))))))"

section \<open>Lemmas\<close>

lemma config_validate_Inr:
  assumes "config_validate is_file c = Inr u"
  shows "validate_development c = Inr ()" "validate_admin_access c = Inr ()" "validate_key_lifecycle c = Inr ()"
    "validate_realms c = Inr ()" "validate_pseudonyms c = Inr ()"
    "issuer c = Some i \<Longrightarrow> require_public_https c i ''issuer'' = Inr ()"
  using assms by (auto simp: config_validate_def result_iffs)

lemma check_key_lifecycle_Inr:
  "check_key_lifecycle c ahead every kept who = Inr u \<longleftrightarrow>
   ahead < every \<and> every \<le> kept \<and> (development_mode c \<or> KEY_SET_MAX_AGE \<le> ahead)"
  by (auto simp: check_key_lifecycle_def)

lemma validate_key_lifecycle_Inr:
  assumes "validate_key_lifecycle c = Inr u" "keys_enabled c"
  shows "{SETTING_KEYS_PUBLISH_AHEAD, SETTING_KEYS_ROTATE_EVERY, SETTING_KEYS_RETAIN} \<subseteq> keys_lifecycle_declared c"
    "check_key_lifecycle c (keys_publish_ahead c) (keys_rotate_every c) (keys_retain c) ''the server'' = Inr ()"
  using assms by (auto simp: validate_key_lifecycle_def split: if_splits)

lemma validate_realm_list_Inr:
  "validate_realm_list c seen rs = Inr u \<Longrightarrow>
   distinct (map rc_name rs) \<and> (\<forall>r \<in> set rs. rc_name r \<notin> seen \<and> (\<exists>seen'. validate_realm c seen' r = Inr ()))"
proof (induction rs arbitrary: seen)
  case (Cons r rs)
  then have r: "validate_realm c seen r = Inr ()" and "validate_realm_list c (insert (rc_name r) seen) rs = Inr u"
    by (auto simp: result_iffs)
  moreover from r have "rc_name r \<notin> seen" by (auto simp: validate_realm_def Let_def result_iffs)
  ultimately show ?case using Cons.IH [of "insert (rc_name r) seen"] by auto
qed simp

lemma validate_realm_Inr:
  assumes "validate_realm c seen r = Inr u"
  shows "realm_name_shaped (rc_name r)"
    "rc_issuer r = Some i \<Longrightarrow> development_mode c \<or> starts_with ''https://'' i"
    "rc_operations_keys_enabled r \<Longrightarrow> check_key_lifecycle c (rc_operations_keys_publish_ahead r)
       (rc_operations_keys_rotate_every r) (rc_operations_keys_retain r) (''the operations ring of the realm '' @ rc_name r) = Inr ()"
    "rc_token_keys_enabled r \<Longrightarrow> check_key_lifecycle c (rc_token_keys_publish_ahead r)
       (rc_token_keys_rotate_every r) (rc_token_keys_retain r) (''the token ring of the realm '' @ rc_name r) = Inr ()"
    "validate_exchange_profiles (rc_exchange_profiles r) (rc_name r) = Inr ()"
    "validate_trusted_attesters c (rc_trusted_attesters r) (rc_name r) = Inr ()"
  using assms by (auto simp: validate_realm_def Let_def result_iffs require_public_https_def)

lemma validated_realm:
  assumes "config_validate is_file c = Inr u" "r \<in> set (config_realms c)"
  obtains seen where "validate_realm c seen r = Inr ()"
  using validate_realm_list_Inr [of c "{}" "config_realms c"] config_validate_Inr(4) [OF assms(1)] assms(2)
  by (auto simp: validate_realms_def)

subsection \<open>Profiles and rules\<close>

lemma validate_profiles_Inr:
  "validate_profiles realm seen ps = Inr u \<Longrightarrow> \<forall>p \<in> set ps. \<exists>seen'. validate_profile realm seen' p = Inr ()"
  by (induction ps arbitrary: seen) (auto simp: result_iffs)

lemma validate_rules_Inr:
  "validate_rules names priorities rs = Inr u \<Longrightarrow>
   distinct (map rule_name rs) \<and> distinct (map rule_priority rs)
   \<and> set (map rule_name rs) \<inter> names = {} \<and> set (map rule_priority rs) \<inter> priorities = {}"
proof (induction rs arbitrary: names priorities)
  case (Cons r rs)
  then have "rule_name r \<notin> names" "rule_priority r \<notin> priorities"
    and "validate_rules (insert (rule_name r) names) (insert (rule_priority r) priorities) rs = Inr u"
    by (auto split: if_splits option.splits)
  with Cons.IH [OF this(3)] show ?case by auto
qed simp

lemma validate_profile_Inr:
  assumes "validate_profile realm seen p = Inr u"
  shows "require_expiration (source_validation (profile_source p))"
    "\<exists>t. require_token_type (source_validation (profile_source p)) = Some t"
    "on_unmatched_scope p = EXCHANGE_ON_UNMATCHED_SCOPE_REJECT"
    "distinct (map rule_priority (privileges_rules (profile_privileges p)))"
    "privileges_rules (profile_privileges p) \<noteq> []"
proof -
  have source: "validate_source (profile_source p) = Inr ()" and mapping: "validate_mapping p = Inr ()"
    using assms by (auto simp: validate_profile_def Let_def result_iffs)
  show "require_expiration (source_validation (profile_source p))"
    "\<exists>t. require_token_type (source_validation (profile_source p)) = Some t"
    using source by (auto simp: validate_source_def result_iffs split: option.splits)
  show "on_unmatched_scope p = EXCHANGE_ON_UNMATCHED_SCOPE_REJECT" "privileges_rules (profile_privileges p) \<noteq> []"
    "distinct (map rule_priority (privileges_rules (profile_privileges p)))"
    using mapping validate_rules_Inr [of "{}" "{}" "privileges_rules (profile_privileges p)"]
    by (auto simp: validate_mapping_def result_iffs)
qed

lemma validated_profile:
  assumes "config_validate is_file c = Inr u" "r \<in> set (config_realms c)" "p \<in> set (rc_exchange_profiles r)"
  obtains seen where "validate_profile (rc_name r) seen p = Inr ()"
proof -
  obtain seen where "validate_realm c seen r = Inr ()" using validated_realm assms(1,2) by blast
  from validate_realm_Inr(5) [OF this] validate_profiles_Inr assms(3) that show thesis
    by (fastforce simp: validate_exchange_profiles_def)
qed

subsection \<open>Where realms live\<close>

definition realm_directories :: "Config \<Rightarrow> string \<Rightarrow> string set" where
  "realm_directories c name =
     {realm_keys_directory c name, realm_token_keys_directory c name, realm_audit_directory c name, realm_secrets_directory c name}"

definition realm_home :: "Config \<Rightarrow> string \<Rightarrow> string" where
  "realm_home c name = resolve c (''realms/'' @ name @ ''/'')"

definition volume :: "Config \<Rightarrow> string" where
  "volume c = (if working_dir c \<noteq> [] \<and> last (working_dir c) \<noteq> CHR ''/'' then working_dir c @ ''/'' else working_dir c)"

lemma resolve_realms: "resolve c (''realms/'' @ rest) = volume c @ ''realms/'' @ rest"
  by (simp add: resolve_def resolve_path_def volume_def starts_with_def)

lemma realm_directories_home:
  assumes "d \<in> realm_directories c name"
  obtains rest where "d = volume c @ ''realms/'' @ name @ ''/'' @ rest"
  using assms by (auto simp: realm_directories_def realm_keys_directory_def realm_token_keys_directory_def
      realm_audit_directory_def realm_secrets_directory_def resolve_realms [unfolded append.simps])

lemma shaped_name_plain: "realm_name_shaped name \<Longrightarrow> CHR ''/'' \<notin> set name \<and> CHR ''.'' \<notin> set name"
  by (auto simp: realm_name_shaped_def list_all_iff)

lemma separated_names:
  "CHR ''/'' \<notin> set n \<Longrightarrow> CHR ''/'' \<notin> set m \<Longrightarrow> n @ ''/'' @ xs = m @ ''/'' @ ys \<Longrightarrow> n = m"
proof (induction n arbitrary: m)
  case Nil
  then show ?case by (cases m) auto
next
  case (Cons a n)
  then show ?case by (cases m) auto
qed

section \<open>Properties\<close>

text \<open>
  Realms of a validated configuration are told apart. Their names are distinct, plain path segments;
  every directory of a realm lies in the home of that realm, and no directory of another realm lies
  there, whatever the working directory is. So no realm reads or writes the keys, the trail or the
  secrets of another.
\<close>

theorem validated_realms_are_apart:
  assumes "config_validate is_file c = Inr u"
  shows "distinct (map rc_name (config_realms c))
    \<and> (\<forall>r \<in> set (config_realms c).
         CHR ''/'' \<notin> set (rc_name r) \<and> CHR ''.'' \<notin> set (rc_name r)
         \<and> (\<forall>d \<in> realm_directories c (rc_name r). starts_with (realm_home c (rc_name r)) d)
         \<and> (\<forall>s \<in> set (config_realms c). rc_name s \<noteq> rc_name r \<longrightarrow>
              (\<forall>d \<in> realm_directories c (rc_name s). \<not> starts_with (realm_home c (rc_name r)) d)))"
proof (intro conjI ballI impI)
  show "distinct (map rc_name (config_realms c))"
    using validate_realm_list_Inr config_validate_Inr(4) [OF assms] by (simp add: validate_realms_def)
next
  fix r
  assume r: "r \<in> set (config_realms c)"
  have plain: "CHR ''/'' \<notin> set (rc_name s) \<and> CHR ''.'' \<notin> set (rc_name s)" if "s \<in> set (config_realms c)" for s
    using validated_realm [OF assms that] validate_realm_Inr(1) shaped_name_plain by metis
  show "CHR ''/'' \<notin> set (rc_name r)" "CHR ''.'' \<notin> set (rc_name r)" using plain [OF r] by simp_all
  show "starts_with (realm_home c (rc_name r)) d" if "d \<in> realm_directories c (rc_name r)" for d
    using that by (rule realm_directories_home) (simp add: realm_home_def resolve_realms [unfolded append.simps] starts_with_iff)
  show "\<not> starts_with (realm_home c (rc_name r)) d"
    if s: "s \<in> set (config_realms c)" "rc_name s \<noteq> rc_name r" "d \<in> realm_directories c (rc_name s)" for s d
  proof
    assume "starts_with (realm_home c (rc_name r)) d"
    then obtain xs where "d = volume c @ ''realms/'' @ rc_name r @ ''/'' @ xs"
      by (auto simp: realm_home_def resolve_realms [unfolded append.simps] starts_with_iff)
    moreover obtain ys where "d = volume c @ ''realms/'' @ rc_name s @ ''/'' @ ys"
      using s(3) by (rule realm_directories_home)
    ultimately have "rc_name r @ ''/'' @ xs = rc_name s @ ''/'' @ ys" by simp
    from separated_names [OF _ _ this] plain [OF r] plain [OF s(1)] s(2) show False by simp
  qed
qed

text \<open>
  Two realms that resolve secrets from the environment can name the same variable: a hyphen of a realm
  name and the separator before a reference are both written as an underscore.
\<close>

definition ascii_upper :: "char \<Rightarrow> char" where
  "ascii_upper c = (if 97 \<le> (of_char c :: nat) \<and> of_char c \<le> (122 :: nat) then char_of (of_char c - 32 :: nat) else c)"

definition upper_on_ascii :: "(string \<Rightarrow> string) \<Rightarrow> bool" where
  "upper_on_ascii to_uppercase \<longleftrightarrow> (\<forall>s. is_ascii s \<longrightarrow> to_uppercase s = map ascii_upper s)"

theorem realm_variables_collide:
  assumes "upper_on_ascii to_uppercase"
  shows "variable_of to_uppercase \<lparr> env_prefix = realm_env_prefix to_uppercase prefix ''a'' \<rparr> ''b-k''
    = variable_of to_uppercase \<lparr> env_prefix = realm_env_prefix to_uppercase prefix ''a-b'' \<rparr> ''k''"
proof -
  have upper: "map ascii_upper ''ab-k_'' = ''AB-K_''" by code_simp
  have "to_uppercase ''a'' = ''A''" "to_uppercase ''b_k'' = ''B_K''" "to_uppercase ''a-b'' = ''A-B''" "to_uppercase ''k'' = ''K''"
    using assms upper by (simp_all add: upper_on_ascii_def is_ascii_def)
  then show ?thesis by (simp add: variable_of_def realm_env_prefix_def Let_def)
qed

subsection \<open>Witnesses\<close>

definition demo_input :: "string \<Rightarrow> RealmInput" where
  "demo_input name = \<lparr> in_name = name, in_issuer = None, in_listed = None, in_token_keys_enabled = Some ''false'',
     in_token_keys_publish_ahead = None, in_token_keys_rotate_every = None, in_token_keys_retain = None,
     in_operations_keys_enabled = Some ''true'', in_operations_keys_publish_ahead = None, in_operations_keys_rotate_every = None,
     in_operations_keys_retain = None, in_audit_sink = None, in_audit_retention = None, in_audit_pseudonym_enabled = None,
     in_audit_pseudonym_key_ref = None, in_audit_pseudonym_key_version = None, in_secrets_provider = None,
     in_secrets_env_prefix = None, in_token_lifetime = None, in_token_initial_expiry_policy = None,
     in_key_cache_stale_for = None, in_token_signing_algorithm = None, in_exchange_profiles = [], in_trusted_attesters = [] \<rparr>"

definition demo_server :: Config where
  "demo_server = default_config\<lparr> public_http_addr := Some ''127.0.0.1:8080'' \<rparr>"

definition demo_config :: Config where
  "demo_config = (case with_realms (map ascii_upper) [demo_input ''acme'', demo_input ''beta''] demo_server of Inr c \<Rightarrow> c | Inl _ \<Rightarrow> demo_server)"

lemma demo_bools: "parse_bool ''true'' = Inr True" "parse_bool ''false'' = Inr False"
  by (simp_all add: parse_bool_def trim_graphic to_ascii_lowercase_def ascii_lower_def)

lemmas resolving = with_realms_def resolve_realm_def inherit_def require_token_def signing_algorithm_def Let_def

lemma demo_config:
  "with_realms (map ascii_upper) [demo_input ''acme'', demo_input ''beta''] demo_server = Inr demo_config"
  "map rc_name (config_realms demo_config) = [''acme'', ''beta'']"
  by (simp_all add: demo_config_def resolving demo_input_def demo_server_def default_config_def demo_bools)

lemma demo_config_fields:
  "public_http_addr demo_config = Some ''127.0.0.1:8080''" "telemetry_addr demo_config = None" "admin_addr demo_config = None"
  "issuer demo_config = None" "public_path_prefix demo_config = []" "keys_enabled demo_config = False"
  "public_tls_setting demo_config = None" "admin_tls_setting demo_config = None" "telemetry_tls_setting demo_config = None"
  "autogenerate demo_config = False" "audit_pseudonym_enabled demo_config = False"
  "keys_lifecycle_declared demo_config = {}" "development_mode demo_config = False" "working_dir demo_config = DEFAULT_WORKING_DIR"
  by (simp_all add: demo_config_def resolving demo_input_def demo_server_def default_config_def demo_bools working_dir_def)

lemma demo_realm:
  assumes "r \<in> set (config_realms demo_config)"
  shows "realm_name_shaped (rc_name r)" "rc_issuer r = None" "rc_operations_keys_enabled r"
    "rc_operations_keys_publish_ahead r = DEFAULT_KEYS_PUBLISH_AHEAD" "rc_operations_keys_rotate_every r = DEFAULT_KEYS_ROTATE_EVERY"
    "rc_operations_keys_retain r = DEFAULT_KEYS_RETAIN" "\<not> rc_token_keys_enabled r" "\<not> rc_audit_pseudonym_enabled r"
    "rc_exchange_profiles r = []" "rc_trusted_attesters r = []"
  using assms
  by (auto simp: demo_config_def resolving demo_input_def demo_server_def default_config_def demo_bools realm_name_shaped_def)

lemma demo_realm_valid: "r \<in> set (config_realms demo_config) \<Longrightarrow> rc_name r \<notin> seen \<Longrightarrow> validate_realm c seen r = Inr ()"
  by (simp add: validate_realm_def Let_def demo_realm check_key_lifecycle_def DEFAULT_KEYS_PUBLISH_AHEAD_def
      DEFAULT_KEYS_ROTATE_EVERY_def DEFAULT_KEYS_RETAIN_def KEY_SET_MAX_AGE_def validate_exchange_profiles_def
      validate_trusted_attesters_def)

lemma validate_realm_list_demo:
  "set rs \<subseteq> set (config_realms demo_config) \<Longrightarrow> distinct (map rc_name rs) \<Longrightarrow> rc_name ` set rs \<inter> seen = {}
   \<Longrightarrow> validate_realm_list c seen rs = Inr ()"
  by (induction rs arbitrary: seen) (auto simp: demo_realm_valid)

lemma validate_realms_demo: "config_realms c = config_realms demo_config \<Longrightarrow> validate_realms c = Inr ()"
  unfolding validate_realms_def by (rule validate_realm_list_demo) (simp_all add: demo_config(2))

lemma demo_valid: "config_validate (\<lambda>_. True) demo_config = Inr ()"
proof -
  have "validate_realms demo_config = Inr ()" by (rule validate_realms_demo) simp
  moreover have "trim ''127.0.0.1:8080'' = ''127.0.0.1:8080''" by (rule trim_graphic) simp
  ultimately show ?thesis
    by (simp add: config_validate_def demo_config_fields declared_addresses_def validate_tls_def validate_development_def
        validate_admin_access_def validate_key_lifecycle_def validate_pseudonyms_def is_blank_text_def)
qed

theorem validated_realms_are_apart_witness:
  "\<exists>r s. config_realms demo_config = [r, s] \<and> config_validate (\<lambda>_. True) demo_config = Inr ()
     \<and> \<not> starts_with (realm_home demo_config (rc_name r)) (realm_keys_directory demo_config (rc_name s))"
proof -
  from demo_config(2) obtain r s where rs: "config_realms demo_config = [r, s]" "rc_name r = ''acme''" "rc_name s = ''beta''"
    by auto
  moreover have "realm_keys_directory demo_config (rc_name s) \<in> realm_directories demo_config (rc_name s)"
    by (simp add: realm_directories_def)
  ultimately show ?thesis using validated_realms_are_apart [OF demo_valid] demo_valid by auto
qed

text \<open>
  A realm may switch its operations ring on while the lifecycle it inherits was only defaulted: the check
  that every duration was stated looks at the ring of the server alone.
\<close>

theorem realm_ring_may_be_defaulted:
  "config_validate (\<lambda>_. True) demo_config = Inr () \<and> keys_lifecycle_declared demo_config = {}
   \<and> config_realms demo_config \<noteq> [] \<and> list_all rc_operations_keys_enabled (config_realms demo_config)"
proof -
  have "config_realms demo_config \<noteq> []" using demo_config(2) by auto
  then show ?thesis by (simp add: demo_valid demo_config_fields list_all_iff demo_realm)
qed

end
