(* ===== verification/KeyWitness.thy ===== *)
theory KeyWitness
  imports Configuration AuditGuarantees
begin

text \<open>
  \<open>crates/pic-x-server/src/witness.rs\<close>: what each version of the pseudonymisation key produced, kept beside
  the trail so that a key that changed under its version stops the start. The files are a map from paths
  to text; what the file system may refuse, and what a failed write leaves behind, is a \<open>state_env\<close>. The
  permission bits of the files are left out.
\<close>

section \<open>Definitions\<close>

definition WITNESS_INPUT :: string where "WITNESS_INPUT = ''pic-x:audit-pseudonym-key-witness''"
definition WITNESS_FILE :: string where "WITNESS_FILE = ''operations/state/audit-pseudonym-versions''"

type_synonym state_files = "string \<rightharpoonup> string"

datatype state_op = MakeParent string | RestrictParent string | ReadState string | WriteState string | RestrictState string

record state_env =
  state_fault :: "state_op \<Rightarrow> bool"
  left_behind :: "string \<Rightarrow> string \<Rightarrow> string option"
  state_hmac :: "bytes \<Rightarrow> bytes \<Rightarrow> bytes"

datatype witness_error = StateFailed state_op | KeyChanged string | InRealm string witness_error

definition tab :: char where "tab = CHR 0x09"

definition witness_path :: "Config \<Rightarrow> string" where
  "witness_path c = resolve c WITNESS_FILE"

definition witness_read :: "state_env \<Rightarrow> string \<Rightarrow> state_files \<Rightarrow> witness_error + (string \<times> string) list" where
  "witness_read env path files =
     (if state_fault env (ReadState path) then Inl (StateFailed (ReadState path))
      else Inr (case files path of
             None \<Rightarrow> []
           | Some content \<Rightarrow> List.map_filter (split_once tab) (str_lines content)))"

definition witness_append ::
    "state_env \<Rightarrow> string \<Rightarrow> string \<Rightarrow> string \<Rightarrow> state_files \<Rightarrow> (witness_error + unit) \<times> state_files" where
  "witness_append env path ver witness files =
     (case find (state_fault env) [MakeParent path, RestrictParent path, ReadState path] of
        Some f \<Rightarrow> (Inl (StateFailed f), files)
      | None \<Rightarrow>
          (let content = (case files path of None \<Rightarrow> [] | Some content \<Rightarrow> content);
               closed = (if content \<noteq> [] \<and> last content \<noteq> newline then content @ [newline] else content);
               all = closed @ ver @ [tab] @ witness @ [newline]
           in if state_fault env (WriteState path)
              then (Inl (StateFailed (WriteState path)), files(path := left_behind env path all))
              else if state_fault env (RestrictState path)
              then (Inl (StateFailed (RestrictState path)), files(path \<mapsto> all))
              else (Inr (), files(path \<mapsto> all))))"

definition check_at ::
    "state_env \<Rightarrow> string \<Rightarrow> HmacPseudonymizer option \<Rightarrow> state_files \<Rightarrow> (witness_error + unit) \<times> state_files" where
  "check_at env path policy files =
     (case policy of
        None \<Rightarrow> (Inr (), files)
      | Some p \<Rightarrow>
          (let ver = key_version p; witness = pseudonymize (state_hmac env) p WITNESS_INPUT in
           case witness_read env path files of
             Inl e \<Rightarrow> (Inl e, files)
           | Inr recorded \<Rightarrow>
               (case find (\<lambda>(known, _). known = ver) recorded of
                  Some (_, previous) \<Rightarrow>
                    if previous = witness then (Inr (), files) else (Inl (KeyChanged ver), files)
                | None \<Rightarrow> witness_append env path ver witness files)))"

definition witness_check ::
    "state_env \<Rightarrow> Config \<Rightarrow> HmacPseudonymizer option \<Rightarrow> state_files \<Rightarrow> (witness_error + unit) \<times> state_files" where
  "witness_check env c policy = check_at env (witness_path c) policy"

definition realm_witness_path :: "Config \<Rightarrow> string \<Rightarrow> string" where
  "realm_witness_path c name = resolve c (''realms/'' @ name @ ''/operations/state/audit-pseudonym-versions'')"

definition check_realm ::
    "state_env \<Rightarrow> Config \<Rightarrow> ('k, 's, HmacPseudonymizer) Realm \<Rightarrow> state_files \<Rightarrow> (witness_error + unit) \<times> state_files" where
  "check_realm env c realm files =
     (case check_at env (realm_witness_path c (realm_name realm)) (pseudonymizer realm) files of
        (result, files) \<Rightarrow> (map_err (InRealm (realm_name realm)) result, files))"

section \<open>Lemmas\<close>

text \<open>What a file says of a version: the first line that names it.\<close>

definition recorded_in :: "string \<Rightarrow> (string \<times> string) list" where
  "recorded_in content = List.map_filter (split_once tab) (str_lines content)"

definition recalls :: "state_files \<Rightarrow> string \<Rightarrow> string \<Rightarrow> string option" where
  "recalls files path ver = Option.bind (files path) (\<lambda>content. map_of (recorded_in content) ver)"

lemma recorded_in_append: "ends_line old \<Longrightarrow> recorded_in (old @ new) = recorded_in old @ recorded_in new"
  by (simp add: recorded_in_def str_lines_append map_filter_append)

lemma find_map_of: "find (\<lambda>(known, _). known = k) xs = (case map_of xs k of None \<Rightarrow> None | Some v \<Rightarrow> Some (k, v))"
  by (induction xs) auto

definition closed_line :: "string \<Rightarrow> string" where
  "closed_line content = (if content \<noteq> [] \<and> last content \<noteq> newline then content @ [newline] else content)"

lemma ends_closed_line: "ends_line (closed_line content)"
  by (auto simp: closed_line_def ends_line_def)

text \<open>Closing the last line with a newline leaves what the file says of a version, but for a carriage return at its end.\<close>

lemma witness_append_cases:
  assumes "witness_append env path ver w files = (result, files')"
  obtains (unchanged) f where "files' = files" "result = Inl (StateFailed f)"
  | (failed) "state_fault env (WriteState path)" "result = Inl (StateFailed (WriteState path))"
      "\<And>q. q \<noteq> path \<Longrightarrow> files' q = files q"
  | (appended) "files' = files(path \<mapsto> closed_line (case files path of None \<Rightarrow> [] | Some content \<Rightarrow> content)
       @ ver @ [tab] @ w @ [newline])"
  using assms by (auto simp: witness_append_def Let_def closed_line_def split: option.splits if_splits)

lemma recorded_line:
  assumes "tab \<notin> set ver" "newline \<notin> set ver" "newline \<notin> set w" "w \<noteq> [] \<Longrightarrow> last w \<noteq> CHR 0x0D"
  shows "recorded_in (ver @ [tab] @ w @ [newline]) = [(ver, w)]"
proof -
  have "strip_cr (ver @ [tab] @ w) = ver @ [tab] @ w" using assms(4) by (auto simp: strip_cr_def tab_def)
  moreover have "str_lines (ver @ [tab] @ w @ [newline]) = [strip_cr (ver @ [tab] @ w)]"
    using str_lines_line [of "ver @ [tab] @ w" "[]"] assms(2,3) by (simp add: tab_def newline_def)
  moreover have "split_once tab (ver @ [tab] @ w) = Some (ver, w)" using assms(1) by (simp add: split_once_Some)
  ultimately show ?thesis by (simp add: recorded_in_def List.map_filter_def)
qed

lemma unclosed_split:
  assumes "content \<noteq> []" "last content \<noteq> newline"
  obtains pre l where "content = pre @ l" "ends_line pre" "newline \<notin> set l" "l \<noteq> []"
proof (cases "newline \<in> set content")
  case True
  then obtain xs ys where "content = xs @ newline # ys" "newline \<notin> set ys" by (metis split_list_last)
  with assms that [of "xs @ [newline]" ys] show thesis by (cases "ys = []") (auto simp: ends_line_def)
qed (use assms that [of "[]" content] in \<open>auto simp: ends_line_def\<close>)

lemma str_lines_single: "newline \<notin> set l \<Longrightarrow> l \<noteq> [] \<Longrightarrow> str_lines l = [l]"
  by (cases l) (auto simp: Let_def dropWhile_eq_Nil_conv takeWhile_eq_all_conv)

lemma split_once_strip_cr:
  "split_once tab (strip_cr l) = map_option (\<lambda>(known, w). (known, strip_cr w)) (split_once tab l)"
proof (cases "split_once tab l")
  case None
  then have "tab \<notin> set l" by (metis option.distinct(1) split_list_first split_once_Some)
  then have "tab \<notin> set (strip_cr l)" by (auto simp: strip_cr_def dest: in_set_butlastD)
  then have "split_once tab (strip_cr l) = None" by (metis in_set_conv_decomp not_None_eq old.prod.exhaust split_once_Some)
  with None show ?thesis by simp
next
  case (Some kw)
  obtain known w where "kw = (known, w)" by (cases kw)
  with Some have l: "l = known @ tab # w" "tab \<notin> set known" by (simp_all add: split_once_Some)
  then have "strip_cr l = known @ tab # strip_cr w" by (simp add: strip_cr_def tab_def butlast_append)
  then have "split_once tab (strip_cr l) = Some (known, strip_cr w)" using l(2) by (simp add: split_once_Some)
  with Some \<open>kw = (known, w)\<close> show ?thesis by simp
qed

lemma recorded_in_closed_line:
  "map_of (recorded_in (closed_line content)) ver = map_of (recorded_in content) ver
   \<or> (\<exists>w. map_of (recorded_in content) ver = Some w \<and> map_of (recorded_in (closed_line content)) ver = Some (strip_cr w))"
proof (cases "content \<noteq> [] \<and> last content \<noteq> newline")
  case True
  then obtain pre l where l: "content = pre @ l" "ends_line pre" "newline \<notin> set l" "l \<noteq> []" by (metis unclosed_split)
  have "closed_line content = pre @ l @ [newline]" using True l(1) by (simp add: closed_line_def)
  then have "recorded_in (closed_line content) = recorded_in pre @ List.map_filter (split_once tab) [strip_cr l]"
    using l str_lines_line [OF l(3), of "[]"] by (simp add: recorded_in_append) (simp add: recorded_in_def)
  moreover have "recorded_in content = recorded_in pre @ List.map_filter (split_once tab) [l]"
    using l str_lines_single by (simp add: recorded_in_append) (simp add: recorded_in_def)
  ultimately show ?thesis
    by (auto simp: map_filter_simps split_once_strip_cr map_add_def split: option.splits)
qed (auto simp: closed_line_def)

lemma recalls_appended:
  assumes "files' = files(path \<mapsto> closed_line (case files path of None \<Rightarrow> [] | Some content \<Rightarrow> content) @ entry)"
  shows "recalls files path ver = None \<Longrightarrow> recalls files' path ver = map_of (recorded_in entry) ver"
    and "recalls files path ver = Some w \<Longrightarrow> w \<noteq> [] \<Longrightarrow> last w \<noteq> CHR 0x0D \<Longrightarrow> recalls files' path ver = Some w"
proof -
  let ?old = "case files path of None \<Rightarrow> [] | Some content \<Rightarrow> content"
  have old: "recalls files path ver = map_of (recorded_in ?old) ver"
    by (simp add: recalls_def recorded_in_def split: option.splits)
  have new: "recalls files' path ver
      = (case map_of (recorded_in (closed_line ?old)) ver of None \<Rightarrow> map_of (recorded_in entry) ver | Some w \<Rightarrow> Some w)"
    by (simp add: assms recalls_def recorded_in_append ends_closed_line map_add_def split: option.splits)
  show "recalls files path ver = None \<Longrightarrow> recalls files' path ver = map_of (recorded_in entry) ver"
    using recorded_in_closed_line [of ?old ver] old new by auto
  show "recalls files path ver = Some w \<Longrightarrow> w \<noteq> [] \<Longrightarrow> last w \<noteq> CHR 0x0D \<Longrightarrow> recalls files' path ver = Some w"
    using recorded_in_closed_line [of ?old ver] old new by (auto simp: strip_cr_def)
qed

lemma witness_shape:
  assumes "newline \<notin> set (key_version p)"
  shows "newline \<notin> set (pseudonymize h p v)" "pseudonymize h p v \<noteq> []" "last (pseudonymize h p v) \<noteq> CHR 0x0D"
proof -
  have hex: "c \<noteq> newline \<and> c \<noteq> CHR 0x0D" if "c \<in> set (hex bs)" for c bs
    using hex_chars [OF that] by (auto simp: newline_def)
  then show "newline \<notin> set (pseudonymize h p v)" using assms by (auto simp: pseudonymize_def newline_def)
  show "pseudonymize h p v \<noteq> []" by (simp add: pseudonymize_def)
  show "last (pseudonymize h p v) \<noteq> CHR 0x0D"
    using hex [OF last_in_set [of "hex (take TOKEN_BYTES (h (pseudonym_key p) (as_bytes v)))"]] by (auto simp: pseudonymize_def)
qed

lemma check_at_remembers:
  assumes "check_at env path (Some p) files = (Inr (), files')"
    and "tab \<notin> set (key_version p)" "newline \<notin> set (key_version p)"
  shows "recalls files' path (key_version p) = Some (pseudonymize (state_hmac env) p WITNESS_INPUT)"
proof -
  let ?w = "pseudonymize (state_hmac env) p WITNESS_INPUT"
  note shape = witness_shape [OF assms(3), of "state_hmac env" WITNESS_INPUT]
  show ?thesis
  proof (cases "recalls files path (key_version p)")
    case None
    then have run: "witness_append env path (key_version p) ?w files = (Inr (), files')"
      using assms(1) by (auto simp: check_at_def witness_read_def recalls_def recorded_in_def Let_def find_map_of
          split: if_splits option.splits bind_splits)
    then obtain "files' = files(path \<mapsto> closed_line (case files path of None \<Rightarrow> [] | Some content \<Rightarrow> content)
        @ key_version p @ [tab] @ ?w @ [newline])"
      by (cases rule: witness_append_cases) auto
    from recalls_appended(1) [OF this None] show ?thesis
      using recorded_line [OF assms(2,3) shape(1)] shape(3) by simp
  next
    case (Some w)
    with assms(1) show ?thesis by (auto simp: check_at_def witness_read_def recalls_def recorded_in_def Let_def find_map_of
          split: if_splits option.splits bind_splits)
  qed
qed

lemma check_at_keeps:
  assumes "check_at env path policy files = (result, files')" "recalls files q ver = Some w"
    and "w \<noteq> []" "last w \<noteq> CHR 0x0D" "\<not> state_fault env (WriteState q)"
  shows "recalls files' q ver = Some w"
proof (cases "files' = files")
  case False
  then obtain p where "witness_append env path (key_version p) (pseudonymize (state_hmac env) p WITNESS_INPUT) files = (result, files')"
    using assms(1) by (auto simp: check_at_def Let_def split: option.splits sum.splits if_splits)
  then show ?thesis
  proof (cases rule: witness_append_cases)
    case failed
    with assms(2,5) show ?thesis by (cases "q = path") (auto simp: recalls_def)
  next
    case appended
    with assms recalls_appended(2) [OF appended] show ?thesis
      by (cases "q = path") (auto simp: recalls_def)
  qed (use False in simp)
qed (use assms in simp)

lemma check_at_agrees:
  assumes "check_at env path (Some p) files = (Inr (), files')" "recalls files path (key_version p) = Some w"
  shows "pseudonymize (state_hmac env) p WITNESS_INPUT = w"
  using assms by (auto simp: check_at_def witness_read_def recalls_def recorded_in_def Let_def find_map_of
      split: if_splits option.splits bind_splits)

section \<open>Properties\<close>

text \<open>
  A version that contains a tab is not guarded: the line that records it reads back under another
  version, so a changed key never stops the start.
\<close>

theorem tabbed_version_is_never_refused:
  assumes "tab \<in> set (key_version p)" "\<And>f. \<not> state_fault env f"
  shows "fst (check_at env path (Some p) files) = Inr ()"
proof -
  have "map_of (recorded_in content) (key_version p) = None" for content
  proof (rule ccontr)
    assume "map_of (recorded_in content) (key_version p) \<noteq> None"
    then obtain w l where "split_once tab l = Some (key_version p, w)"
      by (force simp: recorded_in_def List.map_filter_def dest: map_of_SomeD)
    with assms(1) show False by (simp add: split_once_Some)
  qed
  then show ?thesis using assms(2)
    by (auto simp: check_at_def witness_read_def witness_append_def Let_def find_map_of recorded_in_def
        split: option.splits)
qed

end
