(* ===== verification/Deployment.thy ===== *)
theory Deployment
  imports Validation Administration Admission KeyLifecycle KeyWitness
begin

text \<open>
  How a server is put together: \<open>App\<close> of \<open>crates/pic-x-server/src/app.rs\<close> up to the context the host runs
  against, the factories \<open>src/main.rs\<close> composes it with, and what the administrative surface of
  \<open>crates/pic-x-admin/src/service.rs\<close> puts in front of its routes.

  A key manager is the directory of its ring and the settings it runs on; an audit sink is what it was
  built from. What the file system and the process environment answer is a \<open>build_env\<close>. Logging, the
  banner and signal handlers are left out, and the provisioner is any function of the configuration.
\<close>

section \<open>Definitions\<close>

subsection \<open>Collaborators\<close>

definition BINARY_NAME :: string where "BINARY_NAME = ''pic-x''"
definition MINIMUM_KEY_LENGTH :: nat where "MINIMUM_KEY_LENGTH = 16"

record BuiltRing =
  ring_directory :: string
  ring_manager :: DirectoryKeyManager

datatype BuiltSink =
    TracingSink string string
  | FileSink string FileAuditSink "BuiltRing option"

datatype BuiltStore = DirectoryStore DirectorySecretStore | EnvironmentStore EnvironmentSecretStore

type_synonym BuiltRealm = "(BuiltRing, BuiltSink, HmacPseudonymizer) Realm"

datatype build_error =
    ProvisioningFailed
  | Invalid validation_error
  | NoKeyManager
  | NoRealmFactory
  | NoPseudonymizer
  | NamesNoSecret
  | NoSecretStore
  | KeyUnresolved string secret_error
  | KeyTooShort string
  | PseudonymFromNowhere string
  | CannotSign string string
  | TrailUnprepared string
  | AssemblingRealm string build_error
  | KeyMisrotated witness_error

record build_env = state_env +
  file_mode :: "string \<Rightarrow> u32 option"
  file_read :: "string \<Rightarrow> read_error + bytes"
  is_file :: "string \<Rightarrow> bool"
  process_env :: "string \<rightharpoonup> string"
  to_uppercase :: "string \<Rightarrow> string"
  prepare_fault :: "string \<Rightarrow> bool"
  package_version :: string

fun store_resolve :: "build_env \<Rightarrow> BuiltStore \<Rightarrow> string \<Rightarrow> secret_error + bytes" where
  "store_resolve env (DirectoryStore s) name = directory_resolve (file_mode env) (file_read env) s name"
| "store_resolve env (EnvironmentStore s) name = environment_resolve (to_uppercase env) (process_env env) s name"

subsection \<open>What the binary composes\<close>

definition key_manager_for :: "Config \<Rightarrow> build_error + BuiltRing option" where
  "key_manager_for c =
     Inr (Some \<lparr> ring_directory = keys_directory c,
       ring_manager = \<lparr> mgr_policy = \<lparr> publish_ahead = keys_publish_ahead c, rotate_every = keys_rotate_every c,
           retain = keys_retain c, verify_retain = audit_retention c \<rparr>,
         mgr_algorithm = Ed25519 \<rparr> \<rparr>)"

definition file_sink ::
    "build_env \<Rightarrow> string \<Rightarrow> Config \<Rightarrow> u64 \<Rightarrow> BuiltRing option \<Rightarrow> build_error + BuiltSink" where
  "file_sink env directory c retention keys =
     (if prepare_fault env directory then Inl (TrailUnprepared directory)
      else Inr (FileSink directory \<lparr> sink_service_name = BINARY_NAME, sink_service_version = version c,
                                     sink_retention = retention \<rparr> keys))"

definition audit_sink_for :: "build_env \<Rightarrow> Config \<Rightarrow> BuiltRing option \<Rightarrow> build_error + BuiltSink option" where
  "audit_sink_for env c keys =
     (case audit_destination c of
        ToTracing \<Rightarrow> Inr None
      | ToFile \<Rightarrow> and_then (file_sink env (audit_directory c) c (audit_retention c) keys) (\<lambda>sink. Inr (Some sink)))"

definition secret_store_for :: "Config \<Rightarrow> build_error + BuiltStore option" where
  "secret_store_for c =
     Inr (case secrets_provider c of
        NoProvider \<Rightarrow> None
      | DirectoryProvider \<Rightarrow> Some (DirectoryStore \<lparr> secret_directory = secrets_directory c \<rparr>)
      | EnvironmentProvider \<Rightarrow> Some (EnvironmentStore \<lparr> env_prefix = secrets_env_prefix c \<rparr>))"

definition realm_operations_ring :: "Config \<Rightarrow> RealmConfig \<Rightarrow> BuiltRing option" where
  "realm_operations_ring c r =
     (if rc_operations_keys_enabled r then
        Some \<lparr> ring_directory = realm_keys_directory c (rc_name r),
          ring_manager = \<lparr> mgr_policy = \<lparr> publish_ahead = rc_operations_keys_publish_ahead r,
              rotate_every = rc_operations_keys_rotate_every r, retain = rc_operations_keys_retain r,
              verify_retain = rc_audit_retention r \<rparr>,
            mgr_algorithm = Ed25519 \<rparr> \<rparr>
      else None)"

definition realm_token_ring :: "Config \<Rightarrow> RealmConfig \<Rightarrow> build_error + BuiltRing option" where
  "realm_token_ring c r =
     (if rc_token_keys_enabled r then
        and_then (map_err (CannotSign (rc_name r)) (parse_algorithm (rc_token_signing_algorithm r))) (\<lambda>algorithm.
        Inr (Some \<lparr> ring_directory = realm_token_keys_directory c (rc_name r),
          ring_manager = \<lparr> mgr_policy = \<lparr> publish_ahead = rc_token_keys_publish_ahead r,
              rotate_every = rc_token_keys_rotate_every r, retain = rc_token_keys_retain r,
              verify_retain = rc_token_keys_retain r \<rparr>,
            mgr_algorithm = algorithm \<rparr> \<rparr>))
      else Inr None)"

definition realm_sink :: "build_env \<Rightarrow> Config \<Rightarrow> RealmConfig \<Rightarrow> BuiltRing option \<Rightarrow> build_error + BuiltSink" where
  "realm_sink env c r keys =
     (case rc_audit_destination r of
        ToTracing \<Rightarrow> Inr (TracingSink BINARY_NAME (package_version env))
      | ToFile \<Rightarrow> file_sink env (realm_audit_directory c (rc_name r)) c (rc_audit_retention r) keys)"

definition realm_store :: "Config \<Rightarrow> RealmConfig \<Rightarrow> build_error + BuiltStore" where
  "realm_store c r =
     (case rc_secrets_provider r of
        DirectoryProvider \<Rightarrow> Inr (DirectoryStore \<lparr> secret_directory = realm_secrets_directory c (rc_name r) \<rparr>)
      | EnvironmentProvider \<Rightarrow> Inr (EnvironmentStore \<lparr> env_prefix = rc_secrets_env_prefix r \<rparr>)
      | NoProvider \<Rightarrow> Inl (PseudonymFromNowhere (rc_name r)))"

definition realm_policy :: "build_env \<Rightarrow> Config \<Rightarrow> RealmConfig \<Rightarrow> build_error + HmacPseudonymizer option" where
  "realm_policy env c r =
     (if rc_audit_pseudonym_enabled r then
        and_then (ok_or NamesNoSecret (rc_audit_pseudonym_key_ref r)) (\<lambda>reference.
        and_then (realm_store c r) (\<lambda>store.
        and_then (map_err (KeyUnresolved reference) (store_resolve env store reference)) (\<lambda>key.
        Inr (Some \<lparr> pseudonym_key = key, key_version = rc_audit_pseudonym_key_version r \<rparr>))))
      else Inr None)"

definition build_realm :: "build_env \<Rightarrow> Config \<Rightarrow> RealmConfig \<Rightarrow> build_error + BuiltRealm" where
  "build_realm env c r =
     (let operations = realm_operations_ring c r in
      and_then (realm_token_ring c r) (\<lambda>tokens.
      and_then (realm_sink env c r operations) (\<lambda>sink.
      and_then (realm_policy env c r) (\<lambda>policy.
      Inr (with_trusted_attesters (rc_trusted_attesters r)
          (with_exchange_profiles (rc_exchange_profiles r)
          (with_token_signing_algorithm (rc_token_signing_algorithm r)
          (with_key_cache_stale_for (rc_key_cache_stale_for r)
          (with_token_initial_expiry_policy (rc_token_initial_expiry_policy r)
          (with_token_lifetime (rc_token_lifetime r)
          (new_realm (rc_name r) (rc_mount_path r) (rc_issuer r) (rc_listed r) operations tokens sink policy)))))))))))"

subsection \<open>The application\<close>

record App =
  app_audit :: BuiltSink
  app_secrets :: "BuiltStore option"
  pseudonymizer_factory :: "(bytes \<Rightarrow> string \<Rightarrow> HmacPseudonymizer) option"
  secrets_factory :: "(Config \<Rightarrow> build_error + BuiltStore option) option"
  keys_factory :: "(Config \<Rightarrow> build_error + BuiltRing option) option"
  audit_factory :: "(Config \<Rightarrow> BuiltRing option \<Rightarrow> build_error + BuiltSink option) option"
  realm_factory :: "(Config \<Rightarrow> RealmConfig \<Rightarrow> build_error + BuiltRealm) option"
  provisioner :: "(Config \<Rightarrow> build_error + unit) option"

definition new_app :: "BuiltSink \<Rightarrow> App" where
  "new_app sink = \<lparr> app_audit = sink, app_secrets = None, pseudonymizer_factory = None, secrets_factory = None,
     keys_factory = None, audit_factory = None, realm_factory = None, provisioner = None \<rparr>"

definition with_pseudonymizer_factory :: "(bytes \<Rightarrow> string \<Rightarrow> HmacPseudonymizer) \<Rightarrow> App \<Rightarrow> App" where
  "with_pseudonymizer_factory f app = app\<lparr> pseudonymizer_factory := Some f \<rparr>"
definition with_secrets_factory :: "(Config \<Rightarrow> build_error + BuiltStore option) \<Rightarrow> App \<Rightarrow> App" where
  "with_secrets_factory f app = app\<lparr> secrets_factory := Some f \<rparr>"
definition with_keys_factory :: "(Config \<Rightarrow> build_error + BuiltRing option) \<Rightarrow> App \<Rightarrow> App" where
  "with_keys_factory f app = app\<lparr> keys_factory := Some f \<rparr>"
definition with_audit_factory :: "(Config \<Rightarrow> BuiltRing option \<Rightarrow> build_error + BuiltSink option) \<Rightarrow> App \<Rightarrow> App" where
  "with_audit_factory f app = app\<lparr> audit_factory := Some f \<rparr>"
definition with_realm_factory :: "(Config \<Rightarrow> RealmConfig \<Rightarrow> build_error + BuiltRealm) \<Rightarrow> App \<Rightarrow> App" where
  "with_realm_factory f app = app\<lparr> realm_factory := Some f \<rparr>"
definition with_provisioner :: "(Config \<Rightarrow> build_error + unit) \<Rightarrow> App \<Rightarrow> App" where
  "with_provisioner f app = app\<lparr> provisioner := Some f \<rparr>"

text \<open>The composition of \<open>main\<close>, with the provisioner as an argument.\<close>

definition composed :: "build_env \<Rightarrow> (Config \<Rightarrow> build_error + unit) \<Rightarrow> App" where
  "composed env provision =
     with_realm_factory (build_realm env)
       (with_pseudonymizer_factory (\<lambda>key ver. \<lparr> pseudonym_key = key, key_version = ver \<rparr>)
       (with_keys_factory key_manager_for
       (with_audit_factory (audit_sink_for env)
       (with_secrets_factory secret_store_for
       (with_provisioner provision
       (new_app (TracingSink BINARY_NAME (package_version env))))))))"

definition secrets_for :: "App \<Rightarrow> Config \<Rightarrow> build_error + BuiltStore option" where
  "secrets_for app c = (case secrets_factory app of Some factory \<Rightarrow> factory c | None \<Rightarrow> Inr None)"

definition keys_for :: "App \<Rightarrow> Config \<Rightarrow> build_error + BuiltRing option" where
  "keys_for app c =
     (if \<not> keys_enabled c then Inr None
      else and_then (ok_or NoKeyManager (keys_factory app)) (\<lambda>factory. factory c))"

definition audit_for :: "App \<Rightarrow> Config \<Rightarrow> BuiltRing option \<Rightarrow> build_error + BuiltSink" where
  "audit_for app c keys =
     and_then (case audit_factory app of Some factory \<Rightarrow> factory c keys | None \<Rightarrow> Inr None) (\<lambda>chosen.
     Inr (case chosen of Some sink \<Rightarrow> sink | None \<Rightarrow> app_audit app))"

definition realms_for :: "App \<Rightarrow> Config \<Rightarrow> build_error + (BuiltRing, BuiltSink, HmacPseudonymizer) Realms" where
  "realms_for app c =
     (if config_realms c = [] then Inr (new_realms [])
      else and_then (ok_or NoRealmFactory (realm_factory app)) (\<lambda>factory.
           and_then (collect_results (\<lambda>r. map_err (AssemblingRealm (rc_name r)) (factory c r)) (config_realms c)) (\<lambda>realms.
           Inr (new_realms realms))))"

definition pseudonymizer_for :: "build_env \<Rightarrow> App \<Rightarrow> Config \<Rightarrow> BuiltStore option \<Rightarrow> build_error + HmacPseudonymizer option" where
  "pseudonymizer_for env app c secrets =
     (if \<not> audit_pseudonym_enabled c then Inr None
      else and_then (ok_or NoPseudonymizer (pseudonymizer_factory app)) (\<lambda>factory.
           and_then (ok_or NamesNoSecret (audit_pseudonym_key_ref c)) (\<lambda>reference.
           and_then (ok_or NoSecretStore secrets) (\<lambda>store.
           and_then (map_err (KeyUnresolved reference) (store_resolve env store reference)) (\<lambda>key.
           and_then (guard_that (\<not> length key < MINIMUM_KEY_LENGTH) (KeyTooShort reference)) (\<lambda>_.
           Inr (Some (factory key (audit_pseudonym_key_version c)))))))))"

record Assembled =
  asm_secrets :: "BuiltStore option"
  asm_pseudonymizer :: "HmacPseudonymizer option"
  asm_keys :: "BuiltRing option"
  asm_audit :: BuiltSink
  asm_realms :: "(BuiltRing, BuiltSink, HmacPseudonymizer) Realms"

fun check_realms :: "build_env \<Rightarrow> Config \<Rightarrow> BuiltRealm list \<Rightarrow> state_files \<Rightarrow> (build_error + unit) \<times> state_files" where
  "check_realms env c [] files = (Inr (), files)"
| "check_realms env c (r # rs) files =
     (case check_realm (state_env.truncate env) c r files of
        (Inl e, files) \<Rightarrow> (Inl (KeyMisrotated e), files)
      | (Inr _, files) \<Rightarrow> check_realms env c rs files)"

definition assemble ::
    "build_env \<Rightarrow> App \<Rightarrow> Config \<Rightarrow> HmacPseudonymizer option \<Rightarrow> BuiltStore option \<Rightarrow> build_error + Assembled" where
  "assemble env app c policy secrets =
     and_then (keys_for app c) (\<lambda>keys.
     and_then (audit_for app c keys) (\<lambda>sink.
     and_then (realms_for app c) (\<lambda>realms.
     Inr \<lparr> asm_secrets = secrets, asm_pseudonymizer = policy, asm_keys = keys, asm_audit = sink, asm_realms = realms \<rparr>)))"

definition collaborators :: "build_env \<Rightarrow> App \<Rightarrow> Config \<Rightarrow> build_error + BuiltStore option \<times> HmacPseudonymizer option" where
  "collaborators env app c =
     and_then (case provisioner app of Some provision \<Rightarrow> provision c | None \<Rightarrow> Inr ()) (\<lambda>_.
     and_then (map_err Invalid (config_validate (is_file env) c)) (\<lambda>_.
     and_then (secrets_for app c) (\<lambda>resolved.
     let secrets = (case resolved of Some s \<Rightarrow> Some s | None \<Rightarrow> app_secrets app) in
     and_then (pseudonymizer_for env app c secrets) (\<lambda>policy.
     Inr (secrets, policy)))))"

text \<open>\<open>App::serve\<close> up to the call of the host.\<close>

definition serve :: "build_env \<Rightarrow> App \<Rightarrow> Config \<Rightarrow> state_files \<Rightarrow> (build_error + Assembled) \<times> state_files" where
  "serve env app c files =
     (case collaborators env app c of
        Inl e \<Rightarrow> (Inl e, files)
      | Inr (secrets, policy) \<Rightarrow>
          (case witness_check (state_env.truncate env) c policy files of
             (Inl e, files) \<Rightarrow> (Inl (KeyMisrotated e), files)
           | (Inr _, files) \<Rightarrow>
               (case assemble env app c policy secrets of
                  Inl e \<Rightarrow> (Inl e, files)
                | Inr asm \<Rightarrow>
                    (case check_realms env c (all_realms (asm_realms asm)) files of
                       (Inl e, files) \<Rightarrow> (Inl e, files)
                     | (Inr _, files) \<Rightarrow> (Inr asm, files)))))"

subsection \<open>The administrative surface\<close>

definition serving ::
    "Config \<Rightarrow> 's AuditRecorder option \<Rightarrow> TlsSettings option \<Rightarrow> PeerIdentity option \<Rightarrow> string
     \<Rightarrow> ('s \<times> 'w \<Rightarrow> Response \<times> 's \<times> 'w) \<Rightarrow> 's \<times> 'w \<Rightarrow> Response \<times> 's \<times> 'w" where
  "serving c recorder secured peer target router =
     (if \<not> (case secured of Some tls \<Rightarrow> is_mutual tls | None \<Rightarrow> False) then router
      else
        (let policy = new_authorization (admin_allow c) (development_mode c);
             policy = (case recorder of Some r \<Rightarrow> recording r policy | None \<Rightarrow> policy)
         in authorize policy peer target router))"

section \<open>Lemmas\<close>

subsection \<open>What a server that came up was built from\<close>

lemma serve_Inr:
  assumes "serve env app c files = (Inr asm, files')"
  obtains files1 where "config_validate (is_file env) c = Inr ()"
    "pseudonymizer_for env app c (asm_secrets asm) = Inr (asm_pseudonymizer asm)"
    "witness_check (state_env.truncate env) c (asm_pseudonymizer asm) files = (Inr (), files1)"
    "keys_for app c = Inr (asm_keys asm)" "audit_for app c (asm_keys asm) = Inr (asm_audit asm)"
    "realms_for app c = Inr (asm_realms asm)"
    "check_realms env c (all_realms (asm_realms asm)) files1 = (Inr (), files')"
  using assms
  by (auto simp: serve_def collaborators_def assemble_def Let_def result_iffs split: sum.splits prod.splits)

lemmas composed_simps = composed_def with_realm_factory_def with_pseudonymizer_factory_def with_keys_factory_def
  with_audit_factory_def with_secrets_factory_def with_provisioner_def new_app_def

lemma composed_factories [simp]:
  "realm_factory (composed env provision) = Some (build_realm env)"
  "keys_factory (composed env provision) = Some key_manager_for"
  "audit_factory (composed env provision) = Some (audit_sink_for env)"
  "secrets_factory (composed env provision) = Some secret_store_for"
  by (simp_all add: composed_simps)

lemma build_realm_Inr:
  assumes "build_realm env c r = Inr realm"
  shows "realm_name realm = rc_name r" "mount_path realm = rc_mount_path r" "realm_issuer realm = rc_issuer r"
    "operations_keys realm = realm_operations_ring c r" "realm_token_ring c r = Inr (token_keys realm)"
    "realm_sink env c r (operations_keys realm) = Inr (audit realm)" "realm_policy env c r = Inr (pseudonymizer realm)"
    "exchange_profiles realm = rc_exchange_profiles r" "token_lifetime realm = rc_token_lifetime r"
  using assms
  by (auto simp: build_realm_def Let_def result_iffs with_trusted_attesters_def with_exchange_profiles_def
      with_token_signing_algorithm_def with_key_cache_stale_for_def with_token_initial_expiry_policy_def
      with_token_lifetime_def new_realm_def)

lemma composed_realms:
  assumes "realms_for (composed env provision) c = Inr reg"
  obtains rs where "reg = new_realms rs" "list_all2 (\<lambda>r realm. build_realm env c r = Inr realm) (config_realms c) rs"
  using assms by (cases "config_realms c = []") (auto simp: realms_for_def result_iffs list_all2_conv_all_nth)

lemma built_names: "list_all2 (\<lambda>r realm. build_realm env c r = Inr realm) cs rs \<Longrightarrow> map realm_name rs = map rc_name cs"
  by (induction rule: list_all2_induct) (auto simp: build_realm_Inr)

lemma built_set:
  "list_all2 (\<lambda>r realm. build_realm env c r = Inr realm) cs rs
   \<Longrightarrow> realm \<in> set rs \<longleftrightarrow> (\<exists>r \<in> set cs. build_realm env c r = Inr realm)"
  by (induction rule: list_all2_induct) auto

lemma served_by_name:
  assumes "serve env (composed env provision) c files = (Inr asm, files')"
  shows "by_name (asm_realms asm) name = Some realm \<longleftrightarrow>
    (\<exists>r \<in> set (config_realms c). rc_name r = name \<and> build_realm env c r = Inr realm)"
proof -
  from assms have valid: "config_validate (is_file env) c = Inr ()"
    and "realms_for (composed env provision) c = Inr (asm_realms asm)" by (auto elim: serve_Inr)
  from this(2) obtain rs where rs: "asm_realms asm = new_realms rs"
    "list_all2 (\<lambda>r realm. build_realm env c r = Inr realm) (config_realms c) rs" by (rule composed_realms)
  have "distinct (map rc_name (config_realms c))"
    using validate_realm_list_Inr config_validate_Inr(4) [OF valid] by (simp add: validate_realms_def)
  with built_names [OF rs(2)] have "distinct (map realm_name rs)" by simp
  from by_name_iff [OF this, of name realm] built_set [OF rs(2), of realm] rs(1) show ?thesis
    using build_realm_Inr(1) by metis
qed

lemma served_all:
  assumes "serve env (composed env provision) c files = (Inr asm, files')"
  shows "realm \<in> set (all_realms (asm_realms asm)) \<longleftrightarrow> (\<exists>r \<in> set (config_realms c). build_realm env c r = Inr realm)"
proof -
  have "bt_wf (realms_by_name (asm_realms asm))"
    using assms by (auto elim!: serve_Inr composed_realms simp: new_realms_alt bt_wf_fold_insert)
  then have "realm \<in> set (all_realms (asm_realms asm)) \<longleftrightarrow> (\<exists>name. by_name (asm_realms asm) name = Some realm)"
    by (force simp: all_realms_def by_name_def bt_get_def bt_wf_distinct)
  then show ?thesis by (auto simp: served_by_name [OF assms])
qed

subsection \<open>Where it keeps things\<close>

definition realm_places :: "BuiltRealm \<Rightarrow> string set" where
  "realm_places realm = ring_directory ` (set_option (operations_keys realm) \<union> set_option (token_keys realm))
     \<union> (case audit realm of FileSink directory _ _ \<Rightarrow> {directory} | TracingSink _ _ \<Rightarrow> {})"

lemma built_realm_places:
  assumes "build_realm env c r = Inr realm"
  shows "realm_places realm \<subseteq> realm_directories c (rc_name r)"
proof -
  note built = build_realm_Inr [OF assms]
  have "ring_directory ` set_option (operations_keys realm) \<subseteq> {realm_keys_directory c (rc_name r)}"
    by (auto simp: built(4) realm_operations_ring_def)
  moreover have "ring_directory ` set_option (token_keys realm) \<subseteq> {realm_token_keys_directory c (rc_name r)}"
    using built(5) by (auto simp: realm_token_ring_def result_iffs split: if_splits)
  moreover have "directory = realm_audit_directory c (rc_name r)" if "audit realm = FileSink directory sink keys" for directory sink keys
    using built(6) that by (auto simp: realm_sink_def file_sink_def split: AuditDestination.splits if_splits)
  ultimately show ?thesis by (auto simp: realm_places_def realm_directories_def split: BuiltSink.splits)
qed

definition rings :: "Assembled \<Rightarrow> BuiltRing set" where
  "rings asm = set_option (asm_keys asm)
     \<union> (\<Union>realm \<in> set (all_realms (asm_realms asm)). set_option (operations_keys realm) \<union> set_option (token_keys realm))"

abbreviation policy_of :: "BuiltRing \<Rightarrow> KeyPolicy" where
  "policy_of ring \<equiv> mgr_policy (ring_manager ring)"

definition sound_policy :: "Config \<Rightarrow> KeyPolicy \<Rightarrow> bool" where
  "sound_policy c p \<longleftrightarrow> publish_ahead p < rotate_every p \<and> rotate_every p \<le> retain p
     \<and> (development_mode c \<or> KEY_SET_MAX_AGE \<le> publish_ahead p)"

lemma realm_ring_sound:
  assumes "validate_realm c seen r = Inr ()" "build_realm env c r = Inr realm"
    and "ring \<in> set_option (operations_keys realm) \<union> set_option (token_keys realm)"
  shows "sound_policy c (policy_of ring)"
  using assms(3) build_realm_Inr(4,5) [OF assms(2)] validate_realm_Inr(3,4) [OF assms(1)]
  by (auto simp: realm_operations_ring_def realm_token_ring_def result_iffs check_key_lifecycle_Inr sound_policy_def
      split: if_splits)

lemma served_ring_sound:
  assumes "serve env (composed env provision) c files = (Inr asm, files')" "ring \<in> rings asm"
  shows "sound_policy c (policy_of ring)"
proof -
  from assms(1) have valid: "config_validate (is_file env) c = Inr ()"
    and keys: "keys_for (composed env provision) c = Inr (asm_keys asm)" by (auto elim: serve_Inr)
  consider (server) "asm_keys asm = Some ring" | (realm) realm where "realm \<in> set (all_realms (asm_realms asm))"
      "ring \<in> set_option (operations_keys realm) \<union> set_option (token_keys realm)"
    using assms(2) by (auto simp: rings_def)
  then show ?thesis
  proof cases
    case server
    with keys have "keys_enabled c" "ring_manager ring = \<lparr> mgr_policy = \<lparr> publish_ahead = keys_publish_ahead c,
        rotate_every = keys_rotate_every c, retain = keys_retain c, verify_retain = audit_retention c \<rparr>, mgr_algorithm = Ed25519 \<rparr>"
      by (auto simp: keys_for_def key_manager_for_def split: if_splits)
    with validate_key_lifecycle_Inr(2) [OF config_validate_Inr(3) [OF valid]] show ?thesis
      by (simp add: check_key_lifecycle_Inr sound_policy_def)
  next
    case realm
    then obtain r where "r \<in> set (config_realms c)" "build_realm env c r = Inr realm" using served_all [OF assms(1)] by blast
    with validated_realm [OF valid] realm_ring_sound realm(2) show ?thesis by metis
  qed
qed


subsection \<open>Restarts\<close>

text \<open>Every key a server pseudonymises with, and the file that remembers its version.\<close>

definition policies :: "Config \<Rightarrow> Assembled \<Rightarrow> (string \<times> HmacPseudonymizer) set" where
  "policies c asm = {(witness_path c, p) |p. asm_pseudonymizer asm = Some p}
     \<union> {(realm_witness_path c (realm_name realm), p) |realm p.
          realm \<in> set (all_realms (asm_realms asm)) \<and> pseudonymizer realm = Some p}"

definition unwritable :: "string \<Rightarrow> build_env \<Rightarrow> bool" where
  "unwritable path env \<longleftrightarrow> state_fault env (WriteState path)"

definition plain_version :: "HmacPseudonymizer \<Rightarrow> bool" where
  "plain_version p \<longleftrightarrow> tab \<notin> set (key_version p) \<and> newline \<notin> set (key_version p)"

definition plain_witness :: "string \<Rightarrow> bool" where
  "plain_witness w \<longleftrightarrow> w \<noteq> [] \<and> last w \<noteq> CHR 0x0D"

abbreviation token_of :: "build_env \<Rightarrow> HmacPseudonymizer \<Rightarrow> string" where
  "token_of env p \<equiv> pseudonymize (state_hmac env) p WITNESS_INPUT"

lemma truncate_fields [simp]:
  "state_fault (state_env.truncate env) = state_fault env" "state_hmac (state_env.truncate env) = state_hmac env"
  by (simp_all add: state_env.truncate_def)

lemma check_realm_at:
  "check_realm env c realm files = (r, files') \<Longrightarrow>
   \<exists>r'. check_at env (realm_witness_path c (realm_name realm)) (pseudonymizer realm) files = (r', files') \<and> (is_ok r \<longrightarrow> r' = Inr ())"
  by (auto simp: check_realm_def split: prod.splits) (metis is_ok_def map_err_simps(1) old.sum.exhaust sum.simps(5) unit.exhaust)

lemma check_realms_keeps:
  assumes "check_realms env c rs files = (result, files')" "recalls files path ver = Some w" "plain_witness w" "\<not> unwritable path env"
  shows "recalls files' path ver = Some w"
  using assms(1,2)
proof (induction rs arbitrary: files)
  case (Cons r rs)
  obtain r1 files1 where one: "check_realm (state_env.truncate env) c r files = (r1, files1)" by fastforce
  then obtain r' where "check_at (state_env.truncate env) (realm_witness_path c (realm_name r)) (pseudonymizer r) files = (r', files1)"
    using check_realm_at by blast
  from check_at_keeps [OF this Cons.prems(2)] assms(3,4) have "recalls files1 path ver = Some w"
    by (auto simp: plain_witness_def unwritable_def)
  with Cons one show ?case by (auto split: sum.splits)
qed simp

lemma serve_keeps:
  assumes "serve env app c files = (result, files')" "recalls files path ver = Some w" "plain_witness w" "\<not> unwritable path env"
  shows "recalls files' path ver = Some w"
proof (cases "collaborators env app c")
  case (Inr sp)
  obtain secrets policy where sp: "sp = (secrets, policy)" by fastforce
  obtain r1 files1 where one: "witness_check (state_env.truncate env) c policy files = (r1, files1)" by fastforce
  from check_at_keeps [OF one [unfolded witness_check_def] assms(2)] assms(3,4) have "recalls files1 path ver = Some w"
    by (auto simp: plain_witness_def unwritable_def)
  with assms Inr sp one check_realms_keeps [OF _ this] show ?thesis
    by (auto simp: serve_def split: sum.splits prod.splits)
qed (use assms in \<open>auto simp: serve_def\<close>)

lemma plain_token: "plain_version p \<Longrightarrow> plain_witness (token_of env p)"
  by (simp add: plain_version_def plain_witness_def witness_shape)

lemma check_realms_Cons:
  assumes "check_realms env c (r # rs) files = (Inr (), files')"
  obtains files1 where "check_realms env c rs files1 = (Inr (), files')"
    "check_at (state_env.truncate env) (realm_witness_path c (realm_name r)) (pseudonymizer r) files = (Inr (), files1)"
proof -
  from assms obtain files1 where one: "check_realm (state_env.truncate env) c r files = (Inr (), files1)"
    and "check_realms env c rs files1 = (Inr (), files')"
    by (auto split: sum.splits prod.splits)
  with check_realm_at [OF one] that show thesis by auto
qed

lemma check_realms_remembers:
  assumes "check_realms env c rs files = (Inr (), files')" "realm \<in> set rs" "pseudonymizer realm = Some p" "plain_version p"
    and "\<not> unwritable (realm_witness_path c (realm_name realm)) env"
  shows "recalls files' (realm_witness_path c (realm_name realm)) (key_version p) = Some (token_of env p)"
  using assms(1,2)
proof (induction rs arbitrary: files)
  case (Cons r rs)
  from Cons.prems(1) obtain files1 where rest: "check_realms env c rs files1 = (Inr (), files')"
    and at: "check_at (state_env.truncate env) (realm_witness_path c (realm_name r)) (pseudonymizer r) files = (Inr (), files1)"
    by (rule check_realms_Cons)
  show ?case
  proof (cases "realm \<in> set rs")
    case False
    with Cons.prems have "r = realm" by simp
    with at have "recalls files1 (realm_witness_path c (realm_name realm)) (key_version p) = Some (token_of env p)"
      using check_at_remembers assms(3,4) by (fastforce simp: plain_version_def)
    with check_realms_keeps [OF rest] assms plain_token show ?thesis by blast
  qed (use Cons.IH [OF rest] in blast)
qed simp

lemma check_realms_agrees:
  assumes "check_realms env c rs files = (Inr (), files')" "realm \<in> set rs" "pseudonymizer realm = Some p"
    and "\<not> unwritable (realm_witness_path c (realm_name realm)) env" "plain_witness w"
    and "recalls files (realm_witness_path c (realm_name realm)) (key_version p) = Some w"
  shows "token_of env p = w"
  using assms(1,2,6)
proof (induction rs arbitrary: files)
  case (Cons r rs)
  from Cons.prems(1) obtain files1 where rest: "check_realms env c rs files1 = (Inr (), files')"
    and at: "check_at (state_env.truncate env) (realm_witness_path c (realm_name r)) (pseudonymizer r) files = (Inr (), files1)"
    by (rule check_realms_Cons)
  show ?case
  proof (cases "r = realm")
    case True
    with at assms(3) Cons.prems(3) check_at_agrees show ?thesis by fastforce
  next
    case False
    have "recalls files1 (realm_witness_path c (realm_name realm)) (key_version p) = Some w"
      using check_at_keeps [OF at Cons.prems(3)] assms(4,5) by (auto simp: plain_witness_def unwritable_def)
    with Cons.IH [OF rest] Cons.prems(2) False show ?thesis by auto
  qed
qed simp

lemma serve_remembers:
  assumes "serve env app c files = (Inr asm, files')" "(path, p) \<in> policies c asm" "plain_version p" "\<not> unwritable path env"
  shows "recalls files' path (key_version p) = Some (token_of env p)"
proof -
  from assms(1) obtain files1 where one: "witness_check (state_env.truncate env) c (asm_pseudonymizer asm) files = (Inr (), files1)"
    and rest: "check_realms env c (all_realms (asm_realms asm)) files1 = (Inr (), files')" by (rule serve_Inr)
  show ?thesis
  proof (cases "path = witness_path c \<and> asm_pseudonymizer asm = Some p")
    case True
    with one assms(3) check_at_remembers have "recalls files1 path (key_version p) = Some (token_of env p)"
      by (fastforce simp: witness_check_def plain_version_def)
    with check_realms_keeps [OF rest] assms(3,4) plain_token show ?thesis by blast
  next
    case False
    with assms(2) check_realms_remembers [OF rest] assms(3,4) show ?thesis by (auto simp: policies_def)
  qed
qed

lemma serve_agrees:
  assumes "serve env app c files = (Inr asm, files')" "(path, p) \<in> policies c asm" "\<not> unwritable path env"
    and "recalls files path (key_version p) = Some w" "plain_witness w"
  shows "token_of env p = w"
proof -
  from assms(1) obtain files1 where one: "witness_check (state_env.truncate env) c (asm_pseudonymizer asm) files = (Inr (), files1)"
    and rest: "check_realms env c (all_realms (asm_realms asm)) files1 = (Inr (), files')" by (rule serve_Inr)
  show ?thesis
  proof (cases "path = witness_path c \<and> asm_pseudonymizer asm = Some p")
    case True
    with one assms(4) check_at_agrees show ?thesis by (fastforce simp: witness_check_def)
  next
    case False
    have "recalls files1 path (key_version p) = Some w"
      using check_at_keeps [OF one [unfolded witness_check_def] assms(4)] assms(3,5) by (auto simp: plain_witness_def unwritable_def)
    with False assms(2) check_realms_agrees [OF rest] assms(3,5) show ?thesis by (auto simp: policies_def)
  qed
qed

text \<open>Starts one after another over the same files, whatever came of each.\<close>

fun starts :: "(build_env \<times> App \<times> Config) list \<Rightarrow> state_files \<Rightarrow> state_files" where
  "starts [] files = files"
| "starts ((env, app, c) # rest) files = starts rest (snd (serve env app c files))"

lemma starts_keep:
  assumes "recalls files path ver = Some w" "plain_witness w" "\<forall>(env, _) \<in> set attempts. \<not> unwritable path env"
  shows "recalls (starts attempts files) path ver = Some w"
  using assms(1,3)
proof (induction attempts arbitrary: files)
  case (Cons a attempts)
  obtain env app c where a: "a = (env, app, c)" by (cases a)
  obtain result files1 where "serve env app c files = (result, files1)" by fastforce
  with serve_keeps [OF this Cons.prems(1) assms(2)] Cons a show ?case by auto
qed simp

section \<open>Properties\<close>

text \<open>
  C11: a server hosts the realms it declares, each on its own. Once a server is up, its registry knows a
  name exactly when a realm of that name is declared, and what it hands out was built from that
  declaration; the rings and the trail of a realm lie in the home of the realm, none of another realm
  lies there, and a trail in files is sealed by the operations ring of its own realm.
\<close>

theorem served_realms_are_apart:
  assumes "serve env (composed env provision) c files = (Inr asm, files')"
  shows "(\<forall>name realm. by_name (asm_realms asm) name = Some realm \<longleftrightarrow>
           (\<exists>r \<in> set (config_realms c). rc_name r = name \<and> build_realm env c r = Inr realm))
    \<and> (\<forall>r \<in> set (config_realms c). by_name (asm_realms asm) (rc_name r) \<noteq> None)
    \<and> (\<forall>name realm other realm'. by_name (asm_realms asm) name = Some realm \<and> by_name (asm_realms asm) other = Some realm' \<longrightarrow>
         (\<forall>d \<in> realm_places realm. starts_with (realm_home c name) d)
         \<and> (other \<noteq> name \<longrightarrow> (\<forall>d \<in> realm_places realm'. \<not> starts_with (realm_home c name) d))
         \<and> (\<forall>d sink keys. audit realm = FileSink d sink keys \<longrightarrow> keys = operations_keys realm))"
proof (intro conjI allI impI ballI)
  note named = served_by_name [OF assms]
  show "by_name (asm_realms asm) name = Some realm \<longleftrightarrow>
      (\<exists>r \<in> set (config_realms c). rc_name r = name \<and> build_realm env c r = Inr realm)" for name realm by (rule named)
  from assms have valid: "config_validate (is_file env) c = Inr ()"
    and realms: "realms_for (composed env provision) c = Inr (asm_realms asm)" by (auto elim: serve_Inr)
  show "by_name (asm_realms asm) (rc_name r) \<noteq> None" if "r \<in> set (config_realms c)" for r
  proof -
    from realms obtain rs where "list_all2 (\<lambda>r realm. build_realm env c r = Inr realm) (config_realms c) rs" by (rule composed_realms)
    with that obtain realm where "build_realm env c r = Inr realm" by (auto simp: list_all2_conv_all_nth in_set_conv_nth)
    with that named show ?thesis by blast
  qed
  fix name realm other realm'
  assume "by_name (asm_realms asm) name = Some realm \<and> by_name (asm_realms asm) other = Some realm'"
  then obtain r r' where r: "r \<in> set (config_realms c)" "rc_name r = name" "build_realm env c r = Inr realm"
    and r': "r' \<in> set (config_realms c)" "rc_name r' = other" "build_realm env c r' = Inr realm'" using named by blast
  note places = built_realm_places [OF r(3)] built_realm_places [OF r'(3)]
  show "starts_with (realm_home c name) d" if "d \<in> realm_places realm" for d
    using that places(1) validated_realms_are_apart [OF valid] r by blast
  show "\<not> starts_with (realm_home c name) d" if "other \<noteq> name" "d \<in> realm_places realm'" for d
    using that places(2) validated_realms_are_apart [OF valid] r r' by blast
  show "keys = operations_keys realm" if "audit realm = FileSink d sink keys" for d sink keys
    using build_realm_Inr(6) [OF r(3)] that
    by (auto simp: realm_sink_def file_sink_def split: AuditDestination.splits if_splits)
qed



text \<open>
  C10: outside development mode nobody administers from the network without a name. Behind the
  administrative surface of a configuration that was accepted, on an address that is not this machine,
  a request that changes anything comes from a peer whose certificate an entry of \<open>admin.allow\<close> matches.
\<close>

theorem only_named_peers_administer:
  assumes "config_validate there c = Inr u" "\<not> development_mode c" "admin_addr c = Some address" "\<not> is_loopback address"
    and "serving c recorder (admin_tls c) peer target router (s, w) = (response, s', w')" "w' \<noteq> w"
  shows "\<exists>p entry. peer = Some p \<and> entry \<in> set (admin_allow c) \<and> peer_matches entry p"
proof -
  let ?policy = "case recorder of Some r \<Rightarrow> recording r (new_authorization (admin_allow c) (development_mode c))
    | None \<Rightarrow> new_authorization (admin_allow c) (development_mode c)"
  from config_validate_Inr(2) [OF assms(1)] assms(2-4) obtain tls where
    tls: "admin_tls_setting c = Some tls" "is_mutual tls" "admin_allow c \<noteq> []"
    by (auto simp: validate_admin_access_def Let_def split: option.splits if_splits)
  then have "\<exists>tls'. admin_tls c = Some tls' \<and> is_mutual tls'"
    by (auto simp: admin_tls_def resolved_tls_def Let_def is_mutual_def resolved_in_def with_reload_def without_reload_def)
  then have "authorize ?policy peer target router (s, w) = (response, s', w')"
    using assms(5) by (auto simp: serving_def Let_def)
  then have "permits ?policy peer"
    using assms(6) by (auto simp: authorize_def Let_def split: if_splits prod.splits)
  then show ?thesis using tls(3) assms(2)
    by (auto simp: permits_iff recording_def new_authorization_def split: option.splits)
qed

text \<open>
  The key of the server has to be 16 bytes at least, the key of a realm may be of any length: the length is
  checked where the server resolves its own secret, and nowhere for a realm.
\<close>

theorem realm_key_may_be_short:
  assumes "store_resolve env store reference = Inr key" "length key < MINIMUM_KEY_LENGTH"
  shows "audit_pseudonym_enabled c \<Longrightarrow> audit_pseudonym_key_ref c = Some reference
      \<Longrightarrow> pseudonymizer_for env (composed env provision) c (Some store) = Inl (KeyTooShort reference)"
    and "rc_audit_pseudonym_enabled r \<Longrightarrow> rc_audit_pseudonym_key_ref r = Some reference \<Longrightarrow> realm_store c r = Inr store
      \<Longrightarrow> realm_policy env c r = Inr (Some \<lparr> pseudonym_key = key, key_version = rc_audit_pseudonym_key_version r \<rparr>)"
  using assms by (simp_all add: pseudonymizer_for_def realm_policy_def composed_simps)

text \<open>
  How long tokens live is not compared with how long their keys stay published: whatever the lifetimes
  are, a configuration is accepted or refused the same.
\<close>

theorem token_lifetime_is_not_checked:
  "config_validate there (c\<lparr> config_realms := map (\<lambda>r. r\<lparr> rc_token_lifetime := lifetime r \<rparr>) (config_realms c) \<rparr>)
   = config_validate there c"
proof -
  let ?c = "c\<lparr> config_realms := map (\<lambda>r. r\<lparr> rc_token_lifetime := lifetime r \<rparr>) (config_realms c) \<rparr>"
  have https: "require_public_https ?c = require_public_https c"
    and lifecycle: "check_key_lifecycle ?c = check_key_lifecycle c"
    by (simp_all add: fun_eq_iff require_public_https_def check_key_lifecycle_def)
  have attesters: "validate_attesters ?c realm seen as = validate_attesters c realm seen as" for realm seen as
    by (induction as arbitrary: seen) (simp_all add: validate_attester_def https)
  have "validate_realm_list ?c seen (map (\<lambda>r. r\<lparr> rc_token_lifetime := lifetime r \<rparr>) rs) = validate_realm_list c seen rs" for seen rs
    by (induction rs arbitrary: seen)
      (simp_all add: validate_realm_def validate_trusted_attesters_def https lifecycle attesters Let_def cong: option.case_cong if_cong)
  then have "validate_realms ?c = validate_realms c" by (simp add: validate_realms_def)
  moreover have "validate_key_lifecycle ?c = validate_key_lifecycle c" by (simp add: validate_key_lifecycle_def lifecycle)
  moreover have "validate_tls there ?c = validate_tls there c" "validate_development ?c = validate_development c"
    "validate_admin_access ?c = validate_admin_access c" "validate_pseudonyms ?c = validate_pseudonyms c"
    "declared_addresses ?c = declared_addresses c"
    by (simp_all add: fun_eq_iff validate_tls_def validate_development_def validate_admin_access_def validate_pseudonyms_def
        working_dir_def declared_addresses_def Let_def cong: option.case_cong if_cong)
  ultimately show ?thesis by (simp add: config_validate_def https cong: option.case_cong if_cong)
qed

subsection \<open>Limits a configuration gives\<close>

definition limits_wf :: "Limits \<Rightarrow> bool" where
  "limits_wf l \<longleftrightarrow> limit_connections l \<noteq> 0 \<and> limit_concurrent_requests l \<noteq> 0 \<and> limit_request_timeout l \<noteq> 0
     \<and> limit_handshake_timeout l \<noteq> 0 \<and> limit_header_timeout l \<noteq> 0 \<and> limit_write_stall_timeout l \<noteq> 0
     \<and> limit_body_bytes l \<noteq> 0 \<and> limit_header_bytes l \<noteq> 0 \<and> limit_connection_lifetime l \<noteq> Some 0"

lemma nonzero_word: "0 < n \<Longrightarrow> n < 2 ^ 64 \<Longrightarrow> (of_nat n :: u64) \<noteq> 0"
  by (metis less_numeral_extra(3) unat_of_nat_u64 unsigned_0)

lemma units_nonzero: "snd (duration_unit v) \<noteq> 0" "snd (size_unit v) \<noteq> 0"
  by (auto simp: duration_unit_def size_unit_def split: option.splits)

lemma parsed_nonzero:
  "parse_duration v = Inr d \<Longrightarrow> d \<noteq> 0" "parse_count v = Inr n \<Longrightarrow> n \<noteq> 0" "parse_bytes v = Inr b \<Longrightarrow> b \<noteq> 0"
  using units_nonzero(1) [of "trim v"] units_nonzero(2) [of "trim v"]
  by (auto simp: parse_duration_def parse_count_def parse_bytes_def Let_def result_iffs nonzero_word simp del: of_nat_mult
      split: if_splits option.splits prod.splits)

lemma nonzero_field:
  assumes "from_layers parse_ip b declared_settings layers = Inr c"
    and "\<And>m. decides m key parse shown field (all_steps parse_ip m)"
    and "\<And>v x. parse v = Inr x \<Longrightarrow> shown x \<noteq> z" "field (base_config b declared_settings) \<noteq> z"
  shows "field c \<noteq> z"
  using from_layers_reads [OF assms(1,2) refl] assms(3,4) by (force simp: reads_def split: option.splits)


subsection \<open>A server to run\<close>

text \<open>The two realms of the demonstration, and a server that pseudonymises with a key of 32 bytes in a file.\<close>

definition pseudonymous_config :: Config where
  "pseudonymous_config = demo_config\<lparr> audit_pseudonym_enabled := True, audit_pseudonym_key_ref := Some ''k'',
     audit_pseudonym_key_version := ''v1'', secrets_provider := DirectoryProvider, audit_destination := ToTracing \<rparr>"

definition demo_build :: build_env where
  "demo_build = \<lparr> state_fault = (\<lambda>_. False), left_behind = (\<lambda>_ _. None), state_hmac = (\<lambda>key _. key),
     file_mode = (\<lambda>_. None), file_read = (\<lambda>_. Inr (replicate 32 7)), is_file = (\<lambda>_. True), process_env = Map.empty,
     to_uppercase = map ascii_upper, prepare_fault = (\<lambda>_. False), package_version = ''1'' \<rparr>"

definition demo_app :: App where
  "demo_app = composed demo_build (\<lambda>_. Inr ())"

definition demo_policy :: HmacPseudonymizer where
  "demo_policy = \<lparr> pseudonym_key = replicate 32 7, key_version = ''v1'' \<rparr>"

lemma pseudonymous_valid: "config_validate (\<lambda>_. True) pseudonymous_config = Inr ()"
proof -
  have "validate_realms pseudonymous_config = Inr ()"
    by (rule validate_realms_demo) (simp add: pseudonymous_config_def)
  moreover have "trim ''127.0.0.1:8080'' = ''127.0.0.1:8080''" "trim ''v1'' = ''v1''" by (rule trim_graphic; simp)+
  ultimately show ?thesis
    by (simp add: config_validate_def demo_config_fields declared_addresses_def validate_tls_def validate_development_def
        validate_admin_access_def validate_key_lifecycle_def validate_pseudonyms_def is_blank_text_def pseudonymous_config_def)
qed

lemma demo_collaborators:
  "\<exists>store. collaborators demo_build demo_app pseudonymous_config = Inr (Some store, Some demo_policy)"
  using pseudonymous_valid
  by (simp add: collaborators_def demo_app_def composed_simps demo_build_def secrets_for_def secret_store_for_def
      pseudonymizer_for_def pseudonymous_config_def directory_resolve_def secret_path_of_def check_permissions_def
      trim_trailing_newline_def MINIMUM_KEY_LENGTH_def demo_policy_def Let_def starts_with_def)

lemma demo_realm_built:
  assumes "r \<in> set (config_realms demo_config)"
  shows "\<exists>realm. build_realm demo_build c r = Inr realm \<and> pseudonymizer realm = None
    \<and> operations_keys realm = realm_operations_ring c r"
proof -
  have "rc_audit_destination r = ToTracing"
    using assms by (auto simp: demo_config_def resolving demo_input_def demo_server_def default_config_def demo_bools)
  with demo_realm [OF assms] show ?thesis
    by (simp add: build_realm_def realm_token_ring_def realm_sink_def realm_policy_def with_trusted_attesters_def
        with_exchange_profiles_def with_token_signing_algorithm_def with_key_cache_stale_for_def
        with_token_initial_expiry_policy_def with_token_lifetime_def new_realm_def Let_def)
qed

lemma check_realms_none: "\<forall>r \<in> set rs. pseudonymizer r = None \<Longrightarrow> check_realms env c rs files = (Inr (), files)"
  by (induction rs) (simp_all add: check_realm_def check_at_def)

lemma check_at_succeeds:
  assumes "\<And>f. \<not> state_fault env f" "recalls files path (key_version p) \<in> {None, Some (pseudonymize (state_hmac env) p WITNESS_INPUT)}"
  shows "fst (check_at env path (Some p) files) = Inr ()"
  using assms by (auto simp: check_at_def witness_read_def witness_append_def recalls_def recorded_in_def Let_def find_map_of
      split: option.splits bind_splits)

lemma demo_assembled:
  obtains asm where "assemble demo_build demo_app pseudonymous_config policy secrets = Inr asm" "asm_pseudonymizer asm = policy"
    "\<forall>realm \<in> set (all_realms (asm_realms asm)). pseudonymizer realm = None"
proof -
  obtain a b where ab: "config_realms demo_config = [a, b]" "rc_name a = ''acme''" "rc_name b = ''beta''" using demo_config(2) by auto
  then obtain ra rb where built: "build_realm demo_build pseudonymous_config a = Inr ra" "build_realm demo_build pseudonymous_config b = Inr rb"
    "pseudonymizer ra = None" "pseudonymizer rb = None"
    using demo_realm_built [of a pseudonymous_config] demo_realm_built [of b pseudonymous_config] by auto
  have "realms_for demo_app pseudonymous_config = Inr (new_realms [ra, rb])"
    by (simp add: realms_for_def demo_app_def pseudonymous_config_def ab built [unfolded pseudonymous_config_def])
  moreover have "keys_for demo_app pseudonymous_config = Inr None"
    by (simp add: keys_for_def pseudonymous_config_def demo_config_fields)
  moreover have "\<exists>sink. audit_for demo_app pseudonymous_config None = Inr sink"
    by (simp add: audit_for_def demo_app_def audit_sink_for_def pseudonymous_config_def)
  ultimately obtain asm where asm: "assemble demo_build demo_app pseudonymous_config policy secrets = Inr asm"
    "asm_pseudonymizer asm = policy" "asm_realms asm = new_realms [ra, rb]" by (auto simp: assemble_def)
  have "distinct (map realm_name [ra, rb])" using build_realm_Inr(1) [OF built(1)] build_realm_Inr(1) [OF built(2)] ab by simp
  from set_all_realms [OF this] built(3,4) that [OF asm(1,2)] asm(3) show thesis by simp
qed

lemma demo_serves:
  assumes "recalls files (witness_path pseudonymous_config) ''v1'' \<in> {None, Some (token_of demo_build demo_policy)}"
  obtains asm files' where "serve demo_build demo_app pseudonymous_config files = (Inr asm, files')"
    "asm_pseudonymizer asm = Some demo_policy"
proof -
  obtain store where store: "collaborators demo_build demo_app pseudonymous_config = Inr (Some store, Some demo_policy)"
    using demo_collaborators by blast
  obtain asm where asm: "assemble demo_build demo_app pseudonymous_config (Some demo_policy) (Some store) = Inr asm"
    "asm_pseudonymizer asm = Some demo_policy" "\<forall>realm \<in> set (all_realms (asm_realms asm)). pseudonymizer realm = None"
    by (rule demo_assembled)
  have "fst (witness_check (state_env.truncate demo_build) pseudonymous_config (Some demo_policy) files) = Inr ()"
    unfolding witness_check_def using assms by (intro check_at_succeeds) (simp_all add: demo_build_def demo_policy_def)
  then obtain files1 where "witness_check (state_env.truncate demo_build) pseudonymous_config (Some demo_policy) files = (Inr (), files1)"
    by (metis prod.collapse)
  with store asm(1) check_realms_none [OF asm(3)] have "serve demo_build demo_app pseudonymous_config files = (Inr asm, files1)"
    by (simp add: serve_def)
  then show thesis using asm(2) that by blast
qed

lemma demo_first_start:
  obtains asm files' where "serve demo_build demo_app pseudonymous_config Map.empty = (Inr asm, files')"
    "asm_pseudonymizer asm = Some demo_policy"
  by (rule demo_serves [of Map.empty]) (simp add: recalls_def)

theorem served_realms_are_apart_witness:
  "\<exists>asm files' acme beta. serve demo_build demo_app pseudonymous_config Map.empty = (Inr asm, files')
     \<and> by_name (asm_realms asm) ''acme'' = Some acme \<and> by_name (asm_realms asm) ''beta'' = Some beta
     \<and> (\<forall>d \<in> realm_places beta. \<not> starts_with (realm_home pseudonymous_config ''acme'') d) \<and> realm_places beta \<noteq> {}"
proof -
  obtain asm files' where run: "serve demo_build demo_app pseudonymous_config Map.empty = (Inr asm, files')" by (rule demo_first_start)
  note apart = served_realms_are_apart [OF run [unfolded demo_app_def]]
  have same: "config_realms pseudonymous_config = config_realms demo_config" by (simp add: pseudonymous_config_def)
  obtain a b where ab: "config_realms pseudonymous_config = [a, b]" "rc_name a = ''acme''" "rc_name b = ''beta''"
    using demo_config(2) same by auto
  from apart have "\<forall>r \<in> set (config_realms pseudonymous_config). by_name (asm_realms asm) (rc_name r) \<noteq> None" by blast
  with ab obtain acme beta where found: "by_name (asm_realms asm) ''acme'' = Some acme" "by_name (asm_realms asm) ''beta'' = Some beta"
    by auto
  from served_by_name [OF run [unfolded demo_app_def]] found(2)
  obtain r where r: "r \<in> set (config_realms demo_config)" "build_realm demo_build pseudonymous_config r = Inr beta"
    unfolding same by blast
  from build_realm_Inr(4) [OF this(2)] demo_realm(3) [OF this(1)] have "realm_places beta \<noteq> {}"
    by (simp add: realm_places_def realm_operations_ring_def)
  moreover have "\<forall>d \<in> realm_places beta. \<not> starts_with (realm_home pseudonymous_config ''acme'') d"
    using apart found by auto
  ultimately show ?thesis using run found by blast
qed


definition realm_manager :: DirectoryKeyManager where
  "realm_manager = \<lparr> mgr_policy = \<lparr> publish_ahead = 3600, rotate_every = 2592000, retain = 31536000, verify_retain = 7776000 \<rparr>,
     mgr_algorithm = Ed25519 \<rparr>"

lemma demo_ring_maintained:
  obtains rep st' where "maintain demo_env realm_manager 10000 demo_store = Some (Inr rep, st')"
    "demo_entry ''c'' Active 190 (Some 10000) None \<in> set (ring_of st')"
proof -
  have "map_option (\<lambda>(r, st). (is_ok r, demo_entry ''c'' Active 190 (Some 10000) None \<in> set (ring_of st)))
      (maintain demo_env realm_manager 10000 demo_store) = Some (True, True)" by code_simp
  then show thesis using that by (fastforce simp: is_ok_def split: sum.splits)
qed


definition administered_config :: Config where
  "administered_config = demo_config\<lparr> admin_addr := Some ''0.0.0.0:9000'', admin_allow := [CommonName ''operator''],
     admin_tls_setting := Some ((new_tls_settings ''cert'' ''key'')\<lparr> tls_client_ca := Some ''ca'' \<rparr>) \<rparr>"

lemma administered_valid: "config_validate (\<lambda>_. True) administered_config = Inr ()"
proof -
  have "validate_realms administered_config = Inr ()"
    by (rule validate_realms_demo) (simp add: administered_config_def)
  moreover have "trim ''127.0.0.1:8080'' = ''127.0.0.1:8080''" "trim ''0.0.0.0:9000'' = ''0.0.0.0:9000''" by (rule trim_graphic; simp)+
  ultimately show ?thesis
    by (simp add: config_validate_def demo_config_fields declared_addresses_def validate_tls_def validate_development_def
        validate_admin_access_def validate_key_lifecycle_def validate_pseudonyms_def is_blank_text_def administered_config_def
        validate_in_def tls_files_def new_tls_settings_def is_mutual_def)
qed

theorem only_named_peers_administer_witness:
  "serving administered_config None (admin_tls administered_config) (Some operator) ''/m'' counted_work (new_trail, 0)
     = (grpc_status ''0'' [], new_trail, 1)
   \<and> (\<exists>entry \<in> set (admin_allow administered_config). peer_matches entry operator)"
proof -
  have run: "serving administered_config None (admin_tls administered_config) (Some operator) ''/m'' counted_work (new_trail, 0)
      = (grpc_status ''0'' [], new_trail, 1)"
    by (simp add: serving_def admin_tls_def resolved_tls_def administered_config_def new_tls_settings_def is_mutual_def
        resolved_in_def with_reload_def without_reload_def authorize_def new_authorization_def permits_def is_allowed_by_def
        operator_def record_decision_def counted_work_def Let_def)
  have "trim ''0.0.0.0'' = ''0.0.0.0''" by (rule trim_graphic) simp
  then have remote: "admin_addr administered_config = Some ''0.0.0.0:9000''" "\<not> is_loopback ''0.0.0.0:9000''"
    by (simp_all add: administered_config_def is_loopback_def rsplit_once_def starts_with_def drop_end_while_def)
  have "\<not> development_mode administered_config" by (simp add: administered_config_def demo_config_fields)
  from only_named_peers_administer [OF administered_valid this remote run] run show ?thesis by auto
qed


end
