(* ===== verification/Profiles.thy ===== *)
theory Profiles
  imports Validation SourceToken "HOL-Library.Multiset"
begin

text \<open>
  What the checks of \<open>validate\<close> buy for the exchange: the profiles of a configuration that was accepted
  leave no choice open that the mapping of \<open>SourceToken\<close> would have to settle by the order of a file.
\<close>

section \<open>Lemmas\<close>

definition reordered :: "PrivilegeRule list \<Rightarrow> ExchangeProfileConfig \<Rightarrow> ExchangeProfileConfig" where
  "reordered rules p = p\<lparr> profile_privileges := (profile_privileges p)\<lparr> privileges_rules := rules \<rparr> \<rparr>"

lemma reordered_simps [simp]:
  "privileges_rules (profile_privileges (reordered rules p)) = rules" "profile_id (reordered rules p) = profile_id p"
  "on_unmatched_scope (reordered rules p) = on_unmatched_scope p"
  by (simp_all add: reordered_def)

definition compiled_rule :: "'e mapping_env_scheme \<Rightarrow> PrivilegeRule \<Rightarrow> PrivilegeRule \<times> regex" where
  "compiled_rule env rule = (rule, projr (regex_new env (rule_pattern rule)))"

lemma compile_rules_sorted:
  "compile_rules env p = Inr compiled \<longleftrightarrow>
   (\<forall>rule \<in> set (privileges_rules (profile_privileges p)). is_ok (regex_new env (rule_pattern rule)))
   \<and> compiled = sort_key (\<lambda>(rule, _). - rule_priority rule) (map (compiled_rule env) (privileges_rules (profile_privileges p)))"
proof -
  have "list_all2 (\<lambda>rule y. \<exists>pattern. regex_new env (rule_pattern rule) = Inr pattern \<and> (rule, pattern) = y) rs ys \<longleftrightarrow>
      (\<forall>rule \<in> set rs. is_ok (regex_new env (rule_pattern rule))) \<and> ys = map (compiled_rule env) rs" for rs ys
    by (induction rs arbitrary: ys) (auto simp: list_all2_Cons1 compiled_rule_def is_ok_def split: sum.splits)
  then show ?thesis by (auto simp: compile_rules_def result_iffs)
qed

lemma compile_rules_reordered:
  assumes "mset rules = mset (privileges_rules (profile_privileges p))"
    and "distinct (map rule_priority (privileges_rules (profile_privileges p)))"
  shows "compile_rules env (reordered rules p) = Inr compiled \<longleftrightarrow> compile_rules env p = Inr compiled"
proof -
  let ?old = "privileges_rules (profile_privileges p)" and ?key = "\<lambda>(rule, _ :: regex). - rule_priority rule"
  have "inj_on ?key (set (map (compiled_rule env) rules))"
    using assms(2) mset_eq_setD [OF assms(1)] by (auto simp: inj_on_def compiled_rule_def distinct_map)
  then have "sort_key ?key (map (compiled_rule env) rules) = sort_key ?key (map (compiled_rule env) ?old)"
    using assms(1) by (intro sort_key_inj_key_eq) simp_all
  then show ?thesis using mset_eq_setD [OF assms(1)] by (simp add: compile_rules_sorted)
qed

lemma map_each_scope_reordered: "map_each_scope env (reordered rules p) compiled scopes acc = map_each_scope env p compiled scopes acc"
  by (induction scopes arbitrary: acc) (simp_all split: option.split prod.split)

section \<open>Properties\<close>

text \<open>
  C18: the profiles of an accepted configuration are strict and unambiguous. An access token passes a profile
  only while the clock reads a time before its \<open>exp\<close> and with the \<open>typ\<close> that the profile names; and the
  authority derived from its scopes does not depend on the order in which the rules were written.
\<close>

theorem accepted_profiles_are_unambiguous:
  assumes "config_validate there c = Inr u" "r \<in> set (config_realms c)" "p \<in> set (rc_exchange_profiles r)"
  shows "(validate_source_jwt env idp_keys clock jwt p = Inr () \<longrightarrow>
           (\<exists>now exp typ. clock = Some now \<and> claim_i64 jwt ''exp'' = Some exp \<and> now < exp
              \<and> require_token_type (source_validation (profile_source p)) = Some typ \<and> header_string jwt ''typ'' = Some typ))
    \<and> (mset rules = mset (privileges_rules (profile_privileges p)) \<longrightarrow>
         (map_invariants env (reordered rules p) scopes = Inr invariants \<longleftrightarrow> map_invariants env p scopes = Inr invariants))"
proof (intro conjI impI)
  obtain seen where valid: "validate_profile (rc_name r) seen p = Inr ()" using validated_profile [OF assms] .
  { assume "validate_source_jwt env idp_keys clock jwt p = Inr ()"
    with validate_profile_Inr(1,2) [OF valid] show "\<exists>now exp typ. clock = Some now \<and> claim_i64 jwt ''exp'' = Some exp \<and> now < exp
        \<and> require_token_type (source_validation (profile_source p)) = Some typ \<and> header_string jwt ''typ'' = Some typ"
      by (auto simp: validate_source_jwt_def Let_def result_iffs unix_now_def)
  }
  assume "mset rules = mset (privileges_rules (profile_privileges p))"
  from compile_rules_reordered [OF this validate_profile_Inr(4) [OF valid]]
  show "map_invariants env (reordered rules p) scopes = Inr invariants \<longleftrightarrow> map_invariants env p scopes = Inr invariants"
    by (auto simp: map_invariants_def result_iffs map_each_scope_reordered)
qed

subsection \<open>Witnesses\<close>

definition strict_profile :: ExchangeProfileConfig where
  "strict_profile = corporate_profile\<lparr> profile_source := demo_source\<lparr> source_validation :=
     \<lparr> allowed_algorithms = [''EdDSA''], require_expiration = True, require_token_type = Some ''at+jwt'' \<rparr> \<rparr> \<rparr>"

definition typed_jwt :: DecodedJwt where
  "typed_jwt = demo_jwt\<lparr> jwt_header := JObject [(''alg'', JString ''EdDSA''), (''kid'', JString ''k1''), (''typ'', JString ''at+jwt'')] \<rparr>"

definition exchanging_realm :: RealmConfig where
  "exchanging_realm = (hd (config_realms demo_config))\<lparr> rc_exchange_profiles := [strict_profile] \<rparr>"

definition exchanging_config :: Config where
  "exchanging_config = demo_config\<lparr> config_realms := [exchanging_realm] \<rparr>"

lemma demo_texts:
  "trim ''corporate'' = ''corporate''" "trim ''https://idp'' = ''https://idp''" "trim ''pic-x'' = ''pic-x''"
  "trim ''at+jwt'' = ''at+jwt''" "trim ''any'' = ''any''" "trim ''read'' = ''read''" "trim ''use'' = ''use''"
  "trim ''doc'' = ''doc''" "trim ''${raw}'' = ''${raw}''" "trim ''${id}'' = ''${id}''"
  by (rule trim_graphic; simp)+

lemma strict_profile_valid: "validate_profile realm {} strict_profile = Inr ()"
  by (simp add: validate_profile_def validate_source_def validate_mapping_def strict_profile_def corporate_profile_def
      demo_profile_def demo_source_def demo_mapping_def demo_emit_def blank_emit_def is_blank_text_def demo_texts
      EXCHANGE_SOURCE_OAUTH_ACCESS_TOKEN_def EXCHANGE_SOURCE_FORMAT_JWT_def EXCHANGE_ON_UNMATCHED_SCOPE_REJECT_def)

lemma exchanging_realm_valid: "validate_realm c {} exchanging_realm = Inr ()"
proof -
  let ?r = "hd (config_realms demo_config)"
  have "?r \<in> set (config_realms demo_config)" using demo_config(2) by (cases "config_realms demo_config") auto
  from demo_realm [OF this] show ?thesis
    by (simp add: exchanging_realm_def validate_realm_def check_key_lifecycle_def validate_exchange_profiles_def
        strict_profile_valid validate_trusted_attesters_def DEFAULT_KEYS_PUBLISH_AHEAD_def DEFAULT_KEYS_ROTATE_EVERY_def
        DEFAULT_KEYS_RETAIN_def KEY_SET_MAX_AGE_def)
qed

lemma exchanging_valid: "config_validate (\<lambda>_. True) exchanging_config = Inr ()"
proof -
  have "validate_realms exchanging_config = Inr ()"
    by (simp add: validate_realms_def exchanging_config_def exchanging_realm_valid)
  moreover have "trim ''127.0.0.1:8080'' = ''127.0.0.1:8080''" by (rule trim_graphic) simp
  ultimately show ?thesis
    by (simp add: config_validate_def exchanging_config_def demo_config_fields declared_addresses_def validate_tls_def
        validate_development_def validate_admin_access_def validate_key_lifecycle_def validate_pseudonyms_def is_blank_text_def)
qed

lemma typed_jwt_validated:
  "validate_source_jwt demo_mapping_env (\<lambda>_. Inr [demo_key]) (Some 1500) typed_jwt strict_profile = Inr ()"
  by (simp add: validate_source_jwt_def verify_source_signature_def source_key_verifies_def kid_selects_def demo_key_def
      get_str_def typed_jwt_def demo_jwt_simps verification_key_from_jwk_def demo_mapping_env_def demo_verifier_def
      strict_profile_def corporate_profile_def demo_profile_def demo_source_def unix_now_def)

theorem accepted_profiles_are_unambiguous_witness:
  "header_string typed_jwt ''typ'' = Some ''at+jwt''
   \<and> map_invariants demo_mapping_env (reordered (rev (privileges_rules (profile_privileges strict_profile))) strict_profile) [''read'']
       = Inr [demo_invariant]"
proof -
  have member: "exchanging_realm \<in> set (config_realms exchanging_config)" "strict_profile \<in> set (rc_exchange_profiles exchanging_realm)"
    by (simp_all add: exchanging_config_def exchanging_realm_def)
  have maps: "map_invariants demo_mapping_env strict_profile [''read''] = Inr [demo_invariant]"
    by (simp add: map_invariants_def compile_rules_def strict_profile_def corporate_profile_def demo_mapping_env_def demo_emits)
  have "require_token_type (source_validation (profile_source strict_profile)) = Some ''at+jwt''" by (simp add: strict_profile_def)
  then show ?thesis
    using accepted_profiles_are_unambiguous [OF exchanging_valid member, of demo_mapping_env "\<lambda>_. Inr [demo_key]" "Some 1500" typed_jwt
        "rev (privileges_rules (profile_privileges strict_profile))" "[''read'']" "[demo_invariant]"] typed_jwt_validated maps
    by auto
qed

end
