(* ===== verification/ConfigFile.thy ===== *)
theory ConfigFile
  imports Deployment
begin

text \<open>
  \<open>crates/pic-x-core/src/config_file.rs\<close> and the reading half of \<open>crates/pic-x-server/src/app.rs\<close>: the typed
  sections of a configuration file, the directory of realm files it may name, the settings and the realms
  it states, and the configuration an invocation runs on. Parsing YAML into the sections is a library and
  an argument, as are the files; what a section nobody here parses holds is a type parameter.
\<close>

section \<open>Definitions\<close>

subsection \<open>Sections of a realm\<close>

record ClaimMappingSection =
  ms_from :: "string option"
  ms_value :: "string option"
  ms_value_type :: "string option"
  ms_encoding :: "string option"

record PrivilegeEmitSection =
  es_scope :: string
  es_operation :: string
  es_resource_type :: string
  es_resource_id :: string

record PrivilegeRuleSection =
  rs_name :: string
  rs_priority :: int
  rs_pattern :: string
  rs_emit :: PrivilegeEmitSection

record ExchangeProfilePrivilegesSection =
  ps_source :: string
  ps_rules :: "PrivilegeRuleSection list"

record ExchangeProfileClaimsSection =
  cs_identity_context :: "(string, ClaimMappingSection) btree"
  cs_scopes :: ClaimMappingSection

record ExchangeTokenValidationSection =
  vs_allowed_algorithms :: "string list"
  vs_require_expiration :: "bool option"
  vs_require_token_type :: "string option"

record ExchangeProfileSourceSection =
  ss_token_type :: string
  ss_format :: string
  ss_issuer :: string
  ss_discovery_url :: "string option"
  ss_audience :: string
  ss_validation :: ExchangeTokenValidationSection

record ExchangeProfileSection =
  xs_id :: string
  xs_source :: ExchangeProfileSourceSection
  xs_claims :: ExchangeProfileClaimsSection
  xs_privileges :: ExchangeProfilePrivilegesSection
  xs_on_unmatched_scope :: "string option"

record TrustedAttesterSection =
  as_id :: string
  as_issuer :: string
  as_jwks_uri :: string
  as_proof_types :: "string list"
  as_formats :: "string list"

record RealmKeysSection =
  rk_enabled :: "string option"
  rk_publish_ahead :: "string option"
  rk_rotate_every :: "string option"
  rk_retain :: "string option"

record RealmPseudonymSection =
  rp_enabled :: "string option"
  rp_key_ref :: "string option"
  rp_key_version :: "string option"

record RealmAuditSection =
  ra_sink :: "string option"
  ra_retention :: "string option"
  ra_pseudonym :: RealmPseudonymSection

record RealmSecretsSection =
  rx_provider :: "string option"
  rx_env_prefix :: "string option"

record RealmOperationsSection =
  ro_keys :: RealmKeysSection
  ro_audit :: RealmAuditSection
  ro_secrets :: RealmSecretsSection

record RealmSection =
  rm_name :: string
  rm_token_lifetime :: "string option"
  rm_token_initial_expiry_policy :: "string option"
  rm_key_cache_stale_for :: "string option"
  rm_token_signing_algorithm :: "string option"
  rm_issuer :: "string option"
  rm_listed :: "string option"
  rm_keys :: RealmKeysSection
  rm_operations :: RealmOperationsSection
  rm_exchange_profiles :: "ExchangeProfileSection list"
  rm_attesters :: "TrustedAttesterSection list"

subsection \<open>Sections of the server\<close>

record TlsSection =
  ts_cert :: "string option"
  ts_allow :: "string list option"
  ts_key :: "string option"
  ts_client_ca :: "string option"
  ts_crl :: "string option"
  ts_min_version :: "string option"

record PublicSection =
  pub_http :: "string option"
  pub_disclose_build :: "string option"
  pub_url :: "string option"
  pub_path_prefix :: "string option"
  pub_tls :: TlsSection

record TransportSection =
  tr_reload :: "string option"
  tr_reload_interval :: "string option"

record LimitsSection =
  ls_connections :: "string option"
  ls_connections_per_peer :: "string option"
  ls_peer_exempt :: "string list option"
  ls_connection_lifetime :: "string option"
  ls_write_stall_timeout :: "string option"
  ls_concurrent_requests :: "string option"
  ls_request_timeout :: "string option"
  ls_handshake_timeout :: "string option"
  ls_header_timeout :: "string option"
  ls_body_bytes :: "string option"
  ls_header_bytes :: "string option"

record KeysSection =
  kx_enabled :: "string option"
  kx_directory :: "string option"
  kx_publish_ahead :: "string option"
  kx_rotate_every :: "string option"
  kx_retain :: "string option"
  kx_maintenance_interval :: "string option"

record PseudonymSection =
  px_enabled :: "string option"
  px_key_ref :: "string option"
  px_key_version :: "string option"

record AuditSection =
  ax_sink :: "string option"
  ax_directory :: "string option"
  ax_retention :: "string option"
  ax_pseudonym :: PseudonymSection

record SecretsSection =
  sx_provider :: "string option"
  sx_directory :: "string option"
  sx_env_prefix :: "string option"

record OperationsSection =
  ox_keys :: KeysSection
  ox_audit :: AuditSection
  ox_secrets :: SecretsSection

record TelemetryTlsSection =
  tt_cert :: "string option"
  tt_key :: "string option"
  tt_min_version :: "string option"

record TelemetrySection =
  tel_addr :: "string option"
  tel_tls :: TelemetryTlsSection

record AdminSection =
  adm_addr :: "string option"
  adm_tls :: TlsSection
  adm_allow :: "string list"

record LogSection =
  lg_level :: "string option"
  lg_format :: "string option"

record ShutdownSection =
  sd_timeout :: "string option"

record 'v ConfigFile =
  cf_working_dir :: "string option"
  cf_autogenerate :: "string option"
  cf_development_mode :: "string option"
  cf_public :: PublicSection
  cf_telemetry :: TelemetrySection
  cf_admin :: AdminSection
  cf_tls :: TransportSection
  cf_limits :: LimitsSection
  cf_log :: LogSection
  cf_shutdown :: ShutdownSection
  cf_operations :: OperationsSection
  cf_realms :: "RealmSection list"
  cf_realms_from :: "string option"
  cf_sections :: "(string, 'v) btree"

definition KNOWN_SECTIONS :: "string list" where
  "KNOWN_SECTIONS = [''public'', ''telemetry'', ''admin'', ''tls'', ''limits'', ''log'', ''shutdown'', ''operations'']"

subsection \<open>Paths\<close>

text \<open>
  \<open>Path::parent\<close> on its text: a path is a root or a leading \<open>.\<close> and its pieces, of which empty ones and
  \<open>.\<close> at the end say nothing. The name of a directory entry is one piece, and it has an extension when it has
  a dot after its first character.
\<close>

fun join_with :: "string \<Rightarrow> string list \<Rightarrow> string" where
  "join_with sep [] = []"
| "join_with sep [w] = w"
| "join_with sep (w # v # ws) = w @ sep @ join_with sep (v # ws)"

definition silent_piece :: "string \<Rightarrow> bool" where
  "silent_piece w \<longleftrightarrow> w = [] \<or> w = ''.''"

definition path_head :: "string \<Rightarrow> string" where
  "path_head p = (if starts_with ''/'' p then ''/'' else if p = ''.'' \<or> starts_with ''./'' p then ''.'' else [])"

definition path_parent :: "string \<Rightarrow> string option" where
  "path_parent p =
     (let head = path_head p;
          pieces = drop_end_while silent_piece (split_on (CHR ''/'') (drop (length head) p)) in
      if pieces = [] then (if head = ''.'' then Some [] else None)
      else Some (head @ join_with ''/'' (drop_end_while silent_piece (butlast pieces))))"

definition name_extension :: "string \<Rightarrow> string option" where
  "name_extension name = (case rsplit_once (CHR ''.'') name of Some (_ # _, ext) \<Rightarrow> Some ext | _ \<Rightarrow> None)"

definition name_stem :: "string \<Rightarrow> string" where
  "name_stem name = (case rsplit_once (CHR ''.'') name of Some (c # cs, _) \<Rightarrow> c # cs | _ \<Rightarrow> name)"

subsection \<open>Reading the file\<close>

text \<open>
  The file system and the YAML library: what a file holds, what a directory lists in the order the system
  lists it (an entry that cannot be read is \<open>None\<close>), and what a text parses to.
\<close>

record 'v file_env =
  read_to_string :: "string \<Rightarrow> string option"
  read_dir :: "string \<Rightarrow> string option list option"
  names_file :: "string \<Rightarrow> bool"
  to_string_lossy :: "string \<Rightarrow> string"
  parse_file :: "string \<Rightarrow> 'v ConfigFile option"
  parse_realm :: "string \<Rightarrow> RealmSection option"

datatype file_error =
    FileUnread string
  | FileUnparsed string
  | RealmsDirectoryUnread string
  | NotARealmFile string string
  | RealmFileUnread string
  | RealmFileUnparsed string
  | RealmNamedOtherwise string string
  | RealmDeclaredAgain string string
  | AdminTlsAllowNotRead
  | UnknownSections "string list"

definition is_realm_file :: "'v file_env \<Rightarrow> string \<Rightarrow> string \<Rightarrow> bool" where
  "is_realm_file env directory name \<longleftrightarrow>
     names_file env (resolve_path directory name) \<and> name_extension name \<in> {Some ''yml'', Some ''yaml''}"

fun realm_files :: "'v file_env \<Rightarrow> string \<Rightarrow> string option list \<Rightarrow> file_error + string list" where
  "realm_files env directory [] = Inr []"
| "realm_files env directory (None # entries) = Inl (RealmsDirectoryUnread directory)"
| "realm_files env directory (Some name # entries) =
     (if starts_with ''.'' (to_string_lossy env name) then realm_files env directory entries
      else if \<not> is_realm_file env directory name then Inl (NotARealmFile directory (to_string_lossy env name))
      else and_then (realm_files env directory entries) (\<lambda>files. Inr (name # files)))"

fun append_realms ::
    "'v file_env \<Rightarrow> string \<Rightarrow> string list \<Rightarrow> RealmSection list \<Rightarrow> file_error + RealmSection list" where
  "append_realms env directory [] realms = Inr realms"
| "append_realms env directory (name # names) realms =
     (let path = resolve_path directory name in
      and_then (ok_or (RealmFileUnread path) (read_to_string env path)) (\<lambda>text.
      and_then (ok_or (RealmFileUnparsed path) (parse_realm env text)) (\<lambda>realm.
      if rm_name realm \<noteq> to_string_lossy env (name_stem name) then Inl (RealmNamedOtherwise path (rm_name realm))
      else if rm_name realm \<in> rm_name ` set realms then Inl (RealmDeclaredAgain path (rm_name realm))
      else append_realms env directory names (realms @ [realm]))))"

definition realms_directory :: "string \<Rightarrow> string \<Rightarrow> string" where
  "realms_directory config_path named =
     (case path_parent config_path of
        Some parent \<Rightarrow> if parent \<noteq> [] then resolve_path parent named else named
      | None \<Rightarrow> named)"

definition gather_realms_from :: "'v file_env \<Rightarrow> string \<Rightarrow> 'v ConfigFile \<Rightarrow> file_error + 'v ConfigFile" where
  "gather_realms_from env config_path file =
     (case cf_realms_from file of
        None \<Rightarrow> Inr file
      | Some named \<Rightarrow>
          (let directory = realms_directory config_path named in
           and_then (ok_or (RealmsDirectoryUnread directory) (read_dir env directory)) (\<lambda>entries.
           and_then (realm_files env directory entries) (\<lambda>files.
           and_then (append_realms env directory (sort files) (cf_realms file)) (\<lambda>realms.
           if (case ts_allow (adm_tls (cf_admin file)) of Some list \<Rightarrow> list \<noteq> [] | None \<Rightarrow> False)
           then Inl AdminTlsAllowNotRead
           else Inr (file\<lparr> cf_realms := realms \<rparr>))))))"

definition file_load :: "'v file_env \<Rightarrow> string \<Rightarrow> file_error + 'v ConfigFile" where
  "file_load env path =
     and_then (ok_or (FileUnread path) (read_to_string env path)) (\<lambda>text.
     and_then (ok_or (FileUnparsed path) (parse_file env text)) (\<lambda>file.
     gather_realms_from env path file))"

definition reject_unknown_sections :: "string list \<Rightarrow> 'v ConfigFile \<Rightarrow> file_error + unit" where
  "reject_unknown_sections claimed file =
     (let unknown = filter (\<lambda>name. name \<notin> set claimed) (map fst (cf_sections file)) in
      if unknown = [] then Inr () else Inl (UnknownSections unknown))"

definition file_section :: "'v ConfigFile \<Rightarrow> string \<Rightarrow> 'v option" where
  "file_section file name = bt_get name (cf_sections file)"

subsection \<open>What the file states\<close>

text \<open>A list is one setting, and an empty list states nothing.\<close>

definition admin_list :: "'v ConfigFile \<Rightarrow> string option" where
  "admin_list file = (let allow = adm_allow (cf_admin file) in if allow \<noteq> [] then Some (join_with [newline] allow) else None)"

definition stated_list :: "string \<Rightarrow> string list option \<Rightarrow> string option" where
  "stated_list sep entries =
     (case entries of Some entries \<Rightarrow> if entries \<noteq> [] then Some (join_with sep entries) else None | None \<Rightarrow> None)"

definition public_list :: "'v ConfigFile \<Rightarrow> string option" where
  "public_list file = stated_list [newline] (ts_allow (pub_tls (cf_public file)))"

definition exempt_list :: "'v ConfigFile \<Rightarrow> string option" where
  "exempt_list file = stated_list '','' (ls_peer_exempt (cf_limits file))"

definition file_candidates :: "'v ConfigFile \<Rightarrow> (string \<times> string option) list" where
  "file_candidates file =
     [(SETTING_WORKING_DIR, cf_working_dir file),
      (SETTING_AUTOGENERATE, cf_autogenerate file),
      (SETTING_DEVELOPMENT_MODE, cf_development_mode file),
      (SETTING_ISSUER, pub_url (cf_public file)),
      (SETTING_ADMIN_ALLOW, admin_list file),
      (SETTING_TLS_RELOAD, tr_reload (cf_tls file)),
      (SETTING_TLS_RELOAD_INTERVAL, tr_reload_interval (cf_tls file)),
      (SETTING_LIMITS_CONNECTIONS, ls_connections (cf_limits file)),
      (SETTING_LIMITS_CONNECTIONS_PER_PEER, ls_connections_per_peer (cf_limits file)),
      (SETTING_LIMITS_PEER_EXEMPT, exempt_list file),
      (SETTING_LIMITS_CONNECTION_LIFETIME, ls_connection_lifetime (cf_limits file)),
      (SETTING_LIMITS_WRITE_STALL_TIMEOUT, ls_write_stall_timeout (cf_limits file)),
      (SETTING_LIMITS_CONCURRENT_REQUESTS, ls_concurrent_requests (cf_limits file)),
      (SETTING_LIMITS_REQUEST_TIMEOUT, ls_request_timeout (cf_limits file)),
      (SETTING_LIMITS_HANDSHAKE_TIMEOUT, ls_handshake_timeout (cf_limits file)),
      (SETTING_LIMITS_HEADER_TIMEOUT, ls_header_timeout (cf_limits file)),
      (SETTING_LIMITS_HEADER_BYTES, ls_header_bytes (cf_limits file)),
      (SETTING_LIMITS_BODY_BYTES, ls_body_bytes (cf_limits file)),
      (SETTING_PUBLIC_TLS_CRL, ts_crl (pub_tls (cf_public file))),
      (SETTING_PUBLIC_TLS_ALLOW, public_list file),
      (SETTING_PUBLIC_DISCLOSE_BUILD, pub_disclose_build (cf_public file)),
      (SETTING_ADMIN_TLS_CRL, ts_crl (adm_tls (cf_admin file))),
      (SETTING_AUDIT_SINK, ax_sink (ox_audit (cf_operations file))),
      (SETTING_AUDIT_DIRECTORY, ax_directory (ox_audit (cf_operations file))),
      (SETTING_AUDIT_RETENTION, ax_retention (ox_audit (cf_operations file))),
      (SETTING_KEYS_ENABLED, kx_enabled (ox_keys (cf_operations file))),
      (SETTING_KEYS_DIRECTORY, kx_directory (ox_keys (cf_operations file))),
      (SETTING_KEYS_PUBLISH_AHEAD, kx_publish_ahead (ox_keys (cf_operations file))),
      (SETTING_KEYS_ROTATE_EVERY, kx_rotate_every (ox_keys (cf_operations file))),
      (SETTING_KEYS_RETAIN, kx_retain (ox_keys (cf_operations file))),
      (SETTING_KEYS_MAINTENANCE_INTERVAL, kx_maintenance_interval (ox_keys (cf_operations file))),
      (SETTING_PUBLIC_PATH_PREFIX, pub_path_prefix (cf_public file)),
      (SETTING_PUBLIC_HTTP_ADDR, pub_http (cf_public file)),
      (SETTING_TELEMETRY_ADDR, tel_addr (cf_telemetry file)),
      (SETTING_ADMIN_ADDR, adm_addr (cf_admin file)),
      (SETTING_LOG_LEVEL, lg_level (cf_log file)),
      (SETTING_PUBLIC_TLS_CERT, ts_cert (pub_tls (cf_public file))),
      (SETTING_PUBLIC_TLS_KEY, ts_key (pub_tls (cf_public file))),
      (SETTING_PUBLIC_TLS_CLIENT_CA, ts_client_ca (pub_tls (cf_public file))),
      (SETTING_PUBLIC_TLS_MIN_VERSION, ts_min_version (pub_tls (cf_public file))),
      (SETTING_ADMIN_TLS_CERT, ts_cert (adm_tls (cf_admin file))),
      (SETTING_ADMIN_TLS_KEY, ts_key (adm_tls (cf_admin file))),
      (SETTING_ADMIN_TLS_CLIENT_CA, ts_client_ca (adm_tls (cf_admin file))),
      (SETTING_ADMIN_TLS_MIN_VERSION, ts_min_version (adm_tls (cf_admin file))),
      (SETTING_TELEMETRY_TLS_CERT, tt_cert (tel_tls (cf_telemetry file))),
      (SETTING_TELEMETRY_TLS_KEY, tt_key (tel_tls (cf_telemetry file))),
      (SETTING_TELEMETRY_TLS_MIN_VERSION, tt_min_version (tel_tls (cf_telemetry file))),
      (SETTING_LOG_FORMAT, lg_format (cf_log file)),
      (SETTING_SHUTDOWN_TIMEOUT, sd_timeout (cf_shutdown file)),
      (SETTING_SECRETS_PROVIDER, sx_provider (ox_secrets (cf_operations file))),
      (SETTING_SECRETS_DIRECTORY, sx_directory (ox_secrets (cf_operations file))),
      (SETTING_SECRETS_ENV_PREFIX, sx_env_prefix (ox_secrets (cf_operations file))),
      (SETTING_AUDIT_PSEUDONYM_ENABLED, px_enabled (ax_pseudonym (ox_audit (cf_operations file)))),
      (SETTING_AUDIT_PSEUDONYM_KEY_REF, px_key_ref (ax_pseudonym (ox_audit (cf_operations file)))),
      (SETTING_AUDIT_PSEUDONYM_KEY_VERSION, px_key_version (ax_pseudonym (ox_audit (cf_operations file))))]"

definition file_settings :: "'v ConfigFile \<Rightarrow> pairs" where
  "file_settings file = List.map_filter (\<lambda>(key, v). map_option (\<lambda>v. (key, v)) v) (file_candidates file)"

definition mapping_input :: "ClaimMappingSection \<Rightarrow> ClaimMapping" where
  "mapping_input m = \<lparr> cm_from = ms_from m, cm_value = ms_value m, cm_value_type = ms_value_type m, cm_encoding = ms_encoding m \<rparr>"

definition rule_input :: "PrivilegeRuleSection \<Rightarrow> PrivilegeRule" where
  "rule_input r = \<lparr> rule_name = rs_name r, rule_priority = rs_priority r, rule_pattern = rs_pattern r,
     rule_emit = \<lparr> emit_scope = es_scope (rs_emit r), emit_operation = es_operation (rs_emit r),
       emit_resource_type = es_resource_type (rs_emit r), emit_resource_id = es_resource_id (rs_emit r) \<rparr> \<rparr>"

definition profile_input :: "ExchangeProfileSection \<Rightarrow> ExchangeProfileConfig" where
  "profile_input p = \<lparr>
     profile_id = xs_id p,
     profile_source = \<lparr>
       source_token_type = ss_token_type (xs_source p),
       source_format = ss_format (xs_source p),
       source_issuer = ss_issuer (xs_source p),
       discovery_url = ss_discovery_url (xs_source p),
       source_audience = ss_audience (xs_source p),
       source_validation = \<lparr>
         allowed_algorithms = vs_allowed_algorithms (ss_validation (xs_source p)),
         require_expiration = (case vs_require_expiration (ss_validation (xs_source p)) of Some b \<Rightarrow> b | None \<Rightarrow> False),
         require_token_type = vs_require_token_type (ss_validation (xs_source p)) \<rparr> \<rparr>,
     profile_claims = \<lparr>
       identity_context = map (\<lambda>(key, m). (key, mapping_input m)) (cs_identity_context (xs_claims p)),
       scopes_mapping = mapping_input (cs_scopes (xs_claims p)) \<rparr>,
     profile_privileges = \<lparr>
       privileges_source = ps_source (xs_privileges p),
       privileges_rules = map rule_input (ps_rules (xs_privileges p)) \<rparr>,
     on_unmatched_scope = (case xs_on_unmatched_scope p of Some s \<Rightarrow> s | None \<Rightarrow> ''reject'') \<rparr>"

definition attester_input :: "TrustedAttesterSection \<Rightarrow> TrustedAttesterConfig" where
  "attester_input a = \<lparr> ta_id = as_id a, ta_issuer = as_issuer a, ta_jwks_uri = as_jwks_uri a,
     ta_proof_types = as_proof_types a, ta_formats = as_formats a \<rparr>"

definition realm_input :: "RealmSection \<Rightarrow> RealmInput" where
  "realm_input r = \<lparr>
     in_name = rm_name r,
     in_issuer = rm_issuer r,
     in_listed = rm_listed r,
     in_token_keys_enabled = rk_enabled (rm_keys r),
     in_token_keys_publish_ahead = rk_publish_ahead (rm_keys r),
     in_token_keys_rotate_every = rk_rotate_every (rm_keys r),
     in_token_keys_retain = rk_retain (rm_keys r),
     in_operations_keys_enabled = rk_enabled (ro_keys (rm_operations r)),
     in_operations_keys_publish_ahead = rk_publish_ahead (ro_keys (rm_operations r)),
     in_operations_keys_rotate_every = rk_rotate_every (ro_keys (rm_operations r)),
     in_operations_keys_retain = rk_retain (ro_keys (rm_operations r)),
     in_audit_sink = ra_sink (ro_audit (rm_operations r)),
     in_audit_retention = ra_retention (ro_audit (rm_operations r)),
     in_audit_pseudonym_enabled = rp_enabled (ra_pseudonym (ro_audit (rm_operations r))),
     in_audit_pseudonym_key_ref = rp_key_ref (ra_pseudonym (ro_audit (rm_operations r))),
     in_audit_pseudonym_key_version = rp_key_version (ra_pseudonym (ro_audit (rm_operations r))),
     in_secrets_provider = rx_provider (ro_secrets (rm_operations r)),
     in_secrets_env_prefix = rx_env_prefix (ro_secrets (rm_operations r)),
     in_token_lifetime = rm_token_lifetime r,
     in_token_initial_expiry_policy = rm_token_initial_expiry_policy r,
     in_key_cache_stale_for = rm_key_cache_stale_for r,
     in_token_signing_algorithm = rm_token_signing_algorithm r,
     in_exchange_profiles = map profile_input (rm_exchange_profiles r),
     in_trusted_attesters = map attester_input (rm_attesters r) \<rparr>"

definition file_realms :: "'v ConfigFile \<Rightarrow> RealmInput list" where
  "file_realms file = map realm_input (cf_realms file)"

subsection \<open>The command line\<close>

datatype AuditCommand = Verify string "string option"
datatype KeysCommand = Export string
datatype Command = VersionCommand | AuditCommands AuditCommand | KeysCommands KeysCommand

record ServeArgs =
  sa_config_file :: string
  sa_public_http_addr :: "string option"
  sa_telemetry_addr :: "string option"
  sa_admin_addr :: "string option"
  sa_log_level :: "LogLevel option"
  sa_log_format :: "LogFormat option"

datatype Action = Serve ServeArgs | Named Command

record Cli =
  cli_serve :: "ServeArgs option"
  cli_command :: "Command option"

definition cli_action :: "Cli \<Rightarrow> Action option" where
  "cli_action cli =
     (case (cli_command cli, cli_serve cli) of
        (Some command, _) \<Rightarrow> Some (Named command)
      | (None, Some args) \<Rightarrow> Some (Serve args)
      | (None, None) \<Rightarrow> None)"

definition serve_inputs :: "ServeArgs \<Rightarrow> pairs" where
  "serve_inputs args =
     List.map_filter (\<lambda>(key, v). map_option (\<lambda>v. (key, v)) v)
       [(SETTING_PUBLIC_HTTP_ADDR, sa_public_http_addr args),
        (SETTING_TELEMETRY_ADDR, sa_telemetry_addr args),
        (SETTING_ADMIN_ADDR, sa_admin_addr args)]
     @ List.map_filter (\<lambda>(key, v). map_option (\<lambda>v. (key, v)) v)
       [(SETTING_LOG_LEVEL, map_option log_level_as_str (sa_log_level args)),
        (SETTING_LOG_FORMAT, map_option log_format_as_str (sa_log_format args))]"

fun action_inputs :: "Action \<Rightarrow> pairs" where
  "action_inputs (Serve args) = serve_inputs args"
| "action_inputs (Named _) = []"

subsection \<open>The configuration of an invocation\<close>

text \<open>
  The fields of \<open>App\<close> that reading a configuration uses. A section reader and a section parser are of the
  build that registers them; what a parser makes of its section is kept beside the configuration, by name,
  as \<open>Config::sections\<close> keeps it.
\<close>

record ('v, 's) ComposedApp = App +
  app_build_settings :: BuildSettings
  declared_settings :: "string list"
  claimed_sections :: "string list"
  section_readers :: "(string \<times> ('v \<Rightarrow> pairs option)) list"
  section_parsers :: "(string \<times> ('v \<Rightarrow> 's option)) list"

definition compose_app :: "BuildSettings \<Rightarrow> App \<Rightarrow> ('v, 's) ComposedApp" where
  "compose_app b app = App.extend app \<lparr> app_build_settings = b, declared_settings = [], claimed_sections = [],
     section_readers = [], section_parsers = [] \<rparr>"

text \<open>\<open>None\<close> is the panic of a section that two types claim.\<close>

definition with_config_section :: "string \<Rightarrow> ('v \<Rightarrow> 's option) \<Rightarrow> ('v, 's) ComposedApp \<Rightarrow> ('v, 's) ComposedApp option" where
  "with_config_section name parse app =
     (if name \<in> fst ` set (section_parsers app) then None
      else Some (app\<lparr> claimed_sections := claimed_sections app @ [name],
                      section_parsers := section_parsers app @ [(name, parse)] \<rparr>))"

definition with_declared_settings :: "string list \<Rightarrow> ('v, 's) ComposedApp \<Rightarrow> ('v, 's) ComposedApp" where
  "with_declared_settings keys app = app\<lparr> declared_settings := declared_settings app @ keys \<rparr>"

definition with_claimed_sections :: "string list \<Rightarrow> ('v, 's) ComposedApp \<Rightarrow> ('v, 's) ComposedApp" where
  "with_claimed_sections names app = app\<lparr> claimed_sections := claimed_sections app @ names \<rparr>"

definition with_section_settings :: "string \<Rightarrow> ('v \<Rightarrow> pairs option) \<Rightarrow> ('v, 's) ComposedApp \<Rightarrow> ('v, 's) ComposedApp" where
  "with_section_settings name reader app =
     app\<lparr> claimed_sections := claimed_sections app @ [name], section_readers := section_readers app @ [(name, reader)] \<rparr>"

datatype invocation_error =
    FileRefused file_error
  | SectionUnread string
  | SectionUnparsed string
  | SettingsRefused config_error
  | RealmsRefused realm_error

definition load_for :: "'v file_env \<Rightarrow> ('v, 's) ComposedApp \<Rightarrow> string \<Rightarrow> invocation_error + 'v ConfigFile" where
  "load_for env app config_file =
     map_err FileRefused (and_then (file_load env config_file) (\<lambda>file.
       and_then (reject_unknown_sections (claimed_sections app) file) (\<lambda>_. Inr file)))"

fun read_sections :: "'v ConfigFile \<Rightarrow> (string \<times> ('v \<Rightarrow> pairs option)) list \<Rightarrow> invocation_error + pairs" where
  "read_sections file [] = Inr []"
| "read_sections file ((name, reader) # readers) =
     (case file_section file name of
        None \<Rightarrow> read_sections file readers
      | Some v \<Rightarrow> and_then (ok_or (SectionUnread name) (reader v)) (\<lambda>settings.
                  and_then (read_sections file readers) (\<lambda>more. Inr (settings @ more))))"

definition file_inputs :: "('v, 's) ComposedApp \<Rightarrow> 'v ConfigFile \<Rightarrow> invocation_error + pairs" where
  "file_inputs app file =
     and_then (read_sections file (section_readers app)) (\<lambda>more. Inr (file_settings file @ more))"

fun apply_sections ::
    "'v ConfigFile \<Rightarrow> (string \<times> ('v \<Rightarrow> 's option)) list \<Rightarrow> (string, 's) btree \<Rightarrow> invocation_error + (string, 's) btree" where
  "apply_sections file [] kept = Inr kept"
| "apply_sections file ((name, parse) # parsers) kept =
     (case file_section file name of
        None \<Rightarrow> apply_sections file parsers kept
      | Some v \<Rightarrow> and_then (ok_or (SectionUnparsed name) (parse v)) (\<lambda>section.
                  apply_sections file parsers (bt_insert name section kept)))"

definition config_for ::
    "build_env \<Rightarrow> 'v file_env \<Rightarrow> (string \<Rightarrow> IpAddr option) \<Rightarrow> pairs \<Rightarrow> ('v, 's) ComposedApp \<Rightarrow> Action
     \<Rightarrow> invocation_error + Config \<times> (string, 's) btree" where
  "config_for benv env parse_ip vars app action =
     and_then (case action of
         Serve args \<Rightarrow> and_then (load_for env app (sa_config_file args)) (\<lambda>file. Inr (Some file))
       | Named _ \<Rightarrow> Inr None) (\<lambda>file.
     and_then (case file of Some parsed \<Rightarrow> file_inputs app parsed | None \<Rightarrow> Inr []) (\<lambda>inputs.
     and_then (map_err SettingsRefused (from_layers parse_ip (app_build_settings app) (declared_settings app)
         \<lparr> layer_file = inputs, layer_environment = vars, layer_command_line = action_inputs action \<rparr>)) (\<lambda>c.
     case file of
       None \<Rightarrow> Inr (c, [])
     | Some parsed \<Rightarrow>
         and_then (map_err RealmsRefused (with_realms (to_uppercase benv) (file_realms parsed) c)) (\<lambda>c.
         and_then (apply_sections parsed (section_parsers app) []) (\<lambda>kept. Inr (c, kept))))))"

section \<open>Lemmas\<close>

subsection \<open>The directory of realms\<close>

text \<open>The entries of a directory that are not hidden, in the order the system lists them.\<close>

definition visible_entries :: "'v file_env \<Rightarrow> string option list \<Rightarrow> string list" where
  "visible_entries env entries =
     filter (\<lambda>name. \<not> starts_with ''.'' (to_string_lossy env name)) (List.map_filter id entries)"

definition realm_of_entry :: "'v file_env \<Rightarrow> string \<Rightarrow> string" where
  "realm_of_entry env name = to_string_lossy env (name_stem name)"

lemma realm_files_Inr:
  "realm_files env directory entries = Inr files
   \<Longrightarrow> None \<notin> set entries \<and> files = visible_entries env entries \<and> list_all (is_realm_file env directory) files"
  by (induction env directory entries arbitrary: files rule: realm_files.induct)
     (auto simp: visible_entries_def List.map_filter_simps result_iffs split: if_splits)

lemma append_realms_Inr:
  assumes "append_realms env directory names realms = Inr out"
  obtains new where "out = realms @ new" "map rm_name new = map (realm_of_entry env) names"
    "distinct (map rm_name new)" "rm_name ` set new \<inter> rm_name ` set realms = {}"
    "list_all2 (\<lambda>name r. \<exists>text. read_to_string env (resolve_path directory name) = Some text \<and> parse_realm env text = Some r) names new"
proof -
  have "\<exists>new. out = realms @ new \<and> map rm_name new = map (realm_of_entry env) names \<and> distinct (map rm_name new)
    \<and> rm_name ` set new \<inter> rm_name ` set realms = {}
    \<and> list_all2 (\<lambda>name r. \<exists>text. read_to_string env (resolve_path directory name) = Some text \<and> parse_realm env text = Some r) names new"
    using assms
  proof (induction names arbitrary: realms)
    case Nil
    then show ?case by simp
  next
    case (Cons name names)
    from Cons.prems obtain t r where r: "read_to_string env (resolve_path directory name) = Some t" "parse_realm env t = Some r"
      "rm_name r = realm_of_entry env name" "rm_name r \<notin> rm_name ` set realms"
      and "append_realms env directory names (realms @ [r]) = Inr out"
      by (auto simp: result_iffs Let_def realm_of_entry_def split: if_splits)
    from Cons.IH [OF this(5)] obtain new where "out = realms @ r # new" "map rm_name new = map (realm_of_entry env) names"
      "distinct (map rm_name new)" "rm_name ` set new \<inter> rm_name ` set (realms @ [r]) = {}"
      "list_all2 (\<lambda>name r. \<exists>text. read_to_string env (resolve_path directory name) = Some text \<and> parse_realm env text = Some r) names new"
      by auto
    moreover from this(4) have "rm_name r \<notin> set (map rm_name new)" by auto
    ultimately show ?case using r by (intro exI [of _ "r # new"]) (simp del: set_map; auto)
  qed
  then show ?thesis using that by blast
qed

text \<open>What a file declares: the realms it lists, then the ones of the directory it names, by entry name.\<close>

definition directory_names :: "'v file_env \<Rightarrow> string \<Rightarrow> 'v ConfigFile \<Rightarrow> string list" where
  "directory_names env config_path file =
     (case cf_realms_from file of
        None \<Rightarrow> []
      | Some named \<Rightarrow> (case read_dir env (realms_directory config_path named) of
            None \<Rightarrow> [] | Some entries \<Rightarrow> map (realm_of_entry env) (sort (visible_entries env entries))))"

lemma gather_realms_from_Inr:
  assumes "gather_realms_from env config_path file = Inr loaded"
  obtains new where "loaded = file\<lparr> cf_realms := cf_realms file @ new \<rparr>" "map rm_name new = directory_names env config_path file"
    "distinct (map rm_name new)" "rm_name ` set new \<inter> rm_name ` set (cf_realms file) = {}"
proof (cases "cf_realms_from file")
  case None
  with assms that [of "[]"] show ?thesis by (simp add: gather_realms_from_def directory_names_def)
next
  case (Some named)
  let ?directory = "realms_directory config_path named"
  from assms Some obtain entries files realms where
    run: "read_dir env ?directory = Some entries" "realm_files env ?directory entries = Inr files"
      "append_realms env ?directory (sort files) (cf_realms file) = Inr realms" "loaded = file\<lparr> cf_realms := realms \<rparr>"
    by (auto simp: gather_realms_from_def Let_def result_iffs split: if_splits)
  from run(3) obtain new where "realms = cf_realms file @ new" "map rm_name new = map (realm_of_entry env) (sort files)"
    "distinct (map rm_name new)" "rm_name ` set new \<inter> rm_name ` set (cf_realms file) = {}" by (rule append_realms_Inr)
  with run realm_files_Inr [OF run(2)] Some show ?thesis by (intro that [of new]) (simp_all add: directory_names_def)
qed

lemma resolve_realm_name: "resolve_realm up c input = Inr r \<Longrightarrow> rc_name r = in_name input"
  by (auto simp: resolve_realm_def Let_def result_iffs)

lemma collect_realm_names:
  "collect_results (resolve_realm up c) inputs = Inr rs \<Longrightarrow> map rc_name rs = map in_name inputs"
  by (induction inputs arbitrary: rs) (auto simp: result_iffs resolve_realm_name)

lemma with_realms_Inr:
  assumes "with_realms up inputs c = Inr c'"
  obtains rs where "c' = c\<lparr> config_realms := rs \<rparr>" "map rc_name rs = map in_name inputs"
proof -
  from assms obtain rs where "collect_results (resolve_realm up c) inputs = Inr rs" "c' = c\<lparr> config_realms := rs \<rparr>"
    unfolding with_realms_def and_then_Inr_iff by blast
  with collect_realm_names that show ?thesis by blast
qed

lemma config_for_serve:
  assumes "config_for benv env parse_ip vars app (Serve args) = Inr (c, kept)"
  obtains t f loaded inputs c1 where "read_to_string env (sa_config_file args) = Some t" "parse_file env t = Some f"
    "gather_realms_from env (sa_config_file args) f = Inr loaded"
    "reject_unknown_sections (claimed_sections app) loaded = Inr ()"
    "file_inputs app loaded = Inr inputs"
    "from_layers parse_ip (app_build_settings app) (declared_settings app)
       \<lparr> layer_file = inputs, layer_environment = vars, layer_command_line = serve_inputs args \<rparr> = Inr c1"
    "with_realms (to_uppercase benv) (file_realms loaded) c1 = Inr c"
    "apply_sections loaded (section_parsers app) [] = Inr kept"
  using assms by (auto simp: config_for_def load_for_def file_load_def result_iffs)

text \<open>The realms of the configuration, by name and in order.\<close>

lemma config_for_realms:
  assumes "config_for benv env parse_ip vars app (Serve args) = Inr (c, kept)"
    and "read_to_string env (sa_config_file args) = Some t" "parse_file env t = Some file"
  shows "map rc_name (config_realms c) = map rm_name (cf_realms file) @ directory_names env (sa_config_file args) file"
    and "distinct (directory_names env (sa_config_file args) file)"
    and "set (directory_names env (sa_config_file args) file) \<inter> rm_name ` set (cf_realms file) = {}"
proof -
  obtain loaded c1 where gathered: "gather_realms_from env (sa_config_file args) file = Inr loaded"
    and resolved: "with_realms (to_uppercase benv) (file_realms loaded) c1 = Inr c"
    using config_for_serve [OF assms(1)] assms(2,3) by (metis option.inject)
  from gathered obtain new where new: "loaded = file\<lparr> cf_realms := cf_realms file @ new \<rparr>"
    "map rm_name new = directory_names env (sa_config_file args) file" "distinct (map rm_name new)"
    "rm_name ` set new \<inter> rm_name ` set (cf_realms file) = {}" by (rule gather_realms_from_Inr)
  from resolved obtain rs where rs: "c = c1\<lparr> config_realms := rs \<rparr>" "map rc_name rs = map in_name (file_realms loaded)"
    by (rule with_realms_Inr)
  have "map in_name (file_realms loaded) = map rm_name (cf_realms loaded)"
    by (simp add: file_realms_def realm_input_def)
  with rs new show "map rc_name (config_realms c) = map rm_name (cf_realms file) @ directory_names env (sa_config_file args) file"
    by simp
  from new show "distinct (directory_names env (sa_config_file args) file)"
    "set (directory_names env (sa_config_file args) file) \<inter> rm_name ` set (cf_realms file) = {}"
    by (simp_all flip: new(2))
qed

lemma registry_names:
  assumes "distinct (map realm_name rs)"
  shows "map realm_name (all_realms (new_realms rs)) = sort (map realm_name rs)"
proof -
  let ?m = "realms_by_name (new_realms rs)"
  have wf: "bt_wf ?m" by (simp add: new_realms_alt bt_wf_fold_insert)
  have entry: "(k, r) \<in> set ?m \<longleftrightarrow> r \<in> set rs \<and> realm_name r = k" for k r
    using by_name_iff [OF assms, of k r] map_of_eq_Some_iff [OF bt_wf_distinct [OF wf], of k r]
    by (simp only: by_name_def bt_get_def)
  then have names: "map realm_name (all_realms (new_realms rs)) = map fst ?m" by (auto simp: all_realms_def)
  have "set (map fst ?m) = set (map realm_name rs)"
    unfolding names [symmetric] by (simp only: set_map set_all_realms [OF assms])
  moreover have "sorted (map fst ?m)" "distinct (map fst ?m)"
    using wf by (simp_all add: bt_wf_def bt_wf_distinct strict_sorted_imp_sorted)
  ultimately show ?thesis unfolding names
    by (intro sorted_distinct_set_unique) (simp_all add: assms)
qed

lemma served_names:
  assumes "serve env (composed env provision) c files = (Inr asm, files')"
  shows "map realm_name (all_realms (asm_realms asm)) = sort (map rc_name (config_realms c))"
    and "distinct (map rc_name (config_realms c))"
proof -
  from assms have valid: "config_validate (is_file env) c = Inr ()"
    and "realms_for (composed env provision) c = Inr (asm_realms asm)" by (auto elim: serve_Inr)
  from this(2) obtain rs where rs: "asm_realms asm = new_realms rs"
    "list_all2 (\<lambda>r realm. build_realm env c r = Inr realm) (config_realms c) rs" by (rule composed_realms)
  show names: "distinct (map rc_name (config_realms c))"
    using validate_realm_list_Inr config_validate_Inr(4) [OF valid] by (simp add: validate_realms_def)
  with registry_names [of rs] built_names [OF rs(2)] rs(1)
  show "map realm_name (all_realms (asm_realms asm)) = sort (map rc_name (config_realms c))" by simp
qed

subsection \<open>The settings of the file\<close>

definition nonblank :: "string option \<Rightarrow> string option" where
  "nonblank v = (if v = Some [] then None else v)"

lemma settings_of_append: "settings_of (xs @ ys) = settings_of xs ++ settings_of ys"
  by (simp add: settings_of_def)

lemma present_pairs:
  "(key, w) \<in> set (List.map_filter (\<lambda>(key, v). map_option (\<lambda>v. (key, v)) v) xs) \<longleftrightarrow> (key, Some w) \<in> set xs"
  "map fst (List.map_filter (\<lambda>(key, v). map_option (\<lambda>v. (key, v)) v) xs) = map fst (filter (\<lambda>(_, v). v \<noteq> None) xs)"
  by (induction xs) (auto simp: List.map_filter_simps split: option.splits)

lemma settings_of_candidates:
  assumes "distinct (map fst xs)" "(key, v) \<in> set xs"
  shows "settings_of (List.map_filter (\<lambda>(key, v). map_option (\<lambda>v. (key, v)) v) xs) key = nonblank v"
proof -
  let ?present = "List.map_filter (\<lambda>(key, v). map_option (\<lambda>v. (key, v)) v) xs"
  let ?stated = "filter (\<lambda>(_, v). v \<noteq> []) ?present"
  have "distinct (map fst ?stated)"
    by (rule distinct_map_filter) (simp only: present_pairs distinct_map_filter [OF assms(1)])
  then have "distinct (map fst (rev ?stated))" by (simp only: rev_map [symmetric] distinct_rev)
  from map_of_eq_Some_iff [OF this]
  have keys: "map_of (rev ?stated) key = Some w \<longleftrightarrow> (key, w) \<in> set ?stated" for w by (simp only: set_rev)
  have "(key, Some w) \<in> set xs \<longleftrightarrow> v = Some w" for w
    using eq_key_imp_eq_value [OF assms(1) assms(2)] assms(2) by blast
  then have "(key, w) \<in> set ?stated \<longleftrightarrow> nonblank v = Some w" for w
    by (auto simp: present_pairs nonblank_def)
  with keys show ?thesis unfolding settings_of_def by (metis not_Some_eq)
qed

lemma candidates_distinct: "distinct (map fst (file_candidates file))"
  by (simp add: file_candidates_def setting_names)

lemma file_settings_state: "(key, v) \<in> set (file_candidates file) \<Longrightarrow> settings_of (file_settings file) key = nonblank v"
  unfolding file_settings_def by (rule settings_of_candidates [OF candidates_distinct])

lemma config_for_layers:
  assumes "config_for benv env parse_ip vars app (Serve args) = Inr (c, kept)"
    and "read_to_string env (sa_config_file args) = Some t" "parse_file env t = Some f"
  obtains layers c1 more where "from_layers parse_ip (app_build_settings app) (declared_settings app) layers = Inr c1"
    "effective layers = settings_of (file_settings f) ++ settings_of more ++ settings_of vars ++ settings_of (serve_inputs args)"
    "read_sections f (section_readers app) = Inr more" "c = c1\<lparr> config_realms := config_realms c \<rparr>"
proof -
  obtain loaded inputs c1 where run: "gather_realms_from env (sa_config_file args) f = Inr loaded"
    "file_inputs app loaded = Inr inputs"
    "from_layers parse_ip (app_build_settings app) (declared_settings app)
       \<lparr> layer_file = inputs, layer_environment = vars, layer_command_line = serve_inputs args \<rparr> = Inr c1"
    "with_realms (to_uppercase benv) (file_realms loaded) c1 = Inr c"
    using config_for_serve [OF assms(1)] assms(2,3) by (metis option.inject)
  from run(1) obtain new where loaded: "loaded = f\<lparr> cf_realms := new \<rparr>" by (auto elim!: gather_realms_from_Inr)
  have same: "file_settings loaded = file_settings f" "read_sections loaded rs = read_sections f rs" for rs
    unfolding loaded
     apply (simp add: file_settings_def file_candidates_def admin_list_def public_list_def exempt_list_def)
    by (induction rs) (auto simp: file_section_def split: option.splits)
  from run(2) obtain more where more: "read_sections f (section_readers app) = Inr more" "inputs = file_settings f @ more"
    by (auto simp: file_inputs_def result_iffs same)
  from run(4) obtain rs where "c = c1\<lparr> config_realms := rs \<rparr>" by (rule with_realms_Inr)
  then have c: "c = c1\<lparr> config_realms := config_realms c \<rparr>" by simp
  show ?thesis by (rule that [OF run(3) _ more(1) c]) (simp add: effective_def more(2) settings_of_append)
qed

subsection \<open>Lists in one setting\<close>

lemma join_with_nonempty: "ws \<noteq> [] \<Longrightarrow> hd ws \<noteq> [] \<Longrightarrow> join_with sep ws \<noteq> []"
  by (cases "(sep, ws)" rule: join_with.cases) auto

lemma trim_Nil [simp]: "trim [] = []"
  by (simp add: trim_def drop_end_while_def)

lemma str_lines_join:
  assumes "list_all (\<lambda>w. newline \<notin> set w \<and> CHR 0x0D \<notin> set w) ws"
  shows "filter (\<lambda>line. line \<noteq> []) (map trim (str_lines (join_with [newline] ws))) = filter (\<lambda>line. line \<noteq> []) (map trim ws)"
  using assms
proof (induction "[newline]" ws rule: join_with.induct)
  case 1
  then show ?case by simp
next
  case (2 w)
  then show ?case by (cases w) (auto simp: takeWhile_eq_all_conv [THEN iffD2] dropWhile_eq_Nil_conv [THEN iffD2] trim_def drop_end_while_def Let_def)
next
  case (3 w v ws)
  then have "strip_cr w = w" by (simp add: strip_cr_id)
  with 3 show ?case by (simp add: str_lines_line)
qed

lemma parse_allowed_join:
  assumes "list_all (\<lambda>w. newline \<notin> set w \<and> CHR 0x0D \<notin> set w) ws"
  shows "parse_allowed (join_with [newline] ws) = map_err NotAPeer (collect_results allowed_parse (filter (\<lambda>line. line \<noteq> []) (map trim ws)))"
  by (simp add: parse_allowed_def str_lines_join [OF assms])

subsection \<open>Sections of a build\<close>

definition parsers_wf :: "('v, 's) ComposedApp \<Rightarrow> bool" where
  "parsers_wf app \<longleftrightarrow> distinct (map fst (section_parsers app)) \<and> fst ` set (section_parsers app) \<subseteq> set (claimed_sections app)"

lemma parsers_wf_compose: "parsers_wf (compose_app b app)"
  by (simp add: parsers_wf_def compose_app_def App.defs)

lemma parsers_wf_with:
  "parsers_wf app \<Longrightarrow> with_config_section name parse app = Some app' \<Longrightarrow> parsers_wf app'"
  "parsers_wf app \<Longrightarrow> parsers_wf (with_declared_settings keys app)"
  "parsers_wf app \<Longrightarrow> parsers_wf (with_claimed_sections names app)"
  "parsers_wf app \<Longrightarrow> parsers_wf (with_section_settings name reader app)"
  by (simp_all add: parsers_wf_def with_config_section_def with_declared_settings_def with_claimed_sections_def
      with_section_settings_def le_supI1 subset_insertI2 split: if_splits)
     fastforce+

lemma apply_sections_Inr:
  assumes "apply_sections f parsers kept = Inr out" "distinct (map fst parsers)"
  shows "(\<forall>(name, parse) \<in> set parsers. case file_section f name of
            None \<Rightarrow> bt_get name out = bt_get name kept
          | Some v \<Rightarrow> parse v \<noteq> None \<and> bt_get name out = parse v)
    \<and> (\<forall>name. name \<notin> fst ` set parsers \<longrightarrow> bt_get name out = bt_get name kept)"
  using assms
proof (induction parsers arbitrary: kept)
  case Nil
  then show ?case by simp
next
  case (Cons p parsers)
  obtain name parse where p: "p = (name, parse)" by (cases p)
  show ?case
  proof (cases "file_section f name")
    case None
    with Cons.prems p have "apply_sections f parsers kept = Inr out" by simp
    with Cons.IH [OF this] Cons.prems(2) None p show ?thesis by auto
  next
    case (Some v)
    with Cons.prems p obtain s where s: "parse v = Some s" "apply_sections f parsers (bt_insert name s kept) = Inr out"
      by (auto simp: result_iffs)
    from Cons.IH [OF s(2)] Cons.prems(2) p
    have rest: "\<forall>(n, parse) \<in> set parsers. case file_section f n of None \<Rightarrow> bt_get n out = bt_get n (bt_insert name s kept)
          | Some v \<Rightarrow> parse v \<noteq> None \<and> bt_get n out = parse v"
      and out: "\<forall>n. n \<notin> fst ` set parsers \<longrightarrow> bt_get n out = bt_get n (bt_insert name s kept)" by simp_all
    have other: "name \<notin> fst ` set parsers" using Cons.prems(2) p by simp
    then have "bt_get n (bt_insert name s kept) = bt_get n kept" if "n \<in> fst ` set parsers" for n using that by auto
    with rest have "\<forall>(n, parse) \<in> set parsers. case file_section f n of None \<Rightarrow> bt_get n out = bt_get n kept
          | Some v \<Rightarrow> parse v \<noteq> None \<and> bt_get n out = parse v" by (fastforce split: option.splits)
    with out other s(1) Some p show ?thesis by simp
  qed
qed

section \<open>Properties\<close>

text \<open>
  C12: the realms a started server hosts are the ones its file declares: the ones the file lists and the ones
  of the directory it names, where every entry that is not hidden is one realm of that name. None is declared
  twice, none of the directory repeats one of the file, and the registry holds one realm for each name and
  no other.
\<close>

theorem hosted_realms_are_declared:
  assumes "config_for env fenv parse_ip vars app (Serve args) = Inr (c, kept)"
    and "read_to_string fenv (sa_config_file args) = Some t" "parse_file fenv t = Some f"
    and "serve env (composed env provision) c files = (Inr asm, files')"
  shows "let listed = map rm_name (cf_realms f); named = directory_names fenv (sa_config_file args) f in
    distinct (listed @ named)
    \<and> map realm_name (all_realms (asm_realms asm)) = sort (listed @ named)
    \<and> (\<forall>n. by_name (asm_realms asm) n \<noteq> None \<longleftrightarrow> n \<in> set (listed @ named))"
proof -
  note names = config_for_realms(1) [OF assms(1-3)]
  have "(\<exists>realm. by_name (asm_realms asm) n = Some realm) \<longleftrightarrow> n \<in> set (map rc_name (config_realms c))" for n
  proof -
    have "set (map realm_name (all_realms (asm_realms asm))) = set (map rc_name (config_realms c))"
      by (simp only: served_names(1) [OF assms(4)] set_sort)
    moreover have "(\<exists>realm. by_name (asm_realms asm) n = Some realm) \<longleftrightarrow> n \<in> set (map realm_name (all_realms (asm_realms asm)))"
      using served_by_name [OF assms(4)] served_all [OF assms(4)] build_realm_Inr(1) by (simp add: image_iff) metis
    ultimately show ?thesis by simp
  qed
  then show ?thesis
    unfolding Let_def using served_names [OF assms(4)] by (simp add: names del: set_map)
qed


text \<open>
  A section nobody claimed is refused, and a section a type claimed is read into that type. Of an accepted
  file every other section is claimed; each registered type whose section is there parsed it and finds its
  value under its own name, and one whose section is absent finds nothing.
\<close>

theorem sections_are_claimed_and_kept:
  assumes "config_for env fenv parse_ip vars app (Serve args) = Inr (c, kept)" "parsers_wf app"
    and "read_to_string fenv (sa_config_file args) = Some t" "parse_file fenv t = Some f"
  shows "set (map fst (cf_sections f)) \<subseteq> set (claimed_sections app)
    \<and> (\<forall>(name, parse) \<in> set (section_parsers app). case file_section f name of
          None \<Rightarrow> bt_get name kept = None
        | Some v \<Rightarrow> parse v \<noteq> None \<and> bt_get name kept = parse v)"
proof -
  obtain loaded where run: "gather_realms_from fenv (sa_config_file args) f = Inr loaded"
    "reject_unknown_sections (claimed_sections app) loaded = Inr ()" "apply_sections loaded (section_parsers app) [] = Inr kept"
    using config_for_serve [OF assms(1)] assms(3,4) by (metis option.inject)
  from run(1) have same: "cf_sections loaded = cf_sections f" by (auto elim!: gather_realms_from_Inr)
  from run(2) have "set (map fst (cf_sections f)) \<subseteq> set (claimed_sections app)"
    by (auto simp: reject_unknown_sections_def same Let_def filter_empty_conv split: if_splits)
  moreover from apply_sections_Inr [OF run(3)] assms(2)
  have "\<forall>(name, parse) \<in> set (section_parsers app). case file_section f name of
          None \<Rightarrow> bt_get name kept = None | Some v \<Rightarrow> parse v \<noteq> None \<and> bt_get name kept = parse v"
    by (auto simp: parsers_wf_def file_section_def same bt_get_def split: option.splits)
  ultimately show ?thesis by blast
qed

text \<open>
  The administrators of a deployment are the entries of \<open>admin.allow\<close>, one peer per entry and in their order,
  when nothing later states the setting: the list survives being carried as one setting of several lines.
\<close>

theorem administrators_are_the_listed_ones:
  assumes "config_for env fenv parse_ip vars app (Serve args) = Inr (c, kept)"
    and "read_to_string fenv (sa_config_file args) = Some t" "parse_file fenv t = Some f"
    and "settings_of vars SETTING_ADMIN_ALLOW = None" "section_readers app = []"
    and "list_all (\<lambda>w. trim w \<noteq> [] \<and> newline \<notin> set w \<and> CHR 0x0D \<notin> set w) (adm_allow (cf_admin f))"
  shows "collect_results allowed_parse (map trim (adm_allow (cf_admin f))) = Inr (admin_allow c)"
proof -
  obtain layers c1 more where run: "from_layers parse_ip (app_build_settings app) (declared_settings app) layers = Inr c1"
    "effective layers = settings_of (file_settings f) ++ settings_of more ++ settings_of vars ++ settings_of (serve_inputs args)"
    "read_sections f (section_readers app) = Inr more" "c = c1\<lparr> config_realms := config_realms c \<rparr>"
    using assms(1-3) by (rule config_for_layers)
  let ?allow = "adm_allow (cf_admin f)"
  have "(SETTING_ADMIN_ALLOW, admin_list f) \<in> set (file_candidates f)" by (simp add: file_candidates_def)
  then have stated: "settings_of (file_settings f) SETTING_ADMIN_ALLOW = nonblank (admin_list f)" by (rule file_settings_state)
  have "\<forall>v. (SETTING_ADMIN_ALLOW, v) \<notin> set (serve_inputs args)"
    unfolding serve_inputs_def set_append Un_iff present_pairs by (simp add: setting_names)
  then have "settings_of (serve_inputs args) SETTING_ADMIN_ALLOW = None"
    by (auto simp: settings_of_def map_of_eq_None_iff)
  moreover have "settings_of more = Map.empty" using run(3) assms(5) by (simp add: settings_of_def)
  ultimately have m: "effective layers SETTING_ADMIN_ALLOW = nonblank (admin_list f)"
    using assms(4) by (simp add: run(2) map_add_def stated)
  have reads: "reads (effective layers) SETTING_ADMIN_ALLOW parse_allowed id admin_allow [] c1"
    by (rule from_layers_reads [OF run(1)], rule setting_decides)
       (simp add: base_config_def apply_build_settings_def default_config_def)
  have c: "admin_allow c = admin_allow c1" by (subst run(4)) simp
  show ?thesis
  proof (cases "?allow = []")
    case True
    with reads m c show ?thesis by (simp add: admin_list_def nonblank_def reads_def)
  next
    case False
    have plain: "list_all (\<lambda>w. newline \<notin> set w \<and> CHR 0x0D \<notin> set w) ?allow" and full: "filter (\<lambda>l. l \<noteq> []) (map trim ?allow) = map trim ?allow"
      using assms(6) by (auto simp: list_all_iff filter_id_conv)
    have "trim (hd ?allow) \<noteq> []" using assms(6) hd_in_set [OF False] by (auto simp: list_all_iff)
    then have "hd ?allow \<noteq> []" by (metis trim_Nil)
    with False have "join_with [newline] ?allow \<noteq> []" by (rule join_with_nonempty)
    with False m reads have "\<exists>x. parse_allowed (join_with [newline] ?allow) = Inr x \<and> admin_allow c1 = x"
      by (auto simp: admin_list_def nonblank_def reads_def)
    with c show ?thesis by (auto simp: parse_allowed_join [OF plain] full result_iffs)
  qed
qed

text \<open>
  An entry under \<open>admin.tls.allow\<close> is refused with a message that says where administrators are listed, but
  only by a file that also names a directory of realms: without one the list is read and then ignored.
\<close>

definition with_admin_tls_allow :: "string list option \<Rightarrow> 'v ConfigFile \<Rightarrow> 'v ConfigFile" where
  "with_admin_tls_allow l f = f\<lparr> cf_admin := (cf_admin f)\<lparr> adm_tls := (adm_tls (cf_admin f))\<lparr> ts_allow := l \<rparr> \<rparr> \<rparr>"

theorem admin_tls_allow_may_be_ignored:
  "(cf_realms_from f = None \<longrightarrow> gather_realms_from env path (with_admin_tls_allow l f) = Inr (with_admin_tls_allow l f))
   \<and> file_settings (with_admin_tls_allow l f) = file_settings f
   \<and> (cf_realms_from f \<noteq> None \<and> l = Some (w # ws) \<longrightarrow> \<not> is_ok (gather_realms_from env path (with_admin_tls_allow l f)))"
  by (auto simp: gather_realms_from_def with_admin_tls_allow_def file_settings_def file_candidates_def admin_list_def
      public_list_def exempt_list_def Let_def and_then_def split: sum.splits)

subsection \<open>Witnesses\<close>

text \<open>A file that lists one realm and names a directory with another, hidden entries beside it.\<close>

definition no_keys :: RealmKeysSection where
  "no_keys = \<lparr> rk_enabled = None, rk_publish_ahead = None, rk_rotate_every = None, rk_retain = None \<rparr>"

definition demo_section :: "string \<Rightarrow> RealmSection" where
  "demo_section name = \<lparr> rm_name = name, rm_token_lifetime = None, rm_token_initial_expiry_policy = None,
     rm_key_cache_stale_for = None, rm_token_signing_algorithm = None, rm_issuer = None, rm_listed = None,
     rm_keys = no_keys\<lparr> rk_enabled := Some ''false'' \<rparr>,
     rm_operations = \<lparr> ro_keys = no_keys\<lparr> rk_enabled := Some ''true'' \<rparr>,
       ro_audit = \<lparr> ra_sink = None, ra_retention = None, ra_pseudonym = \<lparr> rp_enabled = None, rp_key_ref = None, rp_key_version = None \<rparr> \<rparr>,
       ro_secrets = \<lparr> rx_provider = None, rx_env_prefix = None \<rparr> \<rparr>,
     rm_exchange_profiles = [], rm_attesters = [] \<rparr>"

definition no_tls :: TlsSection where
  "no_tls = \<lparr> ts_cert = None, ts_allow = None, ts_key = None, ts_client_ca = None, ts_crl = None, ts_min_version = None \<rparr>"

definition demo_file :: "unit ConfigFile" where
  "demo_file = \<lparr> cf_working_dir = None, cf_autogenerate = None, cf_development_mode = None,
     cf_public = \<lparr> pub_http = Some ''127.0.0.1:8080'', pub_disclose_build = None, pub_url = None, pub_path_prefix = None, pub_tls = no_tls \<rparr>,
     cf_telemetry = \<lparr> tel_addr = None, tel_tls = \<lparr> tt_cert = None, tt_key = None, tt_min_version = None \<rparr> \<rparr>,
     cf_admin = \<lparr> adm_addr = None, adm_tls = no_tls, adm_allow = [] \<rparr>,
     cf_tls = \<lparr> tr_reload = None, tr_reload_interval = None \<rparr>,
     cf_limits = \<lparr> ls_connections = None, ls_connections_per_peer = None, ls_peer_exempt = None, ls_connection_lifetime = None,
       ls_write_stall_timeout = None, ls_concurrent_requests = None, ls_request_timeout = None, ls_handshake_timeout = None,
       ls_header_timeout = None, ls_body_bytes = None, ls_header_bytes = None \<rparr>,
     cf_log = \<lparr> lg_level = None, lg_format = None \<rparr>,
     cf_shutdown = \<lparr> sd_timeout = None \<rparr>,
     cf_operations = \<lparr>
       ox_keys = \<lparr> kx_enabled = None, kx_directory = None, kx_publish_ahead = None, kx_rotate_every = None, kx_retain = None,
         kx_maintenance_interval = None \<rparr>,
       ox_audit = \<lparr> ax_sink = None, ax_directory = None, ax_retention = None,
         ax_pseudonym = \<lparr> px_enabled = None, px_key_ref = None, px_key_version = None \<rparr> \<rparr>,
       ox_secrets = \<lparr> sx_provider = None, sx_directory = None, sx_env_prefix = None \<rparr> \<rparr>,
     cf_realms = [demo_section ''acme''],
     cf_realms_from = Some ''realms.d'',
     cf_sections = [(''extra'', ())] \<rparr>"

definition demo_files :: "unit file_env" where
  "demo_files = \<lparr>
     read_to_string = [''etc/pic-x.yml'' \<mapsto> ''server'', ''etc/realms.d/beta.yml'' \<mapsto> ''beta''],
     read_dir = [''etc/realms.d'' \<mapsto> [Some ''.keep'', Some ''beta.yml'']],
     names_file = (\<lambda>_. True), to_string_lossy = (\<lambda>name. name),
     parse_file = (\<lambda>t. if t = ''server'' then Some demo_file else None),
     parse_realm = (\<lambda>t. Some (demo_section t)) \<rparr>"

definition demo_args :: ServeArgs where
  "demo_args = \<lparr> sa_config_file = ''etc/pic-x.yml'', sa_public_http_addr = None, sa_telemetry_addr = None, sa_admin_addr = None,
     sa_log_level = None, sa_log_format = None \<rparr>"

definition composed_demo :: "(unit, unit) ComposedApp" where
  "composed_demo = the (with_config_section ''extra'' Some
     (compose_app (new_build_settings DEFAULT_VERSION DEFAULT_COPYRIGHT_YEAR DEFAULT_COPYRIGHT_HOLDER) demo_app))"

lemma composed_demo_fields:
  "claimed_sections composed_demo = [''extra'']" "section_parsers composed_demo = [(''extra'', Some)]"
  "section_readers composed_demo = []" "declared_settings composed_demo = []"
  "app_build_settings composed_demo = new_build_settings DEFAULT_VERSION DEFAULT_COPYRIGHT_YEAR DEFAULT_COPYRIGHT_HOLDER"
  "parsers_wf composed_demo"
  by (simp_all add: composed_demo_def with_config_section_def compose_app_def App.defs parsers_wf_def)

lemma demo_paths:
  "path_parent ''etc/pic-x.yml'' = Some ''etc''" "name_extension ''beta.yml'' = Some ''yml''" "name_stem ''beta.yml'' = ''beta''"
  by code_simp+

lemma demo_directory: "realms_directory ''etc/pic-x.yml'' ''realms.d'' = ''etc/realms.d''" "resolve_path ''etc/realms.d'' ''beta.yml'' = ''etc/realms.d/beta.yml''"
  by code_simp+

lemma demo_gathered:
  "gather_realms_from demo_files ''etc/pic-x.yml'' demo_file = Inr (demo_file\<lparr> cf_realms := [demo_section ''acme'', demo_section ''beta''] \<rparr>)"
  by (simp add: gather_realms_from_def demo_file_def demo_files_def demo_directory demo_paths is_realm_file_def starts_with_def
      no_tls_def demo_section_def Let_def)

lemma demo_file_settings: "file_settings (demo_file\<lparr> cf_realms := rs \<rparr>) = [(SETTING_PUBLIC_HTTP_ADDR, ''127.0.0.1:8080'')]"
  by (simp add: file_settings_def file_candidates_def demo_file_def no_tls_def admin_list_def public_list_def exempt_list_def
      stated_list_def List.map_filter_simps)

lemma demo_server_layers:
  "from_layers parse_ip (new_build_settings DEFAULT_VERSION DEFAULT_COPYRIGHT_YEAR DEFAULT_COPYRIGHT_HOLDER) []
     \<lparr> layer_file = [(SETTING_PUBLIC_HTTP_ADDR, ''127.0.0.1:8080'')], layer_environment = [], layer_command_line = [] \<rparr> = Inr demo_server"
  unfolding from_layers_def apply_pairs_def Let_def config_steps
  by (simp add: settings_of_def read_into_def read_tls_def tls_of_def keep_declared_def setting_names
      demo_server_def default_config_def apply_build_settings_def new_build_settings_def fun_eq_iff)

lemma demo_realm_inputs: "file_realms (demo_file\<lparr> cf_realms := [demo_section ''acme'', demo_section ''beta''] \<rparr>) = [demo_input ''acme'', demo_input ''beta'']"
  by (simp add: file_realms_def realm_input_def demo_section_def demo_input_def no_keys_def)

lemma demo_read:
  "read_to_string demo_files (sa_config_file demo_args) = Some ''server''" "parse_file demo_files ''server'' = Some demo_file"
  "sa_config_file demo_args = ''etc/pic-x.yml''" "cf_sections demo_file = [(''extra'', ())]"
  by (simp_all add: demo_files_def demo_args_def demo_file_def)

lemma demo_configured: "config_for demo_build demo_files parse_ip [] composed_demo (Serve demo_args) = Inr (demo_config, [(''extra'', ())])"
proof -
  have "load_for demo_files composed_demo (sa_config_file demo_args) = Inr (demo_file\<lparr> cf_realms := [demo_section ''acme'', demo_section ''beta''] \<rparr>)"
    by (simp add: load_for_def file_load_def demo_read(1) [unfolded demo_read(3)] demo_read(2-4) demo_gathered Let_def composed_demo_fields(1) reject_unknown_sections_def)
  moreover have "serve_inputs demo_args = []" by (simp add: serve_inputs_def demo_args_def List.map_filter_simps)
  moreover have "to_uppercase demo_build = map ascii_upper" by (simp add: demo_build_def)
  ultimately show ?thesis
    by (simp add: config_for_def file_inputs_def composed_demo_fields file_section_def bt_get_def demo_read(4) demo_file_settings
        demo_server_layers demo_realm_inputs demo_config(1))
qed

lemma demo_started:
  obtains asm where "serve demo_build (composed demo_build (\<lambda>_. Inr ())) demo_config files = (Inr asm, files)"
proof -
  have plain: "secrets_provider demo_config = NoProvider" "audit_destination demo_config = ToTracing"
    by (simp_all add: demo_config_def resolving demo_input_def demo_server_def default_config_def demo_bools)
  obtain a b where ab: "config_realms demo_config = [a, b]" "rc_name a = ''acme''" "rc_name b = ''beta''" using demo_config(2) by auto
  then obtain ra rb where built: "build_realm demo_build demo_config a = Inr ra" "build_realm demo_build demo_config b = Inr rb"
    "pseudonymizer ra = None" "pseudonymizer rb = None"
    using demo_realm_built [of a demo_config] demo_realm_built [of b demo_config] by auto
  have "distinct (map realm_name [ra, rb])" using build_realm_Inr(1) [OF built(1)] build_realm_Inr(1) [OF built(2)] ab by simp
  from set_all_realms [OF this] built(3,4)
  have checked: "check_realms demo_build demo_config (all_realms (new_realms [ra, rb])) files = (Inr (), files)"
    by (intro check_realms_none) simp
  have "collaborators demo_build (composed demo_build (\<lambda>_. Inr ())) demo_config = Inr (None, None)"
    using demo_valid by (simp add: collaborators_def composed_simps secrets_for_def secret_store_for_def pseudonymizer_for_def
        plain demo_config_fields) (simp add: demo_build_def)
  with checked that show thesis
    by (simp add: serve_def witness_check_def check_at_def assemble_def keys_for_def demo_config_fields audit_for_def
        audit_sink_for_def plain realms_for_def ab built)
qed

theorem hosted_realms_are_declared_witness:
  "\<exists>asm. config_for demo_build demo_files (\<lambda>_. None) [] composed_demo (Serve demo_args) = Inr (demo_config, [(''extra'', ())])
     \<and> serve demo_build (composed demo_build (\<lambda>_. Inr ())) demo_config Map.empty = (Inr asm, Map.empty)
     \<and> map realm_name (all_realms (asm_realms asm)) = [''acme'', ''beta'']"
proof -
  obtain asm where run: "serve demo_build (composed demo_build (\<lambda>_. Inr ())) demo_config Map.empty = (Inr asm, Map.empty)"
    by (rule demo_started)
  have "map rm_name (cf_realms demo_file) = [''acme'']" "directory_names demo_files (sa_config_file demo_args) demo_file = [''beta'']"
    by (simp_all add: demo_file_def demo_section_def directory_names_def demo_args_def demo_files_def demo_directory visible_entries_def
        starts_with_def List.map_filter_simps realm_of_entry_def demo_paths)
  with hosted_realms_are_declared [OF demo_configured demo_read(1,2) run] run demo_configured show ?thesis
    by (simp add: Let_def less_eq_list_code)
qed


theorem sections_are_claimed_and_kept_witness:
  "config_for demo_build demo_files (\<lambda>_. None) [] composed_demo (Serve demo_args) = Inr (demo_config, [(''extra'', ())])
   \<and> set (map fst (cf_sections demo_file)) \<subseteq> set (claimed_sections composed_demo) \<and> cf_sections demo_file \<noteq> []"
  using sections_are_claimed_and_kept [OF demo_configured composed_demo_fields(6) demo_read(1,2)] demo_configured
  by (simp add: demo_read(4))

end
