(* ===== verification/Commands.thy ===== *)
theory Commands
  imports ConfigFile AuditGuarantees
begin

text \<open>
  What an invocation does: \<open>execute\<close> of \<open>crates/pic-x-server/src/app.rs\<close> with the named commands of
  \<open>command.rs\<close>, \<open>verify_audit_trail\<close> and \<open>from_hex\<close> of \<open>src/main.rs\<close>, and the texts of \<open>banner.rs\<close>. Reading a
  file, parsing a key set and the Ed25519 primitive are arguments. A panic is \<open>None\<close>.
\<close>

section \<open>Definitions\<close>

subsection \<open>Hexadecimal\<close>

text \<open>
  \<open>u8::from_str_radix(_, 16)\<close> of two bytes, which takes a leading plus sign. A slice that does not end where a
  character ends panics.
\<close>

definition hex_digit_value :: "char \<Rightarrow> nat option" where
  "hex_digit_value c =
     (let n = of_char c :: nat in
      if 48 \<le> n \<and> n \<le> 57 then Some (n - 48)
      else if 97 \<le> n \<and> n \<le> 102 then Some (n - 87)
      else if 65 \<le> n \<and> n \<le> 70 then Some (n - 55)
      else None)"

definition u8_from_hex :: "char \<Rightarrow> char \<Rightarrow> 8 word option" where
  "u8_from_hex a b =
     (if a = CHR ''+'' then map_option of_nat (hex_digit_value b)
      else Option.bind (hex_digit_value a) (\<lambda>h. map_option (\<lambda>l. of_nat (16 * h + l)) (hex_digit_value b)))"

datatype command_error =
    TrailInvalid verify_error
  | KeySetUnread string
  | SealUnsigned string
  | KeyNotPublished string
  | OddHex
  | NotHex
  | SealUnreadable string
  | SealForged string string
  | NoVerifier
  | NoExporter
  | ExportFailed key_error

fun hex_pairs :: "string \<Rightarrow> (command_error + bytes) option" where
  "hex_pairs (a # b # rest) =
     (if rest \<noteq> [] \<and> continues_char (hd rest) then None
      else case u8_from_hex a b of
        None \<Rightarrow> Some (Inl NotHex)
      | Some byte \<Rightarrow> map_option (map_sum id (\<lambda>bs. byte # bs)) (hex_pairs rest))"
| "hex_pairs _ = Some (Inr [])"

definition seal_from_hex :: "string \<Rightarrow> (command_error + bytes) option" where
  "seal_from_hex txt = (if odd (length txt) then Some (Inl OddHex) else hex_pairs txt)"

subsection \<open>Checking a trail\<close>

record trail_reader =
  tr_files :: "string \<Rightarrow> (string \<times> string) list option"
  tr_read :: "string \<Rightarrow> string option"
  tr_parse_keys :: "string \<Rightarrow> Jwk list option"
  tr_ed25519 :: "bytes \<Rightarrow> bytes \<Rightarrow> bytes \<Rightarrow> bool"

fun check_seals :: "trail_reader \<Rightarrow> audit_env \<Rightarrow> Jwk list \<Rightarrow> Seal list \<Rightarrow> nat \<Rightarrow> (command_error + nat) option" where
  "check_seals io env published [] checked = Some (Inr checked)"
| "check_seals io env published (s # ss) checked =
     (let day = seal_day (seal_body s) in
      case (seal_kid s, seal_signature s) of
        (Some key_id, Some signature) \<Rightarrow>
          (case find (\<lambda>key. jwk_kid key = key_id) published of
             None \<Rightarrow> Some (Inl (KeyNotPublished key_id))
           | Some key \<Rightarrow>
               (case seal_from_hex signature of
                  None \<Rightarrow> None
                | Some (Inl _) \<Rightarrow> Some (Inl (SealUnreadable day))
                | Some (Inr made) \<Rightarrow>
                    if \<not> verify_signature (tr_ed25519 io) key (signed_bytes env s) made
                    then Some (Inl (SealForged day key_id))
                    else check_seals io env published ss (checked + 1)))
      | _ \<Rightarrow> Some (Inl (SealUnsigned day)))"

definition trail_summary :: "Verification \<Rightarrow> string" where
  "trail_summary v = digits_of (unat (ver_records v)) @ '' record(s) over '' @ digits_of (ver_days v)
     @ '' day(s) verify. Head: '' @ ver_head v"

definition verify_audit_trail :: "trail_reader \<Rightarrow> audit_env \<Rightarrow> string \<Rightarrow> string option \<Rightarrow> (command_error + string) option" where
  "verify_audit_trail io env directory keys =
     (case verify env (tr_files io directory) of
        Inl e \<Rightarrow> Some (Inl (TrailInvalid e))
      | Inr verified \<Rightarrow>
          (let summary = trail_summary verified; seals = ver_seals verified in
           if seals = [] then Some (Inr summary)
           else case keys of
             None \<Rightarrow> Some (Inr (summary @ [newline] @ digits_of (length seals)
               @ '' seal(s) present, signatures unchecked. Pass --keys <JWKS> to check them.''))
           | Some path \<Rightarrow>
               (case Option.bind (tr_read io path) (tr_parse_keys io) of
                  None \<Rightarrow> Some (Inl (KeySetUnread path))
                | Some published \<Rightarrow>
                    map_option (map_sum id (\<lambda>checked. summary @ [newline] @ digits_of checked @ '' seal(s) verify against the key set.''))
                      (check_seals io env published seals 0))))"

subsection \<open>The banner\<close>

record ProductIdentity =
  binary_name :: string
  product_name :: string
  tagline :: string
  about :: string
  art :: string
  identity_logo :: string

record Banner =
  ban_art :: string
  ban_product_name :: string
  ban_tagline :: string
  ban_version :: string
  ban_commit :: string
  ban_copyright_year :: string
  ban_copyright_holder :: string

definition new_banner :: "ProductIdentity \<Rightarrow> Config \<Rightarrow> Banner" where
  "new_banner identity c = \<lparr> ban_art = art identity, ban_product_name = product_name identity, ban_tagline = tagline identity,
     ban_version = version c, ban_commit = commit c, ban_copyright_year = copyright_year c,
     ban_copyright_holder = copyright_holder c \<rparr>"

text \<open>The copyright sign is the two bytes of its UTF-8 form.\<close>

definition copyright_sign :: string where "copyright_sign = [CHR 0xC2, CHR 0xA9]"

definition render_full :: "Banner \<Rightarrow> string" where
  "render_full b = ban_art b @ [newline, newline] @ ban_product_name b @ [newline] @ ban_tagline b @ [newline, newline]
     @ ''Version '' @ ban_version b @ '' (build '' @ ban_commit b @ '')'' @ [newline, newline]
     @ copyright_sign @ '' '' @ ban_copyright_year b @ '' '' @ ban_copyright_holder b @ ''. All rights reserved.'' @ [newline]"

definition render_short :: "Banner \<Rightarrow> string" where
  "render_short b = ban_product_name b @ [newline] @ ban_tagline b @ [newline]
     @ ''Version '' @ ban_version b @ '' (build '' @ ban_commit b @ '')'' @ [newline]
     @ copyright_sign @ '' '' @ ban_copyright_year b @ '' '' @ ban_copyright_holder b @ ''.'' @ [newline]"

subsection \<open>Running an action\<close>

record ('v, 's) CommandApp = "('v, 's) ComposedApp" +
  app_identity :: ProductIdentity
  audit_verifier :: "(string \<Rightarrow> string option \<Rightarrow> (command_error + string) option) option"
  keys_exporter :: "(string \<Rightarrow> command_error + string) option"

datatype outcome =
    Refused invocation_error
  | NotStarted build_error
  | Started Assembled
  | Printed string
  | Failed command_error
  | Panicked

fun named_outcome :: "('v, 's) CommandApp \<Rightarrow> Config \<Rightarrow> Command \<Rightarrow> outcome" where
  "named_outcome app c VersionCommand = Printed (render_short (new_banner (app_identity app) c) @ version c @ [newline])"
| "named_outcome app c (AuditCommands (Verify directory keys)) =
     (case audit_verifier app of
        None \<Rightarrow> Failed NoVerifier
      | Some verifier \<Rightarrow>
          (case verifier directory keys of
             None \<Rightarrow> Panicked
           | Some (Inl e) \<Rightarrow> Failed e
           | Some (Inr summary) \<Rightarrow> Printed (summary @ [newline])))"
| "named_outcome app c (KeysCommands (Export directory)) =
     (case keys_exporter app of
        None \<Rightarrow> Failed NoExporter
      | Some exporter \<Rightarrow> (case exporter directory of Inl e \<Rightarrow> Failed e | Inr document \<Rightarrow> Printed (document @ [newline])))"

definition dispatch_to ::
    "build_env \<Rightarrow> 'v file_env \<Rightarrow> (string \<Rightarrow> IpAddr option) \<Rightarrow> pairs \<Rightarrow> ('v, 's) CommandApp \<Rightarrow> Action \<Rightarrow> state_files
     \<Rightarrow> outcome \<times> state_files" where
  "dispatch_to benv env parse_ip vars app action files =
     (case config_for benv env parse_ip vars (ComposedApp.truncate app) action of
        Inl e \<Rightarrow> (Refused e, files)
      | Inr (c, _) \<Rightarrow>
          (case action of
             Serve _ \<Rightarrow>
               (case serve benv (App.truncate app) c files of
                  (Inl e, files) \<Rightarrow> (NotStarted e, files)
                | (Inr asm, files) \<Rightarrow> (Started asm, files))
           | Named command \<Rightarrow> (named_outcome app c command, files)))"

section \<open>Lemmas\<close>

lemma hex_digit_value_hex_digit: "n < 16 \<Longrightarrow> hex_digit_value (hex_digit n) = Some n"
  by (simp add: hex_digit_value_def hex_digit_def Let_def)

lemma u8_from_hex_digits: "u8_from_hex (hex_digit (unat b div 16)) (hex_digit (unat b mod 16)) = Some b"
proof -
  have b: "unat b < 256" using unsigned_less [where ?'a = nat, of b] by simp
  then have "hex_digit (unat b div 16) \<noteq> CHR ''+''" by (auto simp: hex_digit_def dest: arg_cong [of _ _ "of_char :: char \<Rightarrow> nat"])
  moreover have "hex_digit_value (hex_digit (unat b div 16)) = Some (unat b div 16)" "hex_digit_value (hex_digit (unat b mod 16)) = Some (unat b mod 16)"
    using b by (simp_all add: hex_digit_value_hex_digit)
  moreover have "(of_nat (16 * (unat b div 16) + unat b mod 16) :: 8 word) = b" by (simp only: mult_div_mod_eq) simp
  ultimately show ?thesis by (simp add: u8_from_hex_def del: of_nat_add of_nat_mult)
qed

lemma hex_pairs_hex: "hex_pairs (hex bs) = Some (Inr bs)"
proof (induction bs)
  case Nil
  then show ?case by (simp add: hex_def)
next
  case (Cons b bs)
  have "\<not> continues_char (hd (hex bs))" if "hex bs \<noteq> []"
    using hex_chars [of "hd (hex bs)" bs] that by (auto simp: continues_char_def is_continuation_def)
  with Cons show ?case by (cases "hex bs = []") (simp_all add: hex_Cons u8_from_hex_digits)
qed

lemma seal_from_hex_hex: "seal_from_hex (hex bs) = Some (Inr bs)"
proof -
  have "length (hex bs) = 2 * length bs" by (induction bs) (simp_all add: hex_Cons hex_def)
  then show ?thesis by (simp add: seal_from_hex_def hex_pairs_hex)
qed

text \<open>What the check of a seal asks: a signature, by the first published key of that name, over its body.\<close>

definition seal_signed_by :: "trail_reader \<Rightarrow> audit_env \<Rightarrow> Jwk list \<Rightarrow> Seal \<Rightarrow> bool" where
  "seal_signed_by io env published s \<longleftrightarrow>
     (\<exists>key_id txt key made. seal_kid s = Some key_id \<and> seal_signature s = Some txt
        \<and> find (\<lambda>key. jwk_kid key = key_id) published = Some key \<and> seal_from_hex txt = Some (Inr made)
        \<and> verify_signature (tr_ed25519 io) key (signed_bytes env s) made)"

lemma check_seals_Inr:
  "check_seals io env published ss n = Some (Inr m) \<longleftrightarrow> list_all (seal_signed_by io env published) ss \<and> m = n + length ss"
proof (induction ss arbitrary: n)
  case Nil
  then show ?case by auto
next
  case (Cons s ss)
  show ?case
  proof (cases "seal_signed_by io env published s")
    case True
    then have "check_seals io env published (s # ss) n = check_seals io env published ss (n + 1)"
      by (auto simp: seal_signed_by_def)
    with True Cons.IH show ?thesis by auto
  next
    case False
    then have "check_seals io env published (s # ss) n \<noteq> Some (Inr m)"
      by (auto simp: seal_signed_by_def Let_def split: option.splits sum.splits)
    with False show ?thesis by simp
  qed
qed

section \<open>Properties\<close>

text \<open>
  C31: what checking a trail against a key set says. With a key set the command succeeds exactly when the
  trail verifies and every seal it holds is signed by the published key it names, over its own bytes;
  without seals there is nothing more to check. The number it reports is the number of seals.
\<close>

theorem trail_check_is_exact:
  assumes "tr_read io path = Some txt" "tr_parse_keys io txt = Some published"
  shows "verify_audit_trail io env directory (Some path) = Some (Inr summary) \<longleftrightarrow>
    (\<exists>v. verify env (tr_files io directory) = Inr v \<and> list_all (seal_signed_by io env published) (ver_seals v)
       \<and> summary = (if ver_seals v = [] then trail_summary v
           else trail_summary v @ [newline] @ digits_of (length (ver_seals v)) @ '' seal(s) verify against the key set.''))"
proof (cases "verify env (tr_files io directory)")
  case (Inl e)
  then show ?thesis by (simp add: verify_audit_trail_def)
next
  case (Inr v)
  show ?thesis
  proof (cases "ver_seals v = []")
    case True
    with Inr show ?thesis by (auto simp: verify_audit_trail_def)
  next
    case False
    let ?report = "\<lambda>checked. trail_summary v @ [newline] @ digits_of checked @ '' seal(s) verify against the key set.''"
    have "verify_audit_trail io env directory (Some path)
        = map_option (map_sum id ?report) (check_seals io env published (ver_seals v) 0)"
      using Inr False assms by (simp add: verify_audit_trail_def)
    moreover have "map_option (map_sum id ?report) r = Some (Inr summary) \<longleftrightarrow> (\<exists>m. r = Some (Inr m) \<and> summary = ?report m)"
      for r :: "(command_error + nat) option"
      by (cases r; cases "the r") auto
    ultimately show ?thesis using Inr False by (auto simp: check_seals_Inr)
  qed
qed

text \<open>
  A seal that the file sink makes with a ring that signs is one the check accepts, whatever the bytes of the
  signature are, when the primitive verifies what the ring signed under the key it names.
\<close>

lemma made_seal_is_signed:
  assumes "seal_signer env = Some keys_sign"
    and "keys_sign (as_bytes (json_seal_body env (seal_body (make_seal env now day records head)))) = Inr made"
    and "find (\<lambda>key. jwk_kid key = sig_key_id made) published = Some key"
    and "verify_signature (tr_ed25519 io) key (signed_bytes env (make_seal env now day records head)) (sig_bytes made)"
  shows "seal_signed_by io env published (make_seal env now day records head)"
  using assms unfolding seal_signed_by_def by (auto simp: make_seal_def Let_def seal_from_hex_hex)

text \<open>A signature that is not plain text stops the check with a panic instead of naming the seal.\<close>

theorem altered_signature_may_panic:
  "seal_from_hex [CHR ''a'', CHR 0xE2, CHR 0x82, CHR 0xAC] = None"
  "seal_from_hex ''+a'' = Some (Inr [10])"
  by (simp_all add: seal_from_hex_def continues_char_def is_continuation_def u8_from_hex_def hex_digit_value_def)

subsection \<open>Witnesses\<close>

text \<open>A trail of one record and its seal, signed by a key that the set publishes.\<close>

definition signing_env :: audit_env where
  "signing_env = demo_audit_env\<lparr> seal_signer := Some (\<lambda>payload. Inr \<lparr> sig_key_id = ''k'', sig_algorithm = ALGORITHM, sig_bytes = take 2 payload \<rparr>) \<rparr>"

definition sealed_record :: AuditRecord where
  "sealed_record = (let body = body_of demo_sink \<lparr>open_day = 0, open_seq = 0, open_previous = GENESIS\<rparr> 5 demo_event None in
     \<lparr> rec_body = body, rec_digest = expected_digest signing_env body \<rparr>)"

definition sealed_reader :: trail_reader where
  "sealed_reader = \<lparr>
     tr_files = (\<lambda>_. Some [(path_for 0, json_record signing_env sealed_record @ [newline]),
       (seal_path 0, json_seal signing_env (make_seal signing_env 9 0 1 (rec_digest sealed_record)))]),
     tr_read = (\<lambda>_. Some ''set''), tr_parse_keys = (\<lambda>_. Some [okp ''k'' CURVE ALGORITHM ''AA'']),
     tr_ed25519 = (\<lambda>public payload made. made = take 2 payload) \<rparr>"

lemma sealed_days: "days_in [(path_for 0, l), (seal_path 0, s)] = [0]"
  by (simp add: days_in_def map_filter_simps day_of_file_path_for nameable_def)

lemma signing_sound: "json_sound signing_env"
  using demo_json_sound by (simp add: json_sound_def signing_env_def)

abbreviation demo_seal :: Seal where
  "demo_seal \<equiv> make_seal signing_env 9 0 1 (rec_digest sealed_record)"

lemma sealed_verifies:
  "verify signing_env (tr_files sealed_reader d)
   = Inr \<lparr> ver_records = 1, ver_days = 1, ver_head = rec_digest sealed_record, ver_seals = [demo_seal] \<rparr>"
proof -
  let ?line = "json_record signing_env sealed_record" and ?seal = "json_seal signing_env demo_seal"
  have parsed: "parse_record signing_env ?line = Some sealed_record" "parse_seal signing_env ?seal = Some demo_seal"
    "line_is_utf8 ?line" "\<not> is_blank ?line"
    using signing_sound by (simp_all add: json_sound_def)
  have rec: "expected_digest signing_env (rec_body sealed_record) = rec_digest sealed_record"
    "body_prev (rec_body sealed_record) = GENESIS" "body_seq (rec_body sealed_record) = 1"
    by (simp_all add: sealed_record_def body_of_def Let_def)
  have sealed: "seal_records (seal_body demo_seal) = 1" "seal_head (seal_body demo_seal) = rec_digest sealed_record"
    by (simp_all add: make_seal_def Let_def)
  have lines: "str_lines (?line @ [newline]) = [?line]" by (rule json_line(1) [OF signing_sound])
  have names: "path_for 0 \<noteq> seal_path 0" using path_for_not_seal [of 0 0] by simp
  show ?thesis
    using names by (simp add: verify_def sealed_reader_def sealed_days parsed rec sealed lines verify_line_def verify_start_def Let_def)
qed

theorem trail_check_is_exact_witness:
  "\<exists>summary. verify_audit_trail sealed_reader signing_env ''d'' (Some ''set'') = Some (Inr summary)
     \<and> ver_seals (projr (verify signing_env (tr_files sealed_reader ''d''))) = [demo_seal]"
proof -
  have read: "tr_read sealed_reader ''set'' = Some ''set''"
    "tr_parse_keys sealed_reader ''set'' = Some [okp ''k'' CURVE ALGORITHM ''AA'']"
    by (simp_all add: sealed_reader_def)
  have "from_base64url ''AA'' \<noteq> None" by code_simp
  then have "seal_signed_by sealed_reader signing_env [okp ''k'' CURVE ALGORITHM ''AA''] demo_seal"
    by (intro made_seal_is_signed) (auto simp: signing_env_def okp_def verify_signature_def sealed_reader_def signed_bytes_def split: option.splits)
  then show ?thesis
    by (simp add: trail_check_is_exact [OF read] sealed_verifies)
qed

end
