(* ===== verification/Metrics.thy ===== *)
theory Metrics
  imports Decimal Json Lifecycle "HOL-Library.Product_Lexorder"
begin

text \<open>
  What the process counts about itself: \<open>crates/pic-x-core/src/metrics.rs\<close>, the registry of
  \<open>crates/pic-x-std/src/metrics.rs\<close>, the exposition of \<open>crates/pic-x-telemetry/src/exposition.rs\<close> with the probes
  beside it, and what a surface records of a request (\<open>crates/pic-x-transport/src/measure.rs\<close>). An \<open>f64\<close> is a type
  parameter with its operations in \<open>float_ops\<close>; the proofs use of its order that it is transitive. The
  \<open>HashMap\<close> is its list of entries in some order.
\<close>

section \<open>Definitions\<close>

subsection \<open>Declarations\<close>

datatype Kind = Counter | Gauge | Histogram

record 'f Metric =
  metric_name :: string
  metric_kind :: Kind
  metric_help :: string
  metric_buckets :: "'f list"

definition counter :: "string \<Rightarrow> string \<Rightarrow> 'f Metric" where
  "counter name help = \<lparr> metric_name = name, metric_kind = Counter, metric_help = help, metric_buckets = [] \<rparr>"

definition gauge :: "string \<Rightarrow> string \<Rightarrow> 'f Metric" where
  "gauge name help = \<lparr> metric_name = name, metric_kind = Gauge, metric_help = help, metric_buckets = [] \<rparr>"

definition histogram :: "string \<Rightarrow> string \<Rightarrow> 'f list \<Rightarrow> 'f Metric" where
  "histogram name help buckets = \<lparr> metric_name = name, metric_kind = Histogram, metric_help = help, metric_buckets = buckets \<rparr>"

type_synonym labels = "(string \<times> string) list"

datatype 'f Reading = ReadValue 'f | ReadDistribution "('f \<times> u64) list" u64 'f

record 'f Sample =
  sample_metric :: "'f Metric"
  sample_labels :: labels
  sample_reading :: "'f Reading"

record 'f float_ops =
  f_zero :: 'f
  f_one :: 'f
  f_add :: "'f \<Rightarrow> 'f \<Rightarrow> 'f"
  f_le :: "'f \<Rightarrow> 'f \<Rightarrow> bool"
  f_finite :: "'f \<Rightarrow> bool"
  f_whole :: "'f \<Rightarrow> int option"
  f_show :: "'f \<Rightarrow> string"

subsection \<open>The registry\<close>

definition SERIES_CEILING :: nat where "SERIES_CEILING = 10000"

type_synonym Series = "string \<times> labels"

datatype 'f Held = HeldValue 'f | HeldDistribution "u64 list" u64 'f

record 'f Registry =
  reg_series :: "(Series \<times> 'f Metric \<times> 'f Held) list"
  reg_overflowed :: bool

definition new_registry :: "'f Registry" where
  "new_registry = \<lparr> reg_series = [], reg_overflowed = False \<rparr>"

definition registry_len :: "'f Registry \<Rightarrow> nat" where
  "registry_len reg = length (reg_series reg)"

definition registry_is_empty :: "'f Registry \<Rightarrow> bool" where
  "registry_is_empty reg \<longleftrightarrow> registry_len reg = 0"

definition keyed :: "labels \<Rightarrow> labels" where
  "keyed labels = sort labels"

definition empty_held :: "'f float_ops \<Rightarrow> 'f Metric \<Rightarrow> 'f Held" where
  "empty_held ops metric =
     (case metric_kind metric of
        Histogram \<Rightarrow> HeldDistribution (replicate (length (metric_buckets metric)) 0) 0 (f_zero ops)
      | _ \<Rightarrow> HeldValue (f_zero ops))"

text \<open>The counts of the boundaries an observation falls within go up by one, as far as there are counts.\<close>

definition bump :: "'f float_ops \<Rightarrow> 'f list \<Rightarrow> 'f \<Rightarrow> u64 list \<Rightarrow> u64 list" where
  "bump ops boundaries v counts =
     map (\<lambda>(i, n). if i < length boundaries \<and> f_le ops v (boundaries ! i) then n + 1 else n) (enumerate 0 counts)"

definition apply_value :: "'f float_ops \<Rightarrow> 'f Metric \<Rightarrow> 'f Held \<Rightarrow> 'f \<Rightarrow> 'f Held" where
  "apply_value ops metric held v =
     (case (metric_kind metric, held) of
        (Counter, HeldValue current) \<Rightarrow> if f_le ops (f_zero ops) v then HeldValue (f_add ops current v) else held
      | (Gauge, HeldValue _) \<Rightarrow> HeldValue v
      | (Histogram, HeldDistribution counts n tally) \<Rightarrow>
          HeldDistribution (bump ops (metric_buckets metric) v counts) (n + 1) (f_add ops tally v)
      | _ \<Rightarrow> held)"

definition registry_record :: "'f float_ops \<Rightarrow> 'f Metric \<Rightarrow> labels \<Rightarrow> 'f \<Rightarrow> 'f Registry \<Rightarrow> 'f Registry" where
  "registry_record ops metric labels v reg =
     (if \<not> f_finite ops v then reg
      else
        (let key = (metric_name metric, keyed labels) in
         case map_of (reg_series reg) key of
           Some (declared, held) \<Rightarrow>
             reg\<lparr> reg_series := map (\<lambda>(k, d, h). if k = key then (k, d, apply_value ops metric h v) else (k, d, h)) (reg_series reg) \<rparr>
         | None \<Rightarrow>
             if SERIES_CEILING \<le> length (reg_series reg) then reg\<lparr> reg_overflowed := True \<rparr>
             else reg\<lparr> reg_series := (key, metric, apply_value ops metric (empty_held ops metric) v) # reg_series reg \<rparr>))"

definition read_held :: "'f Metric \<Rightarrow> 'f Held \<Rightarrow> 'f Reading" where
  "read_held metric held =
     (case held of
        HeldValue v \<Rightarrow> ReadValue v
      | HeldDistribution counts n tally \<Rightarrow> ReadDistribution (zip (metric_buckets metric) counts) n tally)"

definition registry_snapshot :: "'f Registry \<Rightarrow> 'f Sample list" where
  "registry_snapshot reg =
     sort_key (\<lambda>s. (metric_name (sample_metric s), sample_labels s))
       (map (\<lambda>((_, labels), metric, held). \<lparr> sample_metric = metric, sample_labels = labels, sample_reading = read_held metric held \<rparr>)
         (reg_series reg))"

subsection \<open>The handle\<close>

text \<open>A \<open>Metrics\<close> handle with nothing behind it discards.\<close>

type_synonym 'f Metrics = "'f Registry option"

definition is_recording :: "'f Metrics \<Rightarrow> bool" where
  "is_recording m \<longleftrightarrow> m \<noteq> None"

definition metrics_record :: "'f float_ops \<Rightarrow> 'f Metric \<Rightarrow> labels \<Rightarrow> 'f \<Rightarrow> 'f Metrics \<Rightarrow> 'f Metrics" where
  "metrics_record ops metric labels v m = map_option (registry_record ops metric labels v) m"

definition metrics_count :: "'f float_ops \<Rightarrow> 'f Metric \<Rightarrow> labels \<Rightarrow> 'f Metrics \<Rightarrow> 'f Metrics" where
  "metrics_count ops metric labels m = metrics_record ops metric labels (f_one ops) m"

definition metrics_snapshot :: "'f Metrics \<Rightarrow> 'f Sample list" where
  "metrics_snapshot m = (case m of Some reg \<Rightarrow> registry_snapshot reg | None \<Rightarrow> [])"

subsection \<open>The exposition\<close>

fun kind_word :: "Kind \<Rightarrow> string" where
  "kind_word Counter = ''counter''"
| "kind_word Gauge = ''gauge''"
| "kind_word Histogram = ''histogram''"

definition escaped_one :: "char \<Rightarrow> string" where
  "escaped_one c =
     (if c = CHR 0x5C then [CHR 0x5C, CHR 0x5C]
      else if c = CHR 0x22 then [CHR 0x5C, CHR 0x22]
      else if c = newline then [CHR 0x5C, CHR ''n'']
      else [c])"

definition escaped :: "string \<Rightarrow> string" where
  "escaped s = concat (map escaped_one s)"

definition show_int :: "int \<Rightarrow> string" where
  "show_int i = (if i < 0 then CHR ''-'' # digits_of (nat (- i)) else digits_of (nat i))"

definition number :: "'f float_ops \<Rightarrow> 'f \<Rightarrow> string" where
  "number ops v = (case f_whole ops v of Some i \<Rightarrow> show_int i | None \<Rightarrow> f_show ops v)"

definition render_label :: "string \<times> string \<Rightarrow> string" where
  "render_label l = fst l @ ''='' @ [CHR 0x22] @ escaped (snd l) @ [CHR 0x22]"

fun join_labels :: "string list \<Rightarrow> string" where
  "join_labels [] = []"
| "join_labels [w] = w"
| "join_labels (w # v # ws) = w @ '','' @ join_labels (v # ws)"

definition render_labels :: "labels \<Rightarrow> string option \<Rightarrow> string" where
  "render_labels ls le =
     (if ls = [] \<and> le = None then []
      else ''{'' @ join_labels (map render_label ls)
        @ (case le of
             None \<Rightarrow> []
           | Some boundary \<Rightarrow> (if ls \<noteq> [] then '','' else []) @ ''le='' @ [CHR 0x22] @ boundary @ [CHR 0x22])
        @ ''}'')"

definition header_lines :: "'f Metric \<Rightarrow> string list" where
  "header_lines m = [''# HELP '' @ metric_name m @ '' '' @ escaped (metric_help m), ''# TYPE '' @ metric_name m @ '' '' @ kind_word (metric_kind m)]"

definition sample_lines :: "'f float_ops \<Rightarrow> 'f Sample \<Rightarrow> string list" where
  "sample_lines ops s =
     (let name = metric_name (sample_metric s); ls = sample_labels s in
      case sample_reading s of
        ReadValue v \<Rightarrow> [name @ render_labels ls None @ '' '' @ number ops v]
      | ReadDistribution buckets n tally \<Rightarrow>
          map (\<lambda>(boundary, at). name @ ''_bucket'' @ render_labels ls (Some (number ops boundary)) @ '' '' @ digits_of (unat at)) buckets
          @ [name @ ''_bucket'' @ render_labels ls (Some ''+Inf'') @ '' '' @ digits_of (unat n),
             name @ ''_sum'' @ render_labels ls None @ '' '' @ number ops tally,
             name @ ''_count'' @ render_labels ls None @ '' '' @ digits_of (unat n)])"

fun render_from :: "'f float_ops \<Rightarrow> string option \<Rightarrow> 'f Sample list \<Rightarrow> string list" where
  "render_from ops described [] = []"
| "render_from ops described (s # ss) =
     (if described \<noteq> Some (metric_name (sample_metric s)) then header_lines (sample_metric s) else [])
     @ sample_lines ops s @ render_from ops (Some (metric_name (sample_metric s))) ss"

definition render :: "'f float_ops \<Rightarrow> 'f Sample list \<Rightarrow> string" where
  "render ops samples = concat (map (\<lambda>line. line @ [newline]) (render_from ops None samples))"

subsection \<open>The probes\<close>

definition UP :: "'f Metric" where "UP = gauge ''picx_up'' ''Whether the process reports itself live.''"
definition READY :: "'f Metric" where "READY = gauge ''picx_ready'' ''Whether the process is willing to be sent work.''"

record 'f Reported =
  reported_health :: Health
  reported_metrics :: "'f Metrics"

definition healthz :: "'f Reported \<Rightarrow> nat \<times> string" where
  "healthz r = (if health_live (reported_health r) then (200, ''live'' @ [newline]) else (503, ''not live'' @ [newline]))"

definition readyz :: "'f Reported \<Rightarrow> nat \<times> string" where
  "readyz r = (if health_ready (reported_health r) then (200, ''ready'' @ [newline]) else (503, ''not ready'' @ [newline]))"

definition f_of_bool :: "'f float_ops \<Rightarrow> bool \<Rightarrow> 'f" where
  "f_of_bool ops b = (if b then f_one ops else f_zero ops)"

definition health_samples :: "'f float_ops \<Rightarrow> Health \<Rightarrow> 'f Sample list" where
  "health_samples ops h =
     [\<lparr> sample_metric = UP, sample_labels = [], sample_reading = ReadValue (f_of_bool ops (health_live h)) \<rparr>,
      \<lparr> sample_metric = READY, sample_labels = [], sample_reading = ReadValue (f_of_bool ops (health_ready h)) \<rparr>]"

definition metrics_page :: "'f float_ops \<Rightarrow> 'f Reported \<Rightarrow> nat \<times> string" where
  "metrics_page ops r =
     (200, render ops (health_samples ops (reported_health r) @ metrics_snapshot (reported_metrics r)))"

subsection \<open>What a surface records\<close>

text \<open>The declarations of \<open>measure.rs\<close>; the boundaries of a duration are those of \<open>SECONDS\<close>.\<close>

definition REQUESTS :: "'f Metric" where
  "REQUESTS = counter ''picx_surface_requests_total'' ''Requests answered, by surface, method and status.''"

definition LATENCY :: "'f list \<Rightarrow> 'f Metric" where
  "LATENCY seconds = histogram ''picx_surface_request_seconds'' ''How long requests took, by surface and method.'' seconds"

definition method_of :: "string \<Rightarrow> string" where
  "method_of token =
     (if token \<in> set [''GET'', ''POST'', ''PUT'', ''DELETE'', ''HEAD'', ''OPTIONS'', ''PATCH'', ''TRACE''] then token else ''other'')"

text \<open>\<open>StatusCode::as_str\<close>: a status is a number of three digits.\<close>

definition measured :: "'f float_ops \<Rightarrow> 'f list \<Rightarrow> string \<Rightarrow> string \<Rightarrow> nat \<Rightarrow> 'f \<Rightarrow> 'f Metrics \<Rightarrow> 'f Metrics" where
  "measured ops seconds surface token status elapsed m =
     metrics_count ops REQUESTS [(''surface'', surface), (''method'', method_of token), (''status'', digits_of status)]
       (metrics_record ops (LATENCY seconds) [(''surface'', surface), (''method'', method_of token)] elapsed m)"

section \<open>Lemmas\<close>

subsection \<open>The registry holds what it should\<close>

fun held_fits :: "'f Metric \<Rightarrow> 'f Held \<Rightarrow> bool" where
  "held_fits metric (HeldValue _) \<longleftrightarrow> metric_kind metric \<noteq> Histogram"
| "held_fits metric (HeldDistribution counts _ _) \<longleftrightarrow> metric_kind metric = Histogram \<and> length counts = length (metric_buckets metric)"

definition one_declaration :: "'f Metric set \<Rightarrow> bool" where
  "one_declaration ms \<longleftrightarrow> (\<forall>m \<in> ms. \<forall>m' \<in> ms. metric_name m = metric_name m' \<longrightarrow> m = m')"

lemma length_bump [simp]: "length (bump ops bs v counts) = length counts"
  by (simp add: bump_def)

lemma nth_bump: "i < length counts \<Longrightarrow> i < length bs \<Longrightarrow> bump ops bs v counts ! i = (if f_le ops v (bs ! i) then counts ! i + 1 else counts ! i)"
  by (simp add: bump_def nth_enumerate_eq)

lemma held_fits_empty: "held_fits metric (empty_held ops metric)"
  by (simp add: empty_held_def split: Kind.splits)

lemma held_fits_apply: "held_fits metric held \<Longrightarrow> held_fits metric (apply_value ops metric held v)"
  by (cases held; cases "metric_kind metric") (simp_all add: apply_value_def)

lemma update_entry_keys [simp]: "map fst (map (\<lambda>(k, d, h). if k = key then (k, d, f h) else (k, d, h)) xs) = map fst xs"
  by (induction xs) auto

lemma map_of_update_entry:
  "map_of (map (\<lambda>(k, d, h). if k = key then (k, d, f h) else (k, d, h)) xs) k'
   = (if k' = key then map_option (\<lambda>(d, h). (d, f h)) (map_of xs k') else map_of xs k')"
  by (induction xs) auto

text \<open>A run of recordings, the ones that reach a series and what the series should then hold.\<close>

type_synonym 'f recording = "'f Metric \<times> labels \<times> 'f"

definition registry_run :: "'f float_ops \<Rightarrow> 'f recording list \<Rightarrow> 'f Registry" where
  "registry_run ops es = fold (\<lambda>(metric, labels, v). registry_record ops metric labels v) es new_registry"

definition observed :: "'f float_ops \<Rightarrow> Series \<Rightarrow> 'f recording list \<Rightarrow> 'f list" where
  "observed ops key es =
     map (\<lambda>(_, _, v). v) (filter (\<lambda>(metric, labels, v). f_finite ops v \<and> (metric_name metric, keyed labels) = key) es)"

definition expected_held :: "'f float_ops \<Rightarrow> 'f Metric \<Rightarrow> 'f list \<Rightarrow> 'f Held" where
  "expected_held ops metric vs = foldl (apply_value ops metric) (empty_held ops metric) vs"

definition tracked :: "'f float_ops \<Rightarrow> 'f recording list \<Rightarrow> 'f Registry \<Rightarrow> Series \<Rightarrow> bool" where
  "tracked ops es reg key \<longleftrightarrow>
     (case map_of (reg_series reg) key of
        None \<Rightarrow> observed ops key es = [] \<or> length (reg_series reg) = SERIES_CEILING \<and> reg_overflowed reg
      | Some (metric, held) \<Rightarrow> metric \<in> fst ` set es \<and> metric_name metric = fst key \<and> sorted (snd key)
          \<and> observed ops key es \<noteq> [] \<and> held = expected_held ops metric (observed ops key es))"

definition tracks :: "'f float_ops \<Rightarrow> 'f recording list \<Rightarrow> 'f Registry \<Rightarrow> bool" where
  "tracks ops es reg \<longleftrightarrow> distinct (map fst (reg_series reg)) \<and> length (reg_series reg) \<le> SERIES_CEILING
     \<and> (\<forall>key. tracked ops es reg key)"

lemma observed_snoc:
  "observed ops key (es @ [(metric, labels, v)])
   = observed ops key es @ (if f_finite ops v \<and> (metric_name metric, keyed labels) = key then [v] else [])"
  by (simp add: observed_def)

lemma expected_held_snoc: "expected_held ops metric (vs @ [v]) = apply_value ops metric (expected_held ops metric vs) v"
  by (simp add: expected_held_def)

lemma tracks_new: "tracks ops [] new_registry"
  by (simp add: tracks_def tracked_def new_registry_def observed_def)

lemma tracked_other:
  assumes "tracked ops es reg key" "\<not> (f_finite ops v \<and> (metric_name metric, keyed labels) = key)"
    and "map_of (reg_series reg') key = map_of (reg_series reg) key"
    and "length (reg_series reg) = SERIES_CEILING \<and> reg_overflowed reg \<Longrightarrow> length (reg_series reg') = SERIES_CEILING \<and> reg_overflowed reg'"
  shows "tracked ops (es @ [(metric, labels, v)]) reg' key"
  using assms by (auto simp: tracked_def observed_snoc split: option.splits)

lemma tracks_step:
  assumes "tracks ops es reg" and fits: "\<And>d h. map_of (reg_series reg) (metric_name metric, keyed labels) = Some (d, h) \<Longrightarrow> d = metric"
  shows "tracks ops (es @ [(metric, labels, v)]) (registry_record ops metric labels v reg)"
proof -
  let ?key = "(metric_name metric, keyed labels)" and ?reg = "registry_record ops metric labels v reg"
  have here: "tracked ops es reg key" for key using assms(1) unfolding tracks_def by blast
  have wf: "distinct (map fst (reg_series reg))" "length (reg_series reg) \<le> SERIES_CEILING" using assms(1) by (simp_all add: tracks_def)
  consider (not_finite) "\<not> f_finite ops v" | (held) h where "f_finite ops v" "map_of (reg_series reg) ?key = Some (metric, h)"
    | (full) "f_finite ops v" "map_of (reg_series reg) ?key = None" "SERIES_CEILING \<le> length (reg_series reg)"
    | (fresh) "f_finite ops v" "map_of (reg_series reg) ?key = None" "length (reg_series reg) < SERIES_CEILING"
    using fits by (metis not_less option.exhaust prod.exhaust)
  then show ?thesis
  proof cases
    case not_finite
    then have "?reg = reg" by (simp add: registry_record_def)
    moreover have "tracked ops (es @ [(metric, labels, v)]) reg key" for key
      using not_finite by (intro tracked_other [OF here]) simp_all
    ultimately show ?thesis using wf by (simp add: tracks_def)
  next
    case held
    then have reg: "?reg = reg\<lparr> reg_series := map (\<lambda>(k, d, h). if k = ?key then (k, d, apply_value ops metric h v) else (k, d, h)) (reg_series reg) \<rparr>"
      by (simp add: registry_record_def Let_def)
    have "tracked ops (es @ [(metric, labels, v)]) ?reg key" for key
    proof (cases "key = ?key")
      case True
      have "observed ops ?key (es @ [(metric, labels, v)]) = observed ops ?key es @ [v]" using held by (simp add: observed_snoc)
      with here [of ?key] held True show ?thesis
        by (simp add: tracked_def reg map_of_update_entry expected_held_snoc)
    next
      case False
      then show ?thesis by (intro tracked_other [OF here]) (simp_all add: reg map_of_update_entry)
    qed
    then show ?thesis using wf by (simp add: tracks_def reg del: map_map)
  next
    case full
    then have reg: "?reg = reg\<lparr> reg_overflowed := True \<rparr>" by (simp add: registry_record_def Let_def)
    have "tracked ops (es @ [(metric, labels, v)]) ?reg key" for key
    proof (cases "key = ?key")
      case True
      then show ?thesis using full wf by (simp add: tracked_def reg)
    next
      case False
      then show ?thesis by (intro tracked_other [OF here]) (simp_all add: reg)
    qed
    then show ?thesis using wf by (simp add: tracks_def reg)
  next
    case fresh
    then have reg: "?reg = reg\<lparr> reg_series := (?key, metric, apply_value ops metric (empty_held ops metric) v) # reg_series reg \<rparr>"
      by (simp add: registry_record_def Let_def)
    have "observed ops ?key es = []" using here [of ?key] fresh by (simp add: tracked_def)
    then have first: "observed ops ?key (es @ [(metric, labels, v)]) = [v]" using fresh by (simp add: observed_snoc)
    have "tracked ops (es @ [(metric, labels, v)]) ?reg key" for key
    proof (cases "key = ?key")
      case True
      then show ?thesis using first by (simp add: tracked_def reg expected_held_def keyed_def)
    next
      case False
      then show ?thesis using fresh by (intro tracked_other [OF here]) (auto simp: reg)
    qed
    then show ?thesis using wf fresh by (simp add: tracks_def reg map_of_eq_None_iff)
  qed
qed

lemma tracks_run:
  assumes "one_declaration (fst ` set es)"
  shows "tracks ops es (registry_run ops es)"
  using assms
proof (induction es rule: rev_induct)
  case Nil
  then show ?case by (simp add: registry_run_def tracks_new)
next
  case (snoc e es)
  obtain metric labels v where e: "e = (metric, labels, v)" by (cases e)
  let ?reg = "registry_run ops es"
  have IH: "tracks ops es ?reg" using snoc by (auto simp: one_declaration_def)
  have step: "registry_run ops (es @ [(metric, labels, v)]) = registry_record ops metric labels v ?reg" by (simp add: registry_run_def)
  have "d = metric" if "map_of (reg_series ?reg) (metric_name metric, keyed labels) = Some (d, h)" for d h
  proof -
    have "tracked ops es ?reg (metric_name metric, keyed labels)" using IH unfolding tracks_def by blast
    with that have "d \<in> fst ` set es" "metric_name d = metric_name metric" by (simp_all add: tracked_def)
    with snoc.prems show ?thesis by (force simp: one_declaration_def e)
  qed
  then show ?case unfolding e step by (rule tracks_step [OF IH])
qed

subsection \<open>What a series reads\<close>

text \<open>The reading a metric should have after some observations, by its kind.\<close>

definition spec_reading :: "'f float_ops \<Rightarrow> 'f Metric \<Rightarrow> 'f list \<Rightarrow> 'f Reading" where
  "spec_reading ops metric vs =
     (case metric_kind metric of
        Counter \<Rightarrow> ReadValue (foldl (f_add ops) (f_zero ops) (filter (f_le ops (f_zero ops)) vs))
      | Gauge \<Rightarrow> ReadValue (if vs = [] then f_zero ops else last vs)
      | Histogram \<Rightarrow> ReadDistribution
          (map (\<lambda>b. (b, of_nat (length (filter (\<lambda>v. f_le ops v b) vs)))) (metric_buckets metric))
          (of_nat (length vs)) (foldl (f_add ops) (f_zero ops) vs))"

lemma expected_histogram:
  assumes "metric_kind metric = Histogram"
  shows "expected_held ops metric vs = HeldDistribution
     (map (\<lambda>b. of_nat (length (filter (\<lambda>v. f_le ops v b) vs))) (metric_buckets metric)) (of_nat (length vs)) (foldl (f_add ops) (f_zero ops) vs)"
proof (induction vs rule: rev_induct)
  case Nil
  then show ?case using assms by (simp add: expected_held_def empty_held_def map_replicate_const)
next
  case (snoc v vs)
  have "bump ops (metric_buckets metric) v (map (\<lambda>b. of_nat (length (filter (\<lambda>v. f_le ops v b) vs))) (metric_buckets metric))
     = map (\<lambda>b. of_nat (length (filter (\<lambda>v. f_le ops v b) (vs @ [v])))) (metric_buckets metric)"
    by (rule nth_equalityI) (simp_all add: nth_bump)
  with snoc assms show ?case by (simp add: expected_held_snoc apply_value_def)
qed

lemma expected_counter:
  assumes "metric_kind metric = Counter"
  shows "expected_held ops metric vs = HeldValue (foldl (f_add ops) (f_zero ops) (filter (f_le ops (f_zero ops)) vs))"
proof (induction vs rule: rev_induct)
  case Nil
  then show ?case using assms by (simp add: expected_held_def empty_held_def)
next
  case (snoc v vs)
  then show ?case using assms by (simp add: expected_held_snoc apply_value_def)
qed

lemma expected_gauge:
  assumes "metric_kind metric = Gauge"
  shows "expected_held ops metric vs = HeldValue (if vs = [] then f_zero ops else last vs)"
proof (induction vs rule: rev_induct)
  case Nil
  then show ?case using assms by (simp add: expected_held_def empty_held_def)
next
  case (snoc v vs)
  then show ?case using assms by (simp add: expected_held_snoc apply_value_def)
qed

lemma read_expected: "read_held metric (expected_held ops metric vs) = spec_reading ops metric vs"
  by (cases "metric_kind metric")
     (simp_all add: spec_reading_def read_held_def expected_histogram expected_counter expected_gauge zip_map2 zip_same_conv_map)

subsection \<open>The snapshot\<close>

definition sample_key :: "'f Sample \<Rightarrow> Series" where
  "sample_key s = (metric_name (sample_metric s), sample_labels s)"

definition entry_sample :: "Series \<times> 'f Metric \<times> 'f Held \<Rightarrow> 'f Sample" where
  "entry_sample = (\<lambda>((_, labels), metric, held). \<lparr> sample_metric = metric, sample_labels = labels, sample_reading = read_held metric held \<rparr>)"

lemma snapshot_alt: "registry_snapshot reg = sort_key sample_key (map entry_sample (reg_series reg))"
  by (simp add: registry_snapshot_def sample_key_def [abs_def] entry_sample_def)

lemma tracks_entry:
  assumes "tracks ops es reg" "e \<in> set (reg_series reg)"
  shows "sample_key (entry_sample e) = fst e" "fst (snd e) \<in> fst ` set es" "observed ops (fst e) es \<noteq> []"
    "sample_reading (entry_sample e) = spec_reading ops (fst (snd e)) (observed ops (fst e) es)" "sorted (snd (fst e))"
proof -
  obtain key metric held where e: "e = (key, metric, held)" by (cases e) auto
  have "distinct (map fst (reg_series reg))" using assms(1) by (simp add: tracks_def)
  with assms(2) e have "map_of (reg_series reg) key = Some (metric, held)" by simp
  moreover have "tracked ops es reg key" using assms(1) unfolding tracks_def by blast
  ultimately have "metric \<in> fst ` set es" "metric_name metric = fst key" "sorted (snd key)" "observed ops key es \<noteq> []"
    "held = expected_held ops metric (observed ops key es)" by (simp_all add: tracked_def)
  then show "sample_key (entry_sample e) = fst e" "fst (snd e) \<in> fst ` set es" "observed ops (fst e) es \<noteq> []"
    "sample_reading (entry_sample e) = spec_reading ops (fst (snd e)) (observed ops (fst e) es)" "sorted (snd (fst e))"
    by (auto simp: e sample_key_def entry_sample_def read_expected split: prod.splits)
qed

lemma snapshot_keys:
  assumes "tracks ops es reg"
  shows "set (map sample_key (registry_snapshot reg)) = fst ` set (reg_series reg)"
    "sorted_wrt (<) (map sample_key (registry_snapshot reg))" "length (registry_snapshot reg) = registry_len reg"
proof -
  have keys: "map sample_key (map entry_sample (reg_series reg)) = map fst (reg_series reg)"
    using tracks_entry(1) [OF assms] by simp
  show "set (map sample_key (registry_snapshot reg)) = fst ` set (reg_series reg)"
    unfolding snapshot_alt set_map set_sort by (simp only: keys flip: set_map)
  have "distinct (map sample_key (map entry_sample (reg_series reg)))" unfolding keys using assms by (simp add: tracks_def)
  then have "distinct (map sample_key (registry_snapshot reg))" unfolding snapshot_alt
    by (simp only: distinct_map distinct_sort set_sort)
  moreover have "sorted (map sample_key (registry_snapshot reg))" unfolding snapshot_alt by (rule sorted_sort_key)
  ultimately show "sorted_wrt (<) (map sample_key (registry_snapshot reg))" by (simp add: strict_sorted_iff)
  show "length (registry_snapshot reg) = registry_len reg" by (simp add: snapshot_alt registry_len_def)
qed

subsection \<open>Reading the exposition back\<close>

text \<open>How a scraper reads a quoted value, and the label set it stands in.\<close>

fun read_value :: "string \<Rightarrow> (string \<times> string) option" where
  "read_value [] = None"
| "read_value (c # cs) =
     (if c = CHR 0x22 then Some ([], cs)
      else if c = CHR 0x5C then
        (case cs of
           [] \<Rightarrow> None
         | d # ds \<Rightarrow> map_option (\<lambda>(v, rest). ((if d = CHR ''n'' then newline else d) # v, rest)) (read_value ds))
      else map_option (\<lambda>(v, rest). (c # v, rest)) (read_value cs))"

fun read_pairs :: "nat \<Rightarrow> string \<Rightarrow> (labels \<times> string) option" where
  "read_pairs 0 s = None"
| "read_pairs (Suc n) s =
     (case split_once (CHR ''='') s of
        Some (name, q # rest) \<Rightarrow>
          if q \<noteq> CHR 0x22 then None
          else (case read_value rest of
             Some (v, c # rest) \<Rightarrow>
               if c = CHR '','' then map_option (\<lambda>(ls, rest). ((name, v) # ls, rest)) (read_pairs n rest)
               else if c = CHR ''}'' then Some ([(name, v)], rest)
               else None
           | _ \<Rightarrow> None)
      | _ \<Rightarrow> None)"

definition read_labels :: "string \<Rightarrow> (labels \<times> string) option" where
  "read_labels s = (case s of c # cs \<Rightarrow> if c = CHR ''{'' then read_pairs (length cs) cs else Some ([], s) | [] \<Rightarrow> Some ([], []))"

lemma read_value_escaped: "read_value (escaped v @ CHR 0x22 # rest) = Some (v, rest)"
  by (induction v) (auto simp: escaped_def escaped_one_def newline_def)

lemma newline_not_escaped: "newline \<notin> set (escaped v)"
  by (induction v) (auto simp: escaped_def escaped_one_def newline_def)

lemma read_pair:
  assumes "CHR ''='' \<notin> set (fst l)"
  shows "read_pairs (Suc n) (render_label l @ c # rest) =
    (if c = CHR '','' then map_option (\<lambda>(ls, rest). (l # ls, rest)) (read_pairs n rest)
     else if c = CHR ''}'' then Some ([l], rest) else None)"
proof -
  have "split_once (CHR ''='') (render_label l @ c # rest) = Some (fst l, CHR 0x22 # escaped (snd l) @ CHR 0x22 # c # rest)"
    using assms by (simp add: render_label_def split_once_Some)
  moreover have "read_value (escaped (snd l) @ CHR 0x22 # c # rest) = Some (snd l, c # rest)" by (rule read_value_escaped)
  ultimately show ?thesis by simp
qed

lemma read_joined:
  "ls \<noteq> [] \<Longrightarrow> \<forall>l \<in> set ls. CHR ''='' \<notin> set (fst l) \<Longrightarrow> length ls \<le> n
   \<Longrightarrow> read_pairs n (join_labels (map render_label ls) @ CHR ''}'' # rest) = Some (ls, rest)"
proof (induction ls arbitrary: n)
  case Nil
  then show ?case by simp
next
  case (Cons l ls)
  then obtain k where k: "n = Suc k" by (cases n) auto
  show ?case
  proof (cases ls)
    case Nil
    with Cons.prems k show ?thesis by (simp add: read_pair del: read_pairs.simps)
  next
    case (Cons l' ls')
    let ?tail = "join_labels (map render_label ls) @ CHR ''}'' # rest"
    have "join_labels (map render_label (l # ls)) @ CHR ''}'' # rest = render_label l @ CHR '','' # ?tail"
      using Cons by simp
    moreover have "read_pairs k ?tail = Some (ls, rest)" using Cons.IH Cons.prems Cons k by simp
    ultimately show ?thesis using Cons.prems k by (simp add: read_pair del: read_pairs.simps join_labels.simps)
  qed
qed

text \<open>The boundary of a bucket is one more label.\<close>

definition with_le :: "labels \<Rightarrow> string option \<Rightarrow> labels" where
  "with_le ls le = ls @ (case le of Some b \<Rightarrow> [(''le'', b)] | None \<Rightarrow> [])"

lemma join_labels_snoc: "join_labels (ws @ [w]) = join_labels ws @ (if ws \<noteq> [] then '','' else []) @ w"
  by (induction ws rule: join_labels.induct) simp_all

lemma render_labels_alt:
  assumes "\<forall>b. le = Some b \<longrightarrow> escaped b = b" "with_le ls le \<noteq> []"
  shows "render_labels ls le = ''{'' @ join_labels (map render_label (with_le ls le)) @ ''}''"
  using assms
  by (cases le) (auto simp: render_labels_def with_le_def join_labels_snoc render_label_def split: if_splits)

lemma length_join_labels: "length (join_labels (map render_label ls)) \<ge> length ls"
  by (induction ls rule: induct_list012) (simp_all add: render_label_def)

lemma read_rendered_labels:
  assumes "\<forall>l \<in> set ls. CHR ''='' \<notin> set (fst l)" "\<forall>b. le = Some b \<longrightarrow> escaped b = b"
  shows "read_labels (render_labels ls le @ '' '' @ rest) = Some (with_le ls le, '' '' @ rest)"
proof (cases "with_le ls le = []")
  case True
  then have "ls = [] \<and> le = None" by (auto simp: with_le_def split: option.splits)
  then show ?thesis by (simp add: render_labels_def read_labels_def with_le_def)
next
  case False
  let ?ls = "with_le ls le"
  have names: "\<forall>l \<in> set ?ls. CHR ''='' \<notin> set (fst l)" using assms(1) by (auto simp: with_le_def split: option.splits)
  have "length ?ls \<le> length (join_labels (map render_label ?ls) @ CHR ''}'' # '' '' @ rest)"
    using length_join_labels [of ?ls] by simp
  from read_joined [OF False names this] show ?thesis
    by (simp add: render_labels_alt [OF assms(2) False] read_labels_def)
qed

lemma record_key_list:
  "map fst (reg_series (registry_record ops metric labels v reg)) = map fst (reg_series reg)
   \<or> (metric_name metric, keyed labels) \<notin> set (map fst (reg_series reg))
     \<and> map fst (reg_series (registry_record ops metric labels v reg)) = (metric_name metric, keyed labels) # map fst (reg_series reg)"
proof (cases "map_of (reg_series reg) (metric_name metric, keyed labels)")
  case None
  then have "(metric_name metric, keyed labels) \<notin> set (map fst (reg_series reg))" by (simp add: map_of_eq_None_iff)
  with None show ?thesis by (simp add: registry_record_def Let_def)
next
  case (Some p)
  then have "map fst (reg_series (registry_record ops metric labels v reg)) = map fst (reg_series reg)"
    by (cases p) (simp add: registry_record_def Let_def del: map_map)
  then show ?thesis ..
qed

lemma record_keys:
  "set (map fst (reg_series (registry_record ops metric labels v reg))) \<subseteq> insert (metric_name metric, keyed labels) (set (map fst (reg_series reg)))"
  "distinct (map fst (reg_series reg)) \<Longrightarrow> distinct (map fst (reg_series (registry_record ops metric labels v reg)))"
  using record_key_list [of ops metric labels v reg] by (elim disjE conjE; simp only: distinct.simps set_simps; blast)+

lemma metric_names: "metric_name REQUESTS = ''picx_surface_requests_total''" "metric_name (LATENCY seconds) = ''picx_surface_request_seconds''"
  by (simp_all add: REQUESTS_def LATENCY_def counter_def histogram_def)

text \<open>The requests a process answers, each with its surface, method token, status and duration.\<close>

definition answer_all :: "'f float_ops \<Rightarrow> 'f list \<Rightarrow> (string \<times> string \<times> nat \<times> 'f) list \<Rightarrow> 'f Registry" where
  "answer_all ops seconds rs =
     the (fold (\<lambda>(surface, token, status, elapsed). measured ops seconds surface token status elapsed) rs (Some new_registry))"

definition method_names :: "string list" where
  "method_names = [''GET'', ''POST'', ''PUT'', ''DELETE'', ''HEAD'', ''OPTIONS'', ''PATCH'', ''TRACE'', ''other'']"

definition request_keys :: "string set \<Rightarrow> nat set \<Rightarrow> Series set" where
  "request_keys surfaces statuses =
     (\<lambda>(surface, method). (''picx_surface_request_seconds'', keyed [(''surface'', surface), (''method'', method)])) ` (surfaces \<times> set method_names)
     \<union> (\<lambda>(surface, method, status). (''picx_surface_requests_total'',
          keyed [(''surface'', surface), (''method'', method), (''status'', digits_of status)])) ` (surfaces \<times> set method_names \<times> statuses)"

lemma method_of_known: "method_of token \<in> set method_names"
  by (simp add: method_of_def method_names_def)

lemma measured_Some:
  "measured ops seconds surface token status elapsed (Some reg)
   = Some (registry_record ops REQUESTS [(''surface'', surface), (''method'', method_of token), (''status'', digits_of status)] (f_one ops)
       (registry_record ops (LATENCY seconds) [(''surface'', surface), (''method'', method_of token)] elapsed reg))"
  by (simp add: measured_def metrics_count_def metrics_record_def)

lemma answer_keys:
  assumes "\<forall>(surface, token, status, elapsed) \<in> set rs. surface \<in> surfaces \<and> status \<in> statuses"
  shows "set (map fst (reg_series (answer_all ops seconds rs))) \<subseteq> request_keys surfaces statuses
    \<and> distinct (map fst (reg_series (answer_all ops seconds rs)))"
proof -
  have "\<exists>reg'. fold (\<lambda>(surface, token, status, elapsed). measured ops seconds surface token status elapsed) rs (Some reg) = Some reg'
      \<and> set (map fst (reg_series reg')) \<subseteq> request_keys surfaces statuses \<and> distinct (map fst (reg_series reg'))"
    if "set (map fst (reg_series reg)) \<subseteq> request_keys surfaces statuses" "distinct (map fst (reg_series reg))" for reg
    using assms that
  proof (induction rs arbitrary: reg)
    case Nil
    then show ?case by simp
  next
    case (Cons r rs)
    obtain surface token status elapsed where r: "r = (surface, token, status, elapsed)" by (cases r)
    let ?latency = "registry_record ops (LATENCY seconds) [(''surface'', surface), (''method'', method_of token)] elapsed reg"
    let ?requests = "registry_record ops REQUESTS [(''surface'', surface), (''method'', method_of token), (''status'', digits_of status)] (f_one ops) ?latency"
    have known: "surface \<in> surfaces" "status \<in> statuses" "method_of token \<in> set method_names" using Cons.prems(1) r method_of_known by auto
    then have keys: "(''picx_surface_request_seconds'', keyed [(''surface'', surface), (''method'', method_of token)]) \<in> request_keys surfaces statuses"
      "(''picx_surface_requests_total'', keyed [(''surface'', surface), (''method'', method_of token), (''status'', digits_of status)]) \<in> request_keys surfaces statuses"
      by (auto simp: request_keys_def image_iff)
    have "set (map fst (reg_series ?latency)) \<subseteq> request_keys surfaces statuses"
      using record_keys(1) [of ops "LATENCY seconds", unfolded metric_names] Cons.prems(2) keys(1) by blast
    then have "set (map fst (reg_series ?requests)) \<subseteq> request_keys surfaces statuses"
      using record_keys(1) [of ops REQUESTS, unfolded metric_names] keys(2) by blast
    moreover have "distinct (map fst (reg_series ?requests))" using Cons.prems(3) by (intro record_keys(2))
    ultimately show ?case using Cons.IH Cons.prems(1) by (simp only: r measured_Some fold_simps prod.case) simp
  qed
  from this [of new_registry] show ?thesis by (force simp: answer_all_def new_registry_def)
qed

lemma request_keys_card:
  assumes "finite surfaces" "finite statuses"
  shows "finite (request_keys surfaces statuses)" "card (request_keys surfaces statuses) \<le> card surfaces * 9 * (1 + card statuses)"
proof -
  have nine: "card (set method_names) = 9" by (simp add: method_names_def)
  show "finite (request_keys surfaces statuses)" using assms by (simp add: request_keys_def)
  have "card (request_keys surfaces statuses) \<le> card (surfaces \<times> set method_names) + card (surfaces \<times> set method_names \<times> statuses)"
    unfolding request_keys_def using assms by (intro order_trans [OF card_Un_le] add_mono card_image_le) auto
  also have "\<dots> = card surfaces * 9 * (1 + card statuses)" by (simp add: card_cartesian_product nine algebra_simps)
  finally show "card (request_keys surfaces statuses) \<le> card surfaces * 9 * (1 + card statuses)" .
qed

lemma join_labels_one_line: "\<forall>l \<in> set ls. newline \<notin> set (fst l) \<Longrightarrow> newline \<notin> set (join_labels (map render_label ls))"
proof (induction ls rule: induct_list012)
  case (3 l l' ls)
  then show ?case using newline_not_escaped [of "snd l"] by (simp add: render_label_def newline_def)
qed (use newline_not_escaped in \<open>auto simp: render_label_def newline_def\<close>)

lemma render_labels_one_line:
  assumes "\<forall>l \<in> set ls. newline \<notin> set (fst l)" "\<forall>b. le = Some b \<longrightarrow> newline \<notin> set b"
  shows "newline \<notin> set (render_labels ls le)"
  using join_labels_one_line [OF assms(1)] assms(2) by (auto simp: render_labels_def newline_def split: option.splits)

text \<open>How often a metric is announced: the lines that state its type.\<close>

definition announces :: "string \<Rightarrow> string \<Rightarrow> bool" where
  "announces name line \<longleftrightarrow> starts_with (''# TYPE '' @ name @ '' '') line"

definition plain_name :: "string \<Rightarrow> bool" where
  "plain_name name \<longleftrightarrow> name \<noteq> [] \<and> hd name \<noteq> CHR ''#'' \<and> CHR '' '' \<notin> set name"

lemma header_announces:
  assumes "plain_name name" "plain_name (metric_name m)"
  shows "length (filter (announces name) (header_lines m)) = (if metric_name m = name then 1 else 0)"
proof -
  have "metric_name m @ '' '' @ w = name @ '' '' @ r \<longleftrightarrow> metric_name m = name \<and> w = r" for r w
  proof -
    have "split_once (CHR '' '') (name @ '' '' @ r) = Some (name, r)" "split_once (CHR '' '') (metric_name m @ '' '' @ w) = Some (metric_name m, w)"
      using assms by (simp_all add: plain_name_def split_once_Some)
    then show ?thesis by (metis option.inject prod.inject)
  qed
  then have "announces name (''# TYPE '' @ metric_name m @ '' '' @ kind_word (metric_kind m)) \<longleftrightarrow> metric_name m = name"
    by (auto simp: announces_def starts_with_iff)
  moreover have "\<not> announces name (''# HELP '' @ metric_name m @ '' '' @ escaped (metric_help m))"
    by (simp add: announces_def starts_with_iff)
  ultimately show ?thesis by (simp add: header_lines_def)
qed

lemma sample_never_announces:
  assumes "plain_name (metric_name (sample_metric s))"
  shows "filter (announces name) (sample_lines ops s) = []"
proof -
  obtain c cs where "metric_name (sample_metric s) = c # cs" "c \<noteq> CHR ''#''" using assms by (cases "metric_name (sample_metric s)") (auto simp: plain_name_def)
  then show ?thesis
    by (auto simp: sample_lines_def Let_def announces_def starts_with_iff filter_empty_conv split: Reading.splits)
qed

lemma announced_in_order:
  assumes "plain_name name" "\<forall>s \<in> set ss. plain_name (metric_name (sample_metric s))"
    and "sorted (map (metric_name \<circ> sample_metric) ss)"
    and "\<forall>d. described = Some d \<longrightarrow> d \<notin> (metric_name \<circ> sample_metric) ` set ss \<or> (\<forall>s \<in> set ss. d \<le> metric_name (sample_metric s))"
  shows "length (filter (announces name) (render_from ops described ss))
    = (if name \<in> (metric_name \<circ> sample_metric) ` set ss \<and> described \<noteq> Some name then 1 else 0)"
  using assms
proof (induction ss arbitrary: described)
  case Nil
  then show ?case by simp
next
  case (Cons s ss)
  let ?n = "metric_name (sample_metric s)"
  have rest: "length (filter (announces name) (render_from ops (Some ?n) ss))
      = (if name \<in> (metric_name \<circ> sample_metric) ` set ss \<and> name \<noteq> ?n then 1 else 0)"
    using Cons.IH [of "Some ?n"] Cons.prems(1-3) by auto
  have first: "length (filter (announces name) (header_lines (sample_metric s))) = (if ?n = name then 1 else 0)"
    using Cons.prems(1,2) by (intro header_announces) simp_all
  have never: "filter (announces name) (sample_lines ops s) = []" using Cons.prems(2) by (intro sample_never_announces) simp
  have "name \<notin> (metric_name \<circ> sample_metric) ` set ss" if "described = Some name" "?n \<noteq> name"
    using Cons.prems(3,4) that by (auto simp: order_antisym)
  then show ?case using rest first never by (auto simp: filter_append)
qed

section \<open>Properties\<close>

text \<open>
  C35: the registry reads what was recorded. After any run of recordings whose metrics are declared once, a
  snapshot has at most \<open>SERIES_CEILING\<close> samples, in strictly increasing order of name and labels; each one
  reads exactly the observations of its series, as its kind says: a counter the sum of those that are not
  negative, a gauge the last one, a histogram how many fall within each boundary, how many there are and
  their sum. A series that was observed and is not there was refused by the ceiling, which was noted.
\<close>

theorem registry_reads_what_was_recorded:
  assumes "one_declaration (fst ` set es)"
  shows "let reg = registry_run ops es; samples = registry_snapshot reg in
    length samples \<le> SERIES_CEILING
    \<and> sorted_wrt (<) (map sample_key samples)
    \<and> (\<forall>s \<in> set samples. sample_metric s \<in> fst ` set es \<and> observed ops (sample_key s) es \<noteq> []
         \<and> sample_reading s = spec_reading ops (sample_metric s) (observed ops (sample_key s) es))
    \<and> (\<forall>key. observed ops key es \<noteq> [] \<longrightarrow> key \<in> sample_key ` set samples
         \<or> length samples = SERIES_CEILING \<and> reg_overflowed reg)"
proof -
  let ?reg = "registry_run ops es"
  have tracks: "tracks ops es ?reg" by (rule tracks_run [OF assms])
  note keys = snapshot_keys [OF tracks]
  have "\<forall>s \<in> set (registry_snapshot ?reg). sample_metric s \<in> fst ` set es \<and> observed ops (sample_key s) es \<noteq> []
         \<and> sample_reading s = spec_reading ops (sample_metric s) (observed ops (sample_key s) es)"
  proof
    fix s assume "s \<in> set (registry_snapshot ?reg)"
    then obtain e where e: "e \<in> set (reg_series ?reg)" "s = entry_sample e" by (auto simp: snapshot_alt)
    have "sample_metric s = fst (snd e)" by (auto simp: e(2) entry_sample_def split: prod.splits)
    with tracks_entry [OF tracks e(1)] e(2)
    show "sample_metric s \<in> fst ` set es \<and> observed ops (sample_key s) es \<noteq> []
         \<and> sample_reading s = spec_reading ops (sample_metric s) (observed ops (sample_key s) es)" by simp
  qed
  moreover have "key \<in> sample_key ` set (registry_snapshot ?reg) \<or> length (registry_snapshot ?reg) = SERIES_CEILING \<and> reg_overflowed ?reg"
    if "observed ops key es \<noteq> []" for key
  proof -
    have "tracked ops es ?reg key" using tracks unfolding tracks_def by blast
    with that have "map_of (reg_series ?reg) key \<noteq> None \<or> registry_len ?reg = SERIES_CEILING \<and> reg_overflowed ?reg"
      by (auto simp: tracked_def registry_len_def split: option.splits)
    then show ?thesis using keys(1,3) by (auto simp: map_of_eq_None_iff)
  qed
  moreover have "length (registry_snapshot ?reg) \<le> SERIES_CEILING" using keys(3) tracks by (simp add: tracks_def registry_len_def)
  ultimately show ?thesis unfolding Let_def using keys(2) by blast
qed

text \<open>
  Clients do not decide how many series there are. However many requests a surface answers and whatever
  methods clients make up, the series they leave are at most nine for each surface and nine more for each
  status a surface answered with.
\<close>

theorem clients_cannot_add_series:
  assumes "finite surfaces" "finite statuses"
    and "\<forall>(surface, token, status, elapsed) \<in> set rs. surface \<in> surfaces \<and> status \<in> statuses"
  shows "registry_len (answer_all ops seconds rs) \<le> card surfaces * 9 * (1 + card statuses)"
proof -
  let ?reg = "answer_all ops seconds rs"
  have "registry_len ?reg = card (set (map fst (reg_series ?reg)))"
    using answer_keys [OF assms(3), of ops seconds] by (metis distinct_card length_map registry_len_def)
  also have "\<dots> \<le> card (request_keys surfaces statuses)"
    using answer_keys [OF assms(3), of ops seconds] request_keys_card(1) [OF assms(1,2)] by (intro card_mono) auto
  also have "\<dots> \<le> card surfaces * 9 * (1 + card statuses)" by (rule request_keys_card(2) [OF assms(1,2)])
  finally show ?thesis .
qed

text \<open>
  The counts of a histogram are cumulative: with boundaries in increasing order, and fewer observations than
  a counter holds, each count is at most the next one and at most the number of observations.
\<close>

theorem buckets_are_cumulative:
  assumes "metric_kind metric = Histogram" "length vs < 2 ^ 64" "sorted_wrt (f_le ops) (metric_buckets metric)"
    and "\<And>x y z. f_le ops x y \<Longrightarrow> f_le ops y z \<Longrightarrow> f_le ops x z"
  shows "\<exists>buckets n tally. spec_reading ops metric vs = ReadDistribution buckets n tally
    \<and> sorted (map snd buckets) \<and> (\<forall>(_, at) \<in> set buckets. at \<le> n)"
proof -
  let ?count = "\<lambda>b. length (filter (\<lambda>v. f_le ops v b) vs)"
  have small: "?count b < 2 ^ 64" for b using assms(2) length_filter_le [of "\<lambda>v. f_le ops v b" vs] by linarith
  have words: "(of_nat m :: u64) \<le> of_nat n \<longleftrightarrow> m \<le> n" if "m < 2 ^ 64" "n < 2 ^ 64" for m n
    using that by (simp add: word_le_nat_alt unat_of_nat_u64)
  have mono: "?count b \<le> ?count b'" if "f_le ops b b'" for b b'
  proof (induction vs)
    case (Cons v vs)
    then show ?case using assms(4) [of v b b'] that by auto
  qed simp
  have "sorted_wrt (\<lambda>b b'. (of_nat (?count b) :: u64) \<le> of_nat (?count b')) (metric_buckets metric)"
    by (rule sorted_wrt_mono_rel [OF _ assms(3)]) (simp only: words [OF small small] mono)
  then have "sorted (map (\<lambda>b. of_nat (?count b) :: u64) (metric_buckets metric))" by (simp add: sorted_wrt_map)
  moreover have "(of_nat (?count b) :: u64) \<le> of_nat (length vs)" for b
    unfolding words [OF small assms(2)] by (rule length_filter_le)
  ultimately show ?thesis using assms(1) by (simp add: spec_reading_def comp_def)
qed

text \<open>
  C36: a label cannot break out of its line. Whatever characters a label value holds, every line a sample is
  published as is one line, and what follows the name on it reads back as exactly the labels of the sample,
  with the boundary where there is one, before the space and the number. Names are those of declarations,
  and numbers are printed without quotes, backslashes and line breaks.
\<close>

theorem labels_cannot_break_out:
  assumes "\<forall>l \<in> set (sample_labels s). CHR ''='' \<notin> set (fst l) \<and> newline \<notin> set (fst l)"
    and "newline \<notin> set (metric_name (sample_metric s))"
    and "\<And>v. set (number ops v) \<inter> {CHR 0x22, CHR 0x5C, newline} = {}"
    and "line \<in> set (sample_lines ops s)"
  shows "newline \<notin> set line
    \<and> (\<exists>suffix rest le shown. line = metric_name (sample_metric s) @ suffix @ rest
         \<and> suffix \<in> {[], ''_bucket'', ''_sum'', ''_count''}
         \<and> read_labels rest = Some (with_le (sample_labels s) le, '' '' @ shown))"
proof -
  have plain: "escaped w = w" if "set w \<inter> {CHR 0x22, CHR 0x5C, newline} = {}" for w
    using that by (induction w) (auto simp: escaped_def escaped_one_def)
  have num: "escaped (number ops v) = number ops v" "newline \<notin> set (number ops v)" for v
    using plain [OF assms(3)] assms(3) [of v] by auto
  have inf: "escaped ''+Inf'' = ''+Inf''" "newline \<notin> set ''+Inf''" by (simp_all add: escaped_def escaped_one_def newline_def)
  have digits: "newline \<notin> set (digits_of n)" for n
    using digits_of_digits [of newline n] by (auto simp: newline_def)
  obtain suffix le shown where line: "line = metric_name (sample_metric s) @ suffix @ render_labels (sample_labels s) le @ '' '' @ shown"
    and suffix: "suffix \<in> {[], ''_bucket'', ''_sum'', ''_count''}" and le: "\<forall>b. le = Some b \<longrightarrow> escaped b = b \<and> newline \<notin> set b"
    and shown: "newline \<notin> set shown"
  proof (cases "sample_reading s")
    case (ReadValue v)
    then show ?thesis using assms(3,4) that [of "[]" None "number ops v"] by (auto simp: sample_lines_def Let_def)
  next
    case (ReadDistribution buckets n tally)
    then consider b at where "line = metric_name (sample_metric s) @ ''_bucket'' @ render_labels (sample_labels s) (Some (number ops b)) @ '' '' @ digits_of (unat (at :: u64))"
      | "line = metric_name (sample_metric s) @ ''_bucket'' @ render_labels (sample_labels s) (Some ''+Inf'') @ '' '' @ digits_of (unat n)"
      | "line = metric_name (sample_metric s) @ ''_sum'' @ render_labels (sample_labels s) None @ '' '' @ number ops tally"
      | "line = metric_name (sample_metric s) @ ''_count'' @ render_labels (sample_labels s) None @ '' '' @ digits_of (unat n)"
      using assms(4) by (auto simp: sample_lines_def Let_def)
    then show ?thesis
    proof cases
      case 1
      show ?thesis by (rule that [OF 1]) (simp_all add: num digits)
    next
      case 2
      show ?thesis by (rule that [OF 2]) (simp_all add: inf [simplified] digits)
    next
      case 3
      show ?thesis by (rule that [OF 3]) (simp_all add: num)
    next
      case 4
      show ?thesis by (rule that [OF 4]) (simp_all add: digits)
    qed
  qed
  have "newline \<notin> set (render_labels (sample_labels s) le)"
    using assms(1) le by (intro render_labels_one_line) auto
  then have "newline \<notin> set line" using assms(2) suffix shown by (auto simp: line newline_def)
  moreover have "read_labels (render_labels (sample_labels s) le @ '' '' @ shown) = Some (with_le (sample_labels s) le, '' '' @ shown)"
    using assms(1) le by (intro read_rendered_labels) auto
  ultimately show ?thesis using line suffix by blast
qed

text \<open>
  What a scraper reads at \<open>/metrics\<close>. The page is always served; every metric it shows is announced
  exactly once, the two health states included, when the names recorded are those of declarations and none of
  them is one of the two.
\<close>

theorem page_announces_once:
  fixes ops :: "'f float_ops"
  assumes "one_declaration (fst ` set es)" "\<forall>m \<in> fst ` set es. plain_name (metric_name m) \<and> metric_name m \<notin> {''picx_up'', ''picx_ready''}"
    and "reported_metrics r = Some (registry_run ops es)"
  shows "\<exists>lines. metrics_page ops r = (200, concat (map (\<lambda>line. line @ [newline]) lines))
    \<and> (\<forall>name \<in> {''picx_up'', ''picx_ready''} \<union> (metric_name \<circ> sample_metric) ` set (registry_snapshot (registry_run ops es)).
         length (filter (announces name) lines) = 1)"
proof -
  let ?snapshot = "registry_snapshot (registry_run ops es)" and ?health = "health_samples ops (reported_health r)"
  let ?lines = "render_from ops None (?health @ ?snapshot)"
  have tracks: "tracks ops es (registry_run ops es)" by (rule tracks_run [OF assms(1)])
  have declared: "sample_metric s \<in> fst ` set es" if "s \<in> set ?snapshot" for s
  proof -
    from that obtain e where e: "e \<in> set (reg_series (registry_run ops es))" "s = entry_sample e" by (auto simp: snapshot_alt)
    then have "sample_metric s = fst (snd e)" by (auto simp: entry_sample_def split: prod.splits)
    then show ?thesis using tracks_entry(2) [OF tracks e(1)] by simp
  qed
  then have plain: "plain_name (metric_name (sample_metric s)) \<and> metric_name (sample_metric s) \<notin> {''picx_up'', ''picx_ready''}"
    if "s \<in> set ?snapshot" for s using assms(2) that by blast
  have "sorted (map fst (map sample_key ?snapshot))"
    using snapshot_keys(2) [OF tracks] by (auto simp: sorted_wrt_map less_prod_def elim!: sorted_wrt_mono_rel [rotated])
  then have sorted: "sorted (map (metric_name \<circ> sample_metric) ?snapshot)" by (simp add: comp_def sample_key_def)
  have own: "plain_name ''picx_up''" "plain_name ''picx_ready''" by (simp_all add: plain_name_def)
  have names: "metric_name (UP :: 'f Metric) = ''picx_up''" "metric_name (READY :: 'f Metric) = ''picx_ready''" by (simp_all add: UP_def READY_def gauge_def)
  have away: "''picx_up'' \<notin> (metric_name \<circ> sample_metric) ` set ?snapshot" "''picx_ready'' \<notin> (metric_name \<circ> sample_metric) ` set ?snapshot"
    using plain by fastforce+
  have once: "length (filter (announces name) ?lines) = 1"
    if name: "name \<in> {''picx_up'', ''picx_ready''} \<union> (metric_name \<circ> sample_metric) ` set ?snapshot" for name
  proof -
    have fine: "plain_name name" using name plain own by auto
    have "length (filter (announces name) (render_from ops (Some ''picx_ready'') ?snapshot))
        = (if name \<in> (metric_name \<circ> sample_metric) ` set ?snapshot then 1 else 0)"
    proof -
      have "\<forall>d. Some ''picx_ready'' = Some d \<longrightarrow> d \<notin> (metric_name \<circ> sample_metric) ` set ?snapshot
          \<or> (\<forall>s \<in> set ?snapshot. d \<le> metric_name (sample_metric s))" using away by blast
      moreover have "\<forall>s \<in> set ?snapshot. plain_name (metric_name (sample_metric s))" using plain by blast
      ultimately have "length (filter (announces name) (render_from ops (Some ''picx_ready'') ?snapshot))
        = (if name \<in> (metric_name \<circ> sample_metric) ` set ?snapshot \<and> Some ''picx_ready'' \<noteq> Some name then 1 else 0)"
        by (intro announced_in_order [OF fine _ sorted])
      then show ?thesis using away by (cases "name = ''picx_ready''") simp_all
    qed
    moreover have "?lines = header_lines (UP :: 'f Metric) @ sample_lines ops (hd ?health) @ header_lines (READY :: 'f Metric)
        @ sample_lines ops (last ?health) @ render_from ops (Some ''picx_ready'') ?snapshot"
      by (simp add: health_samples_def names)
    moreover have "filter (announces name) (sample_lines ops (hd ?health)) = []" "filter (announces name) (sample_lines ops (last ?health)) = []"
      using own by (intro sample_never_announces; simp add: health_samples_def names)+
    moreover have "length (filter (announces name) (header_lines (UP :: 'f Metric))) = (if name = ''picx_up'' then 1 else 0)"
      "length (filter (announces name) (header_lines (READY :: 'f Metric))) = (if name = ''picx_ready'' then 1 else 0)"
      using header_announces [OF fine, of "UP :: 'f Metric"] header_announces [OF fine, of "READY :: 'f Metric"] own
      by (simp_all only: names eq_commute [of name] simp_thms)
    ultimately show ?thesis using name away by (auto simp del: comp_apply)
  qed
  moreover have "metrics_page ops r = (200, concat (map (\<lambda>line. line @ [newline]) ?lines))"
    by (simp add: metrics_page_def render_def assms(3) metrics_snapshot_def)
  ultimately show ?thesis by blast
qed

subsection \<open>Witnesses\<close>

text \<open>Whole numbers in the place of floats.\<close>

definition int_ops :: "int float_ops" where
  "int_ops = \<lparr> f_zero = 0, f_one = 1, f_add = (+), f_le = (\<le>), f_finite = (\<lambda>_. True), f_whole = Some, f_show = show_int \<rparr>"

definition demo_recordings :: "int recording list" where
  "demo_recordings =
     [(counter ''c'' ''help'', [(''b'', ''2''), (''a'', ''1'')], 3), (counter ''c'' ''help'', [(''a'', ''1''), (''b'', ''2'')], 4),
      (counter ''c'' ''help'', [(''a'', ''1''), (''b'', ''2'')], -1), (gauge ''g'' ''help'', [], 7), (gauge ''g'' ''help'', [], 5)]"

lemma demo_declared: "one_declaration (fst ` set demo_recordings)"
  by (simp add: one_declaration_def demo_recordings_def counter_def gauge_def)

lemma demo_snapshot:
  "map (\<lambda>s. (sample_key s, sample_reading s)) (registry_snapshot (registry_run int_ops demo_recordings))
   = [((''c'', [(''a'', ''1''), (''b'', ''2'')]), ReadValue 7), ((''g'', []), ReadValue 5)]"
  by code_simp

theorem registry_reads_what_was_recorded_witness:
  "\<exists>s \<in> set (registry_snapshot (registry_run int_ops demo_recordings)). sample_reading s = ReadValue 7
     \<and> spec_reading int_ops (sample_metric s) (observed int_ops (sample_key s) demo_recordings) = ReadValue 7"
proof -
  from demo_snapshot obtain s where "s \<in> set (registry_snapshot (registry_run int_ops demo_recordings))" "sample_reading s = ReadValue 7"
    by (cases "registry_snapshot (registry_run int_ops demo_recordings)") auto
  with registry_reads_what_was_recorded [OF demo_declared, of int_ops] show ?thesis by (auto simp: Let_def)
qed

theorem clients_cannot_add_series_witness:
  "registry_len (answer_all int_ops [1, 2] [(''public'', ''GET'', 200, 1), (''public'', ''FOO1'', 404, 2), (''public'', ''FOO2'', 404, 3)]) \<le> 27"
  using clients_cannot_add_series [of "{''public''}" "{200, 404}"
      "[(''public'', ''GET'', 200, 1), (''public'', ''FOO1'', 404, 2), (''public'', ''FOO2'', 404, 3)]" int_ops "[1, 2]"] by simp

lemma show_int_plain: "set (show_int i) \<inter> {CHR 0x22, CHR 0x5C, newline} = {}"
proof -
  have "c \<in> set (show_int i) \<Longrightarrow> c = CHR ''-'' \<or> 48 \<le> (of_char c :: nat) \<and> of_char c \<le> (57 :: nat)" for c
    using digits_of_digits [of c] by (auto simp: show_int_def split: if_splits)
  from this [of "CHR 0x22"] this [of "CHR 0x5C"] this [of newline] show ?thesis by (auto simp: newline_def)
qed

theorem labels_cannot_break_out_witness:
  "\<exists>rest. read_labels rest = Some ([(''a'', [CHR 0x22, newline, CHR 0x5C])], '' 5'')
     \<and> sample_lines int_ops \<lparr> sample_metric = gauge ''g'' ''help'', sample_labels = [(''a'', [CHR 0x22, newline, CHR 0x5C])],
         sample_reading = ReadValue 5 \<rparr> = [''g'' @ rest]"
proof -
  let ?s = "\<lparr> sample_metric = gauge ''g'' ''help'', sample_labels = [(''a'', [CHR 0x22, newline, CHR 0x5C])], sample_reading = ReadValue (5 :: int) \<rparr>"
  let ?rest = "render_labels (sample_labels ?s) None @ '' 5''"
  have shown: "set (number int_ops v) \<inter> {CHR 0x22, CHR 0x5C, newline} = {}" for v
    using show_int_plain by (simp add: number_def int_ops_def)
  have five: "number int_ops 5 = ''5''" by code_simp
  have lines: "sample_lines int_ops ?s = [''g'' @ ?rest]" by (simp add: sample_lines_def gauge_def five)
  then have line: "''g'' @ ?rest \<in> set (sample_lines int_ops ?s)" by simp
  have "newline \<notin> set (''g'' @ ?rest)"
    using labels_cannot_break_out [OF _ _ shown line] by (simp add: gauge_def newline_def)
  moreover have "read_labels ?rest = Some ([(''a'', [CHR 0x22, newline, CHR 0x5C])], '' 5'')" by code_simp
  ultimately show ?thesis using lines by blast
qed

theorem page_announces_once_witness:
  "\<exists>lines. metrics_page int_ops \<lparr> reported_health = new_health, reported_metrics = Some (registry_run int_ops demo_recordings) \<rparr>
       = (200, concat (map (\<lambda>line. line @ [newline]) lines))
     \<and> length (filter (announces ''picx_ready'') lines) = 1"
proof -
  let ?r = "\<lparr> reported_health = new_health, reported_metrics = Some (registry_run int_ops demo_recordings) \<rparr>"
  have "\<forall>m \<in> fst ` set demo_recordings. plain_name (metric_name m) \<and> metric_name m \<notin> {''picx_up'', ''picx_ready''}"
    by (simp add: demo_recordings_def counter_def gauge_def plain_name_def)
  from page_announces_once [OF demo_declared this, of ?r int_ops] show ?thesis by auto
qed

end
