(* ===== verification/Provision.thy ===== *)
theory Provision
  imports ConfigFile AuditGuarantees
begin

text \<open>
  \<open>crates/pic-x-std/src/provision.rs\<close>: preparing the volume before a start. The disk is a map from paths to
  directories and files with their modes; a path is its text, so two spellings of one place are two paths.
  What the system refuses, the modes it gives what it creates, random bytes and the certificates the
  \<open>rcgen\<close> crate makes are a \<open>material_env\<close>. A file that could be opened but not written is left empty. Log lines
  are left out, and an error is a constructor without the reason of the system.
\<close>

section \<open>Definitions\<close>

subsection \<open>The disk\<close>

datatype node = Directory u32 | Plain bytes u32

type_synonym disk = "string \<rightharpoonup> node"

datatype disk_op = MakeDirectory string | OpenFile string | FinishFile string | Restrict string

datatype san = DnsName string | IpAddress "nat list"

record CertificateParams =
  params_is_ca :: bool
  params_common_name :: string
  params_alt_names :: "san list"

record RevocationListParams =
  this_update :: "nat \<times> nat \<times> nat"
  next_update :: "nat \<times> nat \<times> nat"
  crl_number :: nat
  revoked_certs :: "nat list"

text \<open>A pair is a certificate and its key, both as PEM.\<close>

type_synonym pair = "bytes \<times> bytes"

record material_env =
  disk_fault :: "disk_op \<Rightarrow> bool"
  new_directory_mode :: u32
  new_file_mode :: u32
  random_fill :: "string \<Rightarrow> (nat \<Rightarrow> 8 word) option"
  self_signed :: "CertificateParams \<Rightarrow> pair option"
  signed_by :: "pair \<Rightarrow> CertificateParams \<Rightarrow> pair option"
  list_signed_by :: "pair \<Rightarrow> RevocationListParams \<Rightarrow> bytes option"

datatype provision_error =
    NotCreated string
  | NotWritten string
  | NotRestricted string
  | NoRandomBytes
  | NotIssued
  | IncompleteCertificates string

type_synonym action = "disk \<Rightarrow> (provision_error + unit) \<times> disk"

fun in_turn :: "action list \<Rightarrow> action" where
  "in_turn [] d = (Inr (), d)"
| "in_turn (a # as) d =
     (case a d of
        (Inl e, d) \<Rightarrow> (Inl e, d)
      | (Inr _, d) \<Rightarrow> in_turn as d)"

definition failing :: "provision_error \<Rightarrow> action" where
  "failing e d = (Inl e, d)"

subsection \<open>What the standard library does with it\<close>

text \<open>\<open>Path::is_dir\<close>; the root and the current directory are there.\<close>

definition standing :: "disk \<Rightarrow> string \<Rightarrow> bool" where
  "standing d p = (case d p of
     Some (Directory _) \<Rightarrow> True
   | Some (Plain _ _) \<Rightarrow> False
   | None \<Rightarrow> p \<in> {[], ''/'', ''.''})"

datatype mkdir_error = AlreadyThere | NoParent | NotAllowed

definition mkdir :: "material_env \<Rightarrow> string \<Rightarrow> disk \<Rightarrow> mkdir_error + disk" where
  "mkdir env p d =
     (if standing d p \<or> d p \<noteq> None then Inl AlreadyThere
      else case path_parent p of
        None \<Rightarrow> Inl NotAllowed
      | Some q \<Rightarrow>
          if standing d q then
            (if disk_fault env (MakeDirectory p) then Inl NotAllowed
             else Inr (d(p \<mapsto> Directory (new_directory_mode env))))
          else if d q = None then Inl NoParent
          else Inl NotAllowed)"

lemma length_join_take: "n < length ws \<Longrightarrow> last ws \<noteq> [] \<Longrightarrow> length (join_with sep (take n ws)) < length (join_with sep ws)"
proof (induction sep ws arbitrary: n rule: join_with.induct)
  case (3 sep w v ws)
  show ?case
  proof (cases n)
    case 0
    show ?thesis
    proof (cases "w = []")
      case True
      with 0 3 "3.IH" [of 0] show ?thesis by simp
    qed (use 0 in simp)
  next
    case (Suc k)
    show ?thesis
    proof (cases k)
      case 0
      with Suc 3 "3.IH" [of 0] show ?thesis by simp
    next
      case (Suc j)
      with \<open>n = Suc k\<close> "3.IH" [of k] "3.prems" show ?thesis by simp
    qed
  qed
qed auto

lemma join_take_le: "length (join_with sep (take n ws)) \<le> length (join_with sep ws)"
proof (induction sep ws arbitrary: n rule: join_with.induct)
  case (2 sep w)
  then show ?case by (cases n) auto
next
  case (3 sep w v ws)
  show ?case
  proof (cases n)
    case (Suc k)
    with "3.IH" [of k] show ?thesis by (cases k) auto
  qed simp
qed simp

lemma drop_end_while_take: "\<exists>n \<le> length xs. drop_end_while p xs = take n xs"
proof -
  have "rev (dropWhile p (rev xs)) = take (length (dropWhile p (rev xs))) xs"
    by (metis dropWhile_eq_drop length_rev rev_drop rev_rev_ident length_drop)
  moreover have "length (dropWhile p (rev xs)) \<le> length xs" using length_dropWhile_le [of p "rev xs"] by simp
  ultimately show ?thesis by (auto simp: drop_end_while_def)
qed

lemma join_split_on [simp]: "join_with [c] (split_on c s) = s"
proof (induction c s rule: split_on.induct)
  case (2 d c cs)
  obtain w ws where "split_on d cs = w # ws" by (cases "split_on d cs") (auto split: if_splits list.splits dest: arg_cong [of _ _ length])
  with 2 show ?case by (cases ws) auto
qed simp


lemma path_parent_shorter: "path_parent p = Some q \<Longrightarrow> length q < length p"
proof -
  assume parent: "path_parent p = Some q"
  define h where "h = path_head p"
  define rest where "rest = drop (length h) p"
  define ws where "ws = drop_end_while silent_piece (split_on (CHR ''/'') rest)"
  have p: "p = h @ rest"
    by (auto simp: h_def rest_def path_head_def starts_with_iff)
  obtain n where n: "n \<le> length (split_on (CHR ''/'') rest)" "ws = take n (split_on (CHR ''/'') rest)"
    using drop_end_while_take unfolding ws_def by blast
  have q: "Some q = (if ws = [] then if h = ''.'' then Some [] else None
      else Some (h @ join_with ''/'' (drop_end_while silent_piece (butlast ws))))"
    using parent unfolding path_parent_def Let_def h_def rest_def ws_def by simp
  have length: "length p = length h + length rest" using p by (metis length_append)
  show ?thesis
  proof (cases "ws = []")
    case True
    with q length show ?thesis by (auto split: if_splits)
  next
    case False
    then have last: "last ws \<noteq> []" unfolding ws_def using drop_end_while_last by (force simp: silent_piece_def)
    obtain m where m: "m \<le> length (butlast ws)" "drop_end_while silent_piece (butlast ws) = take m (butlast ws)"
      using drop_end_while_take by blast
    have "take m (butlast ws) = take m ws" using m(1) by (simp add: butlast_conv_take)
    moreover have "m < length ws" using m(1) False by (simp add: Suc_le_eq [symmetric] less_eq_Suc_le le_diff_conv2 flip: length_greater_0_conv)
    ultimately have "length (join_with ''/'' (take m (butlast ws))) < length (join_with ''/'' ws)"
      using length_join_take [OF _ last] by metis
    also have "\<dots> \<le> length rest" using join_take_le [of "''/''" n "split_on (CHR ''/'') rest"] n(2) by simp
    finally show ?thesis using q False m(2) length by simp
  qed
qed


function create_dir_all :: "material_env \<Rightarrow> string \<Rightarrow> disk \<Rightarrow> bool \<times> disk" where
  "create_dir_all env p d =
     (if p = [] then (True, d)
      else case mkdir env p d of
        Inr d \<Rightarrow> (True, d)
      | Inl NoParent \<Rightarrow>
          (case path_parent p of
             None \<Rightarrow> (False, d)
           | Some q \<Rightarrow>
               (case create_dir_all env q d of
                  (False, d) \<Rightarrow> (False, d)
                | (True, d) \<Rightarrow>
                    (case mkdir env p d of
                       Inr d \<Rightarrow> (True, d)
                     | Inl _ \<Rightarrow> (standing d p, d))))
      | Inl _ \<Rightarrow> (standing d p, d))"
  by pat_completeness auto
termination by (relation "measure (\<lambda>(env, p, d). length p)") (auto simp: path_parent_shorter)

declare create_dir_all.simps [simp del]

definition write_file :: "material_env \<Rightarrow> string \<Rightarrow> bytes \<Rightarrow> action" where
  "write_file env p contents d =
     (let opened = (case d p of
          Some (Plain _ mode) \<Rightarrow> Some mode
        | Some (Directory _) \<Rightarrow> None
        | None \<Rightarrow> (case path_parent p of
             Some q \<Rightarrow> if standing d q then Some (new_file_mode env) else None
           | None \<Rightarrow> None))
      in case opened of
           None \<Rightarrow> (Inl (NotWritten p), d)
         | Some mode \<Rightarrow>
             if disk_fault env (OpenFile p) then (Inl (NotWritten p), d)
             else if disk_fault env (FinishFile p) then (Inl (NotWritten p), d(p \<mapsto> Plain [] mode))
             else (Inr (), d(p \<mapsto> Plain contents mode)))"

subsection \<open>Writing material\<close>

definition SECRET_BYTES :: nat where "SECRET_BYTES = 32"

definition restrict :: "material_env \<Rightarrow> string \<Rightarrow> u32 \<Rightarrow> action" where
  "restrict env p mode d =
     (if p = [] \<or> disk_fault env (Restrict p) then (Inl (NotRestricted p), d)
      else case d p of
        Some (Directory _) \<Rightarrow> (Inr (), d(p \<mapsto> Directory mode))
      | Some (Plain contents _) \<Rightarrow> (Inr (), d(p \<mapsto> Plain contents mode))
      | None \<Rightarrow> if p \<in> {''/'', ''.''} then (Inr (), d(p \<mapsto> Directory mode)) else (Inl (NotRestricted p), d))"

text \<open>448 is the octal \<open>700\<close> and 384 is \<open>600\<close>.\<close>

definition create_directory :: "material_env \<Rightarrow> string \<Rightarrow> action" where
  "create_directory env p d =
     (case create_dir_all env p d of
        (False, d) \<Rightarrow> (Inl (NotCreated p), d)
      | (True, d) \<Rightarrow> restrict env p 448 d)"

definition write_private :: "material_env \<Rightarrow> string \<Rightarrow> bytes \<Rightarrow> action" where
  "write_private env p contents = in_turn [write_file env p contents, restrict env p 384]"

definition write_public :: "material_env \<Rightarrow> string \<Rightarrow> bytes \<Rightarrow> action" where
  "write_public env p contents = write_file env p contents"

definition generate_secret :: "material_env \<Rightarrow> string \<Rightarrow> action" where
  "generate_secret env p d =
     (if d p \<noteq> None then (Inr (), d)
      else case random_fill env p of
        None \<Rightarrow> (Inl NoRandomBytes, d)
      | Some byte \<Rightarrow> write_private env p (as_bytes (hex (map byte [0..<SECRET_BYTES]))) d)"

definition empty_revocation_list :: "material_env \<Rightarrow> pair \<Rightarrow> bytes option" where
  "empty_revocation_list env ca =
     list_signed_by env ca
       \<lparr> this_update = (2000, 1, 1), next_update = (9999, 1, 1), crl_number = 1, revoked_certs = [] \<rparr>"

definition authority_params :: CertificateParams where
  "authority_params = \<lparr> params_is_ca = True, params_common_name = ''pic-x local development authority'', params_alt_names = [] \<rparr>"

definition server_params :: CertificateParams where
  "server_params = \<lparr> params_is_ca = False, params_common_name = ''localhost'',
     params_alt_names = [DnsName ''localhost'', IpAddress [127, 0, 0, 1]] \<rparr>"

definition client_params :: CertificateParams where
  "client_params = \<lparr> params_is_ca = False, params_common_name = ''local-operator'', params_alt_names = [] \<rparr>"

definition write_pair :: "material_env \<Rightarrow> string \<times> string \<Rightarrow> pair option \<Rightarrow> (pair \<Rightarrow> action) \<Rightarrow> action" where
  "write_pair env paths made rest =
     (case made of
        None \<Rightarrow> failing NotIssued
      | Some pair \<Rightarrow> in_turn [write_public env (fst paths) (fst pair), write_private env (snd paths) (snd pair), rest pair])"

definition issue :: "material_env \<Rightarrow> string \<times> string \<Rightarrow> string \<times> string \<Rightarrow> string \<times> string \<Rightarrow> string \<Rightarrow> action" where
  "issue env authority server client revocations =
     write_pair env authority (self_signed env authority_params) (\<lambda>ca.
     write_pair env server (signed_by env ca server_params) (\<lambda>_.
     write_pair env client (signed_by env ca client_params) (\<lambda>_.
     case empty_revocation_list env ca of
       None \<Rightarrow> failing NotIssued
     | Some crl \<Rightarrow> write_public env revocations crl)))"

subsection \<open>The volume\<close>

record Volume =
  volume_root :: string

definition volume_of :: "Config \<Rightarrow> Volume" where
  "volume_of c = \<lparr> volume_root = working_dir c \<rparr>"
definition volume_secrets :: "Volume \<Rightarrow> Config \<Rightarrow> string" where "volume_secrets v c = secrets_directory c"
definition volume_tls :: "Volume \<Rightarrow> string" where "volume_tls v = resolve_path (volume_root v) ''tls''"
definition volume_data :: "Volume \<Rightarrow> string" where "volume_data v = resolve_path (volume_root v) ''data''"
definition volume_operations :: "Volume \<Rightarrow> string" where "volume_operations v = resolve_path (volume_root v) ''operations''"
definition volume_state :: "Volume \<Rightarrow> string" where "volume_state v = resolve_path (volume_operations v) ''state''"
definition volume_audit :: "Volume \<Rightarrow> Config \<Rightarrow> string" where "volume_audit v c = audit_directory c"
definition volume_keys :: "Volume \<Rightarrow> Config \<Rightarrow> string" where "volume_keys v c = keys_directory c"

definition server_secret :: "material_env \<Rightarrow> Config \<Rightarrow> Volume \<Rightarrow> action" where
  "server_secret env c v =
     (case audit_pseudonym_key_ref c of
        Some reference \<Rightarrow>
          if audit_pseudonym_enabled c then generate_secret env (resolve_path (volume_secrets v c) reference) else in_turn []
      | None \<Rightarrow> in_turn [])"

definition realm_secret :: "material_env \<Rightarrow> Config \<Rightarrow> RealmConfig \<Rightarrow> action" where
  "realm_secret env c r =
     (if \<not> rc_audit_pseudonym_enabled r \<or> rc_secrets_provider r \<noteq> DirectoryProvider then in_turn []
      else case rc_audit_pseudonym_key_ref r of
        None \<Rightarrow> in_turn []
      | Some reference \<Rightarrow>
          (let directory = realm_secrets_directory c (rc_name r) in
           in_turn [create_directory env directory, generate_secret env (resolve_path directory reference)]))"

definition prepare_secrets :: "material_env \<Rightarrow> Config \<Rightarrow> Volume \<Rightarrow> action" where
  "prepare_secrets env c v = in_turn (server_secret env c v # map (realm_secret env c) (config_realms c))"

definition tls_pairs :: "Volume \<Rightarrow> (string \<times> string) list" where
  "tls_pairs v = map (\<lambda>(certificate, key). (resolve_path (volume_tls v) certificate, resolve_path (volume_tls v) key))
     [(''ca.pem'', ''ca.key''), (''server.pem'', ''server.key''), (''client.pem'', ''client.key'')]"

definition present_pairs :: "Volume \<Rightarrow> disk \<Rightarrow> nat" where
  "present_pairs v d = length (filter (\<lambda>(certificate, key). d certificate \<noteq> None \<and> d key \<noteq> None) (tls_pairs v))"

definition wants_certificates :: "Config \<Rightarrow> bool" where
  "wants_certificates c \<longleftrightarrow> \<not> list_all (\<lambda>wanted. wanted = None) [public_tls c, admin_tls c, telemetry_tls c]"

definition prepare_certificates :: "material_env \<Rightarrow> Config \<Rightarrow> Volume \<Rightarrow> action" where
  "prepare_certificates env c v d =
     (if \<not> wants_certificates c then (Inr (), d)
      else if present_pairs v d = 3 then (Inr (), d)
      else if 0 < present_pairs v d then (Inl (IncompleteCertificates (volume_tls v)), d)
      else issue env (tls_pairs v ! 0) (tls_pairs v ! 1) (tls_pairs v ! 2) (resolve_path (volume_tls v) ''ca.crl'') d)"

definition prepare_volume :: "material_env \<Rightarrow> Config \<Rightarrow> action" where
  "prepare_volume env c =
     (let v = volume_of c in
      in_turn (
        map (create_directory env) [volume_root v, volume_data v, volume_operations v, volume_state v]
        @ (if keys_enabled c then [create_directory env (volume_keys v c)] else [])
        @ (if audit_destination c = ToFile then [create_directory env (volume_audit v c)] else [])
        @ (if \<not> autogenerate c then []
           else map (create_directory env) [volume_secrets v c, volume_tls v]
                @ [prepare_secrets env c v, prepare_certificates env c v])))"


section \<open>Lemmas\<close>

subsection \<open>What an action may change\<close>

text \<open>
  A relation between the disk before and after that every action keeps to. What the actions have in common
  is shown once, for a relation that allows new directories and narrowed ones, and writes where \<open>W\<close> allows
  them; \<open>grows\<close>, \<open>keeps_files\<close> and \<open>adds_files\<close> are such relations.
\<close>

definition keeps_to :: "(disk \<Rightarrow> disk \<Rightarrow> bool) \<Rightarrow> action \<Rightarrow> bool" where
  "keeps_to R a \<longleftrightarrow> (\<forall>d. R d (snd (a d)))"

lemma keeps_toD: "keeps_to R a \<Longrightarrow> a d = (r, d') \<Longrightarrow> R d d'"
  unfolding keeps_to_def by (metis snd_conv)

definition is_directory :: "disk \<Rightarrow> string \<Rightarrow> bool" where
  "is_directory d p \<longleftrightarrow> (\<exists>m. d p = Some (Directory m))"

definition is_plain :: "disk \<Rightarrow> string \<Rightarrow> bool" where
  "is_plain d p \<longleftrightarrow> (\<exists>b m. d p = Some (Plain b m))"

lemma in_turn_append:
  "in_turn (as @ bs) d = (case in_turn as d of (Inl e, d) \<Rightarrow> (Inl e, d) | (Inr _, d) \<Rightarrow> in_turn bs d)"
  by (induction as arbitrary: d) (auto split: prod.splits sum.splits)

lemma in_turn_Cons_Inr:
  "in_turn (a # as) d = (Inr (), d') \<longleftrightarrow> (\<exists>d1. a d = (Inr (), d1) \<and> in_turn as d1 = (Inr (), d'))"
  by (auto split: prod.splits sum.splits)

lemma in_turn_append_Inr:
  "in_turn (as @ bs) d = (Inr (), d') \<longleftrightarrow> (\<exists>d1. in_turn as d = (Inr (), d1) \<and> in_turn bs d1 = (Inr (), d'))"
  by (auto simp: in_turn_append split: prod.splits sum.splits)

lemma standing_not_plain: "standing d p \<Longrightarrow> \<not> is_plain d p"
  by (auto simp: standing_def is_plain_def split: option.splits)

lemma mkdir_Inr: "mkdir env p d = Inr d' \<Longrightarrow> d p = None \<and> d' = d(p \<mapsto> Directory (new_directory_mode env))"
  by (auto simp: mkdir_def split: if_splits option.splits)

lemma mkdir_standing: "mkdir env p d = Inr d' \<Longrightarrow> standing d' p"
  by (auto dest!: mkdir_Inr simp: standing_def)

lemma create_dir_all_standing: "create_dir_all env p d = (True, d') \<Longrightarrow> p = [] \<or> standing d' p"
  by (subst (asm) create_dir_all.simps)
    (auto dest: mkdir_standing split: if_splits sum.splits mkdir_error.splits option.splits prod.splits bool.splits)

lemma write_file_cases:
  assumes "write_file env p b d = (r, d')"
  obtains "r \<noteq> Inr ()" "d' = d" | m where "r \<noteq> Inr ()" "d' = d(p \<mapsto> Plain [] m)" "\<not> is_directory d p"
    | m where "r = Inr ()" "d' = d(p \<mapsto> Plain b m)" "\<not> is_directory d p"
  using assms by (auto simp: write_file_def Let_def is_directory_def split: option.splits node.splits if_splits)

lemma write_private_cases:
  assumes "write_private env p b d = (r, d')"
  obtains "r \<noteq> Inr ()" "d' = d" | b' m where "r \<noteq> Inr ()" "d' = d(p \<mapsto> Plain b' m)" "\<not> is_directory d p"
    | "r = Inr ()" "d' = d(p \<mapsto> Plain b 384)" "\<not> is_directory d p"
proof -
  obtain r1 d1 where one: "write_file env p b d = (r1, d1)" by fastforce
  from one show thesis
  proof (cases rule: write_file_cases)
    case (3 m)
    with one assms show thesis
      by (auto simp: write_private_def restrict_def split: if_splits intro: that)
  qed (use one assms that in \<open>auto simp: write_private_def split: sum.splits\<close>)
qed

lemma generate_secret_cases:
  assumes "generate_secret env p d = (r, d')"
  obtains "d' = d" "r = Inr () \<longrightarrow> d p \<noteq> None" | b m where "d p = None" "d' = d(p \<mapsto> Plain b m)"
    "r = Inr () \<longrightarrow> (\<exists>byte. b = as_bytes (hex (map byte [0..<SECRET_BYTES]))) \<and> m = 384"
proof (cases "d p = None \<and> random_fill env p \<noteq> None")
  case True
  then obtain byte where "random_fill env p = Some byte" by blast
  with True assms have "write_private env p (as_bytes (hex (map byte [0..<SECRET_BYTES]))) d = (r, d')"
    by (simp add: generate_secret_def)
  then show thesis by (cases rule: write_private_cases) (use True that in auto)
next
  case False
  then have "d' = d \<and> (r = Inr () \<longrightarrow> d p \<noteq> None)"
    using assms by (auto simp: generate_secret_def split: option.splits if_splits)
  with that(1) show thesis by blast
qed

locale disk_change =
  fixes R :: "disk \<Rightarrow> disk \<Rightarrow> bool" and W :: "disk \<Rightarrow> string \<Rightarrow> bool"
  assumes unchanged: "R d d"
    and then_changed: "R d1 d2 \<Longrightarrow> R d2 d3 \<Longrightarrow> R d1 d3"
    and new_directory: "d p = None \<Longrightarrow> R d (d(p \<mapsto> Directory m))"
    and narrowed: "\<not> is_plain d p \<Longrightarrow> R d (d(p \<mapsto> Directory 448))"
    and file_written: "W d p \<Longrightarrow> \<not> is_directory d p \<Longrightarrow> R d (d(p \<mapsto> Plain b m))"
begin

lemma in_turn_keeps_to: "(\<And>a. a \<in> set as \<Longrightarrow> keeps_to R a) \<Longrightarrow> keeps_to R (in_turn as)"
proof (induction as)
  case (Cons a as)
  then have "keeps_to R a" "keeps_to R (in_turn as)" by auto
  then show ?case unfolding keeps_to_def
    by (auto split: prod.splits sum.splits) (metis snd_conv then_changed)+
qed (simp add: keeps_to_def unchanged)

lemma failing_keeps_to: "keeps_to R (failing e)"
  by (simp add: keeps_to_def failing_def unchanged)

lemma create_dir_all_keeps_to: "R d (snd (create_dir_all env p d))"
proof (induction env p d rule: create_dir_all.induct)
  case (1 env p d)
  have made: "R d d'" if "mkdir env p d = Inr d'" for d d' using mkdir_Inr [OF that] new_directory by metis
  have "R d (snd (case create_dir_all env q d of (False, d) \<Rightarrow> (False, d)
      | (True, d) \<Rightarrow> (case mkdir env p d of Inr d \<Rightarrow> (True, d) | Inl _ \<Rightarrow> (standing d p, d))))"
    if "p \<noteq> []" "mkdir env p d = Inl NoParent" "path_parent p = Some q" for q
    using 1 [OF that(1) that(2) refl that(3)]
    by (auto split: prod.splits bool.splits sum.splits intro: then_changed made)
  then show ?case
    by (subst create_dir_all.simps)
      (auto simp: unchanged made split: sum.splits mkdir_error.splits option.splits)
qed

lemma create_directory_keeps_to: "keeps_to R (create_directory env p)"
  unfolding keeps_to_def
proof
  fix d
  obtain ok d1 where one: "create_dir_all env p d = (ok, d1)" by fastforce
  then have "R d d1" using create_dir_all_keeps_to by (metis snd_conv)
  moreover have "R d1 (snd (restrict env p 448 d1))" if ok
  proof (cases "p = []")
    case False
    with one that create_dir_all_standing standing_not_plain have "\<not> is_plain d1 p" by metis
    then show ?thesis by (auto simp: restrict_def unchanged narrowed is_plain_def split: option.splits node.splits)
  qed (simp add: restrict_def unchanged)
  ultimately show "R d (snd (create_directory env p d))"
    using one by (auto simp: create_directory_def unchanged split: bool.splits intro: then_changed)
qed

end


context disk_change
begin

lemma write_public_keeps_to: "(\<And>d. W d p) \<Longrightarrow> keeps_to R (write_public env p b)"
  unfolding keeps_to_def write_public_def
proof
  fix d assume "\<And>d. W d p"
  obtain r d' where one: "write_file env p b d = (r, d')" by fastforce
  then show "R d (snd (write_file env p b d))"
    by (cases rule: write_file_cases) (use one \<open>\<And>d. W d p\<close> in \<open>auto simp: unchanged file_written\<close>)
qed

lemma write_private_keeps_to: "(\<And>d. W d p) \<Longrightarrow> keeps_to R (write_private env p b)"
  unfolding keeps_to_def
proof
  fix d assume "\<And>d. W d p"
  obtain r d' where one: "write_private env p b d = (r, d')" by fastforce
  then show "R d (snd (write_private env p b d))"
    by (cases rule: write_private_cases) (use one \<open>\<And>d. W d p\<close> in \<open>auto simp: unchanged file_written\<close>)
qed

lemma generate_secret_keeps_to: "(\<And>d. d p = None \<Longrightarrow> W d p) \<Longrightarrow> keeps_to R (generate_secret env p)"
  unfolding keeps_to_def
proof
  fix d assume allowed: "\<And>d. d p = None \<Longrightarrow> W d p"
  obtain r d' where one: "generate_secret env p d = (r, d')" by fastforce
  then show "R d (snd (generate_secret env p d))"
    by (cases rule: generate_secret_cases) (use one allowed in \<open>auto simp: unchanged is_directory_def intro!: file_written\<close>)
qed

lemma write_pair_keeps_to:
  "(\<And>d. W d (fst paths)) \<Longrightarrow> (\<And>d. W d (snd paths)) \<Longrightarrow> (\<And>pair. keeps_to R (rest pair)) \<Longrightarrow> keeps_to R (write_pair env paths made rest)"
  unfolding write_pair_def
  by (auto split: option.split intro!: in_turn_keeps_to failing_keeps_to write_public_keeps_to write_private_keeps_to)

lemma issue_keeps_to:
  assumes "\<And>p d. p \<in> {fst a, snd a, fst s, snd s, fst c, snd c, crl} \<Longrightarrow> W d p"
  shows "keeps_to R (issue env a s c crl)"
  unfolding issue_def
  by (intro write_pair_keeps_to) (auto simp: assms split: option.split intro!: failing_keeps_to write_public_keeps_to)

lemma realm_secret_keeps_to:
  assumes "\<And>reference d. rc_audit_pseudonym_key_ref r = Some reference \<Longrightarrow>
      d (resolve_path (realm_secrets_directory c (rc_name r)) reference) = None \<Longrightarrow>
      W d (resolve_path (realm_secrets_directory c (rc_name r)) reference)"
  shows "keeps_to R (realm_secret env c r)"
  unfolding realm_secret_def Let_def
  by (auto split: option.split intro!: in_turn_keeps_to create_directory_keeps_to generate_secret_keeps_to assms)

end

subsection \<open>Three relations\<close>

definition grows :: "disk \<Rightarrow> disk \<Rightarrow> bool" where
  "grows d d' \<longleftrightarrow> (\<forall>p. (d p \<noteq> None \<longrightarrow> d' p \<noteq> None) \<and> (is_directory d p \<longrightarrow> is_directory d' p)
     \<and> (d p = Some (Directory 448) \<longrightarrow> d' p = Some (Directory 448)))"

definition keeps_files :: "string set \<Rightarrow> disk \<Rightarrow> disk \<Rightarrow> bool" where
  "keeps_files S d d' \<longleftrightarrow> (\<forall>p b m. p \<notin> S \<longrightarrow> d p = Some (Plain b m) \<longrightarrow> d' p = Some (Plain b m))"

definition adds_files :: "string set \<Rightarrow> disk \<Rightarrow> disk \<Rightarrow> bool" where
  "adds_files S d d' \<longleftrightarrow> (\<forall>p b m. p \<notin> S \<longrightarrow> d' p = Some (Plain b m) \<longrightarrow> d p = Some (Plain b m))"

interpretation growing: disk_change grows "\<lambda>_ _. True"
  by unfold_locales (auto simp: grows_def is_directory_def)

interpretation keeping: disk_change "keeps_files S" "\<lambda>d p. p \<in> S \<or> d p = None" for S
  by unfold_locales (auto simp: keeps_files_def is_plain_def)

interpretation adding: disk_change "adds_files S" "\<lambda>_ p. p \<in> S" for S
  by unfold_locales (auto simp: adds_files_def is_directory_def)

definition tls_files_of :: "Volume \<Rightarrow> string set" where
  "tls_files_of v = (\<Union>(certificate, key) \<in> set (tls_pairs v). {certificate, key}) \<union> {resolve_path (volume_tls v) ''ca.crl''}"

definition secret_paths :: "Config \<Rightarrow> string set" where
  "secret_paths c = resolve_path (secrets_directory c) ` set_option (audit_pseudonym_key_ref c)
     \<union> (\<Union>r \<in> set (config_realms c). resolve_path (realm_secrets_directory c (rc_name r)) ` set_option (rc_audit_pseudonym_key_ref r))"

lemma tls_pair_files: "p \<in> {fst (tls_pairs v ! 0), snd (tls_pairs v ! 0), fst (tls_pairs v ! 1), snd (tls_pairs v ! 1),
    fst (tls_pairs v ! 2), snd (tls_pairs v ! 2), resolve_path (volume_tls v) ''ca.crl''} \<longleftrightarrow> p \<in> tls_files_of v"
  by (auto simp: tls_pairs_def tls_files_of_def)

context disk_change
begin

lemma prepare_secrets_keeps_to:
  assumes "\<And>p d. p \<in> secret_paths c \<Longrightarrow> d p = None \<Longrightarrow> W d p"
  shows "keeps_to R (prepare_secrets env c v)"
  unfolding prepare_secrets_def
proof (rule in_turn_keeps_to)
  fix a assume "a \<in> set (server_secret env c v # map (realm_secret env c) (config_realms c))"
  then consider "a = server_secret env c v" | r where "r \<in> set (config_realms c)" "a = realm_secret env c r" by auto
  then show "keeps_to R a"
  proof cases
    case 1
    then show ?thesis
      by (auto simp: server_secret_def volume_secrets_def secret_paths_def split: option.splits
          intro!: in_turn_keeps_to generate_secret_keeps_to assms)
  next
    case 2
    then have "resolve_path (realm_secrets_directory c (rc_name r)) reference \<in> secret_paths c"
      if "rc_audit_pseudonym_key_ref r = Some reference" for reference
      using that by (force simp: secret_paths_def)
    with 2(2) show ?thesis by (auto intro: realm_secret_keeps_to assms)
  qed
qed

lemma prepare_certificates_keeps_to:
  assumes "\<And>p d. p \<in> tls_files_of v \<Longrightarrow> W d p"
  shows "keeps_to R (prepare_certificates env c v)"
  using issue_keeps_to [of "tls_pairs v ! 0" "tls_pairs v ! 1" "tls_pairs v ! 2" "resolve_path (volume_tls v) ''ca.crl''" env]
    assms tls_pair_files
  by (auto simp: keeps_to_def prepare_certificates_def unchanged)

end


subsection \<open>The whole preparation\<close>

definition first_steps :: "material_env \<Rightarrow> Config \<Rightarrow> action list" where
  "first_steps env c =
     (let v = volume_of c in
      map (create_directory env) [volume_root v, volume_data v, volume_operations v, volume_state v]
      @ (if keys_enabled c then [create_directory env (volume_keys v c)] else [])
      @ (if audit_destination c = ToFile then [create_directory env (volume_audit v c)] else []))"

definition material_steps :: "material_env \<Rightarrow> Config \<Rightarrow> action list" where
  "material_steps env c =
     (let v = volume_of c in map (create_directory env) [volume_secrets v c, volume_tls v] @ [prepare_secrets env c v])"

lemma prepare_steps:
  "prepare_volume env c = in_turn (first_steps env c
     @ (if autogenerate c then material_steps env c @ [prepare_certificates env c (volume_of c)] else []))"
  by (simp add: prepare_volume_def first_steps_def material_steps_def Let_def)

lemma step_kinds:
  "a \<in> set (first_steps env c) \<Longrightarrow> \<exists>p. a = create_directory env p"
  "a \<in> set (material_steps env c) \<Longrightarrow> (\<exists>p. a = create_directory env p) \<or> a = prepare_secrets env c (volume_of c)"
  by (auto simp: first_steps_def material_steps_def Let_def split: if_splits)

context disk_change
begin

lemma first_steps_keep_to: "keeps_to R (in_turn (first_steps env c))"
  by (rule in_turn_keeps_to) (metis step_kinds(1) create_directory_keeps_to)

lemma material_steps_keep_to:
  "(\<And>p d. p \<in> secret_paths c \<Longrightarrow> d p = None \<Longrightarrow> W d p) \<Longrightarrow> keeps_to R (in_turn (first_steps env c @ material_steps env c))"
  by (rule in_turn_keeps_to) (metis Un_iff set_append step_kinds create_directory_keeps_to prepare_secrets_keeps_to)

lemma prepare_keeps_to:
  assumes "\<And>p d. p \<in> secret_paths c \<Longrightarrow> d p = None \<Longrightarrow> W d p" "\<And>p d. p \<in> tls_files_of (volume_of c) \<Longrightarrow> W d p"
  shows "keeps_to R (prepare_volume env c)"
  unfolding prepare_steps
proof (rule in_turn_keeps_to)
  fix a
  assume "a \<in> set (first_steps env c @ (if autogenerate c then material_steps env c @ [prepare_certificates env c (volume_of c)] else []))"
  then consider p where "a = create_directory env p" | "a = prepare_secrets env c (volume_of c)" | "a = prepare_certificates env c (volume_of c)"
    using step_kinds by (auto split: if_splits) blast+
  then show "keeps_to R a"
    by cases (auto intro: create_directory_keeps_to prepare_secrets_keeps_to prepare_certificates_keeps_to assms)
qed

end

lemma present_pairs_mono: "grows d d' \<Longrightarrow> present_pairs v d \<le> present_pairs v d'"
  by (auto simp: present_pairs_def tls_pairs_def grows_def)

lemma present_pairs_3: "present_pairs v d = 3 \<longleftrightarrow> (\<forall>(certificate, key) \<in> set (tls_pairs v). d certificate \<noteq> None \<and> d key \<noteq> None)"
  by (auto simp: present_pairs_def tls_pairs_def)

lemma certificates_kept:
  assumes "prepare_certificates env c v d = (r, d')" "\<not> (wants_certificates c \<and> present_pairs v d = 0)"
  shows "d' = d"
  using assms by (auto simp: prepare_certificates_def split: if_splits)

lemma prepare_stages:
  assumes "prepare_volume env c d = (r, d')"
  obtains "keeps_files {} d d'"
  | d1 where "keeps_files {} d d1" "grows d d1" "autogenerate c" "prepare_certificates env c (volume_of c) d1 = (r, d')"
proof (cases "autogenerate c")
  case True
  obtain r1 d1 where one: "in_turn (first_steps env c @ material_steps env c) d = (r1, d1)" by fastforce
  have kept: "keeps_files {} d d1" "grows d d1"
    using keeping.material_steps_keep_to [of c "{}" env] growing.material_steps_keep_to [of c env] one
    by (auto simp: keeps_to_def) (metis snd_conv)+
  show thesis
  proof (cases r1)
    case (Inl e)
    with assms one True have "d' = d1" by (simp add: prepare_steps in_turn_append [of "_ @ _", simplified])
    with kept that(1) show thesis by simp
  next
    case (Inr u)
    with assms one True have "prepare_certificates env c (volume_of c) d1 = (r, d')"
      by (simp add: prepare_steps in_turn_append [of "_ @ _", simplified] split: prod.splits sum.splits)
    with kept True that(2) show thesis by blast
  qed
next
  case False
  with assms keeping.first_steps_keep_to [of "{}" env c] that(1) show thesis
    by (auto simp: prepare_steps keeps_to_def) (metis snd_conv)
qed


subsection \<open>Preparing again\<close>

definition settles :: "action \<Rightarrow> action \<Rightarrow> bool" where
  "settles a b \<longleftrightarrow> (\<forall>d d1 d2. a d = (Inr (), d1) \<longrightarrow> grows d1 d2 \<longrightarrow> b d2 = (Inr (), d2))"

lemma in_turn_settles:
  assumes "list_all2 settles as bs" "\<And>a. a \<in> set as \<Longrightarrow> keeps_to grows a"
  shows "settles (in_turn as) (in_turn bs)"
  using assms
proof (induction rule: list_all2_induct)
  case (Cons a as b bs)
  then have rest: "settles (in_turn as) (in_turn bs)" "keeps_to grows (in_turn as)"
    by (auto intro: growing.in_turn_keeps_to)
  show ?case unfolding settles_def
  proof (intro allI impI)
    fix d d1 d2 assume ran: "in_turn (a # as) d = (Inr (), d1)" "grows d1 d2"
    then obtain dm where dm: "a d = (Inr (), dm)" "in_turn as dm = (Inr (), d1)" by (auto simp: in_turn_Cons_Inr simp del: in_turn.simps)
    then have "grows dm d1" using rest(2) by (metis keeps_to_def snd_conv)
    with ran(2) have "grows dm d2" using growing.then_changed by blast
    with Cons.hyps dm(1) have "b d2 = (Inr (), d2)" by (auto simp: settles_def)
    moreover have "in_turn bs d2 = (Inr (), d2)" using rest(1) dm(2) ran(2) by (auto simp: settles_def)
    ultimately show "in_turn (b # bs) d2 = (Inr (), d2)" by simp
  qed
qed (simp add: settles_def)

lemma create_directory_settles:
  assumes "\<And>op. \<not> disk_fault env' op"
  shows "settles (create_directory env p) (create_directory env' p)"
  unfolding settles_def
proof (intro allI impI)
  fix d d1 d2 assume ran: "create_directory env p d = (Inr (), d1)" "grows d1 d2"
  then have "p \<noteq> []" "d1 p = Some (Directory 448)"
    by (auto simp: create_directory_def restrict_def dest!: create_dir_all_standing standing_not_plain
        split: prod.splits bool.splits if_splits option.splits node.splits simp: is_plain_def)
  with ran(2) have "p \<noteq> []" "d2 p = Some (Directory 448)" by (auto simp: grows_def)
  then show "create_directory env' p d2 = (Inr (), d2)" using assms
    by (auto simp: create_directory_def create_dir_all.simps [of env' p] mkdir_def standing_def restrict_def)
qed

lemma generate_secret_settles: "settles (generate_secret env p) (generate_secret env' p)"
  unfolding settles_def
proof (intro allI impI)
  fix d d1 d2 assume "generate_secret env p d = (Inr (), d1)" "grows d1 d2"
  then have "d1 p \<noteq> None" by (auto elim: generate_secret_cases)
  with \<open>grows d1 d2\<close> show "generate_secret env' p d2 = (Inr (), d2)" by (auto simp: grows_def generate_secret_def)
qed

lemma nothing_settles: "settles (in_turn []) (in_turn [])"
  by (simp add: settles_def)

lemma prepare_secrets_settles:
  assumes "\<And>op. \<not> disk_fault env' op"
  shows "settles (prepare_secrets env c v) (prepare_secrets env' c v)"
  unfolding prepare_secrets_def
proof (rule in_turn_settles)
  have "settles (server_secret env c v) (server_secret env' c v)"
    by (auto simp: server_secret_def split: option.split intro: generate_secret_settles nothing_settles)
  moreover have "settles (realm_secret env c r) (realm_secret env' c r)" for r
    unfolding realm_secret_def Let_def
    by (auto split: option.split intro!: in_turn_settles nothing_settles create_directory_settles generate_secret_settles
        growing.create_directory_keeps_to growing.generate_secret_keeps_to assms)
  ultimately show "list_all2 settles (server_secret env c v # map (realm_secret env c) (config_realms c))
      (server_secret env' c v # map (realm_secret env' c) (config_realms c))"
    by (auto simp: list_all2_map1 list_all2_map2 list_all2_same)
next
  fix a assume "a \<in> set (server_secret env c v # map (realm_secret env c) (config_realms c))"
  then show "keeps_to grows a"
    by (auto simp: server_secret_def split: option.splits if_splits
        intro!: growing.realm_secret_keeps_to growing.generate_secret_keeps_to growing.in_turn_keeps_to)
qed

lemma write_pair_Inr:
  assumes "write_pair env paths made rest d = (Inr (), d')" "\<And>pair. keeps_to grows (rest pair)"
  obtains pair d1 where "rest pair d1 = (Inr (), d')" "d' (fst paths) \<noteq> None" "d' (snd paths) \<noteq> None"
proof -
  from assms obtain pair where pair: "made = Some pair" by (auto simp: write_pair_def failing_def split: option.splits)
  with assms obtain dm d1 where steps: "write_public env (fst paths) (fst pair) d = (Inr (), dm)"
    "write_private env (snd paths) (snd pair) dm = (Inr (), d1)" "rest pair d1 = (Inr (), d')"
    by (auto simp: write_pair_def in_turn_Cons_Inr simp del: in_turn.simps(2))
  have "dm (fst paths) \<noteq> None" using steps(1) by (auto simp: write_public_def elim: write_file_cases)
  moreover have "d1 = dm(snd paths \<mapsto> Plain (snd pair) 384)" using steps(2) by (auto elim: write_private_cases)
  moreover have "grows d1 d'" using assms(2) steps(3) by (metis keeps_to_def snd_conv)
  ultimately show thesis using that steps(3) by (auto simp: grows_def)
qed

lemma issue_Inr:
  assumes "issue env a s c crl d = (Inr (), d')" "p \<in> {fst a, snd a, fst s, snd s, fst c, snd c}"
  shows "d' p \<noteq> None"
proof -
  let ?list = "\<lambda>ca. case empty_revocation_list env ca of None \<Rightarrow> failing NotIssued | Some made \<Rightarrow> write_public env crl made"
  let ?client = "\<lambda>ca. write_pair env c (signed_by env ca client_params) (\<lambda>_. ?list ca)"
  let ?server = "\<lambda>ca. write_pair env s (signed_by env ca server_params) (\<lambda>_. ?client ca)"
  have list: "keeps_to grows (?list ca)" for ca
    by (auto split: option.split intro!: growing.failing_keeps_to growing.write_public_keeps_to)
  have client: "keeps_to grows (?client ca)" for ca by (rule growing.write_pair_keeps_to) (simp_all only: list)
  have server: "keeps_to grows (?server ca)" for ca by (rule growing.write_pair_keeps_to) (simp_all only: client)
  from assms(1) obtain ca d1 where one: "?server ca d1 = (Inr (), d')" "d' (fst a) \<noteq> None" "d' (snd a) \<noteq> None"
    unfolding issue_def by (rule write_pair_Inr [OF _ server])
  from one(1) obtain d2 where two: "?client ca d2 = (Inr (), d')" "d' (fst s) \<noteq> None" "d' (snd s) \<noteq> None"
    by (rule write_pair_Inr [OF _ client])
  from two(1) have "d' (fst c) \<noteq> None" "d' (snd c) \<noteq> None" by (rule write_pair_Inr [OF _ list], simp)+
  with one two assms(2) show ?thesis by auto
qed

lemma prepare_certificates_settles: "settles (prepare_certificates env c v) (prepare_certificates env' c v)"
  unfolding settles_def
proof (intro allI impI)
  fix d d1 d2 assume ran: "prepare_certificates env c v d = (Inr (), d1)" "grows d1 d2"
  have "\<not> wants_certificates c \<or> present_pairs v d1 = 3"
  proof (cases "wants_certificates c \<and> present_pairs v d = 0")
    case True
    with ran(1) have "issue env (tls_pairs v ! 0) (tls_pairs v ! 1) (tls_pairs v ! 2) (resolve_path (volume_tls v) ''ca.crl'') d = (Inr (), d1)"
      by (simp add: prepare_certificates_def)
    note issue_Inr [OF this]
    then show ?thesis unfolding present_pairs_3 by (simp add: tls_pairs_def)
  next
    case False
    with ran(1) show ?thesis by (auto simp: prepare_certificates_def split: if_splits)
  qed
  with ran(2) show "prepare_certificates env' c v d2 = (Inr (), d2)"
    by (auto simp: prepare_certificates_def present_pairs_3 grows_def)
qed

lemma prepare_settles:
  assumes "\<And>op. \<not> disk_fault env' op"
  shows "settles (prepare_volume env c) (prepare_volume env' c)"
  unfolding prepare_steps
proof (rule in_turn_settles)
  show "list_all2 settles
      (first_steps env c @ (if autogenerate c then material_steps env c @ [prepare_certificates env c (volume_of c)] else []))
      (first_steps env' c @ (if autogenerate c then material_steps env' c @ [prepare_certificates env' c (volume_of c)] else []))"
    by (simp add: first_steps_def material_steps_def Let_def create_directory_settles prepare_secrets_settles
        prepare_certificates_settles assms)
next
  fix a assume "a \<in> set (first_steps env c
      @ (if autogenerate c then material_steps env c @ [prepare_certificates env c (volume_of c)] else []))"
  then consider p where "a = create_directory env p" | "a = prepare_secrets env c (volume_of c)"
    | "a = prepare_certificates env c (volume_of c)"
    using step_kinds by (auto split: if_splits) blast+
  then show "keeps_to grows a"
    by cases (auto intro: growing.create_directory_keeps_to growing.prepare_secrets_keeps_to growing.prepare_certificates_keeps_to)
qed


subsection \<open>Modes of what was written\<close>

definition new_private :: "string set \<Rightarrow> disk \<Rightarrow> disk \<Rightarrow> bool" where
  "new_private S d d' \<longleftrightarrow> (\<forall>p b m. p \<notin> S \<longrightarrow> d' p = Some (Plain b m) \<longrightarrow> m = 384 \<or> d p = Some (Plain b m))"

definition ends_private :: "string set \<Rightarrow> action \<Rightarrow> bool" where
  "ends_private S a \<longleftrightarrow> (\<forall>d d'. a d = (Inr (), d') \<longrightarrow> new_private S d d')"

lemma in_turn_ends_private: "(\<And>a. a \<in> set as \<Longrightarrow> ends_private S a) \<Longrightarrow> ends_private S (in_turn as)"
proof (induction as)
  case (Cons a as)
  then have "ends_private S a" "ends_private S (in_turn as)" by auto
  then show ?case unfolding ends_private_def in_turn_Cons_Inr by (auto simp: new_private_def) metis
qed (simp add: ends_private_def new_private_def)

lemma create_directory_ends_private: "ends_private S (create_directory env p)"
  using adding.create_directory_keeps_to [of "{}" env p] unfolding ends_private_def keeps_to_def
  by (auto simp: new_private_def adds_files_def)

lemma write_private_ends_private: "ends_private S (write_private env p b)"
  by (auto simp: ends_private_def new_private_def elim!: write_private_cases split: if_splits)

lemma write_public_ends_private: "p \<in> S \<Longrightarrow> ends_private S (write_public env p b)"
  by (auto simp: ends_private_def new_private_def write_public_def elim!: write_file_cases split: if_splits)

lemma generate_secret_ends_private: "ends_private S (generate_secret env p)"
  by (auto simp: ends_private_def new_private_def elim!: generate_secret_cases split: if_splits)

lemma failing_ends_private: "ends_private S (failing e)"
  by (simp add: ends_private_def failing_def)

lemma write_pair_ends_private:
  "fst paths \<in> S \<Longrightarrow> (\<And>pair. ends_private S (rest pair)) \<Longrightarrow> ends_private S (write_pair env paths made rest)"
  unfolding write_pair_def
  by (auto split: option.split intro!: in_turn_ends_private failing_ends_private write_public_ends_private write_private_ends_private)

lemma issue_ends_private:
  "{fst a, fst s, fst c, crl} \<subseteq> S \<Longrightarrow> ends_private S (issue env a s c crl)"
  unfolding issue_def
  by (intro write_pair_ends_private)
    (auto split: option.split intro!: failing_ends_private write_public_ends_private)

definition public_files :: "Volume \<Rightarrow> string set" where
  "public_files v = resolve_path (volume_tls v) ` {''ca.pem'', ''server.pem'', ''client.pem'', ''ca.crl''}"

lemma prepare_certificates_ends_private: "ends_private (public_files v) (prepare_certificates env c v)"
proof -
  have "ends_private (public_files v) (issue env (tls_pairs v ! 0) (tls_pairs v ! 1) (tls_pairs v ! 2) (resolve_path (volume_tls v) ''ca.crl''))"
    by (rule issue_ends_private) (simp add: public_files_def tls_pairs_def)
  then show ?thesis by (auto simp: ends_private_def prepare_certificates_def new_private_def split: if_splits)
qed

lemma prepare_secrets_ends_private: "ends_private S (prepare_secrets env c v)"
  unfolding prepare_secrets_def
  by (rule in_turn_ends_private)
    (auto simp: server_secret_def realm_secret_def Let_def split: option.splits if_splits
      intro!: in_turn_ends_private generate_secret_ends_private create_directory_ends_private)

lemma prepare_ends_private: "ends_private (public_files (volume_of c)) (prepare_volume env c)"
  unfolding prepare_steps
proof (rule in_turn_ends_private)
  fix a assume "a \<in> set (first_steps env c
      @ (if autogenerate c then material_steps env c @ [prepare_certificates env c (volume_of c)] else []))"
  then consider p where "a = create_directory env p" | "a = prepare_secrets env c (volume_of c)"
    | "a = prepare_certificates env c (volume_of c)"
    using step_kinds by (auto split: if_splits) blast+
  then show "ends_private (public_files (volume_of c)) a"
    by cases (auto intro: create_directory_ends_private prepare_secrets_ends_private prepare_certificates_ends_private)
qed

subsection \<open>The key of a prepared server\<close>

lemma hex_bytes_plain:
  assumes "x \<in> set (as_bytes (hex bs))"
  shows "48 \<le> unat x"
proof -
  from assms obtain ch where ch: "ch \<in> set (hex bs)" "x = of_nat (of_char ch)" by (auto simp: as_bytes_def)
  with hex_chars have "48 \<le> (of_char ch :: nat)" "(of_char ch :: nat) \<le> 102" by blast+
  with ch(2) show ?thesis by (simp add: unsigned_of_nat take_bit_nat_eq_self del: of_nat_of_char)
qed

lemma trim_hex: "trim_trailing_newline (as_bytes (hex bs)) = as_bytes (hex bs)"
proof (cases "as_bytes (hex bs) = []")
  case False
  then have "48 \<le> unat (last (as_bytes (hex bs)))" using hex_bytes_plain last_in_set by blast
  then have "last (as_bytes (hex bs)) \<noteq> 10" "last (as_bytes (hex bs)) \<noteq> 13" by auto
  then show ?thesis by (simp add: trim_trailing_newline_def Let_def)
qed (simp add: trim_trailing_newline_def)

lemma length_hex: "length (hex bs) = 2 * length bs"
  by (induction bs) (simp_all add: hex_def)

lemma server_secret_generated:
  assumes "prepare_volume env c d = (Inr (), d')" "autogenerate c"
    and "audit_pseudonym_enabled c" "audit_pseudonym_key_ref c = Some reference"
    and "path = resolve_path (secrets_directory c) reference" "d path = None" "path \<notin> tls_files_of (volume_of c)" "\<not> is_directory d' path"
  shows "\<exists>byte. d' path = Some (Plain (as_bytes (hex (map byte [0..<SECRET_BYTES]))) 384)"
proof -
  let ?v = "volume_of c"
  let ?before = "first_steps env c @ map (create_directory env) [volume_secrets ?v c, volume_tls ?v]"
  let ?after = "map (realm_secret env c) (config_realms c)"
  from assms(1,2) obtain d1 d2 d3 where steps: "in_turn ?before d = (Inr (), d1)" "server_secret env c ?v d1 = (Inr (), d2)"
    "in_turn ?after d2 = (Inr (), d3)" "prepare_certificates env c ?v d3 = (Inr (), d')"
    by (auto simp: prepare_steps material_steps_def Let_def in_turn_append_Inr in_turn_Cons_Inr prepare_secrets_def simp del: in_turn.simps(2))
  have before: "keeps_to (adds_files {}) (in_turn ?before)"
    by (rule adding.in_turn_keeps_to) (use step_kinds(1) adding.create_directory_keeps_to in fastforce)
  have "keeps_to (keeps_files {}) (realm_secret env c r)" "keeps_to grows (realm_secret env c r)" for r
    by (rule keeping.realm_secret_keeps_to growing.realm_secret_keeps_to, simp)+
  then have after: "keeps_to (keeps_files {}) (in_turn ?after)" "keeps_to grows (in_turn ?after)"
    by (auto intro!: keeping.in_turn_keeps_to growing.in_turn_keeps_to)
  have last: "keeps_files (tls_files_of ?v) d3 d'" "grows d3 d'"
    using keeps_toD [OF keeping.prepare_certificates_keeps_to [of ?v "tls_files_of ?v"] steps(4)]
      keeps_toD [OF growing.prepare_certificates_keeps_to steps(4)] by auto
  have middle: "keeps_files {} d2 d3" "grows d2 d3" "adds_files {} d d1"
    using keeps_toD [OF after(1)] keeps_toD [OF after(2)] keeps_toD [OF before] steps(1,3) by blast+
  have made: "generate_secret env path d1 = (Inr (), d2)" using steps(2) assms(3-5) by (simp add: server_secret_def volume_secrets_def)
  show ?thesis
  proof (cases "d1 path")
    case None
    with made obtain byte where "d2 path = Some (Plain (as_bytes (hex (map byte [0..<SECRET_BYTES]))) 384)"
      by (auto elim!: generate_secret_cases)
    with middle(1) last(1) assms(7) show ?thesis by (auto simp: keeps_files_def)
  next
    case (Some n)
    with middle(3) assms(6) have "is_directory d1 path" by (cases n) (auto simp: adds_files_def is_directory_def)
    moreover have "d2 = d1" using made Some by (simp add: generate_secret_def)
    ultimately have "is_directory d' path" using middle(2) last(2) by (auto simp: grows_def)
    with assms(8) show ?thesis by simp
  qed
qed


section \<open>Properties\<close>

text \<open>
  C29: preparing the volume takes nothing away. Whether it succeeds or stops halfway, a file that was there
  is there unchanged, except where certificates are generated and no complete pair of them was there; a file
  that was not there is a secret or a certificate of the volume, and there is none unless generating is on.
\<close>

theorem preparing_spares_files:
  assumes "prepare_volume env c d = (r, d')"
  shows "(\<forall>p b m. d p = Some (Plain b m) \<longrightarrow> d' p = Some (Plain b m)
        \<or> autogenerate c \<and> wants_certificates c \<and> present_pairs (volume_of c) d = 0 \<and> p \<in> tls_files_of (volume_of c))
    \<and> (\<forall>p b m. d' p = Some (Plain b m) \<longrightarrow> d p = Some (Plain b m)
        \<or> autogenerate c \<and> p \<in> secret_paths c \<union> tls_files_of (volume_of c))"
proof (intro conjI allI impI)
  fix p b m assume p: "d p = Some (Plain b m)"
  from assms show "d' p = Some (Plain b m)
    \<or> autogenerate c \<and> wants_certificates c \<and> present_pairs (volume_of c) d = 0 \<and> p \<in> tls_files_of (volume_of c)"
  proof (cases rule: prepare_stages)
    case (2 d1)
    then have "d1 p = Some (Plain b m)" using p by (simp add: keeps_files_def)
    moreover have "keeps_files (tls_files_of (volume_of c)) d1 d'"
      using keeps_toD [OF keeping.prepare_certificates_keeps_to [of "volume_of c" "tls_files_of (volume_of c)"] 2(4)] by auto
    moreover have "d' = d1 \<or> wants_certificates c \<and> present_pairs (volume_of c) d = 0"
      using certificates_kept [OF 2(4)] present_pairs_mono [OF 2(2), of "volume_of c"] by auto
    ultimately show ?thesis using 2(3) by (auto simp: keeps_files_def)
  qed (use p in \<open>simp add: keeps_files_def\<close>)
next
  fix p b m assume p: "d' p = Some (Plain b m)"
  show "d p = Some (Plain b m) \<or> autogenerate c \<and> p \<in> secret_paths c \<union> tls_files_of (volume_of c)"
  proof (cases "autogenerate c")
    case True
    have "adds_files (secret_paths c \<union> tls_files_of (volume_of c)) d d'"
      by (rule keeps_toD [OF adding.prepare_keeps_to assms]) auto
    with p True show ?thesis by (auto simp: adds_files_def)
  next
    case False
    with assms keeps_toD [OF adding.first_steps_keep_to [of "{}" env c]] have "adds_files {} d d'" by (simp add: prepare_steps)
    with p show ?thesis by (auto simp: adds_files_def)
  qed
qed

text \<open>
  C30: preparing twice is preparing once. After a preparation that succeeded, another one that meets no failing
  disk succeeds, whatever its random bytes are, and leaves the disk as it is.
\<close>

theorem preparing_again_changes_nothing:
  assumes "prepare_volume env c d = (Inr (), d')" "\<forall>op. \<not> disk_fault env' op"
  shows "prepare_volume env' c d' = (Inr (), d')"
  using prepare_settles [of env' env c] assms unfolding settles_def grows_def by blast

text \<open>
  What was generated is private: after a preparation that succeeded, every file that was not there before,
  certificates and the revocation list apart, may be read by nobody else.
\<close>

theorem prepared_material_is_private:
  assumes "prepare_volume env c d = (Inr (), d')" "d p = None" "d' p = Some (Plain b m)" "p \<notin> public_files (volume_of c)"
  shows "m = 384"
proof -
  have "new_private (public_files (volume_of c)) d d'" using prepare_ends_private assms(1) unfolding ends_private_def by blast
  with assms(2-4) show ?thesis by (auto simp: new_private_def)
qed

text \<open>
  A server that may generate its material finds it. When the key the server pseudonymises with was not
  there, a preparation that succeeded has written 64 characters under the name of its reference, readable by
  nobody else, and the server that comes up on that disk pseudonymises with them.
\<close>

theorem prepared_server_finds_its_key:
  assumes "prepare_volume env c d = (Inr (), d')" "autogenerate c"
    and "audit_pseudonym_enabled c" "audit_pseudonym_key_ref c = Some reference"
    and "secret_path_of \<lparr> secret_directory = secrets_directory c \<rparr> reference = Some path"
    and "d path = None" "path \<notin> tls_files_of (volume_of c)" "\<not> is_directory d' path"
    and "file_read benv path = (case d' path of Some (Plain b m) \<Rightarrow> Inr b | _ \<Rightarrow> Inl FileNotFound)"
    and "file_mode benv path = (case d' path of Some (Plain b m) \<Rightarrow> Some m | _ \<Rightarrow> None)"
  shows "\<exists>key. d' path = Some (Plain key 384) \<and> length key = 64
    \<and> pseudonymizer_for benv (composed benv provision) c (Some (DirectoryStore \<lparr> secret_directory = secrets_directory c \<rparr>))
        = Inr (Some \<lparr> pseudonym_key = key, key_version = audit_pseudonym_key_version c \<rparr>)"
proof -
  have "path = resolve_path (secrets_directory c) reference"
    using assms(5) by (auto simp: secret_path_of_def resolve_path_def Let_def split: if_splits)
  from server_secret_generated [OF assms(1-4) this assms(6-8)] obtain byte
    where made: "d' path = Some (Plain (as_bytes (hex (map byte [0..<SECRET_BYTES]))) 384)" by blast
  let ?key = "as_bytes (hex (map byte [0..<SECRET_BYTES]))"
  have length: "length ?key = 64" by (simp add: as_bytes_def length_hex SECRET_BYTES_def)
  have "store_resolve benv (DirectoryStore \<lparr> secret_directory = secrets_directory c \<rparr>) reference = Inr ?key"
    using assms(5,9,10) made by (simp add: directory_resolve_def check_permissions_def trim_hex)
  with assms(3,4) length have "pseudonymizer_for benv (composed benv provision) c
      (Some (DirectoryStore \<lparr> secret_directory = secrets_directory c \<rparr>))
      = Inr (Some \<lparr> pseudonym_key = ?key, key_version = audit_pseudonym_key_version c \<rparr>)"
    by (simp add: pseudonymizer_for_def composed_simps MINIMUM_KEY_LENGTH_def)
  with made length show ?thesis by blast
qed


subsection \<open>A volume\<close>

definition demo_material :: material_env where
  "demo_material = \<lparr> disk_fault = (\<lambda>_. False), new_directory_mode = 493, new_file_mode = 420,
     random_fill = (\<lambda>_. Some of_nat), self_signed = (\<lambda>_. Some ([1], [2])), signed_by = (\<lambda>_ _. Some ([3], [4])),
     list_signed_by = (\<lambda>_ _. Some [5]) \<rparr>"

definition generating_config :: Config where
  "generating_config = default_config\<lparr> working_dir_setting := Some ''v'', autogenerate := True,
     audit_pseudonym_enabled := True, audit_pseudonym_key_ref := Some ''k'' \<rparr>"

definition mounted :: disk where
  "mounted = [''v'' \<mapsto> Directory 493, ''v/notes'' \<mapsto> Plain [9] 420]"

lemma demo_prepared:
  "fst (prepare_volume demo_material generating_config mounted) = Inr ()"
  "snd (prepare_volume demo_material generating_config mounted) ''v/notes'' = Some (Plain [9] 420)"
  by code_simp+


abbreviation prepared :: disk where
  "prepared \<equiv> snd (prepare_volume demo_material generating_config mounted)"

lemma demo_preparation: "prepare_volume demo_material generating_config mounted = (Inr (), prepared)"
  using demo_prepared(1) by (metis prod.collapse)

lemma demo_secret: "prepared ''v/operations/secrets/k'' = Some (Plain (as_bytes (hex (map of_nat [0..<32]))) 384)"
  by code_simp

theorem preparing_spares_files_witness:
  "prepare_volume demo_material generating_config mounted = (Inr (), prepared) \<and> prepared ''v/notes'' = Some (Plain [9] 420)"
proof -
  have "\<not> wants_certificates generating_config" "mounted ''v/notes'' = Some (Plain [9] 420)" by code_simp+
  with preparing_spares_files [OF demo_preparation] show ?thesis using demo_preparation by blast
qed

theorem preparing_again_changes_nothing_witness:
  "prepare_volume demo_material generating_config prepared = (Inr (), prepared)"
  by (rule preparing_again_changes_nothing [OF demo_preparation]) (simp add: demo_material_def)

theorem prepared_server_finds_its_key_witness:
  "\<exists>key. prepared ''v/operations/secrets/k'' = Some (Plain key 384) \<and> length key = 64
    \<and> pseudonymizer_for (demo_build\<lparr> file_read := (\<lambda>p. case prepared p of Some (Plain b m) \<Rightarrow> Inr b | _ \<Rightarrow> Inl FileNotFound),
          file_mode := (\<lambda>p. case prepared p of Some (Plain b m) \<Rightarrow> Some m | _ \<Rightarrow> None) \<rparr>)
        (composed (demo_build\<lparr> file_read := (\<lambda>p. case prepared p of Some (Plain b m) \<Rightarrow> Inr b | _ \<Rightarrow> Inl FileNotFound),
          file_mode := (\<lambda>p. case prepared p of Some (Plain b m) \<Rightarrow> Some m | _ \<Rightarrow> None) \<rparr>) (\<lambda>_. Inr ())) generating_config
        (Some (DirectoryStore \<lparr> secret_directory = secrets_directory generating_config \<rparr>))
      = Inr (Some \<lparr> pseudonym_key = key, key_version = audit_pseudonym_key_version generating_config \<rparr>)"
proof (rule prepared_server_finds_its_key [OF demo_preparation])
  show "autogenerate generating_config" "audit_pseudonym_enabled generating_config"
    "audit_pseudonym_key_ref generating_config = Some ''k''" by (simp_all add: generating_config_def)
  show "secret_path_of \<lparr> secret_directory = secrets_directory generating_config \<rparr> ''k'' = Some ''v/operations/secrets/k''"
    "mounted ''v/operations/secrets/k'' = None" "''v/operations/secrets/k'' \<notin> tls_files_of (volume_of generating_config)"
    by code_simp+
  show "\<not> is_directory prepared ''v/operations/secrets/k''" by (simp add: is_directory_def demo_secret)
qed simp_all

subsection \<open>Where it departs from what it says\<close>

text \<open>
  Nothing is ever overwritten, says the module. A certificate without its key does not count as present, so an
  authority an operator supplied alone is replaced by a generated one, and a revocation list with it.
\<close>

definition securing_config :: Config where
  "securing_config = generating_config\<lparr> public_tls_setting := Some (new_tls_settings ''tls/server.pem'' ''tls/server.key'') \<rparr>"

theorem half_a_pair_is_overwritten:
  "let d = mounted(''v/tls'' \<mapsto> Directory 448, ''v/tls/ca.pem'' \<mapsto> Plain [7] 420, ''v/tls/ca.crl'' \<mapsto> Plain [8] 420);
       (r, d') = prepare_volume demo_material securing_config d
   in r = Inr () \<and> d' ''v/tls/ca.pem'' = Some (Plain [1] 420) \<and> d' ''v/tls/ca.crl'' = Some (Plain [5] 420)"
  by code_simp

text \<open>
  Everything generated is said to lie under the working directory. The name of a secret is joined to its
  directory as it is, before anything checks it, so a reference that is a path writes there, where the
  store then refuses to read.
\<close>

theorem secret_may_be_written_elsewhere:
  "let c = generating_config\<lparr> audit_pseudonym_key_ref := Some ''/etc/k'' \<rparr>;
       d = mounted(''/etc'' \<mapsto> Directory 493);
       (r, d') = prepare_volume demo_material c d
   in r = Inr () \<and> d' ''/etc/k'' \<noteq> None \<and> secret_path_of \<lparr> secret_directory = secrets_directory c \<rparr> ''/etc/k'' = None"
  by code_simp

end
