(* ===== verification/Rotation.thy ===== *)
theory Rotation
  imports Deployment Metrics
begin

text \<open>
  \<open>crates/pic-x-std/src/keys/service.rs\<close>: the service that runs the maintenance pass of every ring, once at
  the start and then on a timer. The stores of the rings are looked up by the directory of a ring; what the
  system and the clock answer is given per directory. The timer and the task are runs of \<open>service_tick\<close>, and a
  service that was stopped makes no further pass: stopping waits for the pass that is under way. Log lines
  are left out. A pass that does not return is \<open>None\<close>.
\<close>

section \<open>Definitions\<close>

definition KEYS_ACTIVE :: "'f Metric" where
  "KEYS_ACTIVE = gauge ''picx_keys_active'' ''Whether an issuer has an active signing key (1) or not (0), by realm and role.''"

record MaintainedRing =
  mr_realm :: "string option"
  mr_role :: string
  mr_keys :: BuiltRing

definition ring_label :: "MaintainedRing \<Rightarrow> string" where
  "ring_label ring = (case mr_realm ring of
     Some name \<Rightarrow> ''the '' @ mr_role ring @ '' ring of the realm `'' @ name @ ''`''
   | None \<Rightarrow> ''the '' @ mr_role ring @ '' ring of the server'')"

record 'f rotation_world =
  rw_stores :: "string \<Rightarrow> KeyStore"
  rw_metrics :: "'f Metrics"

abbreviation dir_of :: "MaintainedRing \<Rightarrow> string" where
  "dir_of ring \<equiv> ring_directory (mr_keys ring)"

type_synonym pass_error = "string \<times> key_error"

definition key_pass ::
    "(string \<Rightarrow> key_env) \<Rightarrow> (string \<Rightarrow> u64) \<Rightarrow> MaintainedRing \<Rightarrow> 'f rotation_world
     \<Rightarrow> ((pass_error + unit) \<times> 'f rotation_world) option" where
  "key_pass envs now ring w =
     (let dir = dir_of ring in
      case maintain (envs dir) (ring_manager (mr_keys ring)) (now dir) (rw_stores w dir) of
        None \<Rightarrow> None
      | Some (result, st) \<Rightarrow>
          Some (map_err (Pair (ring_label ring)) (and_then result (\<lambda>_. Inr ())),
                w\<lparr> rw_stores := (rw_stores w)(dir := st) \<rparr>))"

definition active_labels :: "MaintainedRing \<Rightarrow> labels" where
  "active_labels ring = [(''realm'', case mr_realm ring of Some name \<Rightarrow> name | None \<Rightarrow> ''server''), (''role'', mr_role ring)]"

definition record_active :: "'f float_ops \<Rightarrow> MaintainedRing \<Rightarrow> 'f rotation_world \<Rightarrow> 'f rotation_world" where
  "record_active ops ring w =
     w\<lparr> rw_metrics := metrics_record ops KEYS_ACTIVE (active_labels ring)
          (f_of_bool ops (is_ok (active_key_id (rw_stores w (dir_of ring))))) (rw_metrics w) \<rparr>"

definition realm_rings :: "BuiltRealm \<Rightarrow> MaintainedRing list" where
  "realm_rings realm =
     (case operations_keys realm of
        Some keys \<Rightarrow> [\<lparr> mr_realm = Some (realm_name realm), mr_role = ''operations'', mr_keys = keys \<rparr>]
      | None \<Rightarrow> [])
     @ (case token_keys realm of
          Some keys \<Rightarrow> [\<lparr> mr_realm = Some (realm_name realm), mr_role = ''tokens'', mr_keys = keys \<rparr>]
        | None \<Rightarrow> [])"

definition maintained_rings :: "Assembled \<Rightarrow> MaintainedRing list" where
  "maintained_rings asm =
     (case asm_keys asm of
        Some keys \<Rightarrow> [\<lparr> mr_realm = None, mr_role = ''operations'', mr_keys = keys \<rparr>]
      | None \<Rightarrow> [])
     @ concat (map realm_rings (all_realms (asm_realms asm)))"

fun prepare_rings ::
    "'f float_ops \<Rightarrow> (string \<Rightarrow> key_env) \<Rightarrow> (string \<Rightarrow> u64) \<Rightarrow> MaintainedRing list \<Rightarrow> 'f rotation_world
     \<Rightarrow> ((pass_error + unit) \<times> 'f rotation_world) option" where
  "prepare_rings ops envs now [] w = Some (Inr (), w)"
| "prepare_rings ops envs now (ring # rest) w =
     (case key_pass envs now ring w of
        None \<Rightarrow> None
      | Some (Inl e, w) \<Rightarrow>
          (case mr_realm ring of
             None \<Rightarrow> Some (Inl e, w)
           | Some _ \<Rightarrow> prepare_rings ops envs now rest (record_active ops ring w))
      | Some (Inr _, w) \<Rightarrow> prepare_rings ops envs now rest (record_active ops ring w))"

fun advance_rings ::
    "'f float_ops \<Rightarrow> (string \<Rightarrow> key_env) \<Rightarrow> (string \<Rightarrow> u64) \<Rightarrow> MaintainedRing list \<Rightarrow> 'f rotation_world
     \<Rightarrow> 'f rotation_world option" where
  "advance_rings ops envs now [] w = Some w"
| "advance_rings ops envs now (ring # rest) w =
     (case key_pass envs now ring w of
        None \<Rightarrow> None
      | Some (_, w) \<Rightarrow> advance_rings ops envs now rest (record_active ops ring w))"

record Running =
  run_rings :: "MaintainedRing list"
  run_every :: u64

record KeyService =
  svc_tick :: "u64 option"
  svc_running :: "Running option"

definition new_key_service :: KeyService where
  "new_key_service = \<lparr> svc_tick = None, svc_running = None \<rparr>"

definition every :: "u64 \<Rightarrow> KeyService \<Rightarrow> KeyService" where
  "every tick svc = svc\<lparr> svc_tick := Some tick \<rparr>"

definition key_service_start ::
    "'f float_ops \<Rightarrow> (string \<Rightarrow> key_env) \<Rightarrow> (string \<Rightarrow> u64) \<Rightarrow> Config \<Rightarrow> Assembled \<Rightarrow> KeyService \<Rightarrow> 'f rotation_world
     \<Rightarrow> ((pass_error + unit) \<times> KeyService \<times> 'f rotation_world) option" where
  "key_service_start ops envs now c asm svc w =
     (let found = maintained_rings asm in
      if found = [] then Some (Inr (), svc, w)
      else case prepare_rings ops envs now found w of
        None \<Rightarrow> None
      | Some (Inl e, w) \<Rightarrow> Some (Inl e, svc, w)
      | Some (Inr _, w) \<Rightarrow>
          Some (Inr (), svc\<lparr> svc_running := Some \<lparr> run_rings = found,
            run_every = (case svc_tick svc of Some tick \<Rightarrow> tick | None \<Rightarrow> keys_maintenance_interval c) \<rparr> \<rparr>, w))"

definition key_service_stop :: "KeyService \<Rightarrow> KeyService" where
  "key_service_stop svc = svc\<lparr> svc_running := None \<rparr>"

definition service_tick ::
    "'f float_ops \<Rightarrow> (string \<Rightarrow> key_env) \<Rightarrow> (string \<Rightarrow> u64) \<Rightarrow> KeyService \<Rightarrow> 'f rotation_world \<Rightarrow> 'f rotation_world option" where
  "service_tick ops envs now svc w =
     (case svc_running svc of None \<Rightarrow> Some w | Some running \<Rightarrow> advance_rings ops envs now (run_rings running) w)"

section \<open>Lemmas\<close>

subsection \<open>A pass\<close>

text \<open>A ring a pass returns for: a well-formed one, or one that cannot be read.\<close>

definition passable :: "(string \<Rightarrow> key_env) \<Rightarrow> 'f rotation_world \<Rightarrow> MaintainedRing \<Rightarrow> bool" where
  "passable envs w ring \<longleftrightarrow> (let st = rw_stores w (dir_of ring); env = envs (dir_of ring) in
     ring_wf env st \<and> fresh_names env (ring_manager (mr_keys ring)) st (ring_of st) \<or> \<not> is_ok (read_ring_in (ks_ring st)))"

abbreviation own_pass where
  "own_pass envs now ring w \<equiv> maintain (envs (dir_of ring)) (ring_manager (mr_keys ring)) (now (dir_of ring)) (rw_stores w (dir_of ring))"

lemma record_active_stores [simp]: "rw_stores (record_active ops ring w) = rw_stores w"
  by (simp add: record_active_def)

lemma passable_returns: "passable envs w ring \<Longrightarrow> own_pass envs now ring w \<noteq> None"
proof -
  assume "passable envs w ring"
  then consider "ring_wf (envs (dir_of ring)) (rw_stores w (dir_of ring))"
      "fresh_names (envs (dir_of ring)) (ring_manager (mr_keys ring)) (rw_stores w (dir_of ring)) (ring_of (rw_stores w (dir_of ring)))"
    | "\<not> is_ok (read_ring_in (ks_ring (rw_stores w (dir_of ring))))" by (auto simp: passable_def Let_def)
  then show ?thesis
  proof cases
    case 1
    then show ?thesis by (rule maintain_stages [where now = "now (dir_of ring)"]) auto
  qed (auto simp: maintain_def is_ok_def split: sum.splits)
qed

lemma key_pass_Some:
  "key_pass envs now ring w = Some (r, w') \<longleftrightarrow> (\<exists>result st. own_pass envs now ring w = Some (result, st)
     \<and> r = map_err (Pair (ring_label ring)) (and_then result (\<lambda>_. Inr ()))
     \<and> w' = w\<lparr> rw_stores := (rw_stores w)(dir_of ring := st) \<rparr>)"
  by (auto simp: key_pass_def Let_def split: option.splits)

lemma key_pass_ok: "is_ok (map_err (Pair l) (and_then result (\<lambda>_. Inr ()))) \<longleftrightarrow> is_ok result"
  by (cases result) auto


subsection \<open>All rings\<close>

lemma own_pass_cong: "rw_stores w' (dir_of ring) = rw_stores w (dir_of ring) \<Longrightarrow> own_pass envs now ring w' = own_pass envs now ring w"
  by simp

lemma advance_alone:
  assumes "distinct (map dir_of rs)" "advance_rings ops envs now rs w = Some w'"
  shows "(\<forall>ring \<in> set rs. \<exists>r. own_pass envs now ring w = Some (r, rw_stores w' (dir_of ring)))
    \<and> (\<forall>d. d \<notin> dir_of ` set rs \<longrightarrow> rw_stores w' d = rw_stores w d)"
  using assms
proof (induction rs arbitrary: w)
  case (Cons ring rs)
  then obtain r w1 where pass: "key_pass envs now ring w = Some (r, w1)"
    and rest: "advance_rings ops envs now rs (record_active ops ring w1) = Some w'" by (auto split: option.splits)
  from pass obtain result st where own: "own_pass envs now ring w = Some (result, st)"
    and w1: "w1 = w\<lparr> rw_stores := (rw_stores w)(dir_of ring := st) \<rparr>" by (auto simp: key_pass_Some)
  note IH = Cons.IH [OF _ rest]
  have "own_pass envs now other (record_active ops ring w1) = own_pass envs now other w" if "other \<in> set rs" for other
  proof (rule own_pass_cong)
    from that Cons.prems(1) have "dir_of other \<noteq> dir_of ring" by (force simp: image_iff)
    then show "rw_stores (record_active ops ring w1) (dir_of other) = rw_stores w (dir_of other)" by (simp add: w1)
  qed
  with IH Cons.prems(1) have "\<forall>other \<in> set rs. \<exists>r. own_pass envs now other w = Some (r, rw_stores w' (dir_of other))" by simp
  moreover have "rw_stores w' (dir_of ring) = st" using IH Cons.prems(1) by (simp add: w1)
  ultimately show ?case using own IH Cons.prems(1) by (auto simp: w1)
qed simp

lemma advance_returns:
  assumes "distinct (map dir_of rs)" "\<And>ring. ring \<in> set rs \<Longrightarrow> own_pass envs now ring w \<noteq> None"
  shows "advance_rings ops envs now rs w \<noteq> None"
  using assms
proof (induction rs arbitrary: w)
  case (Cons ring rs)
  then obtain result st where own: "own_pass envs now ring w = Some (result, st)" by fastforce
  let ?w1 = "w\<lparr> rw_stores := (rw_stores w)(dir_of ring := st) \<rparr>"
  have "own_pass envs now other (record_active ops ring ?w1) \<noteq> None" if "other \<in> set rs" for other
  proof -
    from that Cons.prems(1) have "dir_of other \<noteq> dir_of ring" by (force simp: image_iff)
    then have "own_pass envs now other (record_active ops ring ?w1) = own_pass envs now other w" by simp
    with Cons.prems(2) [of other] that show ?thesis by simp
  qed
  with Cons.IH [of "record_active ops ring ?w1"] Cons.prems(1) show ?case by (simp add: key_pass_def Let_def own)
qed simp

lemma prepare_realm_rings:
  "\<forall>ring \<in> set rs. mr_realm ring \<noteq> None \<Longrightarrow>
   prepare_rings ops envs now rs w = map_option (Pair (Inr ())) (advance_rings ops envs now rs w)"
  by (induction rs arbitrary: w) (auto split: option.splits prod.splits sum.splits)

lemma prepare_advances: "prepare_rings ops envs now rs w = Some (Inr u, w') \<Longrightarrow> advance_rings ops envs now rs w = Some w'"
  by (induction rs arbitrary: w) (auto split: option.splits prod.splits sum.splits)

lemma realm_rings_of_realm: "ring \<in> set (concat (map realm_rings realms)) \<Longrightarrow> mr_realm ring \<noteq> None"
  by (auto simp: realm_rings_def split: option.splits)

definition server_rings :: "Assembled \<Rightarrow> MaintainedRing list" where
  "server_rings asm = map (\<lambda>keys. \<lparr> mr_realm = None, mr_role = ''operations'', mr_keys = keys \<rparr>)
     (case asm_keys asm of Some keys \<Rightarrow> [keys] | None \<Rightarrow> [])"

lemma maintained_alt: "maintained_rings asm = server_rings asm @ concat (map realm_rings (all_realms (asm_realms asm)))"
  by (simp add: maintained_rings_def server_rings_def split: option.splits)

lemma prepare_maintained:
  assumes "distinct (map dir_of (maintained_rings asm))"
    and "\<And>ring. ring \<in> set (maintained_rings asm) \<Longrightarrow> own_pass envs now ring w \<noteq> None"
  obtains r w' where "prepare_rings ops envs now (maintained_rings asm) w = Some (r, w')"
    "r = Inr () \<longleftrightarrow> (\<forall>ring \<in> set (server_rings asm). \<forall>result st. own_pass envs now ring w = Some (result, st) \<longrightarrow> is_ok result)"
proof -
  let ?rest = "concat (map realm_rings (all_realms (asm_realms asm)))"
  have realms: "prepare_rings ops envs now ?rest v = map_option (Pair (Inr ())) (advance_rings ops envs now ?rest v)" for v
    by (rule prepare_realm_rings) (use realm_rings_of_realm in blast)
  show thesis
  proof (cases "asm_keys asm")
    case None
    then have all: "maintained_rings asm = ?rest" "server_rings asm = []" by (simp_all add: maintained_alt server_rings_def)
    obtain w' where "advance_rings ops envs now ?rest w = Some w'" using advance_returns [of ?rest] assms unfolding all by blast
    with realms all that show thesis by simp
  next
    case (Some keys)
    define ring where "ring = \<lparr> mr_realm = None, mr_role = ''operations'', mr_keys = keys \<rparr>"
    have all: "maintained_rings asm = ring # ?rest" "server_rings asm = [ring]"
      using Some by (simp_all add: maintained_alt server_rings_def ring_def)
    have server: "mr_realm ring = None" by (simp add: ring_def)
    obtain w' where adv: "advance_rings ops envs now (ring # ?rest) w = Some w'"
      using advance_returns [of "ring # ?rest"] assms unfolding all by blast
    obtain result st where own: "own_pass envs now ring w = Some (result, st)" using assms(2) [of ring] all by fastforce
    show thesis
    proof (cases result)
      case (Inl e)
      then show thesis using own all
        by (intro that [of "Inl (ring_label ring, e)" "w\<lparr> rw_stores := (rw_stores w)(dir_of ring := st) \<rparr>"])
          (auto simp: key_pass_def Let_def server)
    next
      case (Inr u)
      then show thesis using own all adv realms
        by (intro that [of "Inr ()" w']) (auto simp: key_pass_def Let_def)
    qed
  qed
qed


subsection \<open>The gauge\<close>

abbreviation signs_now :: "'f float_ops \<Rightarrow> 'f rotation_world \<Rightarrow> MaintainedRing \<Rightarrow> 'f" where
  "signs_now ops w ring \<equiv> f_of_bool ops (is_ok (active_key_id (rw_stores w (dir_of ring))))"

lemma registry_run_snoc: "registry_run ops (es @ [(metric, labels, v)]) = registry_record ops metric labels v (registry_run ops es)"
  by (simp add: registry_run_def)

lemma advance_records:
  assumes "distinct (map dir_of rs)" "advance_rings ops envs now rs w = Some w'" "rw_metrics w = Some (registry_run ops es)"
  shows "rw_metrics w' = Some (registry_run ops (es @ map (\<lambda>ring. (KEYS_ACTIVE, active_labels ring, signs_now ops w' ring)) rs))"
  using assms
proof (induction rs arbitrary: w es)
  case (Cons ring rs)
  then obtain r w1 where pass: "key_pass envs now ring w = Some (r, w1)"
    and rest: "advance_rings ops envs now rs (record_active ops ring w1) = Some w'" by (auto split: option.splits)
  have kept: "rw_metrics w1 = rw_metrics w" using pass by (auto simp: key_pass_Some)
  have "rw_stores w' (dir_of ring) = rw_stores w1 (dir_of ring)"
    using advance_alone [OF _ rest] Cons.prems(1) by simp
  then have "rw_metrics (record_active ops ring w1) = Some (registry_run ops (es @ [(KEYS_ACTIVE, active_labels ring, signs_now ops w' ring)]))"
    using kept Cons.prems(3) by (simp add: record_active_def metrics_record_def registry_run_snoc)
  from Cons.IH [OF _ rest this] Cons.prems(1) show ?case by simp
qed simp

lemma one_declaration_subset: "one_declaration B \<Longrightarrow> A \<subseteq> B \<Longrightarrow> one_declaration A"
  by (simp add: one_declaration_def subset_eq)

lemma keyed_labels_inj: "keyed (active_labels a) = keyed (active_labels b) \<Longrightarrow> active_labels a = active_labels b"
proof -
  assume "keyed (active_labels a) = keyed (active_labels b)"
  then have "set (active_labels a) = set (active_labels b)" by (metis keyed_def set_sort)
  moreover have "x = x' \<and> y = y'" if "{(''realm'', x), (''role'', y)} = {(''realm'', x'), (''role'', y')}" for x y x' y' :: string
    using that by (simp add: doubleton_eq_iff)
  ultimately show ?thesis by (simp add: active_labels_def)
qed

lemma last_of_distinct:
  assumes "distinct (map f xs)" "x \<in> set xs"
  shows "filter (\<lambda>y. f y = f x) xs = [x]"
  using assms by (induction xs) (auto simp: filter_empty_conv image_iff)

lemma observed_gauge:
  assumes "distinct (map active_labels rs)" "ring \<in> set rs" "\<And>b. f_finite ops (f_of_bool ops b)"
  shows "observed ops (metric_name (KEYS_ACTIVE :: 'f Metric), keyed (active_labels ring))
      (es @ map (\<lambda>ring. (KEYS_ACTIVE :: 'f Metric, active_labels ring, signs_now ops w' ring)) rs)
    = observed ops (metric_name (KEYS_ACTIVE :: 'f Metric), keyed (active_labels ring)) es @ [signs_now ops w' ring]"
proof -
  have "(\<lambda>r. keyed (active_labels r) = keyed (active_labels ring)) = (\<lambda>r. active_labels r = active_labels ring)"
    by (intro ext) (auto dest: keyed_labels_inj)
  with last_of_distinct [OF assms(1,2)] assms(3) show ?thesis
    by (simp add: observed_def filter_map o_def)
qed

lemma gauge_reads:
  fixes ops :: "'f float_ops"
  assumes "distinct (map dir_of rs)" "distinct (map active_labels rs)" "\<And>b. f_finite ops (f_of_bool ops b)"
    and "one_declaration (insert KEYS_ACTIVE (fst ` set es))" "rw_metrics w = Some (registry_run ops es)"
    and "advance_rings ops envs now rs w = Some w'" "ring \<in> set rs"
  shows "\<exists>reg. rw_metrics w' = Some reg
    \<and> (\<forall>s \<in> set (registry_snapshot reg). sample_key s = (''picx_keys_active'', keyed (active_labels ring)) \<longrightarrow>
         sample_reading s = ReadValue (signs_now ops w' ring))
    \<and> ((''picx_keys_active'', keyed (active_labels ring)) \<in> sample_key ` set (registry_snapshot reg)
       \<or> registry_len reg = SERIES_CEILING \<and> reg_overflowed reg)"
proof -
  let ?new = "map (\<lambda>ring. (KEYS_ACTIVE :: 'f Metric, active_labels ring, signs_now ops w' ring)) rs"
  let ?reg = "registry_run ops (es @ ?new)" and ?key = "(''picx_keys_active'', keyed (active_labels ring))"
  have name: "metric_name (KEYS_ACTIVE :: 'f Metric) = ''picx_keys_active''" "metric_kind (KEYS_ACTIVE :: 'f Metric) = Gauge"
    by (simp_all add: KEYS_ACTIVE_def gauge_def)
  have sub: "fst ` set (es @ ?new) \<subseteq> insert KEYS_ACTIVE (fst ` set es)"
    unfolding set_append set_map image_Un image_image fst_conv by blast
  note declared = one_declaration_subset [OF assms(4) sub]
  have tracks: "tracks ops (es @ ?new) ?reg" by (rule tracks_run [OF declared])
  note seen = observed_gauge [where es = es and w' = w', OF assms(2,7,3), unfolded name]
  have "sample_reading s = ReadValue (signs_now ops w' ring)" if s: "s \<in> set (registry_snapshot ?reg)" "sample_key s = ?key" for s
  proof -
    from s(1) obtain e where e: "e \<in> set (reg_series ?reg)" "s = entry_sample e" by (auto simp: snapshot_alt)
    note entry = tracks_entry [OF tracks e(1)]
    have key: "fst e = ?key" using entry(1) s(2) e(2) by simp
    have "metric_name (fst (snd e)) = ''picx_keys_active''" using entry(1) e key
      by (auto simp: sample_key_def entry_sample_def split: prod.splits)
    moreover have "fst (snd e) \<in> insert KEYS_ACTIVE (fst ` set es)" using entry(2) sub by blast
    ultimately have "fst (snd e) = KEYS_ACTIVE" using assms(4) name(1) unfolding one_declaration_def by (metis insertI1)
    then show ?thesis using entry(4) e(2) seen name(2) by (simp add: key spec_reading_def)
  qed
  moreover have "?key \<in> sample_key ` set (registry_snapshot ?reg) \<or> registry_len ?reg = SERIES_CEILING \<and> reg_overflowed ?reg"
  proof -
    have "tracked ops (es @ ?new) ?reg ?key" using tracks unfolding tracks_def by blast
    then have "map_of (reg_series ?reg) ?key \<noteq> None \<or> registry_len ?reg = SERIES_CEILING \<and> reg_overflowed ?reg"
      using seen by (auto simp: tracked_def registry_len_def split: option.splits)
    then show ?thesis using snapshot_keys(1) [OF tracks] by (auto simp: map_of_eq_None_iff)
  qed
  ultimately show ?thesis using advance_records [OF assms(1,6,5)] by blast
qed


subsection \<open>What a pass leaves\<close>

lemma forget_all_ring: "forget_all env names st = (r, st') \<Longrightarrow> ks_ring st' = ks_ring st"
  by (induction names arbitrary: st) (auto simp: forget_def Let_def split: prod.splits sum.splits if_splits)

lemma finish_fails_on_disk: "finish_pass env m now v p st = (Inl e, st') \<Longrightarrow> ks_ring st' = ks_ring st"
  by (auto simp: finish_pass_def write_ring_def split: prod.splits sum.splits if_splits dest: forget_all_ring)

lemma passable_pass:
  assumes "passable envs w ring" "own_pass envs now ring w = Some (r, st)"
  shows "is_ok r \<longrightarrow> one_active (ring_of st)" "\<not> is_ok r \<longrightarrow> ks_ring st = ks_ring (rw_stores w (dir_of ring))"
proof -
  let ?st = "rw_stores w (dir_of ring)" and ?env = "envs (dir_of ring)" and ?m = "ring_manager (mr_keys ring)"
  consider (wf) "ring_wf ?env ?st" "fresh_names ?env ?m ?st (ring_of ?st)" | (unread) "\<not> is_ok (read_ring_in (ks_ring ?st))"
    using assms(1) by (auto simp: passable_def Let_def)
  then have "(is_ok r \<longrightarrow> one_active (ring_of st)) \<and> (\<not> is_ok r \<longrightarrow> ks_ring st = ks_ring ?st)"
  proof cases
    case wf
    show ?thesis
    proof (cases r)
      case (Inr rep)
      with maintain_done [OF wf] assms(2) have "one_active (ring_of st)" by metis
      with Inr show ?thesis by simp
    next
      case (Inl e)
      from wf show ?thesis
      proof (cases rule: maintain_stages [where now = "now (dir_of ring)"])
        case (late v p st1)
        with Inl assms(2) finish_fails_on_disk show ?thesis by (fastforce simp: pass_done_def)
      qed (use Inl assms(2) in simp)
    qed
  next
    case unread
    then show ?thesis using assms(2) by (auto simp: maintain_def is_ok_def split: sum.splits)
  qed
  then show "is_ok r \<longrightarrow> one_active (ring_of st)" "\<not> is_ok r \<longrightarrow> ks_ring st = ks_ring (rw_stores w (dir_of ring))" by auto
qed

lemma maintained_labels:
  assumes "distinct (map realm_name (all_realms (asm_realms asm)))" "\<forall>realm \<in> set (all_realms (asm_realms asm)). realm_name realm \<noteq> ''server''"
  shows "distinct (map active_labels (maintained_rings asm))"
proof -
  have of_realm: "distinct (map active_labels (realm_rings realm))" for realm
    by (auto simp: realm_rings_def active_labels_def split: option.splits)
  have labelled: "\<exists>role. active_labels ring = [(''realm'', realm_name realm), (''role'', role)]" if "ring \<in> set (realm_rings realm)" for ring realm
    using that by (auto simp: realm_rings_def active_labels_def split: option.splits)
  have "distinct (map active_labels (concat (map realm_rings realms)))" if "distinct (map realm_name realms)" for realms
    using that
  proof (induction realms)
    case (Cons realm realms)
    have "active_labels a \<noteq> active_labels b" if "a \<in> set (realm_rings realm)" "b \<in> set (realm_rings other)" "other \<in> set realms" for a b other
      using labelled [OF that(1)] labelled [OF that(2)] that(3) Cons.prems by (auto simp: image_iff)
    with Cons of_realm show ?case by auto
  qed simp
  with assms(1) have "distinct (map active_labels (concat (map realm_rings (all_realms (asm_realms asm)))))" by blast
  moreover have "active_labels a \<noteq> active_labels b"
    if "a \<in> set (server_rings asm)" "b \<in> set (realm_rings realm)" "realm \<in> set (all_realms (asm_realms asm))" for a b realm
    using that(1) labelled [OF that(2)] assms(2) that(3) by (auto simp: server_rings_def active_labels_def split: option.splits)
  moreover have "distinct (map active_labels (server_rings asm))" by (auto simp: server_rings_def split: option.splits)
  ultimately show ?thesis by (auto simp: maintained_alt)
qed


section \<open>Properties\<close>

text \<open>
  C16: a broken realm stops nobody. When every ring is well-formed or cannot be read at all, and each lies in a
  directory of its own, the service starts in every case but one, a ring of the server whose pass fails. After a
  start each ring is what its own pass makes of what it was, whatever became of the others: one that passed has
  exactly one active key, and one that failed has the ring it had on disk. A tick that follows on such rings
  returns and gives every ring its own pass again.
\<close>

theorem broken_realms_stop_nobody:
  assumes "distinct (map dir_of (maintained_rings asm))" "\<forall>ring \<in> set (maintained_rings asm). passable envs w ring"
  shows "\<exists>r svc' w'. key_service_start ops envs now c asm svc w = Some (r, svc', w')
    \<and> (r = Inr () \<longleftrightarrow> (\<forall>keys. asm_keys asm = Some keys \<longrightarrow>
         (\<exists>rep st. maintain (envs (ring_directory keys)) (ring_manager keys) (now (ring_directory keys)) (rw_stores w (ring_directory keys)) = Some (Inr rep, st))))
    \<and> (r = Inr () \<longrightarrow> (\<forall>ring \<in> set (maintained_rings asm). \<exists>result. own_pass envs now ring w = Some (result, rw_stores w' (dir_of ring))
         \<and> (is_ok result \<longrightarrow> one_active (ring_of (rw_stores w' (dir_of ring))))
         \<and> (\<not> is_ok result \<longrightarrow> ks_ring (rw_stores w' (dir_of ring)) = ks_ring (rw_stores w (dir_of ring)))
         \<and> (\<forall>envs' later. (\<forall>other \<in> set (maintained_rings asm). passable envs' w' other) \<longrightarrow>
              (\<exists>w2 result. service_tick ops envs' later svc' w' = Some w2
                \<and> own_pass envs' later ring w' = Some (result, rw_stores w2 (dir_of ring))))))"
proof -
  have returns: "own_pass envs now ring w \<noteq> None" if "ring \<in> set (maintained_rings asm)" for ring
    using passable_returns assms(2) that by blast
  obtain r w' where run: "prepare_rings ops envs now (maintained_rings asm) w = Some (r, w')"
    and ok: "r = Inr () \<longleftrightarrow> (\<forall>ring \<in> set (server_rings asm). \<forall>result st. own_pass envs now ring w = Some (result, st) \<longrightarrow> is_ok result)"
    using prepare_maintained [OF assms(1) returns] by metis
  then obtain svc' where "key_service_start ops envs now c asm svc w = Some (r, svc', w')"
    and running: "r = Inr () \<longrightarrow> maintained_rings asm \<noteq> [] \<longrightarrow> (\<exists>every. svc_running svc' = Some \<lparr> run_rings = maintained_rings asm, run_every = every \<rparr>)"
    using run by (cases "maintained_rings asm = []"; cases r) (auto simp: key_service_start_def Let_def)
  moreover have "r = Inr () \<longleftrightarrow> (\<forall>keys. asm_keys asm = Some keys \<longrightarrow>
      (\<exists>rep st. maintain (envs (ring_directory keys)) (ring_manager keys) (now (ring_directory keys)) (rw_stores w (ring_directory keys)) = Some (Inr rep, st)))"
  proof (cases "asm_keys asm")
    case (Some keys)
    define ring where "ring = \<lparr> mr_realm = None, mr_role = ''operations'', mr_keys = keys \<rparr>"
    have ring: "server_rings asm = [ring]" "mr_keys ring = keys" using Some by (simp_all add: server_rings_def ring_def)
    then obtain result st where own: "own_pass envs now ring w = Some (result, st)" using returns [of ring] by (auto simp: maintained_alt)
    with ok ring(1) have "r = Inr () \<longleftrightarrow> is_ok result" by simp
    with own [unfolded ring(2)] Some show ?thesis by (cases result) auto
  qed (use ok in \<open>simp add: server_rings_def\<close>)
  moreover have "\<exists>result. own_pass envs now ring w = Some (result, rw_stores w' (dir_of ring))
      \<and> (is_ok result \<longrightarrow> one_active (ring_of (rw_stores w' (dir_of ring))))
      \<and> (\<not> is_ok result \<longrightarrow> ks_ring (rw_stores w' (dir_of ring)) = ks_ring (rw_stores w (dir_of ring)))
      \<and> (\<forall>envs' later. (\<forall>other \<in> set (maintained_rings asm). passable envs' w' other) \<longrightarrow>
           (\<exists>w2 result. service_tick ops envs' later svc' w' = Some w2
             \<and> own_pass envs' later ring w' = Some (result, rw_stores w2 (dir_of ring))))"
    if "r = Inr ()" "ring \<in> set (maintained_rings asm)" for ring
  proof -
    from run that(1) have "advance_rings ops envs now (maintained_rings asm) w = Some w'" using prepare_advances by blast
    from advance_alone [OF assms(1) this] that(2) obtain result
      where own: "own_pass envs now ring w = Some (result, rw_stores w' (dir_of ring))" by blast
    have tick: "\<exists>w2 result. service_tick ops envs' later svc' w' = Some w2 \<and> own_pass envs' later ring w' = Some (result, rw_stores w2 (dir_of ring))"
      if "\<forall>other \<in> set (maintained_rings asm). passable envs' w' other" for envs' later
    proof -
      obtain svc_every where svc: "svc_running svc' = Some \<lparr> run_rings = maintained_rings asm, run_every = svc_every \<rparr>"
        using running \<open>r = Inr ()\<close> \<open>ring \<in> set (maintained_rings asm)\<close> by (cases "maintained_rings asm") auto
      have "own_pass envs' later other w' \<noteq> None" if "other \<in> set (maintained_rings asm)" for other
        using passable_returns \<open>\<forall>other \<in> set (maintained_rings asm). passable envs' w' other\<close> that by blast
      with advance_returns [OF assms(1)] obtain w2 where "advance_rings ops envs' later (maintained_rings asm) w' = Some w2" by fastforce
      with advance_alone [OF assms(1) this] \<open>ring \<in> set (maintained_rings asm)\<close> svc show ?thesis by (auto simp: service_tick_def)
    qed
    have "passable envs w ring" using assms(2) that(2) by blast
    from passable_pass [where now = now, OF this own] own tick show ?thesis by blast
  qed
  ultimately show ?thesis by blast
qed

text \<open>
  The gauge tells who signs. When no realm is called \<open>server\<close>, after a start and after every tick that
  follows, the series of a ring reads 1 exactly when the ring has an active key and 0 otherwise, and there is
  such a series unless the registry is full.
\<close>

theorem gauge_tells_who_signs:
  fixes ops :: "'f float_ops"
  assumes "distinct (map dir_of (maintained_rings asm))" "distinct (map realm_name (all_realms (asm_realms asm)))"
    and "\<forall>realm \<in> set (all_realms (asm_realms asm)). realm_name realm \<noteq> ''server''"
    and "\<And>b. f_finite ops (f_of_bool ops b)" "one_declaration (insert KEYS_ACTIVE (fst ` set es))" "rw_metrics w = Some (registry_run ops es)"
    and "key_service_start ops envs now c asm svc w = Some (Inr (), svc', w1)" "ring \<in> set (maintained_rings asm)"
    and "w2 = w1 \<or> service_tick ops envs later svc' w1 = Some w2"
  shows "\<exists>reg. rw_metrics w2 = Some reg
    \<and> (\<forall>s \<in> set (registry_snapshot reg). sample_key s = (''picx_keys_active'', keyed (active_labels ring)) \<longrightarrow>
         sample_reading s = ReadValue (if is_ok (active_key_id (rw_stores w2 (dir_of ring))) then f_one ops else f_zero ops))
    \<and> ((''picx_keys_active'', keyed (active_labels ring)) \<in> sample_key ` set (registry_snapshot reg)
       \<or> registry_len reg = SERIES_CEILING \<and> reg_overflowed reg)"
proof -
  note labels = maintained_labels [OF assms(2,3)]
  have some: "maintained_rings asm \<noteq> []" using assms(8) by auto
  with assms(7) have first: "advance_rings ops envs now (maintained_rings asm) w = Some w1"
    and running: "\<exists>every. svc_running svc' = Some \<lparr> run_rings = maintained_rings asm, run_every = every \<rparr>"
    by (auto simp: key_service_start_def Let_def split: option.splits sum.splits dest: prepare_advances)
  show ?thesis
  proof (cases "w2 = w1")
    case True
    from gauge_reads [OF assms(1) labels assms(4-6) first assms(8)] show ?thesis unfolding True f_of_bool_def .
  next
    case False
    let ?es = "es @ map (\<lambda>ring. (KEYS_ACTIVE :: 'f Metric, active_labels ring, signs_now ops w1 ring)) (maintained_rings asm)"
    have tick: "advance_rings ops envs later (maintained_rings asm) w1 = Some w2"
      using False assms(9) running by (auto simp: service_tick_def)
    have "insert KEYS_ACTIVE (fst ` set ?es) \<subseteq> insert KEYS_ACTIVE (fst ` set es)"
      unfolding set_append set_map image_Un image_image fst_conv by blast
    note declared = one_declaration_subset [OF assms(5) this]
    from gauge_reads [OF assms(1) labels assms(4) declared advance_records [OF assms(1) first assms(6)] tick assms(8)]
    show ?thesis unfolding f_of_bool_def .
  qed
qed


subsection \<open>Two rings\<close>

definition demo_keys_at :: "string \<Rightarrow> BuiltRing" where
  "demo_keys_at directory = \<lparr> ring_directory = directory, ring_manager = demo_manager \<rparr>"

definition signing_server :: Assembled where
  "signing_server = \<lparr> asm_secrets = None, asm_pseudonymizer = None, asm_keys = Some (demo_keys_at ''keys''),
     asm_audit = TracingSink [] [], asm_realms = new_realms [new_realm ''acme'' ''/realms/acme'' None True
       (Some (demo_keys_at ''broken'')) None (TracingSink [] []) None] \<rparr>"

definition demo_rotation :: "int rotation_world" where
  "demo_rotation = \<lparr> rw_stores = (\<lambda>directory. if directory = ''broken'' then demo_store\<lparr> ks_ring := RingGarbled \<rparr> else demo_store),
     rw_metrics = Some new_registry \<rparr>"

lemma signing_rings: "maintained_rings signing_server =
    [\<lparr> mr_realm = None, mr_role = ''operations'', mr_keys = demo_keys_at ''keys'' \<rparr>,
     \<lparr> mr_realm = Some ''acme'', mr_role = ''operations'', mr_keys = demo_keys_at ''broken'' \<rparr>]"
  by code_simp

lemma demo_passable: "\<forall>ring \<in> set (maintained_rings signing_server). passable (\<lambda>_. demo_env) demo_rotation ring"
proof -
  have "passable (\<lambda>_. demo_env) demo_rotation \<lparr> mr_realm = realm, mr_role = role, mr_keys = demo_keys_at ''keys'' \<rparr>" for realm role
    using KeyLifecycle.demo_run by (simp add: passable_def demo_keys_at_def demo_rotation_def Let_def)
  moreover have "passable (\<lambda>_. demo_env) demo_rotation \<lparr> mr_realm = realm, mr_role = role, mr_keys = demo_keys_at ''broken'' \<rparr>" for realm role
    by (simp add: passable_def demo_keys_at_def demo_rotation_def Let_def read_ring_in_def)
  ultimately show ?thesis by (simp add: signing_rings)
qed

abbreviation "demo_start \<equiv> key_service_start int_ops (\<lambda>_. demo_env) (\<lambda>_. 200) default_config signing_server new_key_service demo_rotation"

lemma demo_apart: "distinct (map dir_of (maintained_rings signing_server))"
  by (simp add: signing_rings demo_keys_at_def)

theorem broken_realms_stop_nobody_witness:
  "\<exists>svc' w'. demo_start = Some (Inr (), svc', w')
    \<and> one_active (ring_of (rw_stores w' ''keys'')) \<and> ks_ring (rw_stores w' ''broken'') = RingGarbled"
proof -
  obtain st where pass: "maintain demo_env demo_manager 200 demo_store = Some (Inr demo_report, st)" by (rule demo_pass)
  have keys: "asm_keys signing_server = Some (demo_keys_at ''keys'')" by (simp add: signing_server_def)
  from broken_realms_stop_nobody [OF demo_apart demo_passable, of int_ops "\<lambda>_. 200" default_config new_key_service]
  obtain r svc' w' where start: "demo_start = Some (r, svc', w')"
    and ok: "r = Inr () \<longleftrightarrow> (\<forall>keys. asm_keys signing_server = Some keys \<longrightarrow>
         (\<exists>rep st. maintain demo_env (ring_manager keys) 200 (rw_stores demo_rotation (ring_directory keys)) = Some (Inr rep, st)))"
    and each: "r = Inr () \<longrightarrow> (\<forall>ring \<in> set (maintained_rings signing_server).
        \<exists>result. maintain demo_env (ring_manager (mr_keys ring)) 200 (rw_stores demo_rotation (dir_of ring)) = Some (result, rw_stores w' (dir_of ring))
         \<and> (is_ok result \<longrightarrow> one_active (ring_of (rw_stores w' (dir_of ring))))
         \<and> (\<not> is_ok result \<longrightarrow> ks_ring (rw_stores w' (dir_of ring)) = ks_ring (rw_stores demo_rotation (dir_of ring))))"
    by blast
  have r: "r = Inr ()" unfolding ok using pass keys by (simp add: demo_keys_at_def demo_rotation_def)
  from each r have "one_active (ring_of (rw_stores w' ''keys''))" "ks_ring (rw_stores w' ''broken'') = RingGarbled"
    using pass by (auto simp: signing_rings demo_keys_at_def demo_rotation_def maintain_def [of _ _ _ "demo_store\<lparr> ks_ring := RingGarbled \<rparr>"] read_ring_in_def)
  with start r show ?thesis by blast
qed

lemma demo_started_service: obtains svc' w' where "demo_start = Some (Inr (), svc', w')"
proof -
  obtain st where pass: "maintain demo_env demo_manager 200 demo_store = Some (Inr demo_report, st)" by (rule demo_pass)
  have "own_pass (\<lambda>_. demo_env) (\<lambda>_. 200) ring demo_rotation \<noteq> None" if "ring \<in> set (maintained_rings signing_server)" for ring
    using passable_returns [of "\<lambda>_. demo_env" demo_rotation ring "\<lambda>_. 200"] demo_passable that by blast
  from prepare_maintained [OF demo_apart this, of int_ops] obtain r w'
    where run: "prepare_rings int_ops (\<lambda>_. demo_env) (\<lambda>_. 200) (maintained_rings signing_server) demo_rotation = Some (r, w')"
    and ok: "r = Inr () \<longleftrightarrow> (\<forall>ring \<in> set (server_rings signing_server). \<forall>result st.
      own_pass (\<lambda>_. demo_env) (\<lambda>_. 200) ring demo_rotation = Some (result, st) \<longrightarrow> is_ok result)" by blast
  have "r = Inr ()" unfolding ok using pass by (simp add: server_rings_def signing_server_def demo_keys_at_def demo_rotation_def)
  with run show thesis by (intro that) (simp add: key_service_start_def signing_rings Let_def)
qed

theorem gauge_tells_who_signs_witness:
  "\<exists>svc' w' reg. demo_start = Some (Inr (), svc', w')
    \<and> rw_metrics w' = Some reg
    \<and> (\<forall>s \<in> set (registry_snapshot reg). sample_key s = (''picx_keys_active'', keyed [(''realm'', ''acme''), (''role'', ''operations'')]) \<longrightarrow>
         sample_reading s = ReadValue (if is_ok (active_key_id (rw_stores w' ''broken'')) then 1 else 0))"
proof -
  let ?ring = "\<lparr> mr_realm = Some ''acme'', mr_role = ''operations'', mr_keys = demo_keys_at ''broken'' \<rparr>"
  obtain svc' w' where start: "demo_start = Some (Inr (), svc', w')" by (rule demo_started_service)
  have shape: "distinct (map dir_of (maintained_rings signing_server))" "map realm_name (all_realms (asm_realms signing_server)) = [''acme'']"
    by code_simp+
  have "\<exists>reg. rw_metrics w' = Some reg
    \<and> (\<forall>s \<in> set (registry_snapshot reg). sample_key s = (''picx_keys_active'', keyed (active_labels ?ring)) \<longrightarrow>
         sample_reading s = ReadValue (if is_ok (active_key_id (rw_stores w' (dir_of ?ring))) then f_one int_ops else f_zero int_ops))
    \<and> ((''picx_keys_active'', keyed (active_labels ?ring)) \<in> sample_key ` set (registry_snapshot reg)
       \<or> registry_len reg = SERIES_CEILING \<and> reg_overflowed reg)"
  proof (rule gauge_tells_who_signs [where es = "[]", OF shape(1) _ _ _ _ _ start])
    show "distinct (map realm_name (all_realms (asm_realms signing_server)))" by (simp add: shape(2))
    show "\<forall>realm \<in> set (all_realms (asm_realms signing_server)). realm_name realm \<noteq> ''server''"
    proof
      fix realm assume "realm \<in> set (all_realms (asm_realms signing_server))"
      then have "realm_name realm \<in> set (map realm_name (all_realms (asm_realms signing_server)))" unfolding set_map by (rule imageI)
      then show "realm_name realm \<noteq> ''server''" unfolding shape(2) by simp
    qed
    show "f_finite int_ops (f_of_bool int_ops b)" for b by (simp add: int_ops_def)
    show "?ring \<in> set (maintained_rings signing_server)" by (simp add: signing_rings)
  qed (simp_all add: one_declaration_def demo_rotation_def registry_run_def)
  then show ?thesis using start by (auto simp: active_labels_def demo_keys_at_def int_ops_def)
qed

subsection \<open>Where it departs from what it says\<close>

text \<open>
  The series labelled \<open>server\<close> is said to be the ring of the control plane. A realm may be called \<open>server\<close>, and
  then the ring of that realm is recorded over it: a server that cannot sign reads 1.
\<close>

theorem realm_called_server_hides_the_ring:
  "let asm = signing_server\<lparr> asm_keys := Some (demo_keys_at ''broken''),
         asm_realms := new_realms [new_realm ''server'' ''/realms/server'' None True (Some (demo_keys_at ''keys'')) None (TracingSink [] []) None] \<rparr>;
       ticked = advance_rings int_ops (\<lambda>_. demo_env) (\<lambda>_. 200) (maintained_rings asm) demo_rotation
   in realm_name_shaped ''server''
    \<and> map_option (\<lambda>w. is_ok (active_key_id (rw_stores w ''broken''))) ticked = Some False
    \<and> map_option (\<lambda>w. map (\<lambda>s. (sample_labels s, sample_reading s)) (metrics_snapshot (rw_metrics w))) ticked
      = Some [([(''realm'', ''server''), (''role'', ''operations'')], ReadValue 1)]"
  by code_simp

end
