(* ===== verification/Documents.thy ===== *)
theory Documents
  imports Commands Evidence
begin

text \<open>
  The public surface: the documents of \<open>crates/pic-x-realm/src/routes.rs\<close> and what
  \<open>crates/pic-x-realm/src/service.rs\<close> mounts where. A document is a record of its fields in the order they are
  serialised. The router is the \<open>axum\<close> crate: what it does with routes, merges and nests is a record of
  operations, and the locale \<open>path_router\<close> says what the surface relies on. The formats and token types of the
  protocol crate are a \<open>pic_names\<close>, the landing template is an argument.
\<close>

section \<open>Definitions\<close>

subsection \<open>The documents\<close>

definition PIC_PROFILE :: string where "PIC_PROFILE = ''https://pic-protocol.org/profiles/0.2''"
definition KEY_SET_CACHING :: string where "KEY_SET_CACHING = ''public, max-age=300''"

record CatalogRealm =
  cat_name :: string
  cat_issuer :: "string option"
  cat_configuration_url :: string
  cat_jwks_uri :: string
  cat_mount_path :: string

record ProfileEntry =
  pe_profile :: string
  pe_realms :: "CatalogRealm list"

record Server =
  srv_product :: string
  srv_version :: string
  srv_profiles :: "ProfileEntry list"
  srv_logo :: string
  srv_tagline :: string

record RealmMeta =
  meta_issuer :: "string option"
  meta_token_endpoint :: string
  meta_jwks_uri :: string
  meta_signing_algorithm :: string
  meta_workload_algorithms :: "string list"

record AttestationIssuer =
  ai_id :: string
  ai_issuer :: string
  ai_jwks_uri :: string
  ai_proof_types :: "string list"
  ai_formats :: "string list"

record RealmLanding =
  rl_product :: string
  rl_version :: string
  rl_tagline :: string
  rl_logo :: string
  rl_name :: string
  rl_mount_path :: string

text \<open>The constants of the protocol crate.\<close>

record pic_names =
  name_token_type_pic :: string
  name_pca_cose :: string
  name_proposal_initial :: string
  name_transition_cose :: string
  name_continuity_cose :: string
  name_token_jwt :: string

record Discovery =
  disc_issuer :: "string option"
  disc_profile :: string
  disc_token_endpoint :: string
  disc_jwks_uri :: string
  disc_attestations_endpoint :: string
  disc_grant_types :: "string list"
  disc_subject_token_types :: "string list"
  disc_issued_token_types :: "string list"
  disc_artifact_hash_algs :: "string list"
  disc_auth_methods :: "string list"
  disc_parameters :: "string list"
  disc_context_formats :: "string list"
  disc_context_algs :: "string list"
  disc_proposal_parameter :: string
  disc_proposal_types :: "string list"
  disc_transition_formats :: "string list"
  disc_transition_algs :: "string list"
  disc_continuity_formats :: "string list"
  disc_continuity_algs :: "string list"
  disc_continuity_modes :: "string list"
  disc_evidence_levels :: "string list"
  disc_token_type :: string
  disc_token_formats :: "string list"
  disc_token_algs :: "string list"

definition endpoint_like :: "string \<Rightarrow> string \<Rightarrow> string" where
  "endpoint_like token_endpoint leaf =
     (case strip_suffix ''/token'' token_endpoint of Some base \<Rightarrow> base @ leaf | None \<Rightarrow> leaf)"

definition both_algorithms :: "string list \<Rightarrow> string list \<Rightarrow> string list" where
  "both_algorithms first others =
     fold (\<lambda>algorithm both. if algorithm \<in> set both then both else both @ [algorithm]) others first"

definition realm_configuration :: "pic_names \<Rightarrow> RealmMeta \<Rightarrow> Discovery" where
  "realm_configuration names realm =
     (let realm_signed = [meta_signing_algorithm realm];
          workload_signed = meta_workload_algorithms realm;
          either = both_algorithms realm_signed workload_signed
      in \<lparr> disc_issuer = meta_issuer realm,
           disc_profile = PIC_PROFILE,
           disc_token_endpoint = meta_token_endpoint realm,
           disc_jwks_uri = meta_jwks_uri realm,
           disc_attestations_endpoint = endpoint_like (meta_token_endpoint realm) ''/attestations'',
           disc_grant_types = [''urn:ietf:params:oauth:grant-type:token-exchange''],
           disc_subject_token_types = [''urn:ietf:params:oauth:token-type:access_token'', name_token_type_pic names],
           disc_issued_token_types = [name_token_type_pic names],
           disc_artifact_hash_algs = [''sha-256''],
           disc_auth_methods = [''none''],
           disc_parameters = [''continuity_proposal''],
           disc_context_formats = [name_pca_cose names],
           disc_context_algs = realm_signed,
           disc_proposal_parameter = ''continuity_proposal'',
           disc_proposal_types = [name_proposal_initial names],
           disc_transition_formats = [name_transition_cose names],
           disc_transition_algs = workload_signed,
           disc_continuity_formats = [name_continuity_cose names],
           disc_continuity_algs = either,
           disc_continuity_modes = [''centralized-continuity''],
           disc_evidence_levels = [''artifact-linked''],
           disc_token_type = name_token_type_pic names,
           disc_token_formats = [name_token_jwt names],
           disc_token_algs = either \<rparr>)"

text \<open>An answer of the key set route: the status, the cache directive and the keys, when there are any.\<close>

record key_set_answer =
  ks_status :: nat
  ks_caching :: "string option"
  ks_published :: "Jwk list option"

definition published :: "Jwk list \<Rightarrow> key_set_answer" where
  "published keys = \<lparr> ks_status = 200, ks_caching = Some KEY_SET_CACHING, ks_published = Some keys \<rparr>"

definition jwks :: "KeyStore option \<Rightarrow> key_set_answer" where
  "jwks ring =
     (case ring of
        None \<Rightarrow> published []
      | Some keys \<Rightarrow>
          (case public_keys keys of
             Inr found \<Rightarrow> published found
           | Inl _ \<Rightarrow> \<lparr> ks_status = 503, ks_caching = None, ks_published = None \<rparr>))"

subsection \<open>The landing page\<close>

text \<open>\<open>str::replace\<close> with a character and with a text.\<close>

definition replace_char :: "char \<Rightarrow> string \<Rightarrow> string \<Rightarrow> string" where
  "replace_char c by s = concat (map (\<lambda>x. if x = c then by else [x]) s)"

function replace_text :: "string \<Rightarrow> string \<Rightarrow> string \<Rightarrow> string" where
  "replace_text pattern by s =
     (case s of
        [] \<Rightarrow> []
      | c # cs \<Rightarrow>
          if pattern \<noteq> [] \<and> starts_with pattern s then by @ replace_text pattern by (drop (length pattern) s)
          else c # replace_text pattern by cs)"
  by pat_completeness auto
termination by (relation "measure (\<lambda>(pattern, by, s). length s)") (auto simp: starts_with_iff)

declare replace_text.simps [simp del]

definition escape :: "string \<Rightarrow> string" where
  "escape v =
     replace_char (CHR 0x27) ''&#39;''
       (replace_char (CHR 0x22) ''&quot;''
       (replace_char (CHR ''>'') ''&gt;''
       (replace_char (CHR ''<'') ''&lt;''
       (replace_char (CHR ''&'') ''&amp;'' v))))"

record Link =
  link_label :: string
  link_href :: string

definition quote :: string where "quote = [CHR 0x22]"

definition hero :: "string \<Rightarrow> string \<Rightarrow> string" where
  "hero logo name =
     (let mark = (if logo = [] then ''<h1 class='' @ quote @ ''wordmark'' @ quote @ ''>'' @ escape name @ ''</h1>''
                  else ''<img class='' @ quote @ ''logo'' @ quote @ '' src='' @ quote @ logo @ quote @ '' alt='' @ quote @ escape name @ quote @ '' />'')
      in ''<a class='' @ quote @ ''home'' @ quote @ '' href='' @ quote @ ''/'' @ quote @ '' aria-label='' @ quote @ ''Home'' @ quote @ ''>'' @ mark @ ''</a>'')"

definition link_row :: "Link \<Rightarrow> string" where
  "link_row link =
     ''<a class='' @ quote @ ''row'' @ quote @ '' href='' @ quote @ escape (link_href link) @ quote @ ''><span class='' @ quote @ ''label'' @ quote @ ''>''
     @ escape (link_label link) @ ''</span><span class='' @ quote @ ''path'' @ quote @ ''>'' @ escape (link_href link) @ ''</span></a>''"

definition landing :: "string \<Rightarrow> string \<Rightarrow> string \<Rightarrow> string \<Rightarrow> string \<Rightarrow> string \<Rightarrow> Link list \<Rightarrow> string" where
  "landing template title logo name subtitle foot links =
     replace_text ''{{FOOT}}'' (escape foot)
       (replace_text ''{{ROWS}}'' (concat (map link_row links))
       (replace_text ''{{SUBTITLE}}'' (escape subtitle)
       (replace_text ''{{HERO}}'' (hero logo name)
       (replace_text ''{{TITLE}}'' (escape title) template))))"

definition version_label :: "string \<Rightarrow> string" where
  "version_label v = (if v = [] then [] else ''v'' @ v)"

text \<open>The punctuation of the pages beyond ASCII, in UTF-8.\<close>

definition em_dash :: string where "em_dash = [CHR 0xE2, CHR 0x80, CHR 0x94]"
definition left_quote :: string where "left_quote = [CHR 0xE2, CHR 0x80, CHR 0x9C]"
definition right_quote :: string where "right_quote = [CHR 0xE2, CHR 0x80, CHR 0x9D]"
definition middle_dot :: string where "middle_dot = [CHR 0xC2, CHR 0xB7]"

definition root_links :: "Server \<Rightarrow> Link list" where
  "root_links server =
     \<lparr> link_label = ''Server configuration'', link_href = ''/.well-known/server-configuration'' \<rparr>
     # concat (map (\<lambda>profile. map (\<lambda>realm.
         \<lparr> link_label = ''Realm '' @ em_dash @ '' '' @ cat_name realm, link_href = cat_mount_path realm @ ''/'' \<rparr>) (pe_realms profile)) (srv_profiles server))"

definition root_page :: "string \<Rightarrow> Server \<Rightarrow> string" where
  "root_page template server =
     landing template (srv_product server) (srv_logo server) (srv_product server) (version_label (srv_version server))
       (srv_tagline server) (root_links server)"

definition realm_links :: "RealmLanding \<Rightarrow> Link list" where
  "realm_links realm =
     [\<lparr> link_label = ''Server configuration'', link_href = ''/.well-known/server-configuration'' \<rparr>,
      \<lparr> link_label = ''Discovery'', link_href = rl_mount_path realm @ ''/.well-known/pic-x-configuration'' \<rparr>,
      \<lparr> link_label = ''Keys'', link_href = rl_mount_path realm @ ''/keys'' \<rparr>,
      \<lparr> link_label = ''Attestations'', link_href = rl_mount_path realm @ ''/attestations'' \<rparr>]"

definition realm_page :: "string \<Rightarrow> RealmLanding \<Rightarrow> string" where
  "realm_page template realm =
     landing template (rl_product realm @ '' '' @ em_dash @ '' '' @ rl_name realm) (rl_logo realm) (rl_product realm)
       (if rl_version realm = [] then ''realm '' @ left_quote @ rl_name realm @ right_quote
        else ''realm '' @ left_quote @ rl_name realm @ right_quote @ '' '' @ middle_dot @ '' v'' @ rl_version realm)
       (rl_tagline realm) (realm_links realm)"


subsection \<open>What is mounted where\<close>

text \<open>What a route answers with: the handler and the state it was given.\<close>

datatype endpoint =
    ServerRoot Server
  | ServerConfiguration Server
  | RealmRoot RealmLanding
  | RealmConfiguration RealmMeta
  | AttestationList "AttestationIssuer list"
  | KeySet "BuiltRing option"
  | TokenExchange BuiltRealm
  | Contributed string

record 'r router_ops =
  rt_new :: 'r
  rt_route :: "string \<Rightarrow> string \<Rightarrow> endpoint \<Rightarrow> 'r"
  rt_merge :: "'r \<Rightarrow> 'r \<Rightarrow> 'r"
  rt_nest :: "string \<Rightarrow> 'r \<Rightarrow> 'r \<Rightarrow> 'r"
  rt_answer :: "'r \<Rightarrow> string \<Rightarrow> string \<Rightarrow> endpoint option"

record 'r WellKnownService =
  wk_providers :: "'r list"
  wk_layers :: "('r \<Rightarrow> 'r) list"
  wk_attester_keys :: "(string, AttesterKeyCache) btree"
  wk_idp_keys :: "(string, IdpKeyCache) btree"

definition new_well_known :: "'r WellKnownService" where
  "new_well_known = \<lparr> wk_providers = [], wk_layers = [], wk_attester_keys = [], wk_idp_keys = [] \<rparr>"

definition with_routes :: "'r \<Rightarrow> 'r WellKnownService \<Rightarrow> 'r WellKnownService" where
  "with_routes provider svc = svc\<lparr> wk_providers := wk_providers svc @ [provider] \<rparr>"

definition with_layer :: "('r \<Rightarrow> 'r) \<Rightarrow> 'r WellKnownService \<Rightarrow> 'r WellKnownService" where
  "with_layer layer svc = svc\<lparr> wk_layers := wk_layers svc @ [layer] \<rparr>"

definition disclosed_version :: "Config \<Rightarrow> string" where
  "disclosed_version c = (if disclose_build c then version c else [])"

definition catalogued :: "BuiltRealm \<Rightarrow> CatalogRealm" where
  "catalogued realm = \<lparr> cat_name = realm_name realm, cat_issuer = realm_issuer realm,
     cat_configuration_url = realm_url realm ''/.well-known/pic-x-configuration'', cat_jwks_uri = realm_url realm ''/keys'',
     cat_mount_path = mount_path realm \<rparr>"

definition server_document :: "ProductIdentity \<Rightarrow> Config \<Rightarrow> (BuiltRing, BuiltSink, HmacPseudonymizer) Realms \<Rightarrow> Server" where
  "server_document identity c realms = \<lparr> srv_product = product_name identity, srv_version = disclosed_version c,
     srv_profiles = [\<lparr> pe_profile = PIC_PROFILE, pe_realms = map catalogued (listed_realms realms) \<rparr>],
     srv_logo = identity_logo identity, srv_tagline = tagline identity \<rparr>"

definition landing_of :: "ProductIdentity \<Rightarrow> Config \<Rightarrow> BuiltRealm \<Rightarrow> RealmLanding" where
  "landing_of identity c realm = \<lparr> rl_product = product_name identity, rl_version = disclosed_version c,
     rl_tagline = tagline identity, rl_logo = identity_logo identity, rl_name = realm_name realm, rl_mount_path = mount_path realm \<rparr>"

definition meta_of :: "BuiltRealm \<Rightarrow> RealmMeta" where
  "meta_of realm = \<lparr> meta_issuer = realm_issuer realm, meta_token_endpoint = realm_url realm ''/token'',
     meta_jwks_uri = realm_url realm ''/keys'', meta_signing_algorithm = token_signing_algorithm realm,
     meta_workload_algorithms = WORKLOAD_COSE_ALGORITHMS \<rparr>"

definition attestations_of :: "BuiltRealm \<Rightarrow> AttestationIssuer list" where
  "attestations_of realm = map (\<lambda>attester. \<lparr> ai_id = ta_id attester, ai_issuer = ta_issuer attester,
     ai_jwks_uri = ta_jwks_uri attester, ai_proof_types = ta_proof_types attester, ai_formats = ta_formats attester \<rparr>)
     (trusted_attesters realm)"

definition issuer_router :: "'r router_ops \<Rightarrow> ProductIdentity \<Rightarrow> Config \<Rightarrow> BuiltRealm \<Rightarrow> 'r" where
  "issuer_router ops identity c realm =
     rt_merge ops (rt_merge ops (rt_merge ops (rt_merge ops
       (rt_route ops ''/'' ''GET'' (RealmRoot (landing_of identity c realm)))
       (rt_route ops ''/.well-known/pic-x-configuration'' ''GET'' (RealmConfiguration (meta_of realm))))
       (rt_route ops ''/attestations'' ''GET'' (AttestationList (attestations_of realm))))
       (rt_route ops ''/keys'' ''GET'' (KeySet (token_keys realm))))
       (rt_route ops ''/token'' ''POST'' (TokenExchange realm))"

definition mount_realm :: "'r router_ops \<Rightarrow> ProductIdentity \<Rightarrow> Config \<Rightarrow> BuiltRealm \<Rightarrow> 'r \<Rightarrow> 'r" where
  "mount_realm ops identity c realm router =
     rt_merge ops (rt_nest ops (mount_path realm) (issuer_router ops identity c realm) router)
       (rt_route ops (mount_path realm @ ''/'') ''GET'' (RealmRoot (landing_of identity c realm)))"

definition surface_router ::
    "'r router_ops \<Rightarrow> 'r WellKnownService \<Rightarrow> ProductIdentity \<Rightarrow> Config \<Rightarrow> (BuiltRing, BuiltSink, HmacPseudonymizer) Realms \<Rightarrow> 'r" where
  "surface_router ops svc identity c realms =
     (let server = server_document identity c realms;
          router = rt_merge ops (rt_route ops ''/'' ''GET'' (ServerRoot server))
            (rt_route ops ''/.well-known/server-configuration'' ''GET'' (ServerConfiguration server));
          router = fold (mount_realm ops identity c) (all_realms realms) router;
          router = fold (\<lambda>provider router. rt_merge ops router provider) (wk_providers svc) router;
          router = fold (\<lambda>layer router. layer router) (wk_layers svc) router
      in if public_path_prefix c = [] then router else rt_nest ops (public_path_prefix c) router (rt_new ops))"

text \<open>The caches the endpoints of the realms read, created on first use.\<close>

definition attester_keys_of :: "BuiltRealm \<Rightarrow> 'r WellKnownService \<Rightarrow> 'r WellKnownService" where
  "attester_keys_of realm svc =
     (if bt_contains (realm_name realm) (wk_attester_keys svc) then svc
      else svc\<lparr> wk_attester_keys := bt_insert (realm_name realm)
             (attester_cache_with_stale_for (trusted_attesters realm) (unat (key_cache_stale_for realm) * nanos_per_second)) (wk_attester_keys svc) \<rparr>)"

definition idp_keys_of :: "BuiltRealm \<Rightarrow> 'r WellKnownService \<Rightarrow> 'r WellKnownService" where
  "idp_keys_of realm svc =
     (if bt_contains (realm_name realm) (wk_idp_keys svc) then svc
      else svc\<lparr> wk_idp_keys := bt_insert (realm_name realm)
             (idp_cache_with_stale_for (exchange_profiles realm) (unat (key_cache_stale_for realm) * nanos_per_second)) (wk_idp_keys svc) \<rparr>)"

definition walk_realms :: "(BuiltRing, BuiltSink, HmacPseudonymizer) Realms \<Rightarrow> 'r WellKnownService \<Rightarrow> 'r WellKnownService" where
  "walk_realms realms svc = fold (\<lambda>realm svc. idp_keys_of realm (attester_keys_of realm svc)) (all_realms realms) svc"

text \<open>
  Building the surface gives the router and leaves the caches in the service. A token endpoint shares the
  caches of its realm, which are the ones under the name of the realm.
\<close>

definition build_surface ::
    "'r router_ops \<Rightarrow> 'r WellKnownService \<Rightarrow> ProductIdentity \<Rightarrow> Config \<Rightarrow> (BuiltRing, BuiltSink, HmacPseudonymizer) Realms
     \<Rightarrow> 'r \<times> 'r WellKnownService" where
  "build_surface ops svc identity c realms = (surface_router ops svc identity c realms, walk_realms realms svc)"

text \<open>One sweep over every cache; \<open>pass\<close> gives each cache its fetcher and clock.\<close>

definition refresh_sweep ::
    "'e web_env_scheme \<Rightarrow> (string \<Rightarrow> (nat \<Rightarrow> fetcher) \<times> (nat \<Rightarrow> instant)) \<Rightarrow> (string \<Rightarrow> (nat \<Rightarrow> fetcher) \<times> (nat \<Rightarrow> instant))
     \<Rightarrow> 'r WellKnownService \<Rightarrow> 'r WellKnownService" where
  "refresh_sweep env attester_pass idp_pass svc =
     svc\<lparr> wk_attester_keys := map (\<lambda>(name, cache). (name, attester_refresh env (fst (attester_pass name)) (snd (attester_pass name)) cache)) (wk_attester_keys svc),
          wk_idp_keys := map (\<lambda>(name, cache). (name, idp_refresh env (fst (idp_pass name)) (snd (idp_pass name)) cache)) (wk_idp_keys svc) \<rparr>"

definition nothing_to_fetch :: "'r WellKnownService \<Rightarrow> bool" where
  "nothing_to_fetch svc \<longleftrightarrow> list_all (\<lambda>(_, cache). ak_attesters cache = []) (wk_attester_keys svc)
     \<and> list_all (\<lambda>(_, cache). idp_cache_is_empty cache) (wk_idp_keys svc)"

definition sweep_wait :: "'r WellKnownService \<Rightarrow> duration" where
  "sweep_wait svc =
     (if list_all (\<lambda>(_, cache). attester_cache_is_ready cache) (wk_attester_keys svc)
         \<and> list_all (\<lambda>(_, cache). idp_cache_is_ready cache) (wk_idp_keys svc)
      then REFRESH_EVERY else RETRY_UNTIL_READY)"

text \<open>The service across its life: its surface built, built again, its caches refreshed, in any order.\<close>

inductive caches_reach :: "(BuiltRing, BuiltSink, HmacPseudonymizer) Realms \<Rightarrow> 'r WellKnownService \<Rightarrow> bool"
  for realms where
  built: "caches_reach realms (snd (build_surface ops new_well_known identity c realms))"
| rebuilt: "caches_reach realms svc \<Longrightarrow> caches_reach realms (snd (build_surface ops svc identity c realms))"
| refreshed: "caches_reach realms svc \<Longrightarrow> caches_reach realms (refresh_sweep (env :: web_env) attester_pass idp_pass svc)"


section \<open>Lemmas\<close>

subsection \<open>Routers\<close>

text \<open>
  What the surface relies on: a route answers its method at its path, routers that answer nothing in common
  merge, and a nested router answers below its prefix, its own root at the prefix without a trailing slash.
  The method asked for is that of the handler: a \<open>HEAD\<close> request is answered by the handler of \<open>GET\<close> without its body.
\<close>

definition nested :: "string \<Rightarrow> string \<Rightarrow> string option" where
  "nested q p =
     (if p = q then Some ''/''
      else case strip_prefix q p of
        Some s \<Rightarrow> if starts_with ''/'' s \<and> s \<noteq> ''/'' then Some s else None
      | None \<Rightarrow> None)"

locale path_router =
  fixes ops :: "'r router_ops"
  assumes answer_new: "rt_answer ops (rt_new ops) m p = None"
    and answer_route: "rt_answer ops (rt_route ops q n e) m p = (if m = n \<and> p = q then Some e else None)"
    and answer_merge: "(\<And>m p. rt_answer ops a m p = None \<or> rt_answer ops b m p = None) \<Longrightarrow>
      rt_answer ops (rt_merge ops a b) m p = (case rt_answer ops a m p of Some e \<Rightarrow> Some e | None \<Rightarrow> rt_answer ops b m p)"
    and answer_nest: "(\<And>m p. Option.bind (nested q p) (rt_answer ops inner m) = None \<or> rt_answer ops outer m p = None) \<Longrightarrow>
      rt_answer ops (rt_nest ops q inner outer) m p =
        (case Option.bind (nested q p) (rt_answer ops inner m) of Some e \<Rightarrow> Some e | None \<Rightarrow> rt_answer ops outer m p)"
begin

text \<open>The routes a router answers, as a set of methods, paths and endpoints.\<close>

definition answers :: "'r \<Rightarrow> (string \<times> string \<times> endpoint) set \<Rightarrow> bool" where
  "answers r T \<longleftrightarrow> (\<forall>m p e. rt_answer ops r m p = Some e \<longleftrightarrow> (m, p, e) \<in> T)"

lemma answers_new: "answers (rt_new ops) {}"
  by (simp add: answers_def answer_new)

lemma answers_route: "answers (rt_route ops q n e) {(n, q, e)}"
  by (auto simp: answers_def answer_route)

lemma answers_merge:
  assumes "answers a S" "answers b T" "\<And>m p d e. (m, p, d) \<in> S \<Longrightarrow> (m, p, e) \<in> T \<Longrightarrow> False"
  shows "answers (rt_merge ops a b) (S \<union> T)"
proof -
  have apart: "rt_answer ops a m p = None \<or> rt_answer ops b m p = None" for m p
    using assms unfolding answers_def by (metis not_None_eq)
  have mem: "(m, p, e) \<in> S \<longleftrightarrow> rt_answer ops a m p = Some e" "(m, p, e) \<in> T \<longleftrightarrow> rt_answer ops b m p = Some e" for m p e
    using assms(1,2) by (simp_all add: answers_def)
  have "(case rt_answer ops a m p of Some e \<Rightarrow> Some e | None \<Rightarrow> rt_answer ops b m p) = Some e
      \<longleftrightarrow> rt_answer ops a m p = Some e \<or> rt_answer ops b m p = Some e" for m p e
    using apart [of m p] by (cases "rt_answer ops a m p") auto
  then show ?thesis unfolding answers_def answer_merge [OF apart] Un_iff mem by blast
qed

lemma answers_nest:
  assumes "answers inner S" "answers outer T"
    and "\<And>m p s d e. nested q p = Some s \<Longrightarrow> (m, s, d) \<in> S \<Longrightarrow> (m, p, e) \<in> T \<Longrightarrow> False"
  shows "answers (rt_nest ops q inner outer) ({(m, p, e). \<exists>s. nested q p = Some s \<and> (m, s, e) \<in> S} \<union> T)"
proof -
  have apart: "Option.bind (nested q p) (rt_answer ops inner m) = None \<or> rt_answer ops outer m p = None" for m p
    using assms unfolding answers_def by (cases "nested q p") (auto, metis not_None_eq)
  have mem: "(m, p, e) \<in> S \<longleftrightarrow> rt_answer ops inner m p = Some e" "(m, p, e) \<in> T \<longleftrightarrow> rt_answer ops outer m p = Some e" for m p e
    using assms(1,2) by (simp_all add: answers_def)
  have "(case Option.bind (nested q p) (rt_answer ops inner m) of Some e \<Rightarrow> Some e | None \<Rightarrow> rt_answer ops outer m p) = Some e
      \<longleftrightarrow> (\<exists>s. nested q p = Some s \<and> rt_answer ops inner m s = Some e) \<or> rt_answer ops outer m p = Some e" for m p e
    using apart [where m = m and p = p] by (cases "nested q p"; cases "Option.bind (nested q p) (rt_answer ops inner m)") auto
  then show ?thesis unfolding answers_def answer_nest [OF apart] Un_iff mem mem_Collect_eq prod.case by blast
qed

end

lemma strip_prefix_append: "strip_prefix q (q @ s) = Some s"
  by (simp add: strip_prefix_Some_iff)

lemma nested_Some: "nested q p = Some s \<longleftrightarrow> s = ''/'' \<and> p = q \<or> (\<exists>t. s = CHR ''/'' # t \<and> t \<noteq> [] \<and> p = q @ s)"
proof -
  have "(\<exists>t. s = CHR ''/'' # t \<and> t \<noteq> [] \<and> p = q @ s) \<longleftrightarrow> starts_with ''/'' s \<and> s \<noteq> ''/'' \<and> strip_prefix q p = Some s"
    by (cases s) (auto simp: starts_with_iff strip_prefix_Some_iff)
  then show ?thesis
    by (auto simp: nested_def strip_prefix_Some_iff strip_prefix_append split: option.splits if_splits)
qed

definition issuer_routes :: "ProductIdentity \<Rightarrow> Config \<Rightarrow> BuiltRealm \<Rightarrow> (string \<times> string \<times> endpoint) set" where
  "issuer_routes identity c realm =
     {(''GET'', ''/'', RealmRoot (landing_of identity c realm)),
      (''GET'', ''/.well-known/pic-x-configuration'', RealmConfiguration (meta_of realm)),
      (''GET'', ''/attestations'', AttestationList (attestations_of realm)),
      (''GET'', ''/keys'', KeySet (token_keys realm)),
      (''POST'', ''/token'', TokenExchange realm)}"

definition realm_routes :: "ProductIdentity \<Rightarrow> Config \<Rightarrow> BuiltRealm \<Rightarrow> (string \<times> string \<times> endpoint) set" where
  "realm_routes identity c realm =
     {(''GET'', mount_path realm @ ''/'', RealmRoot (landing_of identity c realm)),
      (''GET'', mount_path realm, RealmRoot (landing_of identity c realm)),
      (''GET'', mount_path realm @ ''/.well-known/pic-x-configuration'', RealmConfiguration (meta_of realm)),
      (''GET'', mount_path realm @ ''/attestations'', AttestationList (attestations_of realm)),
      (''GET'', mount_path realm @ ''/keys'', KeySet (token_keys realm)),
      (''POST'', mount_path realm @ ''/token'', TokenExchange realm)}"

definition server_routes :: "Server \<Rightarrow> (string \<times> string \<times> endpoint) set" where
  "server_routes server = {(''GET'', ''/'', ServerRoot server), (''GET'', ''/.well-known/server-configuration'', ServerConfiguration server)}"

lemma nested_image:
  assumes "\<And>m s e. (m, s, e) \<in> S \<Longrightarrow> \<exists>t. s = CHR ''/'' # t"
  shows "{(m, p, e). \<exists>s. nested q p = Some s \<and> (m, s, e) \<in> S} = (\<lambda>(m, s, e). (m, if s = ''/'' then q else q @ s, e)) ` S"
proof (intro set_eqI iffI)
  fix x assume "x \<in> {(m, p, e). \<exists>s. nested q p = Some s \<and> (m, s, e) \<in> S}"
  then obtain m p e s where x: "x = (m, p, e)" "nested q p = Some s" "(m, s, e) \<in> S" by blast
  from x(2) have "p = (if s = ''/'' then q else q @ s)" unfolding nested_Some by auto
  with x(1,3) show "x \<in> (\<lambda>(m, s, e). (m, if s = ''/'' then q else q @ s, e)) ` S" by force
next
  fix x assume "x \<in> (\<lambda>(m, s, e). (m, if s = ''/'' then q else q @ s, e)) ` S"
  then obtain m s e where x: "x = (m, if s = ''/'' then q else q @ s, e)" "(m, s, e) \<in> S" by force
  from assms [OF x(2)] have "nested q (if s = ''/'' then q else q @ s) = Some s" unfolding nested_Some by auto
  with x show "x \<in> {(m, p, e). \<exists>s. nested q p = Some s \<and> (m, s, e) \<in> S}" by blast
qed

lemma nested_routes:
  "{(m, p, e). \<exists>s. nested (mount_path realm) p = Some s \<and> (m, s, e) \<in> issuer_routes identity c realm}
   \<union> {(''GET'', mount_path realm @ ''/'', RealmRoot (landing_of identity c realm))} = realm_routes identity c realm"
proof -
  have "\<exists>t. s = CHR ''/'' # t" if "(m, s, e) \<in> issuer_routes identity c realm" for m s e
    using that by (auto simp: issuer_routes_def)
  from nested_image [of "issuer_routes identity c realm", OF this] show ?thesis
    unfolding realm_routes_def issuer_routes_def by simp
qed

definition mounted_at :: "BuiltRealm \<Rightarrow> bool" where
  "mounted_at realm \<longleftrightarrow> mount_path realm = ''/realms/'' @ realm_name realm \<and> CHR ''/'' \<notin> set (realm_name realm)"

lemma realm_route_path:
  "(m, p, e) \<in> realm_routes identity c realm \<Longrightarrow> \<exists>s. p = mount_path realm @ s \<and> (s = [] \<or> starts_with ''/'' s)"
  by (auto simp: realm_routes_def starts_with_iff)

lemma mounts_apart:
  assumes "mounted_at a" "mounted_at b" "realm_name a \<noteq> realm_name b"
    and "mount_path a @ s = mount_path b @ t" "s = [] \<or> starts_with ''/'' s" "t = [] \<or> starts_with ''/'' t"
  shows False
proof -
  have "takeWhile (\<lambda>ch. ch \<noteq> CHR ''/'') (name @ s) = name" if "CHR ''/'' \<notin> set name" "s = [] \<or> starts_with ''/'' s" for name s
  proof -
    have "takeWhile (\<lambda>ch. ch \<noteq> CHR ''/'') (name @ s) = name @ takeWhile (\<lambda>ch. ch \<noteq> CHR ''/'') s"
      by (rule takeWhile_append2) (use that(1) in blast)
    then show ?thesis using that(2) by (auto simp: starts_with_iff)
  qed
  from this [of "realm_name a" s] this [of "realm_name b" t] assms(1,2,5,6)
  have "realm_name a = takeWhile (\<lambda>ch. ch \<noteq> CHR ''/'') (realm_name a @ s)" "realm_name b = takeWhile (\<lambda>ch. ch \<noteq> CHR ''/'') (realm_name b @ t)"
    by (simp_all add: mounted_at_def)
  moreover have "realm_name a @ s = realm_name b @ t" using assms(1,2,4) by (simp add: mounted_at_def)
  ultimately show False using assms(3) by simp
qed

context path_router
begin

lemma answers_issuer: "answers (issuer_router ops identity c realm) (issuer_routes identity c realm)"
proof -
  have "answers (issuer_router ops identity c realm)
    (((({(''GET'', ''/'', RealmRoot (landing_of identity c realm))}
      \<union> {(''GET'', ''/.well-known/pic-x-configuration'', RealmConfiguration (meta_of realm))})
      \<union> {(''GET'', ''/attestations'', AttestationList (attestations_of realm))})
      \<union> {(''GET'', ''/keys'', KeySet (token_keys realm))})
      \<union> {(''POST'', ''/token'', TokenExchange realm)})"
    unfolding issuer_router_def by (intro answers_merge answers_route) auto
  moreover have "\<dots> = issuer_routes identity c realm" by (auto simp: issuer_routes_def)
  ultimately show ?thesis by simp
qed

lemma answers_mount:
  assumes "answers router T" "\<And>m p d e. (m, p, d) \<in> realm_routes identity c realm \<Longrightarrow> (m, p, e) \<in> T \<Longrightarrow> False"
  shows "answers (mount_realm ops identity c realm router) (realm_routes identity c realm \<union> T)"
proof -
  let ?inner = "{(m, p, e). \<exists>s. nested (mount_path realm) p = Some s \<and> (m, s, e) \<in> issuer_routes identity c realm}"
  note split = nested_routes [of realm identity c, symmetric]
  have "answers (rt_nest ops (mount_path realm) (issuer_router ops identity c realm) router) (?inner \<union> T)"
    by (rule answers_nest [OF answers_issuer assms(1)]) (use assms(2) split in blast)
  then have "answers (mount_realm ops identity c realm router)
      ((?inner \<union> T) \<union> {(''GET'', mount_path realm @ ''/'', RealmRoot (landing_of identity c realm))})"
    unfolding mount_realm_def
    by (rule answers_merge [OF _ answers_route]) (use assms(2) in \<open>auto simp: nested_Some realm_routes_def\<close>)
  moreover have "\<dots> = realm_routes identity c realm \<union> T" unfolding split by blast
  ultimately show ?thesis by simp
qed

end


subsection \<open>The surface\<close>

definition surface_routes :: "ProductIdentity \<Rightarrow> Config \<Rightarrow> (BuiltRing, BuiltSink, HmacPseudonymizer) Realms \<Rightarrow> (string \<times> string \<times> endpoint) set" where
  "surface_routes identity c realms =
     server_routes (server_document identity c realms) \<union> (\<Union>realm \<in> set (all_realms realms). realm_routes identity c realm)"

definition at_prefix :: "string \<Rightarrow> string \<Rightarrow> string" where
  "at_prefix q s = (if q = [] then s else if s = ''/'' then q else q @ s)"

definition well_mounted :: "(BuiltRing, BuiltSink, HmacPseudonymizer) Realms \<Rightarrow> bool" where
  "well_mounted realms \<longleftrightarrow> distinct (map realm_name (all_realms realms)) \<and> (\<forall>realm \<in> set (all_realms realms). mounted_at realm)"

lemma server_route_path: "(m, p, e) \<in> server_routes server \<Longrightarrow> p \<noteq> ''/realms/'' @ rest"
  by (auto simp: server_routes_def)

lemma realm_routes_apart:
  assumes "mounted_at a" "mounted_at b" "realm_name a \<noteq> realm_name b"
    and "(m, p, d) \<in> realm_routes identity c a" "(m, p, e) \<in> realm_routes identity c b"
  shows False
  using mounts_apart [OF assms(1-3)] realm_route_path [OF assms(4)] realm_route_path [OF assms(5)] by blast

lemma server_realm_apart:
  assumes "mounted_at realm" "(m, p, d) \<in> realm_routes identity c realm" "(m, p, e) \<in> server_routes server"
  shows False
  using realm_route_path [OF assms(2)] server_route_path [OF assms(3)] assms(1) by (auto simp: mounted_at_def)

lemma surface_route_path: "(m, s, e) \<in> surface_routes identity c realms \<Longrightarrow> well_mounted realms \<Longrightarrow> \<exists>t. s = CHR ''/'' # t"
  by (auto simp: surface_routes_def server_routes_def realm_routes_def well_mounted_def mounted_at_def)

context path_router
begin

lemma answers_realms:
  assumes "answers router T" "distinct (map realm_name rs)" "\<forall>realm \<in> set rs. mounted_at realm"
    and "\<And>realm m p d e. realm \<in> set rs \<Longrightarrow> (m, p, d) \<in> realm_routes identity c realm \<Longrightarrow> (m, p, e) \<in> T \<Longrightarrow> False"
  shows "answers (fold (mount_realm ops identity c) rs router) (T \<union> (\<Union>realm \<in> set rs. realm_routes identity c realm))"
  using assms
proof (induction rs arbitrary: router T)
  case (Cons realm rs)
  have mounted: "answers (mount_realm ops identity c realm router) (realm_routes identity c realm \<union> T)"
    by (rule answers_mount [OF Cons.prems(1)]) (rule Cons.prems(4) [OF list.set_intros(1)])
  have "False" if "other \<in> set rs" "(m, p, d) \<in> realm_routes identity c other" "(m, p, e) \<in> realm_routes identity c realm \<union> T" for other m p d e
  proof -
    have "realm_name other \<noteq> realm_name realm" using that(1) Cons.prems(2) by (auto simp: image_iff)
    then show False using that Cons.prems(3) Cons.prems(4) [of other m p d e] realm_routes_apart [of other realm m p d identity c e] by auto
  qed
  from Cons.IH [OF mounted _ _ this] Cons.prems(2,3)
  have "answers (fold (mount_realm ops identity c) rs (mount_realm ops identity c realm router))
      ((realm_routes identity c realm \<union> T) \<union> (\<Union>realm \<in> set rs. realm_routes identity c realm))" by simp
  then show ?case by (simp add: Un_ac)
qed simp

lemma answers_surface:
  assumes "well_mounted realms"
  shows "answers (surface_router ops new_well_known identity c realms)
    ((\<lambda>(m, s, e). (m, at_prefix (public_path_prefix c) s, e)) ` surface_routes identity c realms)"
proof -
  let ?server = "server_document identity c realms"
  have "answers (rt_merge ops (rt_route ops ''/'' ''GET'' (ServerRoot ?server))
      (rt_route ops ''/.well-known/server-configuration'' ''GET'' (ServerConfiguration ?server))) (server_routes ?server)"
    using answers_merge [OF answers_route [of "''/''" "''GET''" "ServerRoot ?server"]
        answers_route [of "''/.well-known/server-configuration''" "''GET''" "ServerConfiguration ?server"]]
    by (simp add: server_routes_def insert_commute)
  from answers_realms [OF this, of "all_realms realms" identity c] assms server_realm_apart
  have all: "answers (fold (mount_realm ops identity c) (all_realms realms) (rt_merge ops (rt_route ops ''/'' ''GET'' (ServerRoot ?server))
      (rt_route ops ''/.well-known/server-configuration'' ''GET'' (ServerConfiguration ?server)))) (surface_routes identity c realms)"
    unfolding well_mounted_def surface_routes_def by blast
  show ?thesis
  proof (cases "public_path_prefix c = []")
    case True
    with all show ?thesis by (simp add: surface_router_def new_well_known_def Let_def at_prefix_def)
  next
    case False
    from answers_nest [OF all answers_new, of "public_path_prefix c"]
      nested_image [of "surface_routes identity c realms" "public_path_prefix c", OF surface_route_path [OF _ assms]]
    show ?thesis using False by (simp add: surface_router_def new_well_known_def Let_def at_prefix_def)
  qed
qed

lemma surface_answer:
  assumes "well_mounted realms"
  shows "rt_answer ops (surface_router ops new_well_known identity c realms) m p = Some e \<longleftrightarrow>
    (\<exists>s. (m, s, e) \<in> surface_routes identity c realms \<and> p = at_prefix (public_path_prefix c) s)"
  using answers_surface [OF assms, of identity c] unfolding answers_def by force

end

text \<open>A table of routes is such a router.\<close>

definition table_router :: "(string \<times> string \<times> endpoint) list router_ops" where
  "table_router = \<lparr> rt_new = [], rt_route = (\<lambda>q n e. [(n, q, e)]), rt_merge = (@),
     rt_nest = (\<lambda>q inner outer. map (\<lambda>(m, s, e). (m, if s = ''/'' then q else q @ s, e)) (filter (\<lambda>(m, s, e). starts_with ''/'' s) inner) @ outer),
     rt_answer = (\<lambda>r m p. map_option (\<lambda>(_, _, e). e) (find (\<lambda>(n, q, e). n = m \<and> q = p) r)) \<rparr>"


lemma find_append: "find P (xs @ ys) = (case find P xs of Some x \<Rightarrow> Some x | None \<Rightarrow> find P ys)"
  by (induction xs) auto

lemma table_nested:
  "map_option (\<lambda>(_, _, e). e) (find (\<lambda>(n, t, e). n = m \<and> t = p)
     (map (\<lambda>(m, s, e). (m, if s = ''/'' then q else q @ s, e)) (filter (\<lambda>(m, s, e). starts_with ''/'' s) inner)))
   = Option.bind (nested q p) (\<lambda>s. map_option (\<lambda>(_, _, e). e) (find (\<lambda>(n, t, e). n = m \<and> t = s) inner))"
proof (induction inner)
  case Nil
  then show ?case by (cases "nested q p") simp_all
next
  case (Cons x inner)
  obtain n s e where x: "x = (n, s, e)" by (cases x)
  have "starts_with ''/'' s \<and> (if s = ''/'' then q else q @ s) = p \<longleftrightarrow> nested q p = Some s"
    unfolding nested_Some by (auto simp: starts_with_iff)
  with Cons show ?case by (cases "nested q p") (auto simp: x)
qed

interpretation table: path_router table_router
proof unfold_locales
  fix q inner outer m p
  show "rt_answer table_router (rt_nest table_router q inner outer) m p =
      (case Option.bind (nested q p) (rt_answer table_router inner m) of Some e \<Rightarrow> Some e | None \<Rightarrow> rt_answer table_router outer m p)"
    using table_nested [of m p q inner] by (auto simp: table_router_def find_append split: option.splits)
qed (auto simp: table_router_def find_append split: option.splits)

subsection \<open>The realms of a server\<close>

lemma resolve_realm_mount: "resolve_realm up c input = Inr r \<Longrightarrow> rc_mount_path r = ''/realms/'' @ rc_name r"
  by (auto simp: resolve_realm_def Let_def result_iffs)

lemma configured_mounts:
  assumes "config_for benv fenv parse_ip vars app (Serve args) = Inr (c, kept)" "r \<in> set (config_realms c)"
  shows "rc_mount_path r = ''/realms/'' @ rc_name r"
proof -
  from assms(1) obtain inputs c1 where "with_realms (to_uppercase benv) inputs c1 = Inr c" by (auto elim!: config_for_serve)
  then obtain rs where "collect_results (resolve_realm (to_uppercase benv) c1) inputs = Inr rs" "config_realms c = rs"
    by (auto simp: with_realms_def result_iffs)
  with assms(2) show ?thesis using resolve_realm_mount by (fastforce simp: result_iffs list_all2_conv_all_nth in_set_conv_nth)
qed

lemma served_well_mounted:
  assumes "config_for benv fenv parse_ip vars app (Serve args) = Inr (c, kept)"
    and "serve env (composed env provision) c files = (Inr asm, files')"
  shows "well_mounted (asm_realms asm)"
proof -
  have "mounted_at realm" if "realm \<in> set (all_realms (asm_realms asm))" for realm
  proof -
    from that obtain r where r: "r \<in> set (config_realms c)" "build_realm env c r = Inr realm" using served_all [OF assms(2)] by blast
    have "config_validate (is_file env) c = Inr ()" using assms(2) by (auto elim: serve_Inr)
    from validated_realm [OF this r(1)] have "realm_name_shaped (rc_name r)" using validate_realm_Inr(1) by metis
    with shaped_name_plain configured_mounts [OF assms(1) r(1)] build_realm_Inr(1,2) [OF r(2)] show ?thesis
      by (simp add: mounted_at_def)
  qed
  moreover have "distinct (map realm_name (all_realms (asm_realms asm)))" using served_names [OF assms(2)] by simp
  ultimately show ?thesis by (simp add: well_mounted_def)
qed


subsection \<open>Escaping\<close>

definition escape_one :: "char \<Rightarrow> string" where
  "escape_one x =
     (if x = CHR ''&'' then ''&amp;'' else if x = CHR ''<'' then ''&lt;'' else if x = CHR ''>'' then ''&gt;''
      else if x = CHR 0x22 then ''&quot;'' else if x = CHR 0x27 then ''&#39;'' else [x])"

lemma replace_char_append: "replace_char ch by (s @ t) = replace_char ch by s @ replace_char ch by t"
  by (simp add: replace_char_def)

lemma escape_append: "escape (s @ t) = escape s @ escape t"
  by (simp add: escape_def replace_char_append)

lemma escape_single: "escape [x] = escape_one x"
  by (simp add: escape_def escape_one_def replace_char_def)

lemma escape_alt: "escape v = concat (map escape_one v)"
proof (induction v)
  case (Cons x v)
  then show ?case using escape_append [of "[x]" v] by (simp add: escape_single)
qed (simp add: escape_def replace_char_def)

text \<open>How a browser reads the text back: an entity, or a character that begins none.\<close>

definition entities :: "(string \<times> char) list" where
  "entities = [(''&amp;'', CHR ''&''), (''&lt;'', CHR ''<''), (''&gt;'', CHR ''>''), (''&quot;'', CHR 0x22), (''&#39;'', CHR 0x27)]"

fun read_entity :: "(string \<times> char) list \<Rightarrow> string \<Rightarrow> (char \<times> string) option" where
  "read_entity [] s = None"
| "read_entity ((entity, ch) # table) s = (case strip_prefix entity s of Some rest \<Rightarrow> Some (ch, rest) | None \<Rightarrow> read_entity table s)"

fun unescape :: "nat \<Rightarrow> string \<Rightarrow> string" where
  "unescape 0 s = []"
| "unescape (Suc fuel) [] = []"
| "unescape (Suc fuel) (x # s) =
     (case read_entity entities (x # s) of
        Some (ch, rest) \<Rightarrow> ch # unescape fuel rest
      | None \<Rightarrow> x # unescape fuel s)"

lemma unescape_one: "unescape (Suc fuel) (escape_one x @ s) = x # unescape fuel s"
  by (simp add: escape_one_def entities_def)

lemma unescape_escape: "length v < fuel \<Longrightarrow> unescape fuel (escape v) = v"
proof (induction v arbitrary: fuel)
  case Nil
  then show ?case by (cases fuel) (simp_all add: escape_alt)
next
  case (Cons x v)
  then obtain n where "fuel = Suc n" "length v < n" by (cases fuel) auto
  with Cons.IH [of n] show ?case by (simp add: escape_alt unescape_one)
qed

lemma escape_plain: "set (escape v) \<inter> {CHR ''<'', CHR ''>'', CHR 0x22, CHR 0x27} = {}"
  by (induction v) (auto simp: escape_alt escape_one_def)

subsection \<open>The caches of the realms\<close>

text \<open>
  A cache is of a realm when it asks the sources the realm trusts and keeps their keys for as long as the realm says.
\<close>

definition attester_cache_of :: "BuiltRealm \<Rightarrow> AttesterKeyCache \<Rightarrow> bool" where
  "attester_cache_of realm cache \<longleftrightarrow> ak_attesters cache = trusted_attesters realm
     \<and> ak_serve_stale_for cache = unat (key_cache_stale_for realm) * nanos_per_second"

definition idp_cache_of :: "BuiltRealm \<Rightarrow> IdpKeyCache \<Rightarrow> bool" where
  "idp_cache_of realm cache \<longleftrightarrow> ik_profiles cache = exchange_profiles realm
     \<and> ik_serve_stale_for cache = unat (key_cache_stale_for realm) * nanos_per_second"

definition realm_cached :: "BuiltRealm \<Rightarrow> 'r WellKnownService \<Rightarrow> bool" where
  "realm_cached realm svc \<longleftrightarrow> (\<exists>a i. bt_get (realm_name realm) (wk_attester_keys svc) = Some a \<and> attester_cache_of realm a
     \<and> bt_get (realm_name realm) (wk_idp_keys svc) = Some i \<and> idp_cache_of realm i)"

lemmas visits = attester_keys_of_def idp_keys_of_def bt_contains_def

lemma visit_keeps: "realm_cached realm svc \<Longrightarrow> realm_cached realm (idp_keys_of other (attester_keys_of other svc))"
  by (auto simp: realm_cached_def visits)

lemma visits_keep: "realm_cached realm svc \<Longrightarrow> realm_cached realm (fold (\<lambda>r svc. idp_keys_of r (attester_keys_of r svc)) rs svc)"
  by (induction rs arbitrary: svc) (simp_all add: visit_keeps)

lemma visits_cached: "\<forall>realm \<in> set rs. realm_cached realm svc \<Longrightarrow> fold (\<lambda>r svc. idp_keys_of r (attester_keys_of r svc)) rs svc = svc"
proof (induction rs)
  case (Cons realm rs)
  then have "idp_keys_of realm (attester_keys_of realm svc) = svc" by (auto simp: realm_cached_def visits)
  with Cons show ?case by simp
qed simp

lemma visits_create:
  assumes "distinct (map realm_name rs)"
    and "\<forall>realm \<in> set rs. bt_get (realm_name realm) (wk_attester_keys svc) = None \<and> bt_get (realm_name realm) (wk_idp_keys svc) = None"
  shows "\<forall>realm \<in> set rs. realm_cached realm (fold (\<lambda>r svc. idp_keys_of r (attester_keys_of r svc)) rs svc)"
  using assms
proof (induction rs arbitrary: svc)
  case (Cons realm rs)
  let ?svc = "idp_keys_of realm (attester_keys_of realm svc)"
  have "realm_cached realm ?svc"
    using Cons.prems(2) by (auto simp: realm_cached_def visits attester_cache_of_def idp_cache_of_def
        attester_cache_with_stale_for_def idp_cache_with_stale_for_def)
  moreover have "bt_get (realm_name other) (wk_attester_keys ?svc) = None \<and> bt_get (realm_name other) (wk_idp_keys ?svc) = None"
    if "other \<in> set rs" for other
  proof -
    have "realm_name other \<noteq> realm_name realm" using that Cons.prems(1) by (auto simp: image_iff)
    with that Cons.prems(2) show ?thesis by (auto simp: visits)
  qed
  ultimately show ?case using Cons.IH [of ?svc] Cons.prems(1) visits_keep by simp
qed simp

lemma bt_get_map: "bt_get k (map (\<lambda>(n, v). (n, f n v)) m) = map_option (f k) (bt_get k m)"
  by (induction m) (auto simp: bt_get_def)

lemma sweep_keeps: "realm_cached realm svc \<Longrightarrow> realm_cached realm (refresh_sweep env attester_pass idp_pass svc)"
  by (auto simp: realm_cached_def refresh_sweep_def bt_get_map attester_cache_of_def idp_cache_of_def attester_refresh_def idp_refresh_def)


section \<open>Properties\<close>


text \<open>
  C39: the discovery document of a realm leads back to the realm. When the address a realm is reached at is where
  the surface mounts it, behind whatever origin, the key set, the attestations and the token endpoint the
  document names are routes of this surface that answer with the material of that very realm.
\<close>

theorem discovery_leads_to_the_realm:
  assumes "path_router ops" "config_for benv fenv parse_ip vars app (Serve args) = Inr (c, kept)"
    and "serve env (composed env provision) c files = (Inr asm, files')" "realm \<in> set (all_realms (asm_realms asm))"
    and "realm_url realm [] = origin @ public_path_prefix c @ mount_path realm"
  shows "\<exists>keys attested exchanged. let doc = realm_configuration names (meta_of realm);
        answer = rt_answer ops (surface_router ops new_well_known identity c (asm_realms asm)) in
    disc_jwks_uri doc = origin @ keys \<and> answer ''GET'' keys = Some (KeySet (token_keys realm))
    \<and> disc_attestations_endpoint doc = origin @ attested \<and> answer ''GET'' attested = Some (AttestationList (attestations_of realm))
    \<and> disc_token_endpoint doc = origin @ exchanged \<and> answer ''POST'' exchanged = Some (TokenExchange realm)"
proof -
  note mounted = served_well_mounted [OF assms(2,3)]
  note answer = path_router.surface_answer [OF assms(1) mounted, of identity c]
  have url: "realm_url realm s = origin @ public_path_prefix c @ mount_path realm @ s" for s
    using assms(5) by (auto simp: realm_url_def split: option.splits)
  have at: "at_prefix (public_path_prefix c) (mount_path realm @ s) = public_path_prefix c @ mount_path realm @ s" for s
    using mounted assms(4) by (simp add: well_mounted_def mounted_at_def at_prefix_def)
  have routed: "(''GET'', mount_path realm @ ''/keys'', KeySet (token_keys realm)) \<in> surface_routes identity c (asm_realms asm)"
    "(''GET'', mount_path realm @ ''/attestations'', AttestationList (attestations_of realm)) \<in> surface_routes identity c (asm_realms asm)"
    "(''POST'', mount_path realm @ ''/token'', TokenExchange realm) \<in> surface_routes identity c (asm_realms asm)"
    using assms(4) unfolding surface_routes_def realm_routes_def Un_iff UN_iff insert_iff by (metis)+
  have "endpoint_like (x @ ''/token'') ''/attestations'' = x @ ''/attestations''" for x
  proof -
    have "strip_suffix ''/token'' (x @ ''/token'') = Some x" unfolding strip_suffix_Some_iff by (rule refl)
    then show ?thesis by (simp add: endpoint_like_def)
  qed
  from this [of "origin @ public_path_prefix c @ mount_path realm"]
  have "disc_attestations_endpoint (realm_configuration names (meta_of realm)) = origin @ public_path_prefix c @ mount_path realm @ ''/attestations''"
    by (simp add: realm_configuration_def meta_of_def url Let_def)
  moreover have "disc_jwks_uri (realm_configuration names (meta_of realm)) = origin @ public_path_prefix c @ mount_path realm @ ''/keys''"
    "disc_token_endpoint (realm_configuration names (meta_of realm)) = origin @ public_path_prefix c @ mount_path realm @ ''/token''"
    by (simp_all add: realm_configuration_def meta_of_def url Let_def)
  moreover have found: "rt_answer ops (surface_router ops new_well_known identity c (asm_realms asm)) m (public_path_prefix c @ mount_path realm @ s) = Some e"
    if "(m, mount_path realm @ s, e) \<in> surface_routes identity c (asm_realms asm)" for m s e
    unfolding answer using that at [of s, symmetric] by (intro exI conjI)
  ultimately show ?thesis unfolding Let_def
    by (intro exI [of _ "public_path_prefix c @ mount_path realm @ ''/keys''"] exI [of _ "public_path_prefix c @ mount_path realm @ ''/attestations''"]
        exI [of _ "public_path_prefix c @ mount_path realm @ ''/token''"] conjI found [OF routed(1)] found [OF routed(2)] found [OF routed(3)])
qed


text \<open>
  C15: realms keep their trust to themselves. However often the surface is built again and the caches are refreshed,
  each realm has one attester cache and one provider cache under its name, which ask the attesters and the
  providers of that realm and keep their keys as long as that realm says; building the surface again
  changes none of them, so the token endpoint reads the very caches the refresh fills.
\<close>

theorem realms_keep_their_own_caches:
  assumes "caches_reach realms svc" "distinct (map realm_name (all_realms realms))" "realm \<in> set (all_realms realms)"
  shows "(\<exists>a i. bt_get (realm_name realm) (wk_attester_keys svc) = Some a
      \<and> ak_attesters a = trusted_attesters realm \<and> ak_serve_stale_for a = unat (key_cache_stale_for realm) * nanos_per_second
      \<and> bt_get (realm_name realm) (wk_idp_keys svc) = Some i
      \<and> ik_profiles i = exchange_profiles realm \<and> ik_serve_stale_for i = unat (key_cache_stale_for realm) * nanos_per_second)
    \<and> snd (build_surface ops svc identity c realms) = svc"
proof -
  have "\<forall>realm \<in> set (all_realms realms). realm_cached realm svc"
    using assms(1)
  proof induction
    case built
    show ?case unfolding build_surface_def snd_conv walk_realms_def by (rule visits_create [OF assms(2)]) (simp add: new_well_known_def)
  next
    case (rebuilt svc)
    then show ?case unfolding build_surface_def snd_conv walk_realms_def using visits_keep by blast
  next
    case (refreshed svc env attester_pass idp_pass)
    then show ?case using sweep_keeps by blast
  qed
  with assms(3) visits_cached show ?thesis
    unfolding build_surface_def snd_conv walk_realms_def realm_cached_def attester_cache_of_def idp_cache_of_def by blast
qed

subsection \<open>Findings\<close>

text \<open>
  Without a public address a realm is discovered at its mount path, and so is every link of a landing page. Mounted
  below a prefix the surface answers neither: the prefix is part of no document.
\<close>

theorem relative_discovery_misses_the_prefix:
  assumes "path_router ops" "well_mounted realms" "realm \<in> set (all_realms realms)" "realm_issuer realm = None"
    and "public_path_prefix c = ''/pic-x''"
  shows "rt_answer ops (surface_router ops new_well_known identity c realms) ''GET''
      (disc_jwks_uri (realm_configuration names (meta_of realm))) = None"
    and "rt_answer ops (surface_router ops new_well_known identity c realms) ''GET'' ''/.well-known/server-configuration'' = None"
    and "\<lparr> link_label = ''Server configuration'', link_href = ''/.well-known/server-configuration'' \<rparr> \<in> set (root_links (server_document identity c realms))"
proof -
  note answer = path_router.surface_answer [OF assms(1,2), of identity c]
  have outside: "rt_answer ops (surface_router ops new_well_known identity c realms) ''GET'' (CHR ''/'' # x # p) = None" if "x \<noteq> CHR ''p''" for x p
  proof -
    have "CHR ''/'' # x # p \<noteq> at_prefix ''/pic-x'' s" for s using that by (simp add: at_prefix_def)
    then show ?thesis using answer [of "''GET''" "CHR ''/'' # x # p"] assms(5) by (metis option.exhaust)
  qed
  have "disc_jwks_uri (realm_configuration names (meta_of realm)) = CHR ''/'' # CHR ''r'' # ''ealms/'' @ realm_name realm @ ''/keys''"
    using assms(2-4) by (simp add: realm_configuration_def meta_of_def realm_url_def Let_def well_mounted_def mounted_at_def)
  then show "rt_answer ops (surface_router ops new_well_known identity c realms) ''GET''
      (disc_jwks_uri (realm_configuration names (meta_of realm))) = None" using outside by simp
  show "rt_answer ops (surface_router ops new_well_known identity c realms) ''GET'' ''/.well-known/server-configuration'' = None"
    by (rule outside) simp
  show "\<lparr> link_label = ''Server configuration'', link_href = ''/.well-known/server-configuration'' \<rparr> \<in> set (root_links (server_document identity c realms))"
    by (simp add: root_links_def)
qed

subsection \<open>Witnesses\<close>

definition demo_identity :: ProductIdentity where
  "demo_identity = \<lparr> binary_name = ''pic-x'', product_name = ''PIC-X'', tagline = ''demo'', about = [], art = [], identity_logo = [] \<rparr>"

lemma demo_prefix: "public_path_prefix demo_config = []"
  by (simp add: demo_config_def resolving demo_input_def demo_server_def default_config_def demo_bools)

lemma demo_served:
  obtains asm realm where "serve demo_build (composed demo_build (\<lambda>_. Inr ())) demo_config Map.empty = (Inr asm, Map.empty)"
    and "realm \<in> set (all_realms (asm_realms asm))" "realm_name realm = ''acme''" "realm_issuer realm = None"
proof -
  obtain asm where run: "serve demo_build (composed demo_build (\<lambda>_. Inr ())) demo_config Map.empty = (Inr asm, Map.empty)"
    by (rule demo_started)
  have "set (map realm_name (all_realms (asm_realms asm))) = {''acme'', ''beta''}"
    unfolding served_names(1) [OF run] demo_config(2) by simp
  then have "''acme'' \<in> realm_name ` set (all_realms (asm_realms asm))" unfolding set_map by simp
  then obtain realm where realm: "realm \<in> set (all_realms (asm_realms asm))" "realm_name realm = ''acme''" unfolding image_iff by metis
  then obtain r where r: "r \<in> set (config_realms demo_config)" "build_realm demo_build demo_config r = Inr realm"
    using served_all [OF run] by blast
  from r(1) have "rc_issuer r = None"
    by (auto simp: demo_config_def resolving demo_input_def demo_server_def default_config_def demo_bools)
  with build_realm_Inr(3) [OF r(2)] show thesis by (intro that [OF run realm]) simp
qed


theorem discovery_leads_to_the_realm_witness:
  "\<exists>asm realm. config_for demo_build demo_files (\<lambda>_. None) [] composed_demo (Serve demo_args) = Inr (demo_config, [(''extra'', ())])
     \<and> serve demo_build (composed demo_build (\<lambda>_. Inr ())) demo_config Map.empty = (Inr asm, Map.empty)
     \<and> realm_url realm [] = [] @ public_path_prefix demo_config @ mount_path realm
     \<and> (\<forall>names. rt_answer table_router (surface_router table_router new_well_known demo_identity demo_config (asm_realms asm)) ''GET''
         (disc_jwks_uri (realm_configuration names (meta_of realm))) = Some (KeySet (token_keys realm)))"
proof -
  obtain asm realm where run: "serve demo_build (composed demo_build (\<lambda>_. Inr ())) demo_config Map.empty = (Inr asm, Map.empty)"
    and realm: "realm \<in> set (all_realms (asm_realms asm))" "realm_issuer realm = None"
    by (rule demo_served)
  from realm(2) have url: "realm_url realm [] = [] @ public_path_prefix demo_config @ mount_path realm"
    by (simp add: realm_url_def demo_prefix)
  have "rt_answer table_router (surface_router table_router new_well_known demo_identity demo_config (asm_realms asm)) ''GET''
      (disc_jwks_uri (realm_configuration names (meta_of realm))) = Some (KeySet (token_keys realm))" for names
    using discovery_leads_to_the_realm [OF table.path_router_axioms demo_configured run realm(1) url, of names demo_identity]
    unfolding Let_def by (elim exE conjE) (simp only: append_Nil)
  with run url show ?thesis by (intro exI conjI allI demo_configured)
qed

theorem realms_keep_their_own_caches_witness:
  "\<exists>asm realm svc. serve demo_build (composed demo_build (\<lambda>_. Inr ())) demo_config Map.empty = (Inr asm, Map.empty)
     \<and> realm \<in> set (all_realms (asm_realms asm))
     \<and> svc = snd (build_surface table_router new_well_known demo_identity demo_config (asm_realms asm)) \<and> caches_reach (asm_realms asm) svc
     \<and> bt_get ''acme'' (wk_attester_keys svc) \<noteq> None
     \<and> snd (build_surface table_router svc demo_identity demo_config (asm_realms asm)) = svc"
proof -
  obtain asm realm where run: "serve demo_build (composed demo_build (\<lambda>_. Inr ())) demo_config Map.empty = (Inr asm, Map.empty)"
    and realm: "realm \<in> set (all_realms (asm_realms asm))" "realm_name realm = ''acme''"
    by (rule demo_served)
  define svc where "svc = snd (build_surface table_router new_well_known demo_identity demo_config (asm_realms asm))"
  have reach: "caches_reach (asm_realms asm) svc" unfolding svc_def by (rule caches_reach.built)
  from served_names [OF run] have "distinct (map realm_name (all_realms (asm_realms asm)))" by simp
  from realms_keep_their_own_caches [OF reach this realm(1), of table_router demo_identity demo_config] realm(2)
  have "bt_get ''acme'' (wk_attester_keys svc) \<noteq> None" "snd (build_surface table_router svc demo_identity demo_config (asm_realms asm)) = svc"
    by auto
  with run realm(1) reach svc_def show ?thesis by blast
qed

end
