(* ===== verification/Spec2Isabelle.thy ===== *)
theory Spec2Isabelle
  imports KeyLifecycle AuditGuarantees Exchange Admission Administration Lifecycle Deployment Profiles
    ConfigFile Commands Metrics Provision Rotation Documents
begin

text \<open>
  A verification library for PIC-X, a token-exchange server written in Rust. PIC-X hosts realms. A
  realm exchanges an OAuth access token for a PIC Token (the initial exchange) and advances a PIC
  Token from one checkpoint to the next when a workload proves who it is. It signs with a ring of
  keys that it rotates itself, and it writes every exchange to an audit trail before the token leaves.

  \<^bold>\<open>The parts and how they interact.\<close> The token endpoint (\<open>crates/pic-x-realm/src/exchange.rs\<close>) parses a
  form, selects an exchange profile of its realm (\<open>crates/pic-x-core/src/realm.rs\<close>), verifies the access
  token against the keys of the identity provider (\<open>idp_keys.rs\<close>), maps its claims to authority, and has
  the protocol crate issue the token over the realm's ring (\<open>crates/pic-x-std/src/keys.rs\<close>). An
  advancement validates executor-profile evidence (\<open>por.rs\<close>) against the keys of the realm's attesters
  (\<open>attester_keys.rs\<close>), and answers the settlement of the protocol crate whether a checkpoint is one of
  its own (\<open>checkpoints.rs\<close>) and whether the disclosed claims satisfy the contract (\<open>conformance.rs\<close>).
  Both paths end in the audit sink (\<open>crates/pic-x-std/src/audit/file.rs\<close>).

  Around the realms stands a server. The binary (\<open>src/main.rs\<close>) hands its factories to the application
  (\<open>crates/pic-x-server/src/app.rs\<close>), which reads a configuration from three layers
  (\<open>crates/pic-x-core/src/config.rs\<close>), refuses one that is not safe to run, resolves secrets, checks that
  no pseudonymisation key changed under its version (\<open>witness.rs\<close>), builds the rings, the trails and the
  realms, and has the host (\<open>host.rs\<close>) start the services, wait, and release everything within a budget.
  Its listeners admit connections within the limits (\<open>crates/pic-x-transport/src/guard.rs\<close>,
  \<open>core/limits.rs\<close>), the public surface mounts the documents and the endpoint of every realm
  (\<open>crates/pic-x-realm/src/service.rs\<close>), and the administrative surface puts a policy in front of its routes
  (\<open>crates/pic-x-admin/src/authorization.rs\<close>) that records a request before it is carried out.

  \<^bold>\<open>The theories.\<close>
  \<^item> \<open>Prelude\<close>: results as sums with \<open>and_then\<close>, \<open>map_err\<close>, \<open>ok_or\<close> and \<open>guard_that\<close> for the \<open>?\<close> of the
    code, saturating 64-bit arithmetic, UTF-8, splitting and slicing of strings, and the collection
    \<open>result_iffs\<close> the component proofs run on. \<open>Decimal\<close> is the printing and parsing of integers.
  \<^item> \<open>Encoding\<close> (\<open>keys/encoding.rs\<close>): base64, base64url and PEM, with the 32-bit accumulator of the decoder.
  \<^item> \<open>Keys\<close> and \<open>KeyLifecycle\<close> (\<open>core/keys.rs\<close>, \<open>std/keys.rs\<close>): the ring as entries in a file plus one file
    per private half, the operations of \<open>DirectoryKeyManager\<close>, and the maintenance pass stage by stage.
    Its hand-over loop is a \<open>partial_function (option)\<close>; \<open>maintain_returns\<close> shows that it ends.
  \<^item> \<open>Civil\<close> (\<open>audit/civil.rs\<close>): dates from day numbers and back.
  \<^item> \<open>AuditEvents\<close> (\<open>core/audit.rs\<close>, \<open>redact.rs\<close>, \<open>pseudonym.rs\<close>, \<open>std/audit.rs\<close>): events, subjects, masking,
    pseudonyms and the sinks that keep no files. \<open>AuditTrail\<close> (\<open>audit/file.rs\<close>): the file sink and the
    verifier. \<open>AuditChain\<close> characterises the verifier as a hash chain with seals; \<open>AuditRun\<close> is the
    invariant of a trail over recording, rollover, sealing, stopping and starting again, as an
    inductive set of reachable trails; \<open>AuditGuarantees\<close> holds what follows.
  \<^item> \<open>Json\<close>: the JSON values and ordered maps (\<open>BTreeMap\<close>) of the realm crate, as sorted association lists,
    and the record of the codecs the realm crate imports.
  \<^item> \<open>Realms\<close> (\<open>core/realm.rs\<close>): a realm and the registry. \<open>KeyCache\<close> (\<open>attester_keys.rs\<close>, \<open>idp_keys.rs\<close>):
    the two caches of published keys. The specification is \<open>served\<close>, a function of the outcomes of
    past refreshes, and both caches refine it through the locale \<open>refreshed_cache\<close>.
  \<^item> \<open>Evidence\<close> (\<open>por.rs\<close>): validation of SD-JWT evidence and the answer remembered for the second look.
  \<^item> \<open>Form\<close>, \<open>SourceToken\<close>, \<open>Settlement\<close>, \<open>Exchange\<close> (\<open>exchange.rs\<close>, \<open>conformance.rs\<close>, \<open>checkpoints.rs\<close>): the
    form body and the errors; the access token and the authority mapped from it; what the realm
    answers the settlement and how it signs; the endpoint itself. \<open>Exchange\<close> composes all of the above:
    its sink is any function with the audit interface, and the locale \<open>kept_sink\<close> of \<open>AuditGuarantees\<close>
    carries what a sink records over to what an exchange releases and what an administrator does, for
    the file sink, the tracing sink and the recording sink.
  \<^item> \<open>Strings\<close> and \<open>Settings\<close>: the string methods of the standard library the configuration uses, and the
    notation of each kind of setting. \<open>Configuration\<close> (\<open>config.rs\<close>): the layers, the configuration and
    \<open>from_layers\<close> as a list of steps, each of which reads one setting. \<open>Validation\<close>: \<open>with_realms\<close> and the
    checks of \<open>validate\<close>, here \<open>config_validate\<close>. \<open>Profiles\<close>: what those checks buy for the exchange.
  \<^item> \<open>Limits\<close> and \<open>Admission\<close> (\<open>limits.rs\<close>, \<open>guard.rs\<close>): the bounds, and the acceptor with the guards of a
    connection. Connections interleave as an inductive step relation between the points where the code
    awaits; \<open>accept\<close> and the drop of a connection are runs of it.
  \<^item> \<open>Peers\<close> and \<open>Administration\<close> (\<open>peer.rs\<close>, \<open>authorization.rs\<close>): who a certificate names and the policy.
  \<^item> \<open>Lifecycle\<close> (\<open>host.rs\<close>, \<open>core/server.rs\<close>): the host as a function on a clock, a trace of deeds and the
    state its services share; an awaited call takes some time, or never returns.
  \<^item> \<open>Secrets\<close> (\<open>std/secrets.rs\<close>): the stores, as instances of the locale \<open>secret_store\<close>. \<open>KeyWitness\<close>
    (\<open>witness.rs\<close>): the file that remembers key versions. \<open>Deployment\<close> (\<open>app.rs\<close>, \<open>main.rs\<close>,
    \<open>admin/service.rs\<close>): how all of it is put together, up to the call of the host.
  \<^item> \<open>ConfigFile\<close> (\<open>config_file.rs\<close>, \<open>command.rs\<close>, the reading part of \<open>app.rs\<close>): the sections of the file as
    records, the realms gathered from a directory beside it, the settings the sections state, the sections
    a build claims, and the configuration of one command. \<open>Commands\<close> (\<open>main.rs\<close>, \<open>app.rs\<close>, \<open>banner.rs\<close>):
    checking a trail against a key set, what the commands print, and the dispatch.
  \<^item> \<open>Metrics\<close> (\<open>core/metrics.rs\<close>, \<open>std/metrics.rs\<close>, \<open>exposition.rs\<close>, \<open>probes.rs\<close>, \<open>measure.rs\<close>): the registry
    of series, its text exposition, the probes, and what a surface records of a request. The specification
    of a reading is a function of what was observed of its series.
  \<^item> \<open>Provision\<close> (\<open>std/provision.rs\<close>): preparing the volume on a disk of paths with modes and contents, and the
    secrets and certificates it generates. Each step is an action on the disk; the locale \<open>disk_change\<close> carries
    a relation between disks that the primitive actions keep over to the whole preparation, and is interpreted
    for three of them: nothing vanishes, files stay, new files are expected ones.
  \<^item> \<open>Rotation\<close> (\<open>keys/service.rs\<close>): the service that runs the pass of \<open>Keys\<close> over every ring of a deployment, at
    the start and on every tick, and tells \<open>Metrics\<close> which rings sign.
  \<^item> \<open>Documents\<close> (\<open>realm/routes.rs\<close>, \<open>realm/service.rs\<close>): the documents and pages of the public surface, what is
    mounted where, and the key caches of the realms. The locale \<open>path_router\<close> states what the surface relies on
    in the router, and the table of routes \<open>table_router\<close> is an instance of it.

  \<^bold>\<open>What is shown.\<close> Exchange: no token leaves without an accepted audit record, the endpoint fails closed,
  over the file sink the record is on a trail that verifies; an advanced token rests on a live checkpoint
  of this realm, accepted evidence and a satisfied contract; a refused advancement is recorded; the bounds
  of a first expiry. Evidence, tokens and mapping: what an accepted presentation or access token
  guarantees, exactly which claims are processed, that the remembered answer is the fresh one, which
  invariants a scope yields. Caches: what is served, from where and for how long. Ring: one active key
  after every pass, entries only move forward through their states, no key is dropped while signatures
  under it must verify, keys are published ahead, and a maintained ring signs; together with the
  checkpoints, that rotation does not orphan a lineage. Trail: whatever was recorded verifies, a head
  commits to the whole trail, truncation is detected, and people stay out of it. Encodings and
  calendar: round trips and agreement with the Gregorian calendar. Configuration: the latest layer that
  says something wins, every limit that was read is usable, and the profiles of an accepted configuration
  are strict and do not depend on the order of their rules. Server: the realms of a server that came up
  are exactly the declared ones and keep apart on disk, its rings publish ahead of what verifiers may
  cache, a version of a key means one key across restarts, the host is ready only when everything is up
  and releases in order. Listeners: in every interleaving the pool and the share of an address hold, and
  a connection is refused exactly when one of them is exhausted. Administration: only named peers change
  anything, and what they do is on a trail that verifies before it is done. Files and commands: the realms
  a server hosts are those its file declares, what the file states reaches the configuration unless
  something later does, and the check of a trail says exactly what it says. Metrics: the registry reads
  what was recorded within its ceiling, clients do not multiply series, and no label breaks out of its
  line. Volume and service: a preparation takes no file away and is settled after one run, and a ring that
  fails keeps no other from its pass. Public surface: only token keys are published, each at the route of its
  realm, discovery leads back to the realm, and realms do not share the keys they trust. Theorems that are not
  properties of their own support these or state where the code departs from its comments; the latter
  are the findings.

  \<^bold>\<open>Integers, bounds and fuel.\<close> \<open>u64\<close> and \<open>u32\<close> values are words where they are added or compared with
  saturation; \<open>i64\<close> values are integers, with the range check written out where the code uses checked
  arithmetic and the cast written as \<open>sint\<close>. Lengths and monotonic instants are natural numbers. There is
  no fuel: every function is total, except the hand-over loop, which is shown to end. A trail is taken
  to hold fewer than \<open>2 ^ 64\<close> records, the range of its sequence number.

  \<^bold>\<open>What stands for code outside the repository.\<close> JSON, base64 of the \<open>base64\<close> crate, SHA-256, HMAC, RSA and
  the signature schemes of \<open>ring\<close>, regular expressions, the HTTP fetcher, file-system failures, clocks and
  random bytes, generated certificates, the router of \<open>axum\<close>, and the artifacts and the settlement of the \<open>pic\<close> crate are fields of \<open>key_env\<close>, \<open>audit_env\<close>,
  \<open>web_env\<close> and its extensions, \<open>state_env\<close>, \<open>build_env\<close>, \<open>material_env\<close> and \<open>router_ops\<close>, or arguments. Properties that rely on them say so: \<open>json_sound\<close> (a record
  that was printed parses to itself, on one line), \<open>no_faults\<close>, \<open>fresh_names\<close>, absence of collisions,
  \<open>settles_when_told\<close> (a settlement that succeeds has asked the authority about the artifacts it decoded), and
  \<open>path_router\<close> (a route answers at its path, and routers that answer nothing in common merge and nest).
  Each has an instance, on which the witnesses are evaluated.

  \<^bold>\<open>Not modelled.\<close> Log lines and the wording of errors (an error is a constructor with its data); mutexes,
  which are never poisoned, and the interleaving of requests; HTTP framing, TLS and the reading of
  certificates; permission bits of files other than those of the volume. The YAML of the configuration file and the arguments of the command line
  are read by libraries into the sections and the commands the model starts from; the value of a section
  a build adds is opaque. Where a server is put together, preparing the volume is any function of the
  configuration; what the binary passes is the preparation of \<open>Provision\<close>. The arithmetic and the printing of
  floating point are parameters of the metrics. Timers are the order of the steps they fire. The HTTP client,
  the start of listeners and the reload of their certificates, generated code, the trust lab and the examples
  are input/output and glue.
\<close>

end
